(* ===== verification/Ordered_Map.thy ===== *)
theory Ordered_Map
  imports RunSeal_Prelude
begin

text \<open>
  \<open>BTreeMap\<close>, as an association list kept strictly sorted by key: iteration is in key order,
  inserting replaces, and two maps with the same lookups are equal. \<^const>\<open>map_of\<close> is \<open>get\<close>.
\<close>

fun bt_insert :: "'k::linorder \<Rightarrow> 'v \<Rightarrow> ('k \<times> 'v) list \<Rightarrow> ('k \<times> 'v) list" where
  "bt_insert k v [] = [(k, v)]"
| "bt_insert k v ((k', v') # m) =
     (if k < k' then (k, v) # (k', v') # m
      else if k = k' then (k, v) # m
      else (k', v') # bt_insert k v m)"

definition bt_remove :: "'k \<Rightarrow> ('k \<times> 'v) list \<Rightarrow> ('k \<times> 'v) list" where
  "bt_remove k m = filter (\<lambda>kv. fst kv \<noteq> k) m"

definition wf_map :: "('k::linorder \<times> 'v) list \<Rightarrow> bool" where
  "wf_map m \<longleftrightarrow> sorted_wrt (<) (map fst m)"

lemma map_of_insert [simp]: "map_of (bt_insert k v m) = (map_of m)(k \<mapsto> v)"
  by (induction m) auto

lemma map_of_remove [simp]: "map_of (bt_remove k m) = (map_of m)(k := None)"
  by (induction m) (auto simp: bt_remove_def)

lemma keys_insert [simp]: "set (map fst (bt_insert k v m)) = insert k (set (map fst m))"
proof -
  have "dom (map_of (bt_insert k v m)) = insert k (dom (map_of m))" by simp
  then show ?thesis by (simp only: dom_map_of_conv_image_fst set_map)
qed

lemma wf_map_Nil [simp]: "wf_map []"
  by (simp add: wf_map_def)

lemma wf_map_insert [intro]: "wf_map m \<Longrightarrow> wf_map (bt_insert k v m)"
proof (induction m)
  case Nil
  then show ?case by (simp add: wf_map_def)
next
  case (Cons kv m)
  obtain k' v' where kv: "kv = (k', v')" by (cases kv)
  from Cons.prems have tl: "wf_map m" and hd: "\<forall>x \<in> set (map fst m). k' < x"
    by (auto simp: wf_map_def kv)
  show ?case
  proof (cases "k' < k")
    case True
    with Cons.IH [OF tl] hd keys_insert [of k v m] show ?thesis
      by (auto simp: wf_map_def kv)
  next
    case False
    with Cons.prems hd show ?thesis
      by (auto simp: wf_map_def kv intro: less_trans)
  qed
qed

lemma wf_map_remove [intro]: "wf_map m \<Longrightarrow> wf_map (bt_remove k m)"
  by (induction m) (auto simp: wf_map_def bt_remove_def)

lemma wf_map_distinct: "wf_map m \<Longrightarrow> distinct (map fst m)"
  unfolding wf_map_def by (metis strict_sorted_iff)

lemma map_of_rev_distinct: "distinct (map fst m) \<Longrightarrow> map_of (rev m) = map_of m"
  by (subst map_of_inject_set) (simp_all add: rev_map [symmetric])

lemma wf_map_values:
  assumes "wf_map m"
  shows "map snd m = map (\<lambda>k. the (map_of m k)) (map fst m)"
  using wf_map_distinct [OF assms] by (auto simp: comp_def)

text \<open>Two strictly sorted association lists with the same lookups are the same list.\<close>

lemma wf_map_unique:
  assumes "wf_map m" "wf_map n" "map_of m = map_of n"
  shows "m = n"
proof -
  have "set (map fst m) = set (map fst n)"
    using arg_cong [OF assms(3), of dom] by (simp add: dom_map_of_conv_image_fst)
  then have fsts: "map fst m = map fst n"
    using assms(1,2) by (metis strict_sorted_equal wf_map_def)
  then have "map snd m = map snd n"
    using wf_map_values [OF assms(1)] wf_map_values [OF assms(2)] assms(3) by simp
  with fsts show ?thesis
    by (metis zip_map_fst_snd)
qed

text \<open>A key above all others goes to the end.\<close>

lemma bt_insert_last:
  "\<forall>x \<in> set m. fst x < k \<Longrightarrow> bt_insert k v m = m @ [(k, v)]"
proof (induction m)
  case (Cons kv m)
  then show ?case by (cases kv) (auto dest: order.asym)
qed simp

lemma sum_values_insert:
  fixes w :: "'v \<Rightarrow> nat"
  assumes "map_of m k = None"
  shows "sum_list (map (w \<circ> snd) (bt_insert k v m)) = w v + sum_list (map (w \<circ> snd) m)"
    and "length (bt_insert k v m) = Suc (length m)"
proof -
  have "k \<notin> set (map fst m)" using assms by (simp add: map_of_eq_None_iff)
  then have "sum_list (map (w \<circ> snd) (bt_insert k v m)) = w v + sum_list (map (w \<circ> snd) m) \<and>
      length (bt_insert k v m) = Suc (length m)"
    by (induction m) auto
  then show "sum_list (map (w \<circ> snd) (bt_insert k v m)) = w v + sum_list (map (w \<circ> snd) m)"
    "length (bt_insert k v m) = Suc (length m)" by simp_all
qed

lemma sum_values_remove:
  fixes w :: "'v \<Rightarrow> nat"
  assumes "wf_map m" "map_of m k = Some v"
  shows "w v + sum_list (map (w \<circ> snd) (bt_remove k m)) = sum_list (map (w \<circ> snd) m)"
    and "Suc (length (bt_remove k m)) = length m"
proof -
  have "distinct (map fst m)" by (rule wf_map_distinct) (rule assms)
  then have "w v + sum_list (map (w \<circ> snd) (bt_remove k m)) = sum_list (map (w \<circ> snd) m) \<and>
      Suc (length (bt_remove k m)) = length m"
    using assms(2)
  proof (induction m)
    case (Cons kv m)
    have "filter (\<lambda>kv. fst kv \<noteq> k) m = m" if "k = fst kv"
      using Cons.prems that by (auto simp: filter_id_conv image_iff)
    with Cons show ?case
      by (cases kv) (auto simp: bt_remove_def split: if_splits)
  qed simp
  then show "w v + sum_list (map (w \<circ> snd) (bt_remove k m)) = sum_list (map (w \<circ> snd) m)"
    "Suc (length (bt_remove k m)) = length m" by simp_all
qed

end
