(* ===== verification/Json_Values.thy ===== *)
theory Json_Values
  imports Ordered_Map
begin

text \<open>
  The values of \<open>serde_json\<close> as the sources use them: \<open>Value\<close>, its accessors
  (\<open>as_str\<close>, \<open>as_u64\<close>, \<open>get\<close>, indexing), and \<open>Map\<close>, an ordered map with string keys.
  A number is an unsigned or a negative 64-bit integer or a float, as in \<open>serde_json::Number\<close>;
  the float is kept as its bit pattern, which no accessor of the program reads.
\<close>

datatype jnum = PosInt "64 word" | NegInt "64 word" | Float "64 word"

datatype json =
    JNull
  | JBool bool
  | JNum jnum
  | JStr string
  | JArr "json list"
  | JObj "(string \<times> json) list"

type_synonym jmap = "(string \<times> json) list"

section \<open>Ordered maps\<close>

abbreviation obj_insert :: "string \<Rightarrow> json \<Rightarrow> jmap \<Rightarrow> jmap" where
  "obj_insert \<equiv> bt_insert"

abbreviation obj_remove :: "string \<Rightarrow> jmap \<Rightarrow> jmap" where
  "obj_remove \<equiv> bt_remove"

definition obj_get :: "jmap \<Rightarrow> string \<Rightarrow> json option" where
  "obj_get m k = map_of m k"

definition obj_keys :: "jmap \<Rightarrow> string list" where
  "obj_keys m = map fst m"

definition obj_extend :: "jmap \<Rightarrow> jmap \<Rightarrow> jmap" where
  "obj_extend m new = fold (\<lambda>(k, v). obj_insert k v) new m"

definition obj_of :: "(string \<times> json) list \<Rightarrow> jmap" where
  "obj_of kvs = obj_extend [] kvs"

text \<open>A parsed value: every object in it is an ordered map.\<close>

fun wf_json :: "json \<Rightarrow> bool" where
  "wf_json (JArr xs) = list_all wf_json xs"
| "wf_json (JObj m) = (wf_map m \<and> list_all (\<lambda>kv. wf_json (snd kv)) m)"
| "wf_json _ = True"

section \<open>Accessors\<close>

definition as_str :: "json \<Rightarrow> string option" where
  "as_str v = (case v of JStr s \<Rightarrow> Some s | _ \<Rightarrow> None)"

definition as_bool :: "json \<Rightarrow> bool option" where
  "as_bool v = (case v of JBool b \<Rightarrow> Some b | _ \<Rightarrow> None)"

definition as_array :: "json \<Rightarrow> json list option" where
  "as_array v = (case v of JArr xs \<Rightarrow> Some xs | _ \<Rightarrow> None)"

definition as_object :: "json \<Rightarrow> jmap option" where
  "as_object v = (case v of JObj m \<Rightarrow> Some m | _ \<Rightarrow> None)"

definition as_u64 :: "json \<Rightarrow> 64 word option" where
  "as_u64 v = (case v of JNum (PosInt n) \<Rightarrow> Some n | _ \<Rightarrow> None)"

definition json_get :: "json \<Rightarrow> string \<Rightarrow> json option" where
  "json_get v k = (case v of JObj m \<Rightarrow> obj_get m k | _ \<Rightarrow> None)"

text \<open>Reading by index, \<open>value["key"]\<close>, gives null where the key or the object is missing.\<close>

definition json_index :: "json \<Rightarrow> string \<Rightarrow> json" where
  "json_index v k = (case json_get v k of Some x \<Rightarrow> x | None \<Rightarrow> JNull)"

text \<open>
  Writing by index, \<open>value["key"] = x\<close>, inserts into an object and turns null into one. On any
  other value it panics; the sources index only values they have just built as objects.
\<close>

definition json_set :: "json \<Rightarrow> string \<Rightarrow> json \<Rightarrow> json" where
  "json_set v k x = (case v of JObj m \<Rightarrow> JObj (obj_insert k x m)
                            | JNull \<Rightarrow> JObj [(k, x)]
                            | _ \<Rightarrow> v)"

definition json_u64 :: "64 word \<Rightarrow> json" where
  "json_u64 n = JNum (PosInt n)"

definition json_nat :: "nat \<Rightarrow> json" where
  "json_nat n = JNum (PosInt (of_nat n))"

definition json_opt_u64 :: "64 word option \<Rightarrow> json" where
  "json_opt_u64 x = (case x of None \<Rightarrow> JNull | Some n \<Rightarrow> json_u64 n)"

definition json_strs :: "string list \<Rightarrow> json" where
  "json_strs xs = JArr (map JStr xs)"

definition json_object :: "(string \<times> json) list \<Rightarrow> json" where
  "json_object kvs = JObj (obj_of kvs)"

text \<open>\<open>object.entry(key).or_insert_with(default)\<close> on a value that may not be an object.\<close>

definition entry_or_insert :: "string \<Rightarrow> json \<Rightarrow> json \<Rightarrow> json" where
  "entry_or_insert k d v =
     (case v of JObj m \<Rightarrow> (case obj_get m k of None \<Rightarrow> JObj (obj_insert k d m) | Some _ \<Rightarrow> v)
              | _ \<Rightarrow> v)"

section \<open>Laws of the ordered map\<close>

lemma obj_get_insert [simp]:
  "obj_get (obj_insert k v m) k' = (if k' = k then Some v else obj_get m k')"
  by (simp add: obj_get_def)

lemma obj_get_remove [simp]:
  "obj_get (obj_remove k m) k' = (if k' = k then None else obj_get m k')"
  by (simp add: obj_get_def)

lemma map_of_fold_insert:
  "map_of (fold (\<lambda>(k, v). obj_insert k v) kvs m) = map_of m ++ map_of (rev kvs)"
  by (induction kvs arbitrary: m) (auto simp: map_add_def split: option.splits)

lemma wf_map_fold_insert: "wf_map m \<Longrightarrow> wf_map (fold (\<lambda>(k, v). obj_insert k v) kvs m)"
  by (induction kvs arbitrary: m) auto

lemma obj_get_extend:
  "obj_get (obj_extend m new) k = (case map_of (rev new) k of Some v \<Rightarrow> Some v | None \<Rightarrow> obj_get m k)"
  by (simp add: obj_get_def obj_extend_def map_of_fold_insert map_add_def split: option.splits)

lemma obj_get_of [simp]: "obj_get (obj_of kvs) k = map_of (rev kvs) k"
  by (simp add: obj_of_def obj_extend_def obj_get_def map_of_fold_insert)

lemma wf_map_obj_of [intro, simp]: "wf_map (obj_of kvs)"
  unfolding obj_of_def obj_extend_def by (rule wf_map_fold_insert) (simp add: wf_map_def)

lemma wf_json_member:
  assumes "wf_json (JObj m)" "obj_get m k = Some v"
  shows "wf_json v"
  using assms by (auto simp: obj_get_def list_all_iff dest!: map_of_SomeD)

lemma json_get_object [simp]: "json_get (json_object kvs) k = map_of (rev kvs) k"
  by (simp add: json_get_def json_object_def)

lemma json_index_object [simp]:
  "json_index (json_object kvs) k = (case map_of (rev kvs) k of Some x \<Rightarrow> x | None \<Rightarrow> JNull)"
  by (simp add: json_index_def)

lemma accessor_simps [simp]:
  "as_str (JStr s) = Some s" "as_bool (JBool b) = Some b" "as_array (JArr xs) = Some xs"
  "as_object (JObj m) = Some m" "as_u64 (JNum (PosInt n)) = Some n"
  "json_get (JObj m) k = obj_get m k"
  by (simp_all add: as_str_def as_bool_def as_array_def as_object_def as_u64_def json_get_def)

lemma accessor_Some_iff [result_simps]:
  "as_str v = Some s \<longleftrightarrow> v = JStr s" "as_bool v = Some b \<longleftrightarrow> v = JBool b"
  "as_array v = Some xs \<longleftrightarrow> v = JArr xs" "as_object v = Some m \<longleftrightarrow> v = JObj m"
  "as_u64 v = Some n \<longleftrightarrow> v = JNum (PosInt n)"
  by (auto simp: as_str_def as_bool_def as_array_def as_object_def as_u64_def
      split: json.splits jnum.splits)

lemma json_set_get [simp]:
  "json_get (json_set (JObj m) k x) k' = (if k' = k then Some x else obj_get m k')"
  by (simp add: json_set_def)

lemma json_inj_simps [simp]:
  "json_u64 a = json_u64 b \<longleftrightarrow> a = b"
  "json_opt_u64 x = json_opt_u64 y \<longleftrightarrow> x = y"
  "json_strs xs = json_strs ys \<longleftrightarrow> xs = ys"
  by (auto simp: json_u64_def json_opt_u64_def json_strs_def inj_map_eq_map inj_def
      split: option.splits)

end
