(* ===== verification/Deployment_Limits.thy ===== *)
theory Deployment_Limits
  imports Json_Values
begin

text \<open>
  \<open>src/error.rs\<close> and \<open>src/limits.rs\<close>: the error value every entry point returns, and the
  deployment limits read once from the environment. Byte counts and counters are \<open>usize\<close>; every
  configured value is at most 256 MiB, so \<^typ>\<open>nat\<close> arithmetic on them does not overflow a
  64-bit word. A variable of the environment is absent, valid UTF-8 or not.
\<close>

section \<open>Errors\<close>

record runseal_error =
  err_code :: string
  err_message :: string
  err_reason :: string
  err_details :: "json option"
  err_terminal_event :: "json option"
  err_backend_gate_rejection :: bool

type_synonym 'a rs_result = "(runseal_error, 'a) result"

definition error_new :: "string \<Rightarrow> string \<Rightarrow> runseal_error" where
  "error_new code reason =
     \<lparr>err_code = code, err_message = reason, err_reason = reason, err_details = None,
      err_terminal_event = None, err_backend_gate_rejection = False\<rparr>"

definition error_with_details :: "string \<Rightarrow> string \<Rightarrow> json \<Rightarrow> runseal_error" where
  "error_with_details code reason details =
     \<lparr>err_code = code, err_message = reason, err_reason = reason, err_details = Some details,
      err_terminal_event = None, err_backend_gate_rejection = False\<rparr>"

abbreviation invalid_request_error :: "string \<Rightarrow> runseal_error" where
  "invalid_request_error reason \<equiv> error_new ''INVALID_REQUEST'' reason"

section \<open>Limits\<close>

record deployment_limits =
  max_active_executions :: nat
  replay_execution_bytes :: nat
  replay_connection_bytes :: nat
  completed_executions :: nat
  completed_execution_bytes :: nat
  audit_cache_bytes :: nat
  stream_chunk_bytes :: nat
  input_pending_bytes :: nat
  rpc_frame_bytes :: nat
  max_output_bytes :: nat
  sender_bytes :: nat
  backpressure_ms :: nat
  cleanup_timeout_ms :: nat

definition default_limits :: deployment_limits where
  "default_limits =
     \<lparr>max_active_executions = 8,
      replay_execution_bytes = 1024 * 1024,
      replay_connection_bytes = 8 * 1024 * 1024,
      completed_executions = 1024,
      completed_execution_bytes = 8 * 1024 * 1024,
      audit_cache_bytes = 8 * 1024 * 1024,
      stream_chunk_bytes = 64 * 1024,
      input_pending_bytes = 256 * 1024,
      rpc_frame_bytes = 1024 * 1024,
      max_output_bytes = 16 * 1024 * 1024,
      sender_bytes = 8 * 1024 * 1024,
      backpressure_ms = 5000,
      cleanup_timeout_ms = 10000\<rparr>"

definition backpressure_timeout :: "deployment_limits \<Rightarrow> nat" where
  "backpressure_timeout l = backpressure_ms l"

definition cleanup_timeout :: "deployment_limits \<Rightarrow> nat" where
  "cleanup_timeout l = cleanup_timeout_ms l"

definition queued_protocol_bytes :: "deployment_limits \<Rightarrow> nat" where
  "queued_protocol_bytes l = sender_bytes l * 3 div 4"

definition protocol_data_bytes :: "deployment_limits \<Rightarrow> nat" where
  "protocol_data_bytes l = queued_protocol_bytes l - sender_bytes l div 8"

definition pending_protocol_bytes :: "deployment_limits \<Rightarrow> nat" where
  "pending_protocol_bytes l = sender_bytes l - queued_protocol_bytes l"

definition pending_input_pause_bytes :: "deployment_limits \<Rightarrow> nat" where
  "pending_input_pause_bytes l = pending_protocol_bytes l div 2"

definition query_response_bytes :: "deployment_limits \<Rightarrow> nat" where
  "query_response_bytes l = min (rpc_frame_bytes l) (256 * 1024)"

section \<open>Reading the environment\<close>

datatype os_string = Utf8 string | NotUtf8

type_synonym environment = "string \<Rightarrow> os_string option"

definition to_str :: "os_string \<Rightarrow> string option" where
  "to_str v = (case v of Utf8 s \<Rightarrow> Some s | NotUtf8 \<Rightarrow> None)"

definition option_filter :: "('a \<Rightarrow> bool) \<Rightarrow> 'a option \<Rightarrow> 'a option" where
  "option_filter p x = (case x of None \<Rightarrow> None | Some a \<Rightarrow> if p a then Some a else None)"

definition configured_integer ::
  "environment \<Rightarrow> string \<Rightarrow> nat \<Rightarrow> nat \<Rightarrow> nat \<Rightarrow> nat rs_result" where
  "configured_integer env name dflt minimum maximum =
     (case env name of
        None \<Rightarrow> Inr dflt
      | Some value \<Rightarrow>
          ok_or
            (option_filter (\<lambda>n. minimum \<le> n \<and> n \<le> maximum)
              (Option.bind
                (option_filter (\<lambda>s. s \<noteq> [] \<and> list_all is_ascii_digit s) (to_str value))
                parse_u64))
            (invalid_request_error
              (''deployment limit '' @ name @ '' must be an integer from '' @ dec minimum
               @ '' to '' @ dec maximum)))"

definition read_limits :: "environment \<Rightarrow> deployment_limits rs_result" where
  "read_limits env =
     (let d = default_limits in
      rbind (configured_integer env ''RUNSEAL_MAX_ACTIVE_EXECUTIONS'' (max_active_executions d) 1 64)
        (\<lambda>active.
      rbind (configured_integer env ''RUNSEAL_REPLAY_EXECUTION_BYTES'' (replay_execution_bytes d)
              (64 * 1024) (64 * 1024 * 1024)) (\<lambda>replay_execution.
      rbind (configured_integer env ''RUNSEAL_REPLAY_CONNECTION_BYTES'' (replay_connection_bytes d)
              (64 * 1024) (256 * 1024 * 1024)) (\<lambda>replay_connection.
      rbind (reject_if (replay_connection < replay_execution)
              (invalid_request_error
                ''deployment replay connection budget must cover the per-execution budget'')) (\<lambda>_.
      rbind (configured_integer env ''RUNSEAL_COMPLETED_EXECUTIONS'' (completed_executions d) 1 65536)
        (\<lambda>completed.
      rbind (configured_integer env ''RUNSEAL_COMPLETED_EXECUTION_BYTES''
              (completed_execution_bytes d) (64 * 1024) (256 * 1024 * 1024)) (\<lambda>completed_bytes.
      rbind (configured_integer env ''RUNSEAL_AUDIT_CACHE_BYTES'' (audit_cache_bytes d)
              (64 * 1024) (256 * 1024 * 1024)) (\<lambda>audit_cache.
      rbind (configured_integer env ''RUNSEAL_STREAM_CHUNK_BYTES'' (stream_chunk_bytes d)
              (8 * 1024) (64 * 1024)) (\<lambda>chunk.
      rbind (configured_integer env ''RUNSEAL_INPUT_PENDING_BYTES'' (input_pending_bytes d)
              (8 * 1024) (16 * 1024 * 1024)) (\<lambda>pending.
      rbind (reject_if (pending < chunk)
              (invalid_request_error
                ''deployment input pending budget must cover the chunk limit'')) (\<lambda>_.
      rbind (configured_integer env ''RUNSEAL_RPC_FRAME_BYTES'' (rpc_frame_bytes d)
              (128 * 1024) (1024 * 1024)) (\<lambda>frame.
      rbind (configured_integer env ''RUNSEAL_MAX_OUTPUT_BYTES'' (max_output_bytes d)
              1 (16 * 1024 * 1024)) (\<lambda>output.
      rbind (configured_integer env ''RUNSEAL_SENDER_BYTES'' (sender_bytes d)
              (5 * 1024 * 1024) (64 * 1024 * 1024)) (\<lambda>sender.
      rbind (configured_integer env ''RUNSEAL_CLEANUP_TIMEOUT_MS'' (cleanup_timeout_ms d) 100 60000)
        (\<lambda>cleanup.
      rbind (configured_integer env ''RUNSEAL_BACKPRESSURE_MS'' (backpressure_ms d) 100 60000)
        (\<lambda>backpressure.
      Inr \<lparr>max_active_executions = active,
           replay_execution_bytes = replay_execution,
           replay_connection_bytes = replay_connection,
           completed_executions = completed,
           completed_execution_bytes = completed_bytes,
           audit_cache_bytes = audit_cache,
           stream_chunk_bytes = chunk,
           input_pending_bytes = pending,
           rpc_frame_bytes = frame,
           max_output_bytes = output,
           sender_bytes = sender,
           backpressure_ms = backpressure,
           cleanup_timeout_ms = cleanup\<rparr>))))))))))))))))"

text \<open>
  The process-wide cell \<open>LIMITS\<close> is written at most once: \<open>initialize\<close> sets it unless it is
  already set, and \<open>deployment\<close> fills it with the defaults on first use.
\<close>

type_synonym limits_cell = "deployment_limits option"

definition initialize :: "environment \<Rightarrow> limits_cell \<Rightarrow> unit rs_result \<times> limits_cell" where
  "initialize env cell =
     (case read_limits env of
        Inl e \<Rightarrow> (Inl e, cell)
      | Inr l \<Rightarrow> (Inr (), (case cell of None \<Rightarrow> Some l | Some old \<Rightarrow> Some old)))"

definition deployment :: "limits_cell \<Rightarrow> deployment_limits \<times> limits_cell" where
  "deployment cell =
     (case cell of None \<Rightarrow> (default_limits, Some default_limits) | Some l \<Rightarrow> (l, cell))"

section \<open>Well-formed limits\<close>

definition wf_limits :: "deployment_limits \<Rightarrow> bool" where
  "wf_limits l \<longleftrightarrow>
     max_active_executions l \<in> {1..64} \<and>
     replay_execution_bytes l \<in> {64 * 1024..64 * 1024 * 1024} \<and>
     replay_connection_bytes l \<in> {64 * 1024..256 * 1024 * 1024} \<and>
     replay_execution_bytes l \<le> replay_connection_bytes l \<and>
     completed_executions l \<in> {1..65536} \<and>
     completed_execution_bytes l \<in> {64 * 1024..256 * 1024 * 1024} \<and>
     audit_cache_bytes l \<in> {64 * 1024..256 * 1024 * 1024} \<and>
     stream_chunk_bytes l \<in> {8 * 1024..64 * 1024} \<and>
     input_pending_bytes l \<in> {8 * 1024..16 * 1024 * 1024} \<and>
     stream_chunk_bytes l \<le> input_pending_bytes l \<and>
     rpc_frame_bytes l \<in> {128 * 1024..1024 * 1024} \<and>
     max_output_bytes l \<in> {1..16 * 1024 * 1024} \<and>
     sender_bytes l \<in> {5 * 1024 * 1024..64 * 1024 * 1024} \<and>
     backpressure_ms l \<in> {100..60000} \<and>
     cleanup_timeout_ms l \<in> {100..60000}"

lemma wf_default_limits [simp]: "wf_limits default_limits"
  by (simp add: wf_limits_def default_limits_def)

lemma configured_integer_bounds:
  assumes "configured_integer env name d lo hi = Inr n" "lo \<le> d" "d \<le> hi"
  shows "lo \<le> n" "n \<le> hi"
  using assms
  by (auto simp: configured_integer_def result_simps option_filter_def
      split: option.splits if_splits)

lemma read_limits_wf:
  assumes "read_limits env = Inr l"
  shows "wf_limits l"
  using assms unfolding read_limits_def Let_def default_limits_def deployment_limits.simps
  apply (elim rbind_InrE)
  apply (simp only: sum.inject)
  apply hypsubst
  apply (simp only: wf_limits_def deployment_limits.simps atLeastAtMost_iff reject_if_Inr_iff not_less)
  by (intro conjI) (rule TrueI | assumption | (erule configured_integer_bounds; simp))+

section \<open>The frozen limits and the sender budget\<close>

lemma initialize_deployment:
  "initialize env None = (Inr (), cell) \<Longrightarrow> read_limits env = Inr (fst (deployment cell))"
  by (auto simp: initialize_def deployment_def split: sum.splits)

text \<open>
  A later call of either operation reads the same limits: the cell is written once.
\<close>

lemma deployment_stable:
  "fst (deployment (snd (deployment cell))) = fst (deployment cell)"
  "cell = Some l \<Longrightarrow> fst (deployment (snd (initialize env cell))) = l"
  by (auto simp: deployment_def initialize_def split: option.splits sum.splits)

lemma sender_budget:
  assumes "wf_limits l"
  shows "queued_protocol_bytes l + pending_protocol_bytes l = sender_bytes l"
    and "protocol_data_bytes l + sender_bytes l div 8 = queued_protocol_bytes l"
    and "rpc_frame_bytes l + 512 \<le> sender_bytes l div 8 + rpc_frame_bytes l"
    and "2 * (rpc_frame_bytes l + 512) \<le> protocol_data_bytes l"
  using assms
  by (auto simp: wf_limits_def queued_protocol_bytes_def pending_protocol_bytes_def
      protocol_data_bytes_def)

text \<open>
  Whatever the environment holds, the limits that \<open>initialize\<close> freezes lie in the
  ranges the code states, and the three budgets derived from the sender budget fit together:
  queued and pending bytes partition it, the data queue leaves an eighth of it to control frames,
  and an empty writer has room for a frame of the largest size in the data queue (so
  \<open>can_poll_events\<close> is not vacuously false).
\<close>

theorem frozen_limits_are_sound:
  assumes "initialize env None = (Inr (), cell)" "l = fst (deployment cell)"
  shows "wf_limits l \<and> fst (deployment (snd (deployment cell))) = l
    \<and> queued_protocol_bytes l + pending_protocol_bytes l = sender_bytes l
    \<and> protocol_data_bytes l + sender_bytes l div 8 = queued_protocol_bytes l
    \<and> rpc_frame_bytes l + 512 \<le> protocol_data_bytes l
    \<and> query_response_bytes l \<le> rpc_frame_bytes l
    \<and> 0 < pending_input_pause_bytes l"
proof -
  have wf: "wf_limits l"
    using initialize_deployment [OF assms(1)] assms(2) read_limits_wf by simp
  show ?thesis
    using wf sender_budget [OF wf] deployment_stable(1) [of cell] assms(2)
    by (auto simp: query_response_bytes_def pending_input_pause_bytes_def wf_limits_def
        pending_protocol_bytes_def queued_protocol_bytes_def)
qed

definition sample_environment :: environment where
  "sample_environment =
     [''RUNSEAL_MAX_ACTIVE_EXECUTIONS'' \<mapsto> Utf8 ''16'', ''RUNSEAL_STREAM_CHUNK_BYTES'' \<mapsto> Utf8 ''8192'']"

lemma sample_environment_reads:
  "read_limits sample_environment =
     Inr (default_limits\<lparr>max_active_executions := 16, stream_chunk_bytes := 8192\<rparr>)"
  by (simp add: read_limits_def configured_integer_def sample_environment_def to_str_def
      option_filter_def parse_u64_def parse_digits_def digit_value_def is_ascii_digit_def
      byte_of_def default_limits_def)

theorem frozen_limits_are_sound_witness:
  "(let cell = Some (default_limits\<lparr>max_active_executions := 16, stream_chunk_bytes := 8192\<rparr>) in
    initialize sample_environment None = (Inr (), cell) \<and> wf_limits (fst (deployment cell)))"
proof -
  have i: "initialize sample_environment None =
      (Inr (), Some (default_limits\<lparr>max_active_executions := 16, stream_chunk_bytes := 8192\<rparr>))"
    by (simp add: initialize_def sample_environment_reads)
  show ?thesis
    using i frozen_limits_are_sound [OF i refl] by (simp add: Let_def)
qed

end
