(* ===== verification/Sandbox_Policy.thy ===== *)
theory Sandbox_Policy
  imports Deployment_Limits
begin

text \<open>
  The policy types of \<open>src/policy.rs\<close> and the operations on a normalized policy: canonical and
  explained JSON, hash, required backend features, and the decisions taken before an execution is
  admitted. The serializer of \<open>serde_json\<close> and the SHA-256 digest of \<open>sha2\<close> are parameters.
\<close>

section \<open>Levels, modes and features\<close>

datatype sandbox_level = ReadOnly | WorkspaceContained | WorkspaceWrite | DangerFullAccess

fun level_as_str :: "sandbox_level \<Rightarrow> string" where
  "level_as_str ReadOnly = ''read-only''"
| "level_as_str WorkspaceContained = ''workspace-contained''"
| "level_as_str WorkspaceWrite = ''workspace-write''"
| "level_as_str DangerFullAccess = ''danger-full-access''"

definition level_from_str :: "string \<Rightarrow> sandbox_level option" where
  "level_from_str s =
     (if s = ''read-only'' then Some ReadOnly
      else if s = ''workspace-contained'' then Some WorkspaceContained
      else if s = ''workspace-write'' then Some WorkspaceWrite
      else if s = ''danger-full-access'' then Some DangerFullAccess
      else None)"

definition protects_workspace :: "sandbox_level \<Rightarrow> bool" where
  "protects_workspace l \<longleftrightarrow> l = WorkspaceContained \<or> l = WorkspaceWrite"

datatype network_mode = Unmanaged | Disabled | Proxy

fun mode_as_str :: "network_mode \<Rightarrow> string" where
  "mode_as_str Unmanaged = ''unmanaged''"
| "mode_as_str Disabled = ''disabled''"
| "mode_as_str Proxy = ''proxy''"

definition mode_from_str :: "string \<Rightarrow> network_mode option" where
  "mode_from_str s =
     (if s = ''unmanaged'' then Some Unmanaged
      else if s = ''disabled'' then Some Disabled
      else if s = ''proxy'' then Some Proxy
      else None)"

datatype backend_feature =
    FilesystemPolicy | RuntimeRoots | RuntimeEnvironment | ProcessIsolation | ProcessCleanup
  | DirectNetworkDeny | NetworkDisabled | NetworkProxy | ManagedProxy | PolicyEpoch
  | ResourceLimits

fun feature_as_str :: "backend_feature \<Rightarrow> string" where
  "feature_as_str FilesystemPolicy = ''filesystem_policy''"
| "feature_as_str RuntimeRoots = ''runtime_roots''"
| "feature_as_str RuntimeEnvironment = ''runtime_environment''"
| "feature_as_str ProcessIsolation = ''process_isolation''"
| "feature_as_str ProcessCleanup = ''process_cleanup''"
| "feature_as_str DirectNetworkDeny = ''direct_network_deny''"
| "feature_as_str NetworkDisabled = ''network_disabled''"
| "feature_as_str NetworkProxy = ''network_proxy''"
| "feature_as_str ManagedProxy = ''managed_proxy''"
| "feature_as_str PolicyEpoch = ''policy_epoch''"
| "feature_as_str ResourceLimits = ''resource_limits''"

section \<open>The policy record\<close>

record filesystem_policy =
  fs_read :: "string list"
  fs_read_only :: "string list"
  fs_write :: "string list"
  fs_deny :: "string list"
  fs_protect_vcs :: bool
  fs_unrestricted :: bool

record network_policy =
  net_mode :: network_mode
  net_routes :: "string list"
  net_direct_allow_hosts :: "string list"

record environment_policy =
  env_inherit :: string
  env_scrub :: "string list"
  env_set :: "(string \<times> string) list"
  env_proxy :: bool

record resource_policy =
  res_timeout_ms :: "64 word option"
  res_memory_bytes :: "64 word option"
  res_cpu_percent :: "64 word option"
  res_max_output_bytes :: "64 word option"

record process_policy =
  proc_allow_child_processes :: bool
  proc_kill_on_parent_exit :: bool
  proc_max_processes :: "64 word option"
  proc_interactive :: bool

record approval_policy =
  app_on_violation :: string
  app_on_network_route_missing :: string
  app_on_broad_write :: string

datatype policy_source = Named | Inline

record sandbox_policy =
  pol_id :: string
  pol_sandbox_level :: sandbox_level
  pol_filesystem :: filesystem_policy
  pol_network :: network_policy
  pol_environment :: environment_policy
  pol_resources :: resource_policy
  pol_process :: process_policy
  pol_approval :: approval_policy
  pol_source :: policy_source

definition POLICY_VERSION :: string where
  "POLICY_VERSION = ''runseal.policy/v1''"

definition PROTECTED_WORKSPACE_SUBPATHS :: "string list" where
  "PROTECTED_WORKSPACE_SUBPATHS =
     [''.git'', ''.runseal/audit'', ''.runseal/audit.jsonl'', ''.agents'', ''.codex'']"

section \<open>Broad write roots\<close>

text \<open>
  \<open>is_broad_write_root\<close> recognises the wildcard, the two bare separators, a home directory and a
  drive. It is written on the entry as given: two separators in a row are not recognised.
\<close>

definition is_broad_write_root :: "string \<Rightarrow> bool" where
  "is_broad_write_root entry \<longleftrightarrow>
     entry = ''*'' \<or>
     (let normalized = to_ascii_lowercase (trim_end_matches is_path_sep entry) in
      (entry = ''/'' \<or> entry = [CHR 0x5C]) \<or>
      (normalized = ''~'' \<or> normalized = ''$home'') \<or>
      ends_with normalized '':'')"

section \<open>Operations on a policy\<close>

definition allows_local_execution :: "sandbox_policy \<Rightarrow> bool" where
  "allows_local_execution p \<longleftrightarrow> pol_sandbox_level p = DangerFullAccess"

definition denies_execution_without_backend :: "sandbox_policy \<Rightarrow> bool" where
  "denies_execution_without_backend p \<longleftrightarrow>
     pol_source p = Inline \<and> \<not> fs_unrestricted (pol_filesystem p) \<and> fs_write (pol_filesystem p) = []"

definition requires_broad_write_approval :: "sandbox_policy \<Rightarrow> bool" where
  "requires_broad_write_approval p \<longleftrightarrow>
     pol_sandbox_level p \<noteq> DangerFullAccess \<and>
     app_on_broad_write (pol_approval p) = ''request'' \<and>
     list_ex is_broad_write_root (fs_write (pol_filesystem p))"

definition required_backend_features :: "sandbox_policy \<Rightarrow> backend_feature list" where
  "required_backend_features p =
     (if allows_local_execution p then []
      else
        [FilesystemPolicy, RuntimeRoots, RuntimeEnvironment, ProcessIsolation, ProcessCleanup]
        @ (if res_memory_bytes (pol_resources p) \<noteq> None \<or> res_cpu_percent (pol_resources p) \<noteq> None
           then [ResourceLimits] else [])
        @ (case net_mode (pol_network p) of
             Unmanaged \<Rightarrow> []
           | Disabled \<Rightarrow> [DirectNetworkDeny, NetworkDisabled]
           | Proxy \<Rightarrow> [DirectNetworkDeny, NetworkProxy, ManagedProxy]))"

definition required_backend_feature_names :: "sandbox_policy \<Rightarrow> string list" where
  "required_backend_feature_names p = map feature_as_str (required_backend_features p)"

definition runtime_root_mode :: "sandbox_policy \<Rightarrow> string" where
  "runtime_root_mode p = (if allows_local_execution p then ''none'' else ''per-execution'')"

definition environment_set_json :: "(string \<times> string) list \<Rightarrow> json" where
  "environment_set_json entries = json_object (map (\<lambda>(k, v). (k, JStr v)) entries)"

definition filesystem_json :: "filesystem_policy \<Rightarrow> json" where
  "filesystem_json f = json_object
     [(''read'', json_strs (fs_read f)),
      (''read_only'', json_strs (fs_read_only f)),
      (''write'', json_strs (fs_write f)),
      (''deny'', json_strs (fs_deny f)),
      (''protect_vcs'', JBool (fs_protect_vcs f)),
      (''unrestricted'', JBool (fs_unrestricted f))]"

definition network_json :: "network_policy \<Rightarrow> json" where
  "network_json n = json_object
     [(''mode'', JStr (mode_as_str (net_mode n))),
      (''routes'', json_strs (net_routes n)),
      (''direct_allow_hosts'', json_strs (net_direct_allow_hosts n))]"

definition environment_json :: "environment_policy \<Rightarrow> json" where
  "environment_json e = json_object
     [(''inherit'', JStr (env_inherit e)),
      (''scrub'', json_strs (env_scrub e)),
      (''set'', environment_set_json (env_set e)),
      (''proxy'', JBool (env_proxy e))]"

definition resources_json :: "resource_policy \<Rightarrow> json" where
  "resources_json r = json_object
     [(''timeout_ms'', json_opt_u64 (res_timeout_ms r)),
      (''memory_bytes'', json_opt_u64 (res_memory_bytes r)),
      (''cpu_percent'', json_opt_u64 (res_cpu_percent r)),
      (''max_output_bytes'', json_opt_u64 (res_max_output_bytes r))]"

definition process_json :: "process_policy \<Rightarrow> json" where
  "process_json p = json_object
     [(''allow_child_processes'', JBool (proc_allow_child_processes p)),
      (''kill_on_parent_exit'', JBool (proc_kill_on_parent_exit p)),
      (''max_processes'', json_opt_u64 (proc_max_processes p)),
      (''interactive'', JBool (proc_interactive p))]"

definition approval_json :: "approval_policy \<Rightarrow> json" where
  "approval_json a = json_object
     [(''on_violation'', JStr (app_on_violation a)),
      (''on_network_route_missing'', JStr (app_on_network_route_missing a)),
      (''on_broad_write'', JStr (app_on_broad_write a))]"

definition canonical_json :: "sandbox_policy \<Rightarrow> json" where
  "canonical_json p = json_object
     [(''version'', JStr POLICY_VERSION),
      (''id'', JStr (pol_id p)),
      (''sandbox_level'', JStr (level_as_str (pol_sandbox_level p))),
      (''filesystem'', filesystem_json (pol_filesystem p)),
      (''network'', network_json (pol_network p)),
      (''environment'', environment_json (pol_environment p)),
      (''resources'', resources_json (pol_resources p)),
      (''process'', process_json (pol_process p)),
      (''runtime'', json_object [(''root_mode'', JStr (runtime_root_mode p))]),
      (''required_backend_features'', json_strs (required_backend_feature_names p)),
      (''approval'', approval_json (pol_approval p))]"

text \<open>The parameters \<open>ser\<close> and \<open>sha256\<close> are the serializer and the hex digest.\<close>

definition policy_hash :: "(json \<Rightarrow> string) \<Rightarrow> (string \<Rightarrow> string) \<Rightarrow> sandbox_policy \<Rightarrow> string" where
  "policy_hash ser sha256 p = ''sha256:'' @ sha256 (ser (canonical_json p))"

definition explain_json :: "(json \<Rightarrow> string) \<Rightarrow> (string \<Rightarrow> string) \<Rightarrow> sandbox_policy \<Rightarrow> json" where
  "explain_json ser sha256 p = json_object
     [(''policy_id'', JStr (pol_id p)),
      (''policy_hash'', JStr (policy_hash ser sha256 p)),
      (''version'', JStr POLICY_VERSION),
      (''sandbox_level'', JStr (level_as_str (pol_sandbox_level p))),
      (''filesystem'', filesystem_json (pol_filesystem p)),
      (''network'', network_json (pol_network p)),
      (''environment'', environment_json (pol_environment p)),
      (''resources'', resources_json (pol_resources p)),
      (''process'', process_json (pol_process p)),
      (''approval'', approval_json (pol_approval p)),
      (''backend_requirement'',
        JStr (if allows_local_execution p then ''local-execution'' else ''sandbox-backend'')),
      (''required_backend_features'', json_strs (required_backend_feature_names p)),
      (''support'', JStr (if allows_local_execution p then ''supported'' else ''unsupported'')),
      (''canonical_policy'', canonical_json p)]"

section \<open>Round trips of the enumerations\<close>

lemma level_round_trip [simp]: "level_from_str (level_as_str l) = Some l"
  by (cases l) (simp_all add: level_from_str_def)

lemma level_from_str_Some: "level_from_str s = Some l \<Longrightarrow> s = level_as_str l"
  by (auto simp: level_from_str_def split: if_splits)

lemma mode_round_trip [simp]: "mode_from_str (mode_as_str m) = Some m"
  by (cases m) (simp_all add: mode_from_str_def)

lemma mode_from_str_Some: "mode_from_str s = Some m \<Longrightarrow> s = mode_as_str m"
  by (auto simp: mode_from_str_def split: if_splits)

lemma level_as_str_inj: "level_as_str a = level_as_str b \<Longrightarrow> a = b"
  by (metis level_round_trip option.inject)

lemma mode_as_str_inj: "mode_as_str a = mode_as_str b \<Longrightarrow> a = b"
  by (metis mode_round_trip option.inject)

section \<open>The canonical form determines the policy\<close>

text \<open>Each section of the canonical JSON is read back field by field through the index accessor.\<close>

lemma filesystem_json_inj: "filesystem_json f = filesystem_json g \<Longrightarrow> f = g"
proof -
  assume eq: "filesystem_json f = filesystem_json g"
  have "json_index (filesystem_json f) k = json_index (filesystem_json g) k" for k
    by (simp add: eq)
  from this [of "''read''"] this [of "''read_only''"] this [of "''write''"] this [of "''deny''"]
    this [of "''protect_vcs''"] this [of "''unrestricted''"]
  show ?thesis by (simp add: filesystem_json_def filesystem_policy.equality)
qed

lemma network_json_inj: "network_json f = network_json g \<Longrightarrow> f = g"
proof -
  assume eq: "network_json f = network_json g"
  have "json_index (network_json f) k = json_index (network_json g) k" for k
    by (simp add: eq)
  from this [of "''mode''"] this [of "''routes''"] this [of "''direct_allow_hosts''"]
  show ?thesis by (simp add: network_json_def network_policy.equality mode_as_str_inj)
qed

lemma resources_json_inj: "resources_json f = resources_json g \<Longrightarrow> f = g"
proof -
  assume eq: "resources_json f = resources_json g"
  have "json_index (resources_json f) k = json_index (resources_json g) k" for k
    by (simp add: eq)
  from this [of "''timeout_ms''"] this [of "''memory_bytes''"] this [of "''cpu_percent''"]
    this [of "''max_output_bytes''"]
  show ?thesis by (simp add: resources_json_def resource_policy.equality)
qed

lemma process_json_inj: "process_json f = process_json g \<Longrightarrow> f = g"
proof -
  assume eq: "process_json f = process_json g"
  have "json_index (process_json f) k = json_index (process_json g) k" for k
    by (simp add: eq)
  from this [of "''allow_child_processes''"] this [of "''kill_on_parent_exit''"]
    this [of "''max_processes''"] this [of "''interactive''"]
  show ?thesis by (simp add: process_json_def process_policy.equality)
qed

lemma approval_json_inj: "approval_json f = approval_json g \<Longrightarrow> f = g"
proof -
  assume eq: "approval_json f = approval_json g"
  have "json_index (approval_json f) k = json_index (approval_json g) k" for k
    by (simp add: eq)
  from this [of "''on_violation''"] this [of "''on_network_route_missing''"]
    this [of "''on_broad_write''"]
  show ?thesis by (simp add: approval_json_def approval_policy.equality)
qed

definition wf_entries :: "(string \<times> string) list \<Rightarrow> bool" where
  "wf_entries es \<longleftrightarrow> sorted_wrt (<) (map fst es)"

lemma obj_of_sorted: "wf_map m \<Longrightarrow> obj_of m = m"
proof (rule wf_map_unique)
  assume wf: "wf_map m"
  show "wf_map (obj_of m)" and "wf_map m" using wf by auto
  have "map_of (rev m) = map_of m"
    by (rule map_of_rev_distinct) (rule wf_map_distinct [OF wf])
  then show "map_of (obj_of m) = map_of m"
    by (simp add: obj_of_def obj_extend_def map_of_fold_insert)
qed

lemma environment_set_json_inj:
  assumes "wf_entries a" "wf_entries b" "environment_set_json a = environment_set_json b"
  shows "a = b"
proof -
  let ?f = "\<lambda>(k, v). (k, JStr v)"
  have wf: "wf_map (map ?f es)" if "wf_entries es" for es
  proof -
    have "map fst (map ?f es) = map fst es" by (auto simp: case_prod_beta)
    with that show ?thesis by (simp only: wf_map_def wf_entries_def)
  qed
  have "map ?f a = map ?f b"
    using assms obj_of_sorted [OF wf [OF assms(1)]] obj_of_sorted [OF wf [OF assms(2)]]
    by (simp add: environment_set_json_def json_object_def)
  then show ?thesis
    by (rule map_injective) (auto simp: inj_def)
qed

lemma environment_json_inj:
  assumes "wf_entries (env_set f)" "wf_entries (env_set g)" "environment_json f = environment_json g"
  shows "f = g"
proof -
  have "json_index (environment_json f) k = json_index (environment_json g) k" for k
    by (simp add: assms(3))
  from this [of "''inherit''"] this [of "''scrub''"] this [of "''set''"] this [of "''proxy''"]
  show ?thesis
    using environment_set_json_inj [OF assms(1,2)]
    by (simp add: environment_json_def environment_policy.equality)
qed

end
