(* ===== verification/Policy_Normalization.thy ===== *)
theory Policy_Normalization
  imports Sandbox_Policy
begin

text \<open>
  The normalization of a requested policy, \<open>src/policy.rs\<close> from \<open>normalize_policy\<close> on: named
  profiles, inline policy objects section by section, and the validation helpers. Every error of
  this module carries the code \<open>POLICY_INVALID\<close>; the model keeps the reasons too. The working
  directory is the string that \<open>path_string\<close> makes of it.
\<close>

record policy_error =
  pe_code :: string
  pe_reason :: string

type_synonym 'a pol_result = "(policy_error, 'a) result"

definition policy_invalid :: "string \<Rightarrow> policy_error" where
  "policy_invalid reason = \<lparr>pe_code = ''POLICY_INVALID'', pe_reason = reason\<rparr>"

definition runseal_of_policy_error :: "policy_error \<Rightarrow> runseal_error" where
  "runseal_of_policy_error e = error_new (pe_code e) (pe_reason e)"

definition MAX_ENV_ENTRIES :: nat where "MAX_ENV_ENTRIES = 64"
definition MAX_ENV_KEY_BYTES :: nat where "MAX_ENV_KEY_BYTES = 128"
definition MAX_ENV_VALUE_BYTES :: nat where "MAX_ENV_VALUE_BYTES = 4096"

section \<open>Typed access to the fields of an object\<close>

definition validate_keys :: "jmap \<Rightarrow> string \<Rightarrow> string list \<Rightarrow> unit pol_result" where
  "validate_keys object context allowed_keys =
     for_each (\<lambda>key. reject_if (key \<notin> set allowed_keys)
       (policy_invalid (context @ ''.'' @ key @ '' is not supported by '' @ POLICY_VERSION)))
     (obj_keys object)"

definition optional_string :: "jmap \<Rightarrow> string \<Rightarrow> string option pol_result" where
  "optional_string object field =
     (case obj_get object field of
        None \<Rightarrow> Inr None
      | Some value \<Rightarrow> ok_or (map_option Some (as_str value))
                        (policy_invalid (field @ '' must be a string'')))"

definition optional_object :: "jmap \<Rightarrow> string \<Rightarrow> jmap option pol_result" where
  "optional_object object field =
     (case obj_get object field of
        None \<Rightarrow> Inr None
      | Some value \<Rightarrow> ok_or (map_option Some (as_object value))
                        (policy_invalid (field @ '' must be an object'')))"

definition optional_bool_for :: "jmap option \<Rightarrow> string \<Rightarrow> string \<Rightarrow> bool option pol_result" where
  "optional_bool_for object context field =
     (case Option.bind object (\<lambda>m. obj_get m field) of
        None \<Rightarrow> Inr None
      | Some value \<Rightarrow> ok_or (map_option Some (as_bool value))
                        (policy_invalid (context @ ''.'' @ field @ '' must be a boolean'')))"

definition optional_bool :: "jmap option \<Rightarrow> string \<Rightarrow> bool option pol_result" where
  "optional_bool object field = optional_bool_for object ''filesystem'' field"

definition optional_u64 :: "jmap \<Rightarrow> string \<Rightarrow> string \<Rightarrow> 64 word option pol_result" where
  "optional_u64 object context field =
     (case obj_get object field of
        None \<Rightarrow> Inr None
      | Some value \<Rightarrow> ok_or (map_option Some (as_u64 value))
                        (policy_invalid (context @ ''.'' @ field @ '' must be an integer'')))"

definition optional_positive_u64 :: "jmap \<Rightarrow> string \<Rightarrow> string \<Rightarrow> 64 word option pol_result" where
  "optional_positive_u64 object context field =
     rbind (optional_u64 object context field) (\<lambda>value.
     rbind (reject_if (value = Some 0)
             (policy_invalid (context @ ''.'' @ field @ '' must be greater than zero''))) (\<lambda>_.
     Inr value))"

definition string_array_for :: "jmap option \<Rightarrow> string \<Rightarrow> string \<Rightarrow> string list option pol_result" where
  "string_array_for object context field =
     (case Option.bind object (\<lambda>m. obj_get m field) of
        None \<Rightarrow> Inr None
      | Some value \<Rightarrow>
          rbind (ok_or (as_array value)
                  (policy_invalid (context @ ''.'' @ field @ '' must be an array''))) (\<lambda>items.
          rbind (collect (\<lambda>item. ok_or (as_str item)
                  (policy_invalid (context @ ''.'' @ field @ '' entries must be strings''))) items)
            (\<lambda>strings. Inr (Some strings))))"

definition string_array :: "jmap option \<Rightarrow> string \<Rightarrow> string list option pol_result" where
  "string_array object field = string_array_for object ''filesystem'' field"

definition reject_backend_resource_requirement :: "jmap \<Rightarrow> string \<Rightarrow> unit pol_result" where
  "reject_backend_resource_requirement resources field =
     reject_if (obj_get resources field \<noteq> None)
       (policy_invalid (''resources.'' @ field @ '' requires a sandbox backend''))"

definition reject_non_empty_section :: "jmap \<Rightarrow> string \<Rightarrow> unit pol_result" where
  "reject_non_empty_section object field =
     rbind (optional_object object field) (\<lambda>section.
     (case section of
        None \<Rightarrow> Inr ()
      | Some m \<Rightarrow> reject_if (m \<noteq> [])
                    (policy_invalid (field @ '' requirements are not supported in this build''))))"

section \<open>Validation of paths, patterns and environment entries\<close>

text \<open>
  \<open>Path::components\<close> as far as the code looks at it, for a parent component. On Unix the pieces
  between slashes are the components; on Windows both separators split, and a drive prefix is
  taken off first. Where the Windows parser would see fewer parent components (inside a UNC or
  verbatim prefix) the second disjunct of \<open>contains_parent_traversal\<close> already holds.
\<close>

definition has_drive_prefix :: "string \<Rightarrow> bool" where
  "has_drive_prefix s = (case s of c # d # _ \<Rightarrow> is_ascii_alphabetic c \<and> d = CHR '':'' | _ \<Rightarrow> False)"

definition has_parent_component :: "platform \<Rightarrow> string \<Rightarrow> bool" where
  "has_parent_component pl entry =
     (if pl = Windows
      then ''..'' \<in> set (split_on is_path_sep
                          (if has_drive_prefix entry then drop 2 entry else entry))
      else ''..'' \<in> set (split_on (\<lambda>c. c = CHR ''/'') entry))"

definition contains_parent_traversal :: "platform \<Rightarrow> string \<Rightarrow> bool" where
  "contains_parent_traversal pl entry \<longleftrightarrow>
     has_parent_component pl entry \<or> ''..'' \<in> set (split_on is_path_sep entry)"

definition validate_path_entries ::
  "platform \<Rightarrow> string list \<Rightarrow> string \<Rightarrow> bool \<Rightarrow> unit pol_result" where
  "validate_path_entries pl entries field reject_broad_write =
     for_each (\<lambda>entry.
       rbind (reject_if (entry = []) (policy_invalid (field @ '' entries must not be empty''))) (\<lambda>_.
       rbind (reject_if (contains_parent_traversal pl entry)
               (policy_invalid (field @ '' entries must not contain traversal components''))) (\<lambda>_.
       reject_if (reject_broad_write \<and> is_broad_write_root entry)
         (policy_invalid (field @ '' broad roots require danger-full-access'')))))
     entries"

definition validate_environment_patterns :: "string list \<Rightarrow> unit pol_result" where
  "validate_environment_patterns entries =
     for_each (\<lambda>entry. reject_if (entry = [])
       (policy_invalid ''environment.scrub entries must not be empty'')) entries"

definition validate_non_empty_strings :: "string list \<Rightarrow> string \<Rightarrow> unit pol_result" where
  "validate_non_empty_strings entries field =
     for_each (\<lambda>entry. reject_if (entry = [])
       (policy_invalid (field @ '' entries must not be empty''))) entries"

definition valid_env_key :: "string \<Rightarrow> bool" where
  "valid_env_key key \<longleftrightarrow>
     key \<noteq> [] \<and> length key \<le> MAX_ENV_KEY_BYTES \<and>
     (hd key = CHR ''_'' \<or> is_ascii_alphabetic (hd key)) \<and>
     list_all (\<lambda>c. c = CHR ''_'' \<or> is_ascii_alphanumeric c) (tl key)"

definition validate_environment_key :: "string \<Rightarrow> unit pol_result" where
  "validate_environment_key key =
     (let invalid = policy_invalid (''environment.set.'' @ key
                      @ '' is not a valid environment variable name'') in
      if key = [] \<or> MAX_ENV_KEY_BYTES < length key then Inl invalid
      else (case key of
              [] \<Rightarrow> Inl (policy_invalid ''environment.set key is not a valid environment variable name'')
            | first # chars \<Rightarrow>
                reject_if (\<not> (first = CHR ''_'' \<or> is_ascii_alphabetic first)
                    \<or> list_ex (\<lambda>c. \<not> (c = CHR ''_'' \<or> is_ascii_alphanumeric c)) chars)
                  invalid))"

definition matches_environment_scrub_pattern :: "string \<Rightarrow> string \<Rightarrow> bool" where
  "matches_environment_scrub_pattern raw_key raw_pattern =
     (let key = to_ascii_uppercase raw_key; pattern = to_ascii_uppercase raw_pattern in
      case strip_suffix pattern ''*'' of
        Some pre \<Rightarrow> starts_with key pre
      | None \<Rightarrow> (case strip_prefix pattern ''*'' of
                   Some suf \<Rightarrow> ends_with key suf
                 | None \<Rightarrow> key = pattern))"

definition scrubbed :: "string list \<Rightarrow> string \<Rightarrow> bool" where
  "scrubbed scrub key = list_ex (matches_environment_scrub_pattern key) scrub"

definition environment_entry :: "string list \<Rightarrow> string \<times> json \<Rightarrow> (string \<times> string) pol_result" where
  "environment_entry scrub kv =
     (let key = fst kv in
      rbind (validate_environment_key key) (\<lambda>_.
      rbind (reject_if (scrubbed scrub key)
              (policy_invalid (''environment.set.'' @ key @ '' is denied by environment scrub''))) (\<lambda>_.
      rbind (ok_or (as_str (snd kv))
              (policy_invalid (''environment.set.'' @ key @ '' must be a string''))) (\<lambda>value.
      rbind (reject_if (nul \<in> set value)
              (policy_invalid ''environment values must not contain NUL'')) (\<lambda>_.
      rbind (reject_if (MAX_ENV_VALUE_BYTES < length value)
              (policy_invalid (''environment.set.'' @ key @ '' must be at most ''
                @ dec MAX_ENV_VALUE_BYTES @ '' bytes''))) (\<lambda>_.
      Inr (key, value)))))))"

definition environment_set :: "json option \<Rightarrow> string list \<Rightarrow> (string \<times> string) list pol_result" where
  "environment_set value scrub =
     (case value of
        None \<Rightarrow> Inr []
      | Some v \<Rightarrow>
          rbind (ok_or (as_object v) (policy_invalid ''environment.set must be an object'')) (\<lambda>object.
          rbind (reject_if (MAX_ENV_ENTRIES < length object)
                  (policy_invalid (''environment.set must include at most '' @ dec MAX_ENV_ENTRIES
                    @ '' entries''))) (\<lambda>_.
          rbind (collect (environment_entry scrub) object) (\<lambda>entries.
          Inr (sort_key fst entries)))))"

section \<open>Defaults\<close>

fun default_network_mode :: "sandbox_level \<Rightarrow> network_mode" where
  "default_network_mode WorkspaceContained = Disabled"
| "default_network_mode _ = Unmanaged"

definition default_network :: "network_mode \<Rightarrow> network_policy" where
  "default_network mode = \<lparr>net_mode = mode, net_routes = [], net_direct_allow_hosts = []\<rparr>"

definition default_scrub :: "string list" where
  "default_scrub =
     [''*_TOKEN'', ''*_KEY'', ''*_SECRET'', ''*_PASSWORD'', ''*_AUTHORIZATION'', ''*_COOKIE'',
      ''AWS_*'', ''OPENAI_API_KEY'', ''ANTHROPIC_API_KEY'', ''AUTHORIZATION'', ''COOKIE'',
      ''PASSWORD'', ''PYTHONPATH'']"

definition default_environment :: "network_mode \<Rightarrow> environment_policy" where
  "default_environment network =
     \<lparr>env_inherit = ''minimal'', env_scrub = default_scrub, env_set = [],
      env_proxy = (network = Proxy)\<rparr>"

definition default_resources :: resource_policy where
  "default_resources =
     \<lparr>res_timeout_ms = None, res_memory_bytes = None, res_cpu_percent = None,
      res_max_output_bytes = None\<rparr>"

definition default_process :: "sandbox_level \<Rightarrow> process_policy" where
  "default_process level =
     \<lparr>proc_allow_child_processes = True, proc_kill_on_parent_exit = (level \<noteq> DangerFullAccess),
      proc_max_processes = None, proc_interactive = False\<rparr>"

definition default_approval :: approval_policy where
  "default_approval =
     \<lparr>app_on_violation = ''deny'', app_on_network_route_missing = ''deny'',
      app_on_broad_write = ''deny''\<rparr>"

definition infer_level :: "jmap option \<Rightarrow> sandbox_level" where
  "infer_level filesystem =
     (case Option.bind (Option.bind filesystem (\<lambda>m. obj_get m ''write'')) as_array of
        Some [] \<Rightarrow> ReadOnly
      | _ \<Rightarrow> WorkspaceWrite)"

text \<open>
  \<open>Path::join\<close> with a relative component: a separator unless the base ends with one, is empty, or
  (on Windows) is a bare drive. The working directory never carries the verbatim prefix, which
  \<open>simplify_windows_extended_path\<close> takes off.
\<close>

definition path_join :: "platform \<Rightarrow> string \<Rightarrow> string \<Rightarrow> string" where
  "path_join pl base name =
     (if base = [] then name
      else if pl = Windows
        then (if is_path_sep (last base) \<or> (has_drive_prefix base \<and> length base = 2)
              then base @ name else base @ [CHR 0x5C] @ name)
        else (if last base = CHR ''/'' then base @ name else base @ ''/'' @ name))"

definition protected_subpaths :: "platform \<Rightarrow> string \<Rightarrow> string list" where
  "protected_subpaths pl cwd = map (path_join pl cwd) PROTECTED_WORKSPACE_SUBPATHS"

fun profile_filesystem :: "platform \<Rightarrow> string \<Rightarrow> sandbox_level \<Rightarrow> filesystem_policy" where
  "profile_filesystem pl cwd DangerFullAccess =
     \<lparr>fs_read = [''*''], fs_read_only = [], fs_write = [''*''], fs_deny = [],
      fs_protect_vcs = False, fs_unrestricted = True\<rparr>"
| "profile_filesystem pl cwd ReadOnly =
     \<lparr>fs_read = [''*''], fs_read_only = [], fs_write = [], fs_deny = [],
      fs_protect_vcs = False, fs_unrestricted = False\<rparr>"
| "profile_filesystem pl cwd WorkspaceWrite =
     \<lparr>fs_read = [''*''], fs_read_only = [], fs_write = [cwd], fs_deny = protected_subpaths pl cwd,
      fs_protect_vcs = True, fs_unrestricted = False\<rparr>"
| "profile_filesystem pl cwd WorkspaceContained =
     \<lparr>fs_read = [cwd], fs_read_only = [], fs_write = [cwd], fs_deny = protected_subpaths pl cwd,
      fs_protect_vcs = True, fs_unrestricted = False\<rparr>"

section \<open>The sections of an inline policy\<close>

definition inline_filesystem ::
  "platform \<Rightarrow> jmap option \<Rightarrow> string \<Rightarrow> sandbox_level \<Rightarrow> approval_policy \<Rightarrow> filesystem_policy pol_result" where
  "inline_filesystem pl filesystem cwd level approval =
     rbind (case filesystem of
              None \<Rightarrow> Inr ()
            | Some m \<Rightarrow> validate_keys m ''filesystem''
                          [''read'', ''read_only'', ''write'', ''deny'', ''protect_vcs'']) (\<lambda>_.
     rbind (string_array filesystem ''read'') (\<lambda>read_opt.
     let read_roots = (case read_opt of Some xs \<Rightarrow> xs
                 | None \<Rightarrow> (if level = WorkspaceContained then [cwd] else [''*''])) in
     rbind (string_array filesystem ''read_only'') (\<lambda>read_only_opt.
     let read_only = (case read_only_opt of Some xs \<Rightarrow> xs | None \<Rightarrow> []) in
     rbind (string_array filesystem ''write'') (\<lambda>write_opt.
     let write_roots = (case write_opt of Some xs \<Rightarrow> xs
                  | None \<Rightarrow> (case level of DangerFullAccess \<Rightarrow> [''*''] | ReadOnly \<Rightarrow> [] | _ \<Rightarrow> [cwd])) in
     rbind (optional_bool filesystem ''protect_vcs'') (\<lambda>protect_opt.
     let protect_vcs = (case protect_opt of Some b \<Rightarrow> b | None \<Rightarrow> protects_workspace level) in
     rbind (string_array filesystem ''deny'') (\<lambda>deny_opt.
     let deny = (case deny_opt of Some xs \<Rightarrow> xs
                 | None \<Rightarrow> (if protect_vcs then protected_subpaths pl cwd else [])) in
     rbind (validate_path_entries pl read_roots ''filesystem.read'' False) (\<lambda>_.
     rbind (validate_path_entries pl read_only ''filesystem.read_only'' False) (\<lambda>_.
     let reject_broad_write =
       (level \<noteq> DangerFullAccess \<and> app_on_broad_write approval \<noteq> ''request'') in
     rbind (validate_path_entries pl write_roots ''filesystem.write'' reject_broad_write) (\<lambda>_.
     rbind (validate_path_entries pl deny ''filesystem.deny'' False) (\<lambda>_.
     Inr \<lparr>fs_read = read_roots, fs_read_only = read_only, fs_write = write_roots, fs_deny = deny,
          fs_protect_vcs = protect_vcs, fs_unrestricted = (level = DangerFullAccess)\<rparr>))))))))))"

definition inline_network_mode :: "json option \<Rightarrow> network_mode pol_result option" where
  "inline_network_mode network =
     (case network of
        None \<Rightarrow> None
      | Some value \<Rightarrow> Some (
          rbind (case value of
                   JStr mode \<Rightarrow> Inr mode
                 | JObj object \<Rightarrow>
                     rbind (validate_keys object ''network'' [''mode'', ''routes'', ''direct_allow_hosts''])
                       (\<lambda>_. rbind (optional_string object ''mode'') (\<lambda>mode.
                         Inr (case mode of Some m \<Rightarrow> m | None \<Rightarrow> ''unmanaged'')))
                 | _ \<Rightarrow> Inl (policy_invalid ''network must be a string or object''))
            (\<lambda>mode. ok_or (mode_from_str mode)
              (policy_invalid (''network.mode must be unmanaged, disabled, or proxy, got '' @ mode)))))"

definition inline_network_policy :: "json option \<Rightarrow> network_mode \<Rightarrow> network_policy pol_result" where
  "inline_network_policy network mode =
     (let policy = default_network mode in
      case Option.bind network as_object of
        None \<Rightarrow> Inr policy
      | Some object \<Rightarrow>
          rbind (string_array_for (Some object) ''network'' ''routes'') (\<lambda>routes_opt.
          rbind (case routes_opt of
                   None \<Rightarrow> Inr policy
                 | Some routes \<Rightarrow>
                     rbind (validate_non_empty_strings routes ''network.routes'') (\<lambda>_.
                     rbind (reject_if (mode \<noteq> Proxy \<and> routes \<noteq> [])
                             (policy_invalid ''network.routes require proxy mode'')) (\<lambda>_.
                     Inr (policy\<lparr>net_routes := routes\<rparr>)))) (\<lambda>policy.
          rbind (string_array_for (Some object) ''network'' ''direct_allow_hosts'') (\<lambda>hosts_opt.
          case hosts_opt of
            None \<Rightarrow> Inr policy
          | Some hosts \<Rightarrow>
              rbind (validate_non_empty_strings hosts ''network.direct_allow_hosts'') (\<lambda>_.
              rbind (reject_if (hosts \<noteq> [])
                      (policy_invalid ''network.direct_allow_hosts is not supported in this build''))
                (\<lambda>_. Inr (policy\<lparr>net_direct_allow_hosts := hosts\<rparr>)))))))"

definition inline_environment :: "jmap option \<Rightarrow> network_mode \<Rightarrow> environment_policy pol_result" where
  "inline_environment environment network =
     (let policy = default_environment network in
      case environment of
        None \<Rightarrow> Inr policy
      | Some env \<Rightarrow>
          rbind (validate_keys env ''environment'' [''inherit'', ''scrub'', ''proxy'', ''set'']) (\<lambda>_.
          rbind (optional_string env ''inherit'') (\<lambda>inherit_opt.
          rbind (case inherit_opt of
                   None \<Rightarrow> Inr policy
                 | Some inherit \<Rightarrow>
                     rbind (reject_if (inherit \<noteq> ''minimal'')
                             (policy_invalid (''environment.inherit must be minimal, got '' @ inherit)))
                       (\<lambda>_. Inr (policy\<lparr>env_inherit := inherit\<rparr>))) (\<lambda>policy.
          rbind (string_array_for (Some env) ''environment'' ''scrub'') (\<lambda>scrub_opt.
          rbind (case scrub_opt of
                   None \<Rightarrow> Inr policy
                 | Some scrub \<Rightarrow>
                     rbind (validate_environment_patterns scrub) (\<lambda>_.
                       Inr (policy\<lparr>env_scrub := scrub\<rparr>))) (\<lambda>policy.
          rbind (optional_bool_for (Some env) ''environment'' ''proxy'') (\<lambda>proxy_opt.
          let policy = (case proxy_opt of None \<Rightarrow> policy | Some b \<Rightarrow> policy\<lparr>env_proxy := b\<rparr>) in
          rbind (reject_if (network = Proxy \<and> \<not> env_proxy policy)
                  (policy_invalid ''network.proxy requires environment.proxy=true'')) (\<lambda>_.
          rbind (environment_set (obj_get env ''set'') (env_scrub policy)) (\<lambda>entries.
          Inr (policy\<lparr>env_set := entries\<rparr>))))))))))"

definition inline_resources :: "jmap option \<Rightarrow> sandbox_level \<Rightarrow> resource_policy pol_result" where
  "inline_resources resources level =
     (case resources of
        None \<Rightarrow> Inr default_resources
      | Some res \<Rightarrow>
          rbind (validate_keys res ''resources''
                  [''timeout_ms'', ''memory_bytes'', ''cpu_percent'', ''max_output_bytes'']) (\<lambda>_.
          rbind (if level = DangerFullAccess
                 then rbind (reject_backend_resource_requirement res ''memory_bytes'') (\<lambda>_.
                        reject_backend_resource_requirement res ''cpu_percent'')
                 else Inr ()) (\<lambda>_.
          rbind (optional_u64 res ''resources'' ''timeout_ms'') (\<lambda>timeout_ms.
          rbind (optional_positive_u64 res ''resources'' ''memory_bytes'') (\<lambda>memory_bytes.
          rbind (optional_positive_u64 res ''resources'' ''cpu_percent'') (\<lambda>cpu_percent.
          rbind (optional_u64 res ''resources'' ''max_output_bytes'') (\<lambda>max_output.
          Inr \<lparr>res_timeout_ms = timeout_ms, res_memory_bytes = memory_bytes,
               res_cpu_percent = cpu_percent, res_max_output_bytes = max_output\<rparr>)))))))"

definition inline_process :: "jmap option \<Rightarrow> sandbox_level \<Rightarrow> process_policy pol_result" where
  "inline_process process level =
     (let policy = default_process level in
      case process of
        None \<Rightarrow> Inr policy
      | Some proc \<Rightarrow>
          rbind (validate_keys proc ''process''
                  [''allow_child_processes'', ''kill_on_parent_exit'', ''max_processes'', ''interactive''])
            (\<lambda>_.
          rbind (optional_bool_for (Some proc) ''process'' ''allow_child_processes'') (\<lambda>allow_opt.
          rbind (case allow_opt of
                   None \<Rightarrow> Inr policy
                 | Some allow \<Rightarrow>
                     rbind (reject_if (\<not> allow) (policy_invalid
                       ''process.allow_child_processes=false is not supported in this build'')) (\<lambda>_.
                     Inr (policy\<lparr>proc_allow_child_processes := allow\<rparr>))) (\<lambda>policy.
          rbind (optional_bool_for (Some proc) ''process'' ''kill_on_parent_exit'') (\<lambda>kill_opt.
          rbind (case kill_opt of
                   None \<Rightarrow> Inr policy
                 | Some kill \<Rightarrow>
                     rbind (reject_if (level = DangerFullAccess \<and> kill) (policy_invalid
                       ''process.kill_on_parent_exit requires a sandbox backend'')) (\<lambda>_.
                     rbind (reject_if (level \<noteq> DangerFullAccess \<and> \<not> kill) (policy_invalid
                       ''sandboxed process.kill_on_parent_exit must be true'')) (\<lambda>_.
                     Inr (policy\<lparr>proc_kill_on_parent_exit := kill\<rparr>)))) (\<lambda>policy.
          rbind (reject_if (obj_get proc ''max_processes'' \<noteq> None) (policy_invalid
                  ''process.max_processes is not supported in this build'')) (\<lambda>_.
          rbind (optional_bool_for (Some proc) ''process'' ''interactive'') (\<lambda>interactive_opt.
          case interactive_opt of
            None \<Rightarrow> Inr policy
          | Some interactive \<Rightarrow>
              rbind (reject_if interactive (policy_invalid
                ''process.interactive is not supported in this build'')) (\<lambda>_.
              Inr (policy\<lparr>proc_interactive := interactive\<rparr>))))))))))"

definition approval_action :: "string \<Rightarrow> string \<Rightarrow> string pol_result" where
  "approval_action field action =
     (if action = ''deny'' \<or> action = ''request'' then Inr action
      else Inl (policy_invalid (field @ '' must be deny or request, got '' @ action)))"

definition inline_approval :: "jmap option \<Rightarrow> approval_policy pol_result" where
  "inline_approval approval =
     (let policy = default_approval in
      case approval of
        None \<Rightarrow> Inr policy
      | Some app \<Rightarrow>
          rbind (validate_keys app ''approval''
                  [''on_violation'', ''on_network_route_missing'', ''on_broad_write'']) (\<lambda>_.
          rbind (optional_string app ''on_violation'') (\<lambda>violation.
          rbind (case violation of None \<Rightarrow> Inr policy
                 | Some action \<Rightarrow> rbind (approval_action ''approval.on_violation'' action) (\<lambda>a.
                     Inr (policy\<lparr>app_on_violation := a\<rparr>))) (\<lambda>policy.
          rbind (optional_string app ''on_network_route_missing'') (\<lambda>missing.
          rbind (case missing of None \<Rightarrow> Inr policy
                 | Some action \<Rightarrow> rbind (approval_action ''approval.on_network_route_missing'' action)
                     (\<lambda>a. Inr (policy\<lparr>app_on_network_route_missing := a\<rparr>))) (\<lambda>policy.
          rbind (optional_string app ''on_broad_write'') (\<lambda>broad.
          case broad of None \<Rightarrow> Inr policy
          | Some action \<Rightarrow> rbind (approval_action ''approval.on_broad_write'' action) (\<lambda>a.
              Inr (policy\<lparr>app_on_broad_write := a\<rparr>)))))))))"

section \<open>Normalization\<close>

definition named_profile ::
  "platform \<Rightarrow> string \<Rightarrow> string \<Rightarrow> network_mode option \<Rightarrow> sandbox_policy pol_result" where
  "named_profile pl profile cwd network_override =
     rbind (ok_or (level_from_str profile)
             (policy_invalid (''unknown policy profile: '' @ profile))) (\<lambda>level.
     let network = (case network_override of Some n \<Rightarrow> n | None \<Rightarrow> default_network_mode level) in
     Inr \<lparr>pol_id = profile, pol_sandbox_level = level,
          pol_filesystem = profile_filesystem pl cwd level,
          pol_network = default_network network,
          pol_environment = default_environment network,
          pol_resources = default_resources,
          pol_process = default_process level,
          pol_approval = default_approval,
          pol_source = Named\<rparr>)"

definition policy_keys :: "string list" where
  "policy_keys =
     [''version'', ''id'', ''description'', ''sandbox_level'', ''filesystem'', ''network'',
      ''environment'', ''process'', ''resources'', ''audit'', ''approval'', ''backend'']"

definition inline_policy ::
  "platform \<Rightarrow> jmap \<Rightarrow> string \<Rightarrow> network_mode option \<Rightarrow> sandbox_policy pol_result" where
  "inline_policy pl object cwd network_override =
     rbind (validate_keys object ''policy'' policy_keys) (\<lambda>_.
     rbind (optional_string object ''version'') (\<lambda>version_opt.
     let version = (case version_opt of Some v \<Rightarrow> v | None \<Rightarrow> POLICY_VERSION) in
     rbind (reject_if (version \<noteq> POLICY_VERSION)
             (policy_invalid (''unsupported policy version: '' @ version))) (\<lambda>_.
     rbind (optional_string object ''description'') (\<lambda>_.
     rbind (reject_non_empty_section object ''audit'') (\<lambda>_.
     rbind (reject_non_empty_section object ''backend'') (\<lambda>_.
     rbind (optional_string object ''id'') (\<lambda>id_opt.
     let pid = (case id_opt of Some i \<Rightarrow> i | None \<Rightarrow> ''inline'') in
     rbind (optional_object object ''filesystem'') (\<lambda>filesystem.
     rbind (optional_string object ''sandbox_level'') (\<lambda>level_opt.
     rbind (case level_opt of
              Some level \<Rightarrow> ok_or (level_from_str level)
                (policy_invalid (''sandbox_level must be read-only, workspace-contained, workspace-write, or danger-full-access, got '' @ level))
            | None \<Rightarrow> Inr (infer_level filesystem)) (\<lambda>level.
     rbind (case inline_network_mode (obj_get object ''network'') of
              Some r \<Rightarrow> rbind r (\<lambda>n. Inr (Some n))
            | None \<Rightarrow> Inr None) (\<lambda>inline_network.
     let network = (case network_override of Some n \<Rightarrow> n
                    | None \<Rightarrow> (case inline_network of Some n \<Rightarrow> n
                               | None \<Rightarrow> default_network_mode level)) in
     rbind (rbind (optional_object object ''approval'') inline_approval) (\<lambda>approval.
     rbind (inline_network_policy (obj_get object ''network'') network) (\<lambda>network_pol.
     rbind (rbind (optional_object object ''environment'')
             (\<lambda>e. inline_environment e (net_mode network_pol))) (\<lambda>environment.
     rbind (rbind (optional_object object ''resources'') (\<lambda>r. inline_resources r level)) (\<lambda>resources.
     rbind (rbind (optional_object object ''process'') (\<lambda>p. inline_process p level)) (\<lambda>process.
     rbind (inline_filesystem pl filesystem cwd level approval) (\<lambda>fs.
     Inr \<lparr>pol_id = pid, pol_sandbox_level = level, pol_filesystem = fs, pol_network = network_pol,
          pol_environment = environment, pol_resources = resources, pol_process = process,
          pol_approval = approval, pol_source = Inline\<rparr>)))))))))))))))))"

definition normalize_requested_policy ::
  "platform \<Rightarrow> json \<Rightarrow> string \<Rightarrow> network_mode option \<Rightarrow> sandbox_policy pol_result" where
  "normalize_requested_policy pl input cwd network_override =
     (case as_str input of
        Some profile \<Rightarrow> named_profile pl profile cwd network_override
      | None \<Rightarrow>
          rbind (ok_or (as_object input) (policy_invalid ''policy must be a profile name or object''))
            (\<lambda>object. inline_policy pl object cwd network_override))"

definition normalize_policy ::
  "deployment_limits \<Rightarrow> platform \<Rightarrow> json \<Rightarrow> string \<Rightarrow> network_mode option \<Rightarrow> sandbox_policy pol_result" where
  "normalize_policy limits pl input cwd network_override =
     rbind (normalize_requested_policy pl input cwd network_override) (\<lambda>policy.
     let deployment_limit = of_nat (max_output_bytes limits);
         requested = (case res_max_output_bytes (pol_resources policy) of
                        Some n \<Rightarrow> n | None \<Rightarrow> deployment_limit) in
     Inr (policy\<lparr>pol_resources := (pol_resources policy)\<lparr>res_max_output_bytes :=
                   Some (min requested deployment_limit)\<rparr>\<rparr>))"

end
