(* ===== verification/Policy_Guarantees.thy ===== *)
theory Policy_Guarantees
  imports Policy_Normalization
begin

text \<open>
  What a policy that \<open>normalize_policy\<close> returns is worth: each section of it is valid, the
  sandbox cannot be widened past its level, and the canonical form names it. One lemma per section
  function, then the properties of the whole normalization.
\<close>

lemmas optional_defs =
  optional_string_def optional_object_def optional_bool_def optional_bool_for_def optional_u64_def
  string_array_def

section \<open>Sections\<close>

lemma inline_network_policy_sound:
  assumes "inline_network_policy network mode = Inr p"
  shows "net_mode p = mode \<and> (net_routes p \<noteq> [] \<longrightarrow> mode = Proxy) \<and> net_direct_allow_hosts p = []"
  using assms unfolding inline_network_policy_def Let_def
  by (elim result_elims; hypsubst) (auto simp: default_network_def)

lemma inline_network_mode_means:
  assumes "inline_network_mode network = map_option Inr inline_network"
  shows "case network of
      None \<Rightarrow> inline_network = None
    | Some (JStr m) \<Rightarrow> (\<exists>n. inline_network = Some n \<and> m = mode_as_str n)
    | Some (JObj ob) \<Rightarrow> (\<exists>n. inline_network = Some n \<and>
        (case obj_get ob ''mode'' of None \<Rightarrow> n = Unmanaged | Some m \<Rightarrow> m = JStr (mode_as_str n)))
    | Some _ \<Rightarrow> False"
proof (cases network)
  case (Some v)
  with assms obtain n where n: "inline_network = Some n" by (cases inline_network) (auto simp: inline_network_mode_def)
  have unmanaged: "mode_from_str ''unmanaged'' = Some m \<longleftrightarrow> m = Unmanaged" for m by (auto simp: mode_from_str_def)
  show ?thesis
    using assms unfolding inline_network_mode_def Some n
    by (cases v) (auto simp: result_simps optional_string_def as_str_def unmanaged
        dest: mode_from_str_Some split: option.splits json.splits)
qed (use assms in \<open>simp add: inline_network_mode_def\<close>)

lemma validate_environment_key_ok [result_simps]:
  "validate_environment_key key = Inr u \<longleftrightarrow> valid_env_key key"
  by (cases key)
    (auto simp: validate_environment_key_def valid_env_key_def Let_def result_simps
      list_ex_iff list_all_iff)

definition wf_env_entry :: "string list \<Rightarrow> string \<times> string \<Rightarrow> bool" where
  "wf_env_entry scrub kv \<longleftrightarrow>
     valid_env_key (fst kv) \<and> \<not> scrubbed scrub (fst kv) \<and> nul \<notin> set (snd kv) \<and>
     length (snd kv) \<le> MAX_ENV_VALUE_BYTES"

lemma environment_entry_ok:
  "environment_entry scrub kv = Inr e \<Longrightarrow> fst e = fst kv \<and> wf_env_entry scrub e"
  by (auto simp: environment_entry_def Let_def result_simps wf_env_entry_def)

lemma environment_entries_ok:
  "collect (environment_entry scrub) object = Inr entries \<Longrightarrow>
     map fst entries = map fst object \<and> list_all (wf_env_entry scrub) entries"
proof (induction object arbitrary: entries)
  case (Cons kv object)
  then show ?case
    by (fastforce simp: rbind_Inr_iff dest: environment_entry_ok)
qed simp

lemma environment_set_sound:
  assumes "environment_set value scrub = Inr entries"
  shows "list_all (wf_env_entry scrub) entries" "length entries \<le> MAX_ENV_ENTRIES"
    "sorted (map fst entries)"
    "(\<And>m. value = Some (JObj m) \<Longrightarrow> wf_map m) \<Longrightarrow> wf_entries entries"
proof -
  consider "value = None" "entries = []"
    | object raw where "value = Some (JObj object)" "length object \<le> MAX_ENV_ENTRIES"
        "collect (environment_entry scrub) object = Inr raw" "entries = sort_key fst raw"
    using assms by (auto simp: environment_set_def rbind_Inr_iff ok_or_Inr_iff reject_if_Inr_iff
        accessor_Some_iff split: option.splits)
  then have "list_all (wf_env_entry scrub) entries \<and> length entries \<le> MAX_ENV_ENTRIES \<and>
    sorted (map fst entries) \<and> ((\<forall>m. value = Some (JObj m) \<longrightarrow> wf_map m) \<longrightarrow> wf_entries entries)"
  proof cases
    case 1
    then show ?thesis by (simp add: wf_entries_def)
  next
    case 2
    note raw = environment_entries_ok [OF 2(3)]
    have len: "length raw = length object"
      using raw by (metis length_map)
    have "wf_entries entries" if "wf_map object"
    proof -
      have "sorted (map fst raw)" "distinct (map fst raw)"
        using raw that by (auto simp: wf_map_def strict_sorted_iff)
      then show ?thesis
        unfolding 2 wf_entries_def
        by (metis sorted_sort_id sort_key_id_if_sorted strict_sorted_iff)
    qed
    with 2 raw len show ?thesis
      by (auto simp: list_all_iff)
  qed
  then show "list_all (wf_env_entry scrub) entries" "length entries \<le> MAX_ENV_ENTRIES"
    "sorted (map fst entries)"
    "(\<And>m. value = Some (JObj m) \<Longrightarrow> wf_map m) \<Longrightarrow> wf_entries entries"
    by blast+
qed

lemma inline_environment_sound:
  assumes "inline_environment environment network = Inr p"
  shows "env_inherit p = ''minimal''"
    "network = Proxy \<Longrightarrow> env_proxy p"
    "list_all (wf_env_entry (env_scrub p)) (env_set p)"
    "length (env_set p) \<le> MAX_ENV_ENTRIES" "sorted (map fst (env_set p))"
    "(\<And>m s. environment = Some m \<Longrightarrow> obj_get m ''set'' = Some (JObj s) \<Longrightarrow> wf_map s) \<Longrightarrow>
       wf_entries (env_set p)"
proof -
  have base: "env_inherit p = ''minimal'' \<and> (network = Proxy \<longrightarrow> env_proxy p) \<and>
    ((environment = None \<and> env_set p = []) \<or>
     (\<exists>m. environment = Some m \<and> environment_set (obj_get m ''set'') (env_scrub p) = Inr (env_set p)))"
    using assms unfolding inline_environment_def Let_def
    by (elim result_elims; hypsubst) (auto simp: default_environment_def split: option.splits)
  then show "env_inherit p = ''minimal''" "network = Proxy \<Longrightarrow> env_proxy p" by blast+
  show "list_all (wf_env_entry (env_scrub p)) (env_set p)"
    using base by (auto dest: environment_set_sound(1))
  show "length (env_set p) \<le> MAX_ENV_ENTRIES"
    using base by (auto dest: environment_set_sound(2))
  show "sorted (map fst (env_set p))"
    using base by (auto dest: environment_set_sound(3))
  show "wf_entries (env_set p)"
    if "\<And>m s. environment = Some m \<Longrightarrow> obj_get m ''set'' = Some (JObj s) \<Longrightarrow> wf_map s"
    using base that by (auto simp: wf_entries_def [of "[]"] intro: environment_set_sound(4))
qed

lemma inline_resources_sound:
  assumes "inline_resources resources level = Inr p"
  shows "res_memory_bytes p \<noteq> Some 0 \<and> res_cpu_percent p \<noteq> Some 0 \<and>
    (level = DangerFullAccess \<longrightarrow> res_memory_bytes p = None \<and> res_cpu_percent p = None)"
  using assms unfolding inline_resources_def optional_positive_u64_def
    reject_backend_resource_requirement_def
  by (elim result_elims; hypsubst) (auto simp: default_resources_def optional_u64_def)

lemma flag_determined: "(d \<longrightarrow> \<not> k) \<Longrightarrow> d \<or> k \<Longrightarrow> k = (\<not> d)"
  by blast

lemma inline_process_sound:
  assumes "inline_process process level = Inr p"
  shows "p = default_process level"
  using assms unfolding inline_process_def Let_def
  apply (elim result_elims; hypsubst)
         apply (simp_all add: default_process_def)
     apply (erule (1) flag_determined)+
  done

definition approval_actions_ok :: "approval_policy \<Rightarrow> bool" where
  "approval_actions_ok a \<longleftrightarrow>
     {app_on_violation a, app_on_network_route_missing a, app_on_broad_write a}
       \<subseteq> {''deny'', ''request''}"

lemma approval_action_Inr_iff [result_simps]:
  "approval_action f a = Inr b \<longleftrightarrow> b = a \<and> a \<in> {''deny'', ''request''}"
  by (auto simp: approval_action_def split: if_splits)

lemma inline_approval_sound:
  assumes "inline_approval approval = Inr p"
  shows "approval_actions_ok p"
  using assms unfolding inline_approval_def Let_def
  apply (elim result_elims; hypsubst)
          apply (simp_all add: default_approval_def approval_actions_ok_def approval_action_Inr_iff)
  done

definition wf_path_entry :: "platform \<Rightarrow> string \<Rightarrow> bool" where
  "wf_path_entry pl e \<longleftrightarrow> e \<noteq> [] \<and> \<not> contains_parent_traversal pl e"

lemma validate_path_entries_ok [result_simps]:
  "validate_path_entries pl es field reject = Inr u \<longleftrightarrow>
     list_all (wf_path_entry pl) es \<and> (reject \<longrightarrow> \<not> list_ex is_broad_write_root es)"
  by (auto simp: validate_path_entries_def for_each_Inr_iff rbind_Inr_iff reject_if_Inr_iff
      wf_path_entry_def list_all_iff list_ex_iff)

definition wf_filesystem :: "platform \<Rightarrow> filesystem_policy \<Rightarrow> bool" where
  "wf_filesystem pl f \<longleftrightarrow>
     list_all (wf_path_entry pl) (fs_read f) \<and> list_all (wf_path_entry pl) (fs_read_only f) \<and>
     list_all (wf_path_entry pl) (fs_write f) \<and> list_all (wf_path_entry pl) (fs_deny f)"

lemma inline_filesystem_sound:
  assumes "inline_filesystem pl filesystem cwd level approval = Inr f"
  shows "wf_filesystem pl f" "fs_unrestricted f = (level = DangerFullAccess)"
    "level \<noteq> DangerFullAccess \<Longrightarrow> list_ex is_broad_write_root (fs_write f) \<Longrightarrow>
       app_on_broad_write approval = ''request''"
proof -
  have "wf_filesystem pl f \<and> fs_unrestricted f = (level = DangerFullAccess) \<and>
    (level \<noteq> DangerFullAccess \<and> app_on_broad_write approval \<noteq> ''request'' \<longrightarrow>
       \<not> list_ex is_broad_write_root (fs_write f))"
    using assms unfolding inline_filesystem_def Let_def
    apply (elim rbind_InrE)
    apply (simp only: sum.inject validate_path_entries_ok)
    apply hypsubst
    by (simp add: wf_filesystem_def)
  then show "wf_filesystem pl f" "fs_unrestricted f = (level = DangerFullAccess)"
    "level \<noteq> DangerFullAccess \<Longrightarrow> list_ex is_broad_write_root (fs_write f) \<Longrightarrow>
       app_on_broad_write approval = ''request''"
    by blast+
qed

section \<open>The whole policy\<close>

lemma inline_network_choice:
  "(case m of Some r \<Rightarrow> rbind r (\<lambda>n. Inr (Some n)) | None \<Rightarrow> Inr None) = Inr x \<Longrightarrow>
     m = map_option Inr x"
  by (auto simp: rbind_Inr_iff split: option.splits)

lemma inline_policy_sections:
  assumes "inline_policy pl object cwd network_override = Inr p"
  obtains filesystem environment resources process approval inline_network where
    "optional_object object ''environment'' = Inr environment"
    "inline_environment environment (net_mode (pol_network p)) = Inr (pol_environment p)"
    "inline_resources resources (pol_sandbox_level p) = Inr (pol_resources p)"
    "inline_process process (pol_sandbox_level p) = Inr (pol_process p)"
    "inline_approval approval = Inr (pol_approval p)"
    "inline_filesystem pl filesystem cwd (pol_sandbox_level p) (pol_approval p)
       = Inr (pol_filesystem p)"
    "inline_network_mode (obj_get object ''network'') = map_option Inr inline_network"
    "inline_network_policy (obj_get object ''network'')
       (case network_override of Some n \<Rightarrow> n
        | None \<Rightarrow> (case inline_network of Some n \<Rightarrow> n
                   | None \<Rightarrow> default_network_mode (pol_sandbox_level p)))
       = Inr (pol_network p)"
    "pol_source p = Inline"
  using assms unfolding inline_policy_def Let_def
  apply (elim rbind_InrE return_InrE)
  apply hypsubst
  apply (drule inline_network_choice)
  apply (rule that)
          apply (simp_all only: sandbox_policy.select_convs)
  done

lemma normalize_policyE:
  assumes "normalize_policy limits pl input cwd network_override = Inr p"
  obtains q where "normalize_requested_policy pl input cwd network_override = Inr q"
    "p = q\<lparr>pol_resources := (pol_resources q)\<lparr>res_max_output_bytes :=
       Some (min (case res_max_output_bytes (pol_resources q) of
                    Some n \<Rightarrow> n | None \<Rightarrow> of_nat (max_output_bytes limits))
                 (of_nat (max_output_bytes limits)))\<rparr>\<rparr>"
  using assms unfolding normalize_policy_def Let_def by (elim rbind_InrE return_InrE) (rule that)

lemma normalize_inlineE:
  assumes "normalize_policy limits pl (JObj object) cwd network_override = Inr p"
  obtains q where "inline_policy pl object cwd network_override = Inr q"
    "pol_sandbox_level p = pol_sandbox_level q" "pol_filesystem p = pol_filesystem q"
    "pol_network p = pol_network q" "pol_environment p = pol_environment q"
    "pol_process p = pol_process q" "pol_approval p = pol_approval q" "pol_source p = Inline"
    "res_memory_bytes (pol_resources p) = res_memory_bytes (pol_resources q)"
    "res_cpu_percent (pol_resources p) = res_cpu_percent (pol_resources q)"
    "res_timeout_ms (pol_resources p) = res_timeout_ms (pol_resources q)"
proof -
  obtain q where q: "inline_policy pl object cwd network_override = Inr q"
    and p: "p = q\<lparr>pol_resources := (pol_resources q)\<lparr>res_max_output_bytes :=
       Some (min (case res_max_output_bytes (pol_resources q) of
                    Some n \<Rightarrow> n | None \<Rightarrow> of_nat (max_output_bytes limits))
                 (of_nat (max_output_bytes limits)))\<rparr>\<rparr>"
    using assms
    by (elim normalize_policyE) (simp add: normalize_requested_policy_def as_str_def)
  have "pol_source q = Inline" using q by (rule inline_policy_sections)
  with q that [OF q] p show ?thesis by simp
qed

lemma normalize_namedE:
  assumes "normalize_policy limits pl (JStr profile) cwd network_override = Inr p"
  obtains level where "level_from_str profile = Some level" "pol_sandbox_level p = level"
    "pol_filesystem p = profile_filesystem pl cwd level"
    "pol_network p = default_network
       (case network_override of Some n \<Rightarrow> n | None \<Rightarrow> default_network_mode level)"
    "pol_environment p = default_environment (net_mode (pol_network p))"
    "pol_process p = default_process level" "pol_approval p = default_approval"
    "pol_source p = Named" "pol_id p = profile"
    "pol_resources p = default_resources\<lparr>res_max_output_bytes := Some (of_nat (max_output_bytes limits))\<rparr>"
  using assms
  by (elim normalize_policyE)
    (auto simp: normalize_requested_policy_def named_profile_def Let_def result_simps
      default_resources_def default_network_def intro!: that)

text \<open>A request is a profile name or an object; anything else is refused.\<close>

lemma normalize_policy_input:
  assumes "normalize_policy limits pl input cwd network_override = Inr p"
  obtains profile where "input = JStr profile" | object where "input = JObj object"
  using assms
  by (elim normalize_policyE)
    (auto simp: normalize_requested_policy_def result_simps as_str_def split: json.splits)

lemma normalized_environment_sound:
  assumes "normalize_policy limits pl input cwd network_override = Inr p"
  shows "env_inherit (pol_environment p) = ''minimal'' \<and>
    list_all (wf_env_entry (env_scrub (pol_environment p))) (env_set (pol_environment p)) \<and>
    length (env_set (pol_environment p)) \<le> MAX_ENV_ENTRIES \<and>
    sorted (map fst (env_set (pol_environment p)))"
  using assms
proof (cases rule: normalize_policy_input)
  case (1 profile)
  with assms show ?thesis
    by (auto elim: normalize_namedE simp: default_environment_def)
next
  case (2 object)
  obtain q where "inline_policy pl object cwd network_override = Inr q"
    and eq: "pol_environment p = pol_environment q"
    using assms unfolding 2 by (rule normalize_inlineE)
  then obtain environment where
    "inline_environment environment (net_mode (pol_network q)) = Inr (pol_environment q)"
    by (elim inline_policy_sections)
  from inline_environment_sound [OF this] show ?thesis by (simp add: eq)
qed

lemma normalized_environment_entries:
  assumes "normalize_policy limits pl input cwd network_override = Inr p" "wf_json input"
  shows "wf_entries (env_set (pol_environment p))"
  using assms(1)
proof (cases rule: normalize_policy_input)
  case (1 profile)
  with assms show ?thesis
    by (auto elim: normalize_namedE simp: default_environment_def wf_entries_def)
next
  case (2 object)
  obtain q where "inline_policy pl object cwd network_override = Inr q"
    and eq: "pol_environment p = pol_environment q"
    using assms(1) unfolding 2 by (rule normalize_inlineE)
  then obtain environment where
    env: "inline_environment environment (net_mode (pol_network q)) = Inr (pol_environment q)"
    and obj: "optional_object object ''environment'' = Inr environment"
    by (elim inline_policy_sections)
  have "wf_map s" if "environment = Some m" "obj_get m ''set'' = Some (JObj s)" for m s
  proof -
    have "obj_get object ''environment'' = Some (JObj m)"
      using obj that(1) by (auto simp: optional_object_def result_simps split: option.splits)
    with assms(2) have "wf_json (JObj m)" unfolding 2 by (rule wf_json_member)
    then have "wf_json (JObj s)" using that(2) by (rule wf_json_member)
    then show ?thesis by simp
  qed
  with inline_environment_sound(6) [OF env] show ?thesis by (auto simp: eq)
qed

text \<open>The canonical form is read back section by section.\<close>

lemma canonical_json_inj:
  assumes "canonical_json p = canonical_json q"
    and "wf_entries (env_set (pol_environment p))" "wf_entries (env_set (pol_environment q))"
  shows "p = q\<lparr>pol_source := pol_source p\<rparr>"
proof -
  have "json_index (canonical_json p) k = json_index (canonical_json q) k" for k
    by (simp add: assms(1))
  from this [of "''id''"] this [of "''sandbox_level''"] this [of "''filesystem''"]
    this [of "''network''"] this [of "''environment''"] this [of "''resources''"]
    this [of "''process''"] this [of "''approval''"]
  have "pol_id p = pol_id q" "pol_sandbox_level p = pol_sandbox_level q"
    "pol_filesystem p = pol_filesystem q" "pol_network p = pol_network q"
    "pol_environment p = pol_environment q" "pol_resources p = pol_resources q"
    "pol_process p = pol_process q" "pol_approval p = pol_approval q"
    using assms(2,3)
    by (simp_all add: canonical_json_def level_as_str_inj filesystem_json_inj network_json_inj
        environment_json_inj resources_json_inj process_json_inj approval_json_inj)
  then show ?thesis by (simp add: sandbox_policy.equality)
qed

lemma canonical_json_source: "canonical_json (p\<lparr>pol_source := source\<rparr>) = canonical_json p"
  by (simp add: canonical_json_def required_backend_feature_names_def
      required_backend_features_def runtime_root_mode_def allows_local_execution_def)

section \<open>A sample policy\<close>

text \<open>
  An inline policy that uses every section, for the concrete instances of the properties. The
  limits that only occur in messages are unfolded to their digits for evaluation.
\<close>

lemma dec_env_limits [code_unfold]:
  "dec MAX_ENV_VALUE_BYTES = ''4096''" "dec MAX_ENV_ENTRIES = ''64''"
  by (simp_all add: MAX_ENV_VALUE_BYTES_def MAX_ENV_ENTRIES_def dec.simps char_of_def bit_0)

definition sample_policy :: jmap where
  "sample_policy = obj_of
     [(''filesystem'', json_object [(''write'', json_strs [''/w'', ''~''])]),
      (''network'', json_object [(''mode'', JStr ''proxy''), (''routes'', json_strs [''x''])]),
      (''environment'', json_object [(''set'', json_object [(''LOG'', JStr ''v'')])]),
      (''resources'', json_object [(''memory_bytes'', json_u64 7)]),
      (''approval'', json_object [(''on_broad_write'', JStr ''request'')])]"

lemma normalize_policy_is_ok:
  "is_ok (normalize_policy limits pl input cwd network_override) =
   is_ok (normalize_requested_policy pl input cwd network_override)"
  by (cases "normalize_requested_policy pl input cwd network_override")
    (simp_all add: normalize_policy_def is_ok_def Let_def)

lemma sample_policy_accepted:
  obtains p where
    "normalize_policy default_limits Linux (JObj sample_policy) ''/w'' None = Inr p"
proof -
  have "is_ok (inline_policy Linux sample_policy ''/w'' None)" by code_simp
  then have "is_ok (normalize_policy default_limits Linux (JObj sample_policy) ''/w'' None)"
    by (simp add: normalize_policy_is_ok normalize_requested_policy_def as_str_def)
  then show ?thesis using that by (auto simp: is_ok_iff)
qed

text \<open>The profile \<open>read-only\<close> written out as an inline policy.\<close>

definition read_only_twin :: jmap where
  "read_only_twin = obj_of [(''id'', JStr ''read-only''), (''sandbox_level'', JStr ''read-only'')]"

lemma read_only_twins:
  obtains p q where
    "normalize_policy default_limits Linux (JStr ''read-only'') ''/w'' None = Inr p"
    "normalize_policy default_limits Linux (JObj read_only_twin) ''/w'' None = Inr q"
    "canonical_json p = canonical_json q"
proof -
  obtain p where p: "named_profile Linux ''read-only'' ''/w'' None = Inr p"
    by (simp add: named_profile_def level_from_str_def Let_def)
  have "is_ok (named_profile Linux ''read-only'' ''/w'' None) \<and>
    inline_policy Linux read_only_twin ''/w'' None =
      rbind (named_profile Linux ''read-only'' ''/w'' None) (\<lambda>p. Inr (p\<lparr>pol_source := Inline\<rparr>))"
    by code_simp
  with p have i: "inline_policy Linux read_only_twin ''/w'' None = Inr (p\<lparr>pol_source := Inline\<rparr>)"
    by simp
  obtain P where P: "normalize_policy default_limits Linux (JStr ''read-only'') ''/w'' None = Inr P"
    using p by (simp add: normalize_policy_def normalize_requested_policy_def Let_def)
  moreover from P p i
  have "normalize_policy default_limits Linux (JObj read_only_twin) ''/w'' None
      = Inr (P\<lparr>pol_source := Inline\<rparr>)"
    by (auto simp: normalize_policy_def normalize_requested_policy_def as_str_def Let_def)
  ultimately show ?thesis
    by (rule that) (simp add: canonical_json_source)
qed

section \<open>Properties\<close>

text \<open>
  The broad roots that an inline policy may name: the wildcard, a single separator, a home directory
  as \<open>~\<close> or \<open>$HOME\<close> in any case, and a drive, the last three with any number of separators behind.
\<close>

definition broad_spelling :: "string \<Rightarrow> bool" where
  "broad_spelling root \<longleftrightarrow>
     root = ''*'' \<or> root = ''/'' \<or> root = [CHR 0x5C] \<or>
     (\<exists>base seps. root = base @ seps \<and> list_all is_path_sep seps \<and>
        (to_ascii_lowercase base = ''~'' \<or> to_ascii_lowercase base = ''$home'' \<or> (\<exists>drive. base = drive @ '':'')))"

lemma trim_end_split: "\<exists>seps. s = trim_end_matches P s @ seps \<and> list_all P seps"
proof (intro exI conjI)
  show "s = trim_end_matches P s @ rev (takeWhile P (rev s))"
    unfolding trim_end_matches_def by (metis rev_append rev_rev_ident takeWhile_dropWhile_id)
  show "list_all P (rev (takeWhile P (rev s)))"
    by (auto simp: list_all_iff dest: set_takeWhileD)
qed

lemma trim_end_append:
  assumes "base \<noteq> []" "\<not> P (last base)" "list_all P seps"
  shows "trim_end_matches P (base @ seps) = base"
proof -
  obtain front c where base: "base = front @ [c]" using assms(1) by (cases base rule: rev_cases) auto
  have "dropWhile P (rev seps @ c # rev front) = dropWhile P (c # rev front)"
    using assms(3) by (intro dropWhile_append2) (simp add: list_all_iff)
  with assms(2) base show ?thesis by (simp add: trim_end_matches_def)
qed

lemma ascii_lower_last: "base \<noteq> [] \<Longrightarrow> last (to_ascii_lowercase base) = ascii_lower (last base)"
  by (simp add: to_ascii_lowercase_def last_map)

lemma ascii_lower_sep: "is_path_sep c \<Longrightarrow> ascii_lower c = c"
  by (auto simp: is_path_sep_def ascii_lower_def byte_of_def)

lemma lower_colon: "ascii_lower c = CHR '':'' \<longleftrightarrow> c = CHR '':''"
proof -
  have "byte_of (ascii_lower c) = byte_of CHR '':'' \<longleftrightarrow> byte_of c = byte_of CHR '':''"
    by (auto simp: ascii_lower_def byte_of_def)
  then show ?thesis by (metis byte_of_def of_char_eq_iff)
qed

lemma broad_spelling_iff: "is_broad_write_root root \<longleftrightarrow> broad_spelling root"
proof -
  let ?home = "\<lambda>base. to_ascii_lowercase base = ''~'' \<or> to_ascii_lowercase base = ''$home'' \<or> (\<exists>drive. base = drive @ '':'')"
  have ends: "ends_with (to_ascii_lowercase base) '':'' \<longleftrightarrow> (\<exists>drive. base = drive @ '':'')" for base
    by (cases base rule: rev_cases) (auto simp: ends_with_iff to_ascii_lowercase_def lower_colon)
  have trimmed: "trim_end_matches is_path_sep (base @ seps) = base"
    if home: "?home base" and seps: "list_all is_path_sep seps" for base seps
  proof (rule trim_end_append [OF _ _ seps])
    show ne: "base \<noteq> []" using home by (auto simp: to_ascii_lowercase_def)
    have "ascii_lower (last base) \<in> {CHR ''~'', CHR ''e'', CHR '':''}"
      using home ascii_lower_last [OF ne] by (auto simp: ascii_lower_def byte_of_def)
    then show "\<not> is_path_sep (last base)" using ascii_lower_sep [of "last base"] by (auto simp: is_path_sep_def)
  qed
  have "?home (trim_end_matches is_path_sep root) \<longleftrightarrow>
      (\<exists>base seps. root = base @ seps \<and> list_all is_path_sep seps \<and> ?home base)"
    using trim_end_split [of root is_path_sep] trimmed by metis
  then show ?thesis
    unfolding is_broad_write_root_def broad_spelling_def Let_def ends by blast
qed

text \<open>
  C8: an inline policy that is accepted is confined. Every path of every filesystem list is
  non-empty and has no parent component; the filesystem is unrestricted exactly at the level
  \<open>danger-full-access\<close>; and below that level a write root that is the wildcard, a single separator, a
  home directory or a drive makes the policy one that needs an approval before it runs. Other
  spellings of a root, such as two separators, are not recognised by the code.
\<close>

theorem inline_filesystem_is_confined:
  assumes "normalize_policy limits pl (JObj object) cwd network_override = Inr p"
  shows "wf_filesystem pl (pol_filesystem p) \<and>
    (fs_unrestricted (pol_filesystem p) \<longleftrightarrow> pol_sandbox_level p = DangerFullAccess) \<and>
    (\<forall>root \<in> set (fs_write (pol_filesystem p)). broad_spelling root \<and> pol_sandbox_level p \<noteq> DangerFullAccess \<longrightarrow>
       requires_broad_write_approval p)"
proof -
  obtain q where q: "inline_policy pl object cwd network_override = Inr q"
    and eq: "pol_sandbox_level p = pol_sandbox_level q" "pol_filesystem p = pol_filesystem q"
      "pol_approval p = pol_approval q"
    using assms by (elim normalize_inlineE)
  obtain filesystem where
    "inline_filesystem pl filesystem cwd (pol_sandbox_level q) (pol_approval q)
       = Inr (pol_filesystem q)"
    using q by (elim inline_policy_sections)
  from inline_filesystem_sound [OF this] show ?thesis
    by (auto simp: eq requires_broad_write_approval_def list_ex_iff broad_spelling_iff)
qed

theorem inline_filesystem_is_confined_witness:
  "\<exists>p. normalize_policy default_limits Linux (JObj sample_policy) ''/w'' None = Inr p \<and>
     wf_filesystem Linux (pol_filesystem p) \<and> requires_broad_write_approval p"
proof -
  obtain p where p: "normalize_policy default_limits Linux (JObj sample_policy) ''/w'' None = Inr p"
    by (rule sample_policy_accepted)
  obtain q where q: "inline_policy Linux sample_policy ''/w'' None = Inr q"
    and eq: "pol_sandbox_level p = pol_sandbox_level q" "pol_filesystem p = pol_filesystem q"
    using p by (elim normalize_inlineE)
  have "case inline_policy Linux sample_policy ''/w'' None of
      Inr q \<Rightarrow> ''~'' \<in> set (fs_write (pol_filesystem q)) \<and> pol_sandbox_level q \<noteq> DangerFullAccess | Inl _ \<Rightarrow> False" by code_simp
  with q have home: "''~'' \<in> set (fs_write (pol_filesystem p))" "pol_sandbox_level p \<noteq> DangerFullAccess" by (simp_all add: eq)
  have "broad_spelling ''~''" unfolding broad_spelling_iff [symmetric] by code_simp
  with inline_filesystem_is_confined [OF p] p home show ?thesis by blast
qed

text \<open>
  C24: the network of a normalized policy, named or inline. An override of the command line or the
  request decides the mode. Without one, a named profile and an inline policy with no network section
  get the default of their level; a network section that is a text, or an object with a mode, gives the
  mode it names; and an object without a mode gives unmanaged, whatever the level. Routes occur only in
  proxy mode, no host bypasses the proxy, proxy mode sets the proxy variables in the environment, and a
  backend that can deny direct connections is required exactly when the sandbox restricts the network.
\<close>

theorem network_mode_is_enforced:
  assumes "normalize_policy limits pl input cwd network_override = Inr p"
  shows "(case network_override of
       Some n \<Rightarrow> net_mode (pol_network p) = n
     | None \<Rightarrow>
         (case input of
            JStr profile \<Rightarrow> net_mode (pol_network p) = default_network_mode (pol_sandbox_level p)
          | JObj object \<Rightarrow>
              (case obj_get object ''network'' of
                 None \<Rightarrow> net_mode (pol_network p) = default_network_mode (pol_sandbox_level p)
               | Some (JStr mode) \<Rightarrow> mode = mode_as_str (net_mode (pol_network p))
               | Some (JObj section) \<Rightarrow>
                   (case obj_get section ''mode'' of
                      None \<Rightarrow> net_mode (pol_network p) = Unmanaged
                    | Some mode \<Rightarrow> mode = JStr (mode_as_str (net_mode (pol_network p))))
               | Some _ \<Rightarrow> False)
          | _ \<Rightarrow> False)) \<and>
    (net_routes (pol_network p) \<noteq> [] \<longrightarrow> net_mode (pol_network p) = Proxy) \<and>
    net_direct_allow_hosts (pol_network p) = [] \<and>
    (net_mode (pol_network p) = Proxy \<longrightarrow> env_proxy (pol_environment p)) \<and>
    (DirectNetworkDeny \<in> set (required_backend_features p) \<longleftrightarrow>
       pol_sandbox_level p \<noteq> DangerFullAccess \<and> net_mode (pol_network p) \<noteq> Unmanaged)"
proof -
  have deny: "DirectNetworkDeny \<in> set (required_backend_features p) \<longleftrightarrow>
      pol_sandbox_level p \<noteq> DangerFullAccess \<and> net_mode (pol_network p) \<noteq> Unmanaged"
    by (auto simp: required_backend_features_def allows_local_execution_def split: network_mode.splits)
  consider (named) profile where "input = JStr profile" | (inline) object where "input = JObj object"
    using normalize_policy_input [OF assms] by blast
  then show ?thesis
  proof cases
    case named
    from assms [unfolded named] show ?thesis
      by (elim normalize_namedE) (auto simp: named deny default_network_def default_environment_def split: option.splits)
  next
    case inline
    obtain q where q: "inline_policy pl object cwd network_override = Inr q"
      and eq: "pol_sandbox_level p = pol_sandbox_level q" "pol_network p = pol_network q"
        "pol_environment p = pol_environment q"
      using assms [unfolded inline] by (elim normalize_inlineE)
    obtain environment inline_network where
      env: "inline_environment environment (net_mode (pol_network q)) = Inr (pol_environment q)"
      and mode: "inline_network_mode (obj_get object ''network'') = map_option Inr inline_network"
      and net: "inline_network_policy (obj_get object ''network'')
         (case network_override of Some n \<Rightarrow> n
          | None \<Rightarrow> (case inline_network of Some n \<Rightarrow> n
                     | None \<Rightarrow> default_network_mode (pol_sandbox_level q)))
         = Inr (pol_network q)"
      using q by (elim inline_policy_sections)
    note sound = inline_network_policy_sound [OF net] inline_environment_sound(2) [OF env]
    have section_mode: "case obj_get object ''network'' of
         None \<Rightarrow> inline_network = None
       | Some (JStr m) \<Rightarrow> (\<exists>n. inline_network = Some n \<and> m = mode_as_str n)
       | Some (JObj ob) \<Rightarrow> (\<exists>n. inline_network = Some n \<and>
           (case obj_get ob ''mode'' of None \<Rightarrow> n = Unmanaged | Some m \<Rightarrow> m = JStr (mode_as_str n)))
       | Some _ \<Rightarrow> False"
      using mode inline_network_mode_means [of "obj_get object ''network''" inline_network] by simp
    show ?thesis
      using sound section_mode by (auto simp: inline eq deny [unfolded eq] split: option.splits json.splits)
  qed
qed

theorem network_mode_is_enforced_witness:
  "(\<exists>p. normalize_policy default_limits Linux (JObj sample_policy) ''/w'' None = Inr p \<and>
     net_mode (pol_network p) = Proxy \<and> env_proxy (pol_environment p)) \<and>
   (\<exists>p. normalize_policy default_limits Linux (JStr ''read-only'') ''/w'' None = Inr p \<and>
     net_mode (pol_network p) = default_network_mode (pol_sandbox_level p))"
proof -
  obtain p where p: "normalize_policy default_limits Linux (JObj sample_policy) ''/w'' None = Inr p"
    by (rule sample_policy_accepted)
  have "obj_get sample_policy ''network'' = Some (json_object [(''mode'', JStr ''proxy''), (''routes'', json_strs [''x''])])"
    "obj_get (case json_object [(''mode'', JStr ''proxy''), (''routes'', json_strs [''x''])] of JObj m \<Rightarrow> m) ''mode'' = Some (JStr ''proxy'')"
    by code_simp+
  then have "''proxy'' = mode_as_str (net_mode (pol_network p))"
    using network_mode_is_enforced [OF p] by (simp add: json_object_def)
  then have "net_mode (pol_network p) = Proxy" by (cases "net_mode (pol_network p)") simp_all
  moreover obtain r where r: "normalize_policy default_limits Linux (JStr ''read-only'') ''/w'' None = Inr r"
    by (rule read_only_twins)
  ultimately show ?thesis using network_mode_is_enforced [OF p] network_mode_is_enforced [OF r] p r by simp
qed

text \<open>
  C26: the environment section, for a named profile or an inline policy. The inherited
  environment is the minimal one; at most 64 variables are set, in the order of their names, each
  with a portable name of at most 128 bytes that no scrub pattern of the policy matches and a value
  of at most 4096 bytes without a NUL.
\<close>

theorem policy_environment_is_scrubbed:
  assumes "normalize_policy limits pl input cwd network_override = Inr p"
  shows "env_inherit (pol_environment p) = ''minimal'' \<and>
    list_all (wf_env_entry (env_scrub (pol_environment p))) (env_set (pol_environment p)) \<and>
    length (env_set (pol_environment p)) \<le> MAX_ENV_ENTRIES \<and>
    sorted (map fst (env_set (pol_environment p)))"
  using assms by (rule normalized_environment_sound)

theorem policy_environment_is_scrubbed_witness:
  "\<exists>p. normalize_policy default_limits Linux (JObj sample_policy) ''/w'' None = Inr p \<and>
     list_all (wf_env_entry (env_scrub (pol_environment p))) (env_set (pol_environment p))"
proof -
  obtain p where p: "normalize_policy default_limits Linux (JObj sample_policy) ''/w'' None = Inr p"
    by (rule sample_policy_accepted)
  with policy_environment_is_scrubbed [OF p] show ?thesis by blast
qed

text \<open>
  Resources and process. Whatever was requested, the policy carries an output limit and it
  is at most the deployment's; a memory or processor limit is never zero and never given at the
  level \<open>danger-full-access\<close>, where no backend could enforce it; the process section always is the
  default of the level, so that a sandboxed child dies with its parent.
\<close>

theorem policy_resources_are_bounded:
  assumes "normalize_policy limits pl input cwd network_override = Inr p"
  shows "(\<exists>n. res_max_output_bytes (pol_resources p) = Some n \<and> unat n \<le> max_output_bytes limits) \<and>
    res_memory_bytes (pol_resources p) \<noteq> Some 0 \<and> res_cpu_percent (pol_resources p) \<noteq> Some 0 \<and>
    (allows_local_execution p \<longrightarrow>
       res_memory_bytes (pol_resources p) = None \<and> res_cpu_percent (pol_resources p) = None) \<and>
    pol_process p = default_process (pol_sandbox_level p)"
proof -
  have le: "unat (min n (of_nat k) :: 64 word) \<le> k" for n k
  proof -
    have "unat (min n (of_nat k) :: 64 word) \<le> unat (of_nat k :: 64 word)"
      by (simp add: word_le_nat_alt [symmetric])
    also have "\<dots> \<le> k" by (simp add: unat_of_nat)
    finally show ?thesis .
  qed
  have out: "\<exists>n. res_max_output_bytes (pol_resources p) = Some n \<and> unat n \<le> max_output_bytes limits"
    using assms by (elim normalize_policyE) (simp add: le)
  from assms show ?thesis
  proof (cases rule: normalize_policy_input)
    case (1 profile)
    with assms out show ?thesis
      by (auto elim!: normalize_namedE simp: default_resources_def)
  next
    case (2 object)
    obtain q where q: "inline_policy pl object cwd network_override = Inr q"
      and eq: "pol_sandbox_level p = pol_sandbox_level q" "pol_process p = pol_process q"
        "res_memory_bytes (pol_resources p) = res_memory_bytes (pol_resources q)"
        "res_cpu_percent (pol_resources p) = res_cpu_percent (pol_resources q)"
      using assms unfolding 2 by (rule normalize_inlineE)
    obtain resources process where
      "inline_resources resources (pol_sandbox_level q) = Inr (pol_resources q)"
      "inline_process process (pol_sandbox_level q) = Inr (pol_process q)"
      using q by (elim inline_policy_sections)
    from inline_resources_sound [OF this(1)] inline_process_sound [OF this(2)] out
    show ?thesis by (auto simp: eq allows_local_execution_def)
  qed
qed

theorem policy_resources_are_bounded_witness:
  "\<exists>p n. normalize_policy default_limits Linux (JObj sample_policy) ''/w'' None = Inr p \<and>
     res_max_output_bytes (pol_resources p) = Some n \<and> unat n \<le> max_output_bytes default_limits"
proof -
  obtain p where p: "normalize_policy default_limits Linux (JObj sample_policy) ''/w'' None = Inr p"
    by (rule sample_policy_accepted)
  with policy_resources_are_bounded [OF p] show ?thesis by blast
qed

text \<open>
  C40: the canonical form, whose digest is the policy hash in every audit record, determines the
  normalized policy: two requests with the same canonical form run under the same level,
  filesystem, network, environment, resource, process and approval rules. Only how the policy was
  given, by name or inline, is not part of it.
\<close>

theorem canonical_form_determines_policy:
  assumes "normalize_policy limits pl input cwd network_override = Inr p"
    and "normalize_policy limits' pl' input' cwd' network_override' = Inr q"
    and "wf_json input" "wf_json input'"
    and "canonical_json p = canonical_json q"
  shows "p = q\<lparr>pol_source := pol_source p\<rparr>"
  using assms(5) normalized_environment_entries [OF assms(1,3)]
    normalized_environment_entries [OF assms(2,4)]
  by (rule canonical_json_inj)

theorem canonical_form_determines_policy_witness:
  "\<exists>p q. normalize_policy default_limits Linux (JStr ''read-only'') ''/w'' None = Inr p \<and>
     normalize_policy default_limits Linux (JObj read_only_twin) ''/w'' None = Inr q \<and>
     p = q\<lparr>pol_source := Named\<rparr>"
proof -
  obtain p q where
    p: "normalize_policy default_limits Linux (JStr ''read-only'') ''/w'' None = Inr p" and
    q: "normalize_policy default_limits Linux (JObj read_only_twin) ''/w'' None = Inr q" and
    eq: "canonical_json p = canonical_json q"
    by (rule read_only_twins)
  have wf: "wf_json (JStr ''read-only'')" "wf_json (JObj read_only_twin)" by code_simp+
  have "pol_source p = Named" using p by (rule normalize_namedE)
  with p q canonical_form_determines_policy [OF p q wf eq] show ?thesis by auto
qed

text \<open>
  An inline policy with a key the format does not have is refused, and so is a value that
  is neither a profile name nor an object: nothing of a request is silently ignored.
\<close>

theorem unknown_policy_keys_are_rejected:
  assumes "normalize_policy limits pl input cwd network_override = Inr p"
  shows "(\<exists>profile. input = JStr profile \<and> level_from_str profile = Some (pol_sandbox_level p)) \<or>
    (\<exists>object. input = JObj object \<and> set (obj_keys object) \<subseteq> set policy_keys)"
  using assms
proof (cases rule: normalize_policy_input)
  case (1 profile)
  with assms show ?thesis by (auto elim: normalize_namedE)
next
  case (2 object)
  obtain q where "inline_policy pl object cwd network_override = Inr q"
    using assms unfolding 2 by (rule normalize_inlineE)
  then have "validate_keys object ''policy'' policy_keys = Inr ()"
    unfolding inline_policy_def by (elim rbind_InrE) simp
  then have "set (obj_keys object) \<subseteq> set policy_keys"
    by (auto simp: validate_keys_def result_simps)
  with 2 show ?thesis by blast
qed

theorem unknown_policy_keys_are_rejected_witness:
  "\<exists>object. JObj sample_policy = JObj object \<and> set (obj_keys object) \<subseteq> set policy_keys"
proof -
  obtain p where p: "normalize_policy default_limits Linux (JObj sample_policy) ''/w'' None = Inr p"
    by (rule sample_policy_accepted)
  from unknown_policy_keys_are_rejected [OF p] show ?thesis by blast
qed

text \<open>
  The four profiles. A profile name is accepted exactly when it is the name of a level; the
  policy then has that level, writes nowhere at \<open>read-only\<close>, only below the working directory at
  the two workspace levels, where the repository and audit directories are denied, and everywhere at
  \<open>danger-full-access\<close>; the containing level also has no network unless the request names a mode.
\<close>

theorem named_profiles:
  "normalize_policy limits pl (JStr profile) cwd network_override = Inr p \<Longrightarrow>
     profile = level_as_str (pol_sandbox_level p) \<and> pol_source p = Named \<and>
     fs_write (pol_filesystem p) =
       (case pol_sandbox_level p of ReadOnly \<Rightarrow> [] | DangerFullAccess \<Rightarrow> [''*''] | _ \<Rightarrow> [cwd]) \<and>
     (protects_workspace (pol_sandbox_level p) \<longrightarrow>
        fs_protect_vcs (pol_filesystem p) \<and>
        fs_deny (pol_filesystem p) = map (path_join pl cwd) PROTECTED_WORKSPACE_SUBPATHS) \<and>
     (network_override = None \<longrightarrow>
        (net_mode (pol_network p) = Disabled \<longleftrightarrow> pol_sandbox_level p = WorkspaceContained))"
  by (elim normalize_namedE)
    (auto simp: level_from_str_Some default_network_def protects_workspace_def
      protected_subpaths_def split: sandbox_level.splits)

theorem named_profiles_witness:
  "\<exists>p. normalize_policy default_limits Linux (JStr ''workspace-contained'') ''/w'' None = Inr p \<and>
     fs_write (pol_filesystem p) = [''/w''] \<and> net_mode (pol_network p) = Disabled"
proof -
  have "is_ok (normalize_policy default_limits Linux (JStr ''workspace-contained'') ''/w'' None)"
    unfolding normalize_policy_is_ok
    by (simp add: normalize_requested_policy_def named_profile_def level_from_str_def Let_def
        is_ok_iff)
  then obtain p where
    p: "normalize_policy default_limits Linux (JStr ''workspace-contained'') ''/w'' None = Inr p"
    by (auto simp: is_ok_iff)
  from named_profiles [OF p] p show ?thesis
    by (cases "pol_sandbox_level p") auto
qed

text \<open>
  Two places where the broad-root rule does not hold, kept as facts about the code. The
  predicate compares the entry with a single separator, so the same root written with two of them
  is accepted for writing without an approval; and a named profile takes its write root from the
  working directory without the check that the same inline policy is refused by.
\<close>

theorem broad_write_root_gaps:
  "\<not> is_broad_write_root ''//'' \<and>
   is_ok (normalize_policy limits Linux (JObj (obj_of [(''filesystem'',
     json_object [(''write'', json_strs [''//''])])])) ''/w'' None) \<and>
   is_ok (normalize_policy limits Linux (JStr ''workspace-write'') ''/'' None) \<and>
   is_broad_write_root ''/'' \<and>
   \<not> is_ok (normalize_policy limits Linux (JObj (obj_of
     [(''sandbox_level'', JStr ''workspace-write'')])) ''/'' None)"
proof -
  have "\<not> is_broad_write_root ''//''" "is_broad_write_root ''/''"
    "is_ok (inline_policy Linux (obj_of [(''filesystem'',
       json_object [(''write'', json_strs [''//''])])]) ''/w'' None)"
    "is_ok (named_profile Linux ''workspace-write'' ''/'' None)"
    "\<not> is_ok (inline_policy Linux (obj_of [(''sandbox_level'', JStr ''workspace-write'')]) ''/'' None)"
    by code_simp+
  then show ?thesis
    by (simp add: normalize_policy_is_ok normalize_requested_policy_def as_str_def)
qed

end
