(* ===== verification/Cli_Arguments.thy ===== *)
theory Cli_Arguments
  imports Sandbox_Policy
begin

text \<open>
  \<open>src/cli.rs\<close>: the arguments of \<open>runseal exec\<close> and \<open>runseal explain-policy\<close>. The loop over the
  argument index is a recursion over the remaining arguments; \<open>args.get(index + 1)\<close> is then their
  second element. The current directory is a parameter, a timeout is its milliseconds.
\<close>

record cli_exec_request =
  cli_json :: bool
  cli_events :: bool
  cli_policy :: string
  cli_network :: "network_mode option"
  cli_cwd :: string
  cli_timeout :: "nat option"
  cli_stdin_inherit :: bool
  cli_pty :: bool
  cli_control_fd3 :: bool
  cli_command :: "string list"

record cli_policy_request =
  clip_policy :: string
  clip_network :: "network_mode option"
  clip_cwd :: string

definition parse_network_mode :: "string \<Rightarrow> (string, network_mode) result" where
  "parse_network_mode s = ok_or (mode_from_str s) ''network mode must be unmanaged, disabled, or proxy''"

definition parse_timeout_ms :: "string \<Rightarrow> (string, nat) result" where
  "parse_timeout_ms s = ok_or (parse_u64 s) ''timeout must be an integer in milliseconds''"

definition finish_exec :: "cli_exec_request \<Rightarrow> string list \<Rightarrow> (string, cli_exec_request) result" where
  "finish_exec r command =
     (if command = [] then Inl ''exec requires a command after --''
      else if cli_json r \<and> cli_events r then Inl ''--json and --events are mutually exclusive''
      else if cli_control_fd3 r \<and> (cli_pty r \<or> cli_json r \<or> cli_events r)
        then Inl ''--control-fd requires plain pipe output''
      else if cli_pty r \<and> (\<not> cli_stdin_inherit r \<or> cli_json r \<or> cli_events r)
        then Inl ''--pty requires --stdin inherit and plain output''
      else if cli_stdin_inherit r \<and> (cli_json r \<or> cli_events r)
        then Inl ''--stdin inherit requires plain output''
      else Inr (r\<lparr>cli_command := command\<rparr>))"

fun exec_loop :: "cli_exec_request \<Rightarrow> string list \<Rightarrow> (string, cli_exec_request) result" where
  "exec_loop r [] = Inl ''exec requires -- followed by a command''"
| "exec_loop r (arg # rest) =
     (if arg = ''--json'' then exec_loop (r\<lparr>cli_json := True\<rparr>) rest
      else if arg = ''--events'' then exec_loop (r\<lparr>cli_events := True\<rparr>) rest
      else if arg = ''--policy'' then
        (case rest of
           [] \<Rightarrow> Inl ''--policy requires a value''
         | v # rest \<Rightarrow> exec_loop (r\<lparr>cli_policy := v\<rparr>) rest)
      else if arg = ''--network'' then
        (case rest of
           [] \<Rightarrow> Inl ''--network requires a value''
         | v # rest \<Rightarrow> (case parse_network_mode v of
                        Inl e \<Rightarrow> Inl e
                      | Inr mode \<Rightarrow> exec_loop (r\<lparr>cli_network := Some mode\<rparr>) rest))
      else if arg = ''--cwd'' then
        (case rest of
           [] \<Rightarrow> Inl ''--cwd requires a value''
         | v # rest \<Rightarrow> exec_loop (r\<lparr>cli_cwd := v\<rparr>) rest)
      else if arg = ''--timeout-ms'' then
        (case rest of
           [] \<Rightarrow> Inl ''--timeout-ms requires a value''
         | v # rest \<Rightarrow> (case parse_timeout_ms v of
                        Inl e \<Rightarrow> Inl e
                      | Inr t \<Rightarrow> exec_loop (r\<lparr>cli_timeout := Some t\<rparr>) rest))
      else if arg = ''--control-fd'' then
        (case rest of
           [] \<Rightarrow> Inl ''--control-fd requires 3''
         | v # rest \<Rightarrow> if v = ''3'' then exec_loop (r\<lparr>cli_control_fd3 := True\<rparr>) rest
                      else Inl ''--control-fd requires 3'')
      else if arg = ''--pty'' then exec_loop (r\<lparr>cli_pty := True\<rparr>) rest
      else if arg = ''--stdin'' then
        (case rest of
           [] \<Rightarrow> Inl ''--stdin requires a value''
         | v # rest \<Rightarrow> if v = ''empty'' then exec_loop (r\<lparr>cli_stdin_inherit := False\<rparr>) rest
                      else if v = ''inherit'' then exec_loop (r\<lparr>cli_stdin_inherit := True\<rparr>) rest
                      else Inl ''--stdin must be empty or inherit'')
      else if arg = ''--'' then finish_exec r rest
      else Inl ''unknown exec argument'')"

declare exec_loop.simps(2) [simp del]

definition exec_defaults :: "string \<Rightarrow> cli_exec_request" where
  "exec_defaults current_dir =
     \<lparr>cli_json = False, cli_events = False, cli_policy = ''read-only'', cli_network = None,
      cli_cwd = current_dir, cli_timeout = None, cli_stdin_inherit = False, cli_pty = False,
      cli_control_fd3 = False, cli_command = []\<rparr>"

definition parse_exec_args :: "string \<Rightarrow> string list \<Rightarrow> (string, cli_exec_request) result" where
  "parse_exec_args current_dir args = exec_loop (exec_defaults current_dir) args"

fun policy_loop :: "cli_policy_request \<Rightarrow> string list \<Rightarrow> (string, cli_policy_request) result" where
  "policy_loop r [] = Inr r"
| "policy_loop r (arg # rest) =
     (if arg = ''--policy'' then
        (case rest of
           [] \<Rightarrow> Inl ''--policy requires a value''
         | v # rest \<Rightarrow> policy_loop (r\<lparr>clip_policy := v\<rparr>) rest)
      else if arg = ''--network'' then
        (case rest of
           [] \<Rightarrow> Inl ''--network requires a value''
         | v # rest \<Rightarrow> (case parse_network_mode v of
                        Inl e \<Rightarrow> Inl e
                      | Inr mode \<Rightarrow> policy_loop (r\<lparr>clip_network := Some mode\<rparr>) rest))
      else if arg = ''--cwd'' then
        (case rest of
           [] \<Rightarrow> Inl ''--cwd requires a value''
         | v # rest \<Rightarrow> policy_loop (r\<lparr>clip_cwd := v\<rparr>) rest)
      else Inl (''unknown explain-policy argument: '' @ arg))"

definition parse_policy_args :: "string \<Rightarrow> string list \<Rightarrow> (string, cli_policy_request) result" where
  "parse_policy_args current_dir args =
     policy_loop \<lparr>clip_policy = ''read-only'', clip_network = None, clip_cwd = current_dir\<rparr> args"

section \<open>What the parser accepts\<close>

definition valid_exec :: "cli_exec_request \<Rightarrow> bool" where
  "valid_exec r \<longleftrightarrow>
     cli_command r \<noteq> [] \<and> \<not> (cli_json r \<and> cli_events r) \<and>
     (cli_control_fd3 r \<longrightarrow> \<not> cli_pty r \<and> \<not> cli_json r \<and> \<not> cli_events r) \<and>
     (cli_pty r \<longrightarrow> cli_stdin_inherit r) \<and>
     (cli_stdin_inherit r \<longrightarrow> \<not> cli_json r \<and> \<not> cli_events r)"

lemma finish_exec_iff:
  "finish_exec r command = Inr r' \<longleftrightarrow>
     r' = r\<lparr>cli_command := command\<rparr> \<and> valid_exec (r\<lparr>cli_command := command\<rparr>)"
  by (auto simp: finish_exec_def valid_exec_def)

text \<open>One turn of the loop goes on with the arguments after the flag or after its value, or ends.\<close>

lemma exec_loop_step:
  assumes "exec_loop r (arg # rest) = Inr r'"
  shows "(\<exists>r1. exec_loop r1 rest = Inr r') \<or>
    (\<exists>v rest' r1. rest = v # rest' \<and> exec_loop r1 rest' = Inr r') \<or>
    (arg = ''--'' \<and> finish_exec r rest = Inr r')"
  using assms unfolding exec_loop.simps(2)
  by (elim if_InrE; (simp split: list.splits sum.splits if_splits; blast)?)

lemma exec_loop_sound:
  "exec_loop r args = Inr r' \<Longrightarrow> valid_exec r' \<and> (\<exists>pre. args = pre @ ''--'' # cli_command r')"
proof (induction args arbitrary: r rule: length_induct)
  case (1 args)
  show ?case
  proof (cases args)
    case (Cons arg rest)
    consider r1 where "exec_loop r1 rest = Inr r'"
      | v rest' r1 where "rest = v # rest'" "exec_loop r1 rest' = Inr r'"
      | "arg = ''--''" "finish_exec r rest = Inr r'"
      using exec_loop_step [of r arg rest r'] "1.prems" Cons by blast
    then show ?thesis
    proof cases
      case 1
      moreover have "length rest < length args" by (simp add: Cons)
      ultimately obtain pre where "valid_exec r'" "rest = pre @ ''--'' # cli_command r'"
        using "1.IH" by blast
      then show ?thesis by (auto simp: Cons intro!: exI [of _ "arg # pre"])
    next
      case 2
      have "length rest' < length args" by (simp add: Cons 2)
      then obtain pre where "valid_exec r'" "rest' = pre @ ''--'' # cli_command r'"
        using "1.IH" 2 by blast
      with 2 show ?thesis by (auto simp: Cons intro!: exI [of _ "arg # v # pre"])
    next
      case 3
      then show ?thesis by (auto simp: Cons finish_exec_iff intro!: exI [of _ "[]"])
    qed
  qed (use "1.prems" in simp)
qed

section \<open>Rendering a request\<close>

definition exec_args :: "cli_exec_request \<Rightarrow> string list" where
  "exec_args r =
     (if cli_json r then [''--json''] else []) @ (if cli_events r then [''--events''] else []) @
     [''--policy'', cli_policy r] @
     (case cli_network r of None \<Rightarrow> [] | Some mode \<Rightarrow> [''--network'', mode_as_str mode]) @
     [''--cwd'', cli_cwd r] @
     (case cli_timeout r of None \<Rightarrow> [] | Some t \<Rightarrow> [''--timeout-ms'', dec t]) @
     (if cli_control_fd3 r then [''--control-fd'', ''3''] else []) @
     (if cli_pty r then [''--pty''] else []) @
     [''--stdin'', if cli_stdin_inherit r then ''inherit'' else ''empty''] @
     ''--'' # cli_command r"

lemma exec_loop_flags:
  "exec_loop r (''--json'' # rest) = exec_loop (r\<lparr>cli_json := True\<rparr>) rest"
  "exec_loop r (''--events'' # rest) = exec_loop (r\<lparr>cli_events := True\<rparr>) rest"
  "exec_loop r (''--policy'' # v # rest) = exec_loop (r\<lparr>cli_policy := v\<rparr>) rest"
  "exec_loop r (''--network'' # mode_as_str m # rest) = exec_loop (r\<lparr>cli_network := Some m\<rparr>) rest"
  "exec_loop r (''--cwd'' # v # rest) = exec_loop (r\<lparr>cli_cwd := v\<rparr>) rest"
  "t < 2 ^ 64 \<Longrightarrow> exec_loop r (''--timeout-ms'' # dec t # rest) = exec_loop (r\<lparr>cli_timeout := Some t\<rparr>) rest"
  "exec_loop r (''--control-fd'' # ''3'' # rest) = exec_loop (r\<lparr>cli_control_fd3 := True\<rparr>) rest"
  "exec_loop r (''--pty'' # rest) = exec_loop (r\<lparr>cli_pty := True\<rparr>) rest"
  "exec_loop r (''--stdin'' # ''empty'' # rest) = exec_loop (r\<lparr>cli_stdin_inherit := False\<rparr>) rest"
  "exec_loop r (''--stdin'' # ''inherit'' # rest) = exec_loop (r\<lparr>cli_stdin_inherit := True\<rparr>) rest"
  "exec_loop r (''--'' # rest) = finish_exec r rest"
  by (simp_all add: exec_loop.simps(2) parse_network_mode_def parse_timeout_ms_def parse_u64_dec
      del: One_nat_def)

section \<open>Properties\<close>

text \<open>
  What \<open>runseal exec\<close> accepts. The command is exactly what follows a \<open>--\<close>, whatever it
  contains, so that no argument of the command is taken for an option, and it is not empty; JSON and event
  output exclude each other, a control channel needs plain pipe output, a terminal needs the
  inherited input, and that needs plain output.
\<close>

theorem exec_arguments_are_consistent:
  assumes "parse_exec_args current_dir args = Inr r"
  shows "(\<exists>options. args = options @ ''--'' # cli_command r) \<and> cli_command r \<noteq> [] \<and>
    \<not> (cli_json r \<and> cli_events r) \<and>
    (cli_control_fd3 r \<longrightarrow> \<not> cli_pty r \<and> \<not> cli_json r \<and> \<not> cli_events r) \<and>
    (cli_pty r \<longrightarrow> cli_stdin_inherit r) \<and>
    (cli_stdin_inherit r \<longrightarrow> \<not> cli_json r \<and> \<not> cli_events r)"
  using exec_loop_sound [OF assms [unfolded parse_exec_args_def]] by (simp add: valid_exec_def)

theorem exec_arguments_are_consistent_witness:
  "\<exists>r. parse_exec_args ''/w'' [''--json'', ''--'', ''ls'', ''--pty''] = Inr r \<and>
     \<not> cli_pty r \<and> (\<exists>options. [''--json'', ''--'', ''ls'', ''--pty''] = options @ ''--'' # cli_command r)"
proof -
  have p: "parse_exec_args ''/w'' [''--json'', ''--'', ''ls'', ''--pty''] =
      Inr ((exec_defaults ''/w'')\<lparr>cli_json := True, cli_command := [''ls'', ''--pty'']\<rparr>)"
    by (simp add: parse_exec_args_def exec_loop_flags exec_defaults_def finish_exec_def)
  from exec_arguments_are_consistent [OF p] p show ?thesis by (auto simp: exec_defaults_def)
qed

text \<open>
  Every consistent request can be written and is read back: rendering it as arguments and
  parsing them gives the request, in whatever directory the parser runs.
\<close>

theorem exec_arguments_round_trip:
  assumes "valid_exec r" "\<forall>t. cli_timeout r = Some t \<longrightarrow> t < 2 ^ 64"
  shows "parse_exec_args current_dir (exec_args r) = Inr r"
proof -
  have "parse_exec_args current_dir (exec_args r) = finish_exec
      \<lparr>cli_json = cli_json r, cli_events = cli_events r, cli_policy = cli_policy r,
       cli_network = cli_network r, cli_cwd = cli_cwd r, cli_timeout = cli_timeout r,
       cli_stdin_inherit = cli_stdin_inherit r, cli_pty = cli_pty r,
       cli_control_fd3 = cli_control_fd3 r, cli_command = []\<rparr> (cli_command r)"
    using assms(2)
    by (cases "cli_network r"; cases "cli_timeout r"; cases "cli_stdin_inherit r")
      (simp_all add: parse_exec_args_def exec_args_def exec_defaults_def exec_loop_flags)
  also have "\<dots> = Inr r"
    using assms(1) by (simp add: finish_exec_iff valid_exec_def)
  finally show ?thesis .
qed

theorem exec_arguments_round_trip_witness:
  "parse_exec_args ''/x'' (exec_args ((exec_defaults ''/w'')\<lparr>cli_timeout := Some 5, cli_command := [''ls'']\<rparr>)) =
     Inr ((exec_defaults ''/w'')\<lparr>cli_timeout := Some 5, cli_command := [''ls'']\<rparr>)"
  by (rule exec_arguments_round_trip) (simp_all add: valid_exec_def exec_defaults_def)

end
