(* ===== verification/Component_Interfaces.thy ===== *)
theory Component_Interfaces
  imports RunSeal_Prelude
begin

text \<open>
  The contracts several components share, each as a locale with the laws the provider promises and
  the consequences its clients use. A component is a state with operations; its operations are
  gathered in one step function, so that a history of calls is a list.
\<close>

section \<open>Histories of operations\<close>

definition run_ops :: "('s \<Rightarrow> 'o \<Rightarrow> 's) \<Rightarrow> 's \<Rightarrow> 'o list \<Rightarrow> 's" where
  "run_ops step s ops = foldl step s ops"

fun emitted :: "('s \<Rightarrow> 'o \<Rightarrow> 's) \<Rightarrow> ('s \<Rightarrow> 'o \<Rightarrow> 'b list) \<Rightarrow> 's \<Rightarrow> 'o list \<Rightarrow> 'b list" where
  "emitted step out s [] = []"
| "emitted step out s (x # ops) = out s x @ emitted step out (step s x) ops"

lemma run_ops_simps [simp]:
  "run_ops step s [] = s"
  "run_ops step s (x # ops) = run_ops step (step s x) ops"
  "run_ops step s (ops @ ops') = run_ops step (run_ops step s ops) ops'"
  by (simp_all add: run_ops_def)

lemma emitted_append:
  "emitted step out s (ops @ ops') =
     emitted step out s ops @ emitted step out (run_ops step s ops) ops'"
  by (induction ops arbitrary: s) auto

section \<open>Invariants\<close>

locale state_machine =
  fixes init :: 's and step :: "'s \<Rightarrow> 'o \<Rightarrow> 's" and inv :: "'s \<Rightarrow> bool"
  assumes inv_init: "inv init"
    and inv_step: "inv s \<Longrightarrow> inv (step s x)"
begin

lemma inv_run: "inv s \<Longrightarrow> inv (run_ops step s ops)"
  by (induction ops arbitrary: s) (auto intro: inv_step)

lemma inv_reachable: "inv (run_ops step init ops)"
  by (rule inv_run) (rule inv_init)

text \<open>A relation that one step establishes between its states holds along every history.\<close>

lemma run_relation:
  assumes "\<And>s. R s s" "\<And>s t u. R s t \<Longrightarrow> R t u \<Longrightarrow> R s u" "\<And>s x. inv s \<Longrightarrow> R s (step s x)"
    and "inv s"
  shows "R s (run_ops step s ops)"
  using assms(4)
proof (induction ops arbitrary: s)
  case Nil
  then show ?case by (simp add: assms(1))
next
  case (Cons x ops)
  then have "R (step s x) (run_ops step (step s x) ops)" by (auto intro: inv_step)
  with assms(3) [OF Cons.prems] show ?case by (auto intro: assms(2))
qed

end

section \<open>Byte streams\<close>

text \<open>
  A queue that takes chunks in and gives chunks out keeps the stream when what it holds, followed
  by what a step takes in, is what the step gives out followed by what is then held.
\<close>

locale fifo_stream = state_machine init step inv
  for init :: 's and step :: "'s \<Rightarrow> 'o \<Rightarrow> 's" and inv :: "'s \<Rightarrow> bool" +
  fixes taken given :: "'s \<Rightarrow> 'o \<Rightarrow> 'b list" and held :: "'s \<Rightarrow> 'b list"
  assumes held_init: "held init = []"
    and conservation: "inv s \<Longrightarrow> held s @ taken s x = given s x @ held (step s x)"
begin

lemma stream_run:
  "inv s \<Longrightarrow>
     held s @ emitted step taken s ops = emitted step given s ops @ held (run_ops step s ops)"
proof (induction ops arbitrary: s)
  case (Cons x ops)
  have "held s @ emitted step taken s (x # ops) =
      given s x @ (held (step s x) @ emitted step taken (step s x) ops)"
    using conservation [OF Cons.prems, of x] by (simp flip: append_assoc)
  with Cons.IH [OF inv_step [OF Cons.prems]] show ?case by simp
qed simp

lemma stream_from_init:
  "emitted step taken init ops = emitted step given init ops @ held (run_ops step init ops)"
  using stream_run [OF inv_init, of ops] by (simp add: held_init)

end

section \<open>Bounded stores\<close>

text \<open>A store that evicts until it fits: whatever is recorded, its size stays within the budget.\<close>

locale bounded_store = state_machine init step inv
  for init :: 's and step :: "'s \<Rightarrow> 'o \<Rightarrow> 's" and inv :: "'s \<Rightarrow> bool" +
  fixes size_of :: "'s \<Rightarrow> nat" and budget :: nat
  assumes inv_bounded: "inv s \<Longrightarrow> size_of s \<le> budget"
begin

lemma bounded_reachable: "size_of (run_ops step init ops) \<le> budget"
  by (rule inv_bounded) (rule inv_reachable)

end

section \<open>The newest entries that fit\<close>

text \<open>
  Several caches drop their oldest entries until the rest fits a budget. What remains is the longest
  suffix that fits, and dropping early loses nothing: trimming before appending a new entry and
  trimming again gives the same entries as trimming once.
\<close>

abbreviation weight :: "('a \<Rightarrow> nat) \<Rightarrow> 'a list \<Rightarrow> nat" where
  "weight w xs \<equiv> sum_list (map w xs)"

fun fit_suffix :: "('a \<Rightarrow> nat) \<Rightarrow> nat \<Rightarrow> 'a list \<Rightarrow> 'a list" where
  "fit_suffix w n [] = []"
| "fit_suffix w n (x # xs) = (if weight w (x # xs) \<le> n then x # xs else fit_suffix w n xs)"

lemma fit_suffix_fits: "weight w (fit_suffix w n xs) \<le> n"
  by (induction xs) auto

lemma fit_suffix_is_suffix: "\<exists>dropped. xs = dropped @ fit_suffix w n xs"
proof (induction xs)
  case (Cons x xs)
  then obtain dropped where "xs = dropped @ fit_suffix w n xs" ..
  then have "x # xs = (x # dropped) @ fit_suffix w n xs" by simp
  then show ?case by (metis append_Nil fit_suffix.simps(2))
qed simp

lemma fit_suffix_id: "weight w xs \<le> n \<Longrightarrow> fit_suffix w n xs = xs"
  by (cases xs) auto

lemma fit_suffix_neq: "n < weight w xs \<Longrightarrow> fit_suffix w n xs \<noteq> xs"
  using fit_suffix_fits [of w n xs] by auto

lemma fit_suffix_trim:
  "weight w (x # xs @ ys) > n \<Longrightarrow> fit_suffix w n (x # xs @ ys) = fit_suffix w n (xs @ ys)"
  by simp

lemma fit_suffix_snoc: "fit_suffix w n (fit_suffix w n xs @ [y]) = fit_suffix w n (xs @ [y])"
  by (induction xs) auto

lemma fit_suffix_keeps_last:
  "w y \<le> n \<Longrightarrow> \<exists>ys. fit_suffix w n (xs @ [y]) = ys @ [y]"
  by (induction xs) auto

end
