(* ===== verification/Execution_Input.thy ===== *)
theory Execution_Input
  imports Deployment_Limits Component_Interfaces
begin

text \<open>
  \<open>src/backend/input.rs\<close>: the queue of standard-input bytes between the service, which writes
  chunks into it, and the backend, which polls a buffer, delivers it to the process and
  acknowledges it. The state is behind one mutex, so an operation is one atomic step; a poisoned
  mutex, which a panic in another holder of the lock would leave, is a flag of the state.
\<close>

type_synonym byte = "8 word"

record input_state =
  in_pending :: "byte list list"
  in_bytes :: nat
  in_closed :: bool
  in_in_flight :: nat
  in_poisoned :: bool

definition input_default :: input_state where
  "input_default =
     \<lparr>in_pending = [], in_bytes = 0, in_closed = False, in_in_flight = 0, in_poisoned = False\<rparr>"

datatype input_poll_result = InData "byte list" | InPending | InEof

datatype input_error = Oversized | Closed | InBackpressure | Unavailable

fun input_error_code :: "input_error \<Rightarrow> string" where
  "input_error_code Oversized = ''INVALID_REQUEST''"
| "input_error_code Closed = ''EXECUTION_INPUT_CLOSED''"
| "input_error_code InBackpressure = ''INPUT_BACKPRESSURE''"
| "input_error_code Unavailable = ''INTERNAL_ERROR''"

definition remaining_capacity :: "deployment_limits \<Rightarrow> input_state \<Rightarrow> (input_error, nat) result" where
  "remaining_capacity limits st =
     (if in_poisoned st then Inl Unavailable else Inr (input_pending_bytes limits - in_bytes st))"

text \<open>
  The bytes go first into the space left in the last buffer, what remains into a new one. Only the
  last buffer may be partial.
\<close>

definition pack_bytes :: "nat \<Rightarrow> byte list list \<Rightarrow> byte list \<Rightarrow> byte list list" where
  "pack_bytes chunk_limit pending bytes =
     (if pending = [] then (if bytes = [] then [] else [bytes])
      else
        let tail = last pending;
            append = min (chunk_limit - length tail) (length bytes);
            remaining = drop append bytes;
            pending' = butlast pending @ [tail @ take append bytes]
        in if remaining = [] then pending' else pending' @ [remaining])"

definition input_write ::
  "deployment_limits \<Rightarrow> input_state \<Rightarrow> byte list \<Rightarrow> (input_error, nat) result \<times> input_state" where
  "input_write limits st bytes =
     (if stream_chunk_bytes limits < length bytes then (Inl Oversized, st)
      else if in_poisoned st then (Inl Unavailable, st)
      else if in_closed st then (Inl Closed, st)
      else if input_pending_bytes limits < saturating_add (in_bytes st) (length bytes)
        then (Inl InBackpressure, st)
      else
        let count = length bytes in
        (Inr count,
         if 0 < count
         then st\<lparr>in_pending := pack_bytes (stream_chunk_bytes limits) (in_pending st) bytes,
                 in_bytes := in_bytes st + count\<rparr>
         else st))"

definition input_close :: "input_state \<Rightarrow> (input_error, unit) result \<times> input_state" where
  "input_close st =
     (if in_poisoned st then (Inl Unavailable, st) else (Inr (), st\<lparr>in_closed := True\<rparr>))"

definition input_poll :: "input_state \<Rightarrow> (input_error, input_poll_result) result \<times> input_state" where
  "input_poll st =
     (if in_poisoned st then (Inl Unavailable, st)
      else if 0 < in_in_flight st then (Inr InPending, st)
      else (case in_pending st of
              bytes # rest \<Rightarrow>
                (Inr (InData bytes), st\<lparr>in_pending := rest, in_in_flight := length bytes\<rparr>)
            | [] \<Rightarrow> (Inr (if in_closed st then InEof else InPending), st)))"

definition input_acknowledge ::
  "input_state \<Rightarrow> nat \<Rightarrow> (input_error, unit) result \<times> input_state" where
  "input_acknowledge st count =
     (if in_poisoned st \<or> count \<noteq> in_in_flight st \<or> count = 0 then (Inl Unavailable, st)
      else (Inr (), st\<lparr>in_bytes := in_bytes st - count, in_in_flight := 0\<rparr>))"

section \<open>Histories\<close>

datatype input_op = WriteOp "byte list" | CloseOp | PollOp | AckOp nat

fun input_step :: "deployment_limits \<Rightarrow> input_state \<Rightarrow> input_op \<Rightarrow> input_state" where
  "input_step limits st (WriteOp bytes) = snd (input_write limits st bytes)"
| "input_step limits st CloseOp = snd (input_close st)"
| "input_step limits st PollOp = snd (input_poll st)"
| "input_step limits st (AckOp count) = snd (input_acknowledge st count)"

text \<open>The bytes an operation accepts from the client, and those it gives to the process.\<close>

fun input_taken :: "deployment_limits \<Rightarrow> input_state \<Rightarrow> input_op \<Rightarrow> byte list" where
  "input_taken limits st (WriteOp bytes) = (if is_ok (fst (input_write limits st bytes)) then bytes else [])"
| "input_taken limits st _ = []"

fun input_given :: "input_state \<Rightarrow> input_op \<Rightarrow> byte list" where
  "input_given st PollOp = (case fst (input_poll st) of Inr (InData bytes) \<Rightarrow> bytes | _ \<Rightarrow> [])"
| "input_given st _ = []"

text \<open>
  The invariant: the counter is what is queued and what is in flight, within the budget; no buffer
  is empty or above the chunk limit, and all but the last are full.
\<close>

definition input_inv :: "deployment_limits \<Rightarrow> input_state \<Rightarrow> bool" where
  "input_inv limits st \<longleftrightarrow>
     in_bytes st = length (concat (in_pending st)) + in_in_flight st \<and>
     in_bytes st \<le> input_pending_bytes limits \<and>
     list_all (\<lambda>chunk. chunk \<noteq> [] \<and> length chunk \<le> stream_chunk_bytes limits) (in_pending st) \<and>
     list_all (\<lambda>chunk. length chunk = stream_chunk_bytes limits) (butlast (in_pending st))"

lemma concat_pack_bytes [simp]: "concat (pack_bytes n pending bytes) = concat pending @ bytes"
proof (cases "pending = []")
  case False
  then have "concat pending = concat (butlast pending) @ last pending"
    by (metis append_butlast_last_id concat_append concat.simps append_Nil2)
  then show ?thesis by (auto simp: pack_bytes_def Let_def)
qed (simp add: pack_bytes_def)

lemma pack_bytes_chunks:
  assumes "list_all (\<lambda>chunk. chunk \<noteq> [] \<and> length chunk \<le> n) pending"
    and "list_all (\<lambda>chunk. length chunk = n) (butlast pending)"
    and "bytes \<noteq> []" "length bytes \<le> n"
  shows "list_all (\<lambda>chunk. chunk \<noteq> [] \<and> length chunk \<le> n) (pack_bytes n pending bytes)"
    and "list_all (\<lambda>chunk. length chunk = n) (butlast (pack_bytes n pending bytes))"
proof -
  have "list_all (\<lambda>chunk. chunk \<noteq> [] \<and> length chunk \<le> n) (pack_bytes n pending bytes) \<and>
    list_all (\<lambda>chunk. length chunk = n) (butlast (pack_bytes n pending bytes))"
  proof (cases pending rule: rev_cases)
    case Nil
    with assms show ?thesis by (simp add: pack_bytes_def)
  next
    case (snoc init tail)
    with assms(1) have "tail \<noteq> []" "length tail \<le> n" by simp_all
    with snoc assms show ?thesis
      by (auto simp: pack_bytes_def Let_def butlast_append min_def)
  qed
  then show "list_all (\<lambda>chunk. chunk \<noteq> [] \<and> length chunk \<le> n) (pack_bytes n pending bytes)"
    "list_all (\<lambda>chunk. length chunk = n) (butlast (pack_bytes n pending bytes))" by simp_all
qed

lemma full_chunks_count:
  assumes "list_all (\<lambda>chunk. length chunk = n) (butlast pending)"
    and "list_all (\<lambda>chunk. chunk \<noteq> []) pending" "0 < n"
  shows "length pending * n < length (concat pending) + n"
proof (cases pending rule: rev_cases)
  case (snoc init tail)
  with assms have "list_all (\<lambda>chunk. length chunk = n) init" "tail \<noteq> []" by simp_all
  moreover from this(1) have "length (concat init) = length init * n"
    by (induction init) auto
  ultimately show ?thesis by (simp add: snoc)
qed (simp add: assms(3))

lemma wf_limits_input: "wf_limits limits \<Longrightarrow> input_pending_bytes limits < usize_max"
  by (simp add: wf_limits_def usize_max_def)

lemma input_write_Inr:
  assumes "input_write limits st bytes = (Inr n, st')"
  shows "n = length bytes" "length bytes \<le> stream_chunk_bytes limits" "\<not> in_closed st"
    "saturating_add (in_bytes st) (length bytes) \<le> input_pending_bytes limits"
    "bytes = [] \<Longrightarrow> st' = st"
    "bytes \<noteq> [] \<Longrightarrow>
       st' = st\<lparr>in_pending := pack_bytes (stream_chunk_bytes limits) (in_pending st) bytes,
                in_bytes := in_bytes st + length bytes\<rparr>"
  using assms by (auto simp: input_write_def Let_def split: if_splits)

lemma input_write_cases:
  obtains e where "input_write limits st bytes = (Inl e, st)"
  | st' where "input_write limits st bytes = (Inr (length bytes), st')"
proof (cases "fst (input_write limits st bytes)")
  case (Inl e)
  then have "input_write limits st bytes = (Inl e, st)"
    by (auto simp: input_write_def Let_def split: if_splits)
  then show thesis by (rule that)
next
  case (Inr n)
  then have "input_write limits st bytes = (Inr (length bytes), snd (input_write limits st bytes))"
    by (auto simp: input_write_def Let_def split: if_splits)
  then show thesis by (rule that)
qed

lemma input_write_inv:
  assumes "input_inv limits st" "wf_limits limits"
  shows "input_inv limits (snd (input_write limits st bytes))"
proof (cases rule: input_write_cases [of limits st bytes])
  case (2 st')
  note w = input_write_Inr [OF 2]
  show ?thesis
  proof (cases "bytes = []")
    case False
    have "in_bytes st + length bytes \<le> input_pending_bytes limits"
      using w(4) wf_limits_input [OF assms(2)] by (rule saturating_add_le)
    with assms(1) pack_bytes_chunks [OF _ _ False w(2), of "in_pending st"] show ?thesis
      by (simp add: 2 w(6) [OF False] input_inv_def)
  qed (use w(5) 2 assms(1) in simp)
qed (use assms in simp)

lemma input_poll_inv: "input_inv limits st \<Longrightarrow> input_inv limits (snd (input_poll st))"
  by (auto simp: input_poll_def input_inv_def split: list.splits if_splits)

lemma input_acknowledge_inv:
  "input_inv limits st \<Longrightarrow> input_inv limits (snd (input_acknowledge st count))"
  by (auto simp: input_acknowledge_def input_inv_def)

lemma input_step_inv:
  assumes "input_inv limits st" "wf_limits limits"
  shows "input_inv limits (input_step limits st x)"
  using assms
  by (cases x) (simp_all add: input_write_inv input_poll_inv input_acknowledge_inv,
      simp add: input_close_def input_inv_def)

lemma input_default_inv: "input_inv limits input_default" "in_pending input_default = []"
  by (simp_all add: input_inv_def input_default_def)

lemma input_conservation:
  "concat (in_pending st) @ input_taken limits st x =
     input_given st x @ concat (in_pending (input_step limits st x))"
proof (cases x)
  case (WriteOp bytes)
  show ?thesis
  proof (cases rule: input_write_cases [of limits st bytes])
    case (2 st')
    with WriteOp input_write_Inr [OF 2] show ?thesis
      by (cases "bytes = []") (simp_all add: is_ok_def)
  qed (simp add: WriteOp is_ok_def)
qed (auto simp: input_close_def input_poll_def input_acknowledge_def split: list.splits)

interpretation input: fifo_stream input_default "input_step limits"
  "\<lambda>st. wf_limits limits \<longrightarrow> input_inv limits st" "input_taken limits" input_given
  "\<lambda>st. concat (in_pending st)" for limits
  by unfold_locales
    (simp_all add: input_default_inv input_step_inv input_conservation)

text \<open>No operation of the queue poisons its lock.\<close>

lemma input_step_poisoned: "in_poisoned (input_step limits st x) = in_poisoned st"
  by (cases x) (auto simp: input_write_def input_close_def input_poll_def input_acknowledge_def
      Let_def split: list.splits)

lemma input_never_poisoned: "\<not> in_poisoned (run_ops (input_step limits) input_default ops)"
  using state_machine.inv_reachable
    [of input_default "input_step limits" "\<lambda>st. \<not> in_poisoned st" ops]
  by (simp add: state_machine_def input_step_poisoned input_default_def)

section \<open>Draining a closed queue\<close>

text \<open>
  The backend's side of the protocol: poll, deliver, acknowledge, until the end of the stream.
  \<open>None\<close> is a queue that reports no data and no end within the given number of polls.
\<close>

fun drain :: "nat \<Rightarrow> input_state \<Rightarrow> byte list option" where
  "drain 0 st = None"
| "drain (Suc n) st =
     (case input_poll st of
        (Inr (InData bytes), st') \<Rightarrow>
          map_option (\<lambda>rest. bytes @ rest) (drain n (snd (input_acknowledge st' (length bytes))))
      | (Inr InEof, _) \<Rightarrow> Some []
      | _ \<Rightarrow> None)"

lemma drain_closed:
  assumes "input_inv limits st" "in_closed st" "\<not> in_poisoned st" "in_in_flight st = 0"
    and "length (in_pending st) < n"
  shows "drain n st = Some (concat (in_pending st))"
  using assms
proof (induction n arbitrary: st)
  case (Suc n)
  show ?case
  proof (cases "in_pending st")
    case Nil
    with Suc.prems show ?thesis by (simp add: input_poll_def)
  next
    case (Cons bytes rest)
    let ?p = "st\<lparr>in_pending := rest, in_in_flight := length bytes\<rparr>"
    have "bytes \<noteq> []" using Suc.prems(1) Cons by (simp add: input_inv_def)
    moreover have p: "input_poll st = (Inr (InData bytes), ?p)"
      using Suc.prems Cons by (simp add: input_poll_def)
    moreover have "input_inv limits ?p"
      using input_poll_inv [OF Suc.prems(1)] p by simp
    then have "input_inv limits (snd (input_acknowledge ?p (length bytes)))"
      by (rule input_acknowledge_inv)
    ultimately show ?thesis
      using Suc.IH [of "snd (input_acknowledge ?p (length bytes))"] Suc.prems Cons
      by (simp add: input_acknowledge_def)
  qed
qed simp

section \<open>Properties\<close>

text \<open>
  After any history of writes, polls, acknowledgements and a close, the byte counter is
  exactly what is queued plus what is in flight and never exceeds the configured budget; every
  queued buffer is non-empty and within the chunk limit, and the storage the buffers retain, at the
  chunk limit each, exceeds the budget by less than one buffer.
\<close>

theorem input_budget_is_kept:
  assumes "wf_limits limits" "st = run_ops (input_step limits) input_default ops"
  shows "in_bytes st = length (concat (in_pending st)) + in_in_flight st \<and>
    in_bytes st \<le> input_pending_bytes limits \<and>
    (\<forall>chunk \<in> set (in_pending st). chunk \<noteq> [] \<and> length chunk \<le> stream_chunk_bytes limits) \<and>
    length (in_pending st) * stream_chunk_bytes limits
      < input_pending_bytes limits + stream_chunk_bytes limits"
proof -
  have inv: "input_inv limits st"
    using input.inv_reachable [of limits ops] assms by simp
  have chunk: "0 < stream_chunk_bytes limits" using assms(1) by (simp add: wf_limits_def)
  have "length (in_pending st) * stream_chunk_bytes limits
      < length (concat (in_pending st)) + stream_chunk_bytes limits"
    by (rule full_chunks_count) (use inv chunk in \<open>auto simp: input_inv_def list_all_iff\<close>)
  with inv show ?thesis
    by (auto simp: input_inv_def list_all_iff)
qed

theorem input_budget_is_kept_witness:
  "let st = run_ops (input_step default_limits) input_default [WriteOp [1, 2], PollOp, WriteOp [3]] in
   in_pending st = [[3]] \<and> in_bytes st = length (concat (in_pending st)) + in_in_flight st"
  using input_budget_is_kept [OF wf_default_limits refl,
      of "[WriteOp [1, 2], PollOp, WriteOp [3]]"]
  by (simp add: Let_def input_write_def input_poll_def input_default_def pack_bytes_def
      default_limits_def saturating_add_def)

text \<open>
  C19: no byte is lost, duplicated or reordered. Whatever the interleaving of writes, polls,
  acknowledgements and the close, the bytes given to the process followed by those still queued
  are the bytes of the accepted writes, in their order, though the buffers are repacked.
\<close>

theorem input_is_a_fifo_stream:
  "emitted (input_step limits) (input_taken limits) input_default ops =
     emitted (input_step limits) input_given input_default ops
       @ concat (in_pending (run_ops (input_step limits) input_default ops))"
  by (rule input.stream_from_init)

text \<open>
  Each answer of \<open>write\<close>. A chunk above the limit is refused as oversized before anything
  else, then a poisoned lock, a closed stream and a full queue, in this order; every refusal
  leaves the queue as it is, and an accepted chunk is reported with its length and appended.
\<close>

theorem input_write_outcomes:
  assumes "wf_limits limits" "input_inv limits st"
  shows "let (r, st') = input_write limits st bytes in
    (r = Inl Oversized \<longleftrightarrow> stream_chunk_bytes limits < length bytes) \<and>
    (r = Inl Closed \<longrightarrow> in_closed st) \<and>
    (r = Inl InBackpressure \<longrightarrow> remaining_capacity limits st = Inr (input_pending_bytes limits - in_bytes st) \<and>
       input_pending_bytes limits - in_bytes st < length bytes) \<and>
    ((\<exists>e. r = Inl e) \<longrightarrow> st' = st) \<and>
    (\<forall>n. r = Inr n \<longrightarrow> n = length bytes \<and> n \<le> input_pending_bytes limits - in_bytes st \<and>
       concat (in_pending st') = concat (in_pending st) @ bytes \<and>
       in_bytes st' = in_bytes st + n \<and> in_in_flight st' = in_in_flight st)"
proof -
  have "saturating_add (in_bytes st) (length bytes) \<le> input_pending_bytes limits \<longleftrightarrow>
      in_bytes st + length bytes \<le> input_pending_bytes limits"
    using wf_limits_input [OF assms(1)] by (auto simp: saturating_add_def)
  moreover have "in_bytes st \<le> input_pending_bytes limits"
    using assms(2) by (simp add: input_inv_def)
  ultimately show ?thesis
    by (auto simp: input_write_def remaining_capacity_def Let_def not_less not_le)
qed

theorem input_write_outcomes_witness:
  "input_write default_limits (input_default\<lparr>in_closed := True\<rparr>) [1] =
     (Inl Closed, input_default\<lparr>in_closed := True\<rparr>)
   \<and> in_closed (input_default\<lparr>in_closed := True\<rparr>)"
proof -
  have inv: "input_inv default_limits (input_default\<lparr>in_closed := True\<rparr>)"
    by (simp add: input_inv_def input_default_def)
  have "input_write default_limits (input_default\<lparr>in_closed := True\<rparr>) [1] =
     (Inl Closed, input_default\<lparr>in_closed := True\<rparr>)"
    by (simp add: input_write_def input_default_def default_limits_def)
  with input_write_outcomes [OF wf_default_limits inv, of "[1]"] show ?thesis
    by simp
qed

text \<open>
  A consumer that polls and acknowledges reaches the end of a closed stream after at most
  one poll more than there are buffers, and has then read exactly the queued bytes: the end of the
  stream is reported neither early nor never.
\<close>

theorem closed_input_drains:
  assumes "wf_limits limits" "st = run_ops (input_step limits) input_default ops"
    and "in_closed st" "in_in_flight st = 0"
  shows "\<not> in_poisoned st \<and> drain (Suc (length (in_pending st))) st = Some (concat (in_pending st))"
proof -
  have "input_inv limits st"
    using input.inv_reachable [of limits ops] assms(1,2) by simp
  moreover have "\<not> in_poisoned st"
    unfolding assms(2) by (rule input_never_poisoned)
  ultimately show ?thesis
    using drain_closed [OF _ assms(3) _ assms(4)] by (simp del: drain.simps)
qed

theorem closed_input_drains_witness:
  "let st = run_ops (input_step default_limits) input_default [WriteOp [1, 2], CloseOp] in
   drain (Suc (length (in_pending st))) st = Some [1, 2]"
  using closed_input_drains [OF wf_default_limits refl, of "[WriteOp [1, 2], CloseOp]"]
  by (simp add: Let_def input_write_def input_close_def input_default_def pack_bytes_def
      default_limits_def saturating_add_def usize_max_def del: drain.simps)

end
