(* ===== verification/Execution_Control.thy ===== *)
theory Execution_Control
  imports Execution_Input
begin

text \<open>
  \<open>src/execution/control.rs\<close>: the record that the owner of an execution, its backend and the
  deadline thread share. Instants are milliseconds on the host clock and are arguments. The
  operations are first given as functions of the whole record; a step relation then interleaves
  them as the locks allow. \<open>request\<close> holds the lock of the cause over its three writes (cause,
  cleanup deadline, cancelled flag), while \<open>is_cancelled\<close> and the deadline operations do not take
  that lock, so they may run in between.
\<close>

datatype termination_cause =
    Exited | Cancelled | Timeout | OutputLimit | ClientDisconnected | Backpressure | InputFailed
  | ExecutionFailed | FailedToStart

definition cause_from_error_code :: "string \<Rightarrow> termination_cause" where
  "cause_from_error_code code =
     (if code = ''EXECUTION_CANCELLED'' then Cancelled
      else if code = ''EXECUTION_TIMEOUT'' then Timeout
      else if code = ''OUTPUT_LIMIT_EXCEEDED'' then OutputLimit
      else if code = ''CLIENT_DISCONNECTED'' then ClientDisconnected
      else if code = ''CLIENT_BACKPRESSURE'' then Backpressure
      else if code = ''EXECUTION_INPUT_FAILED'' then InputFailed
      else FailedToStart)"

fun cause_as_str :: "termination_cause \<Rightarrow> string" where
  "cause_as_str Exited = ''exited''"
| "cause_as_str Cancelled = ''cancelled''"
| "cause_as_str Timeout = ''timeout''"
| "cause_as_str OutputLimit = ''output_limit''"
| "cause_as_str ClientDisconnected = ''client_disconnected''"
| "cause_as_str Backpressure = ''backpressure''"
| "cause_as_str InputFailed = ''input_failed''"
| "cause_as_str ExecutionFailed = ''execution_failed''"
| "cause_as_str FailedToStart = ''failed_to_start''"

fun cause_error_code :: "termination_cause \<Rightarrow> string option" where
  "cause_error_code Exited = None"
| "cause_error_code FailedToStart = None"
| "cause_error_code ExecutionFailed = None"
| "cause_error_code Cancelled = Some ''EXECUTION_CANCELLED''"
| "cause_error_code Timeout = Some ''EXECUTION_TIMEOUT''"
| "cause_error_code OutputLimit = Some ''OUTPUT_LIMIT_EXCEEDED''"
| "cause_error_code ClientDisconnected = Some ''CLIENT_DISCONNECTED''"
| "cause_error_code Backpressure = Some ''CLIENT_BACKPRESSURE''"
| "cause_error_code InputFailed = Some ''EXECUTION_INPUT_FAILED''"

definition cause_from_started_error_code :: "string \<Rightarrow> termination_cause" where
  "cause_from_started_error_code code =
     (case cause_from_error_code code of FailedToStart \<Rightarrow> ExecutionFailed | cause \<Rightarrow> cause)"

section \<open>The shared record\<close>

datatype terminal_command = Resize "16 word" "16 word" | Interrupt "64 word"

type_synonym instant = nat

record execution_control =
  ctl_process_id :: "32 word option"
  ctl_interrupt_sequence :: "64 word"
  ctl_pending_signal_sequence :: "64 word"
  ctl_accepted_at :: "instant option"
  ctl_cancelled :: bool
  ctl_terminal_commands :: "terminal_command list"
  ctl_cause :: "termination_cause option"
  ctl_cleanup_deadline :: "instant option"

definition control_default :: execution_control where
  "control_default =
     \<lparr>ctl_process_id = None, ctl_interrupt_sequence = 0, ctl_pending_signal_sequence = 0,
      ctl_accepted_at = None, ctl_cancelled = False, ctl_terminal_commands = [],
      ctl_cause = None, ctl_cleanup_deadline = None\<rparr>"

definition accept :: "instant \<Rightarrow> execution_control \<Rightarrow> instant \<times> execution_control" where
  "accept now c =
     (case ctl_accepted_at c of
        Some t \<Rightarrow> (t, c)
      | None \<Rightarrow> (now, c\<lparr>ctl_accepted_at := Some now\<rparr>))"

text \<open>
  \<open>queue_terminal\<close> holds the queue's lock and reads the cause once; nothing else it reads or writes
  is touched by another operation meanwhile, so it takes effect at that read.
\<close>

definition queue_terminal ::
  "terminal_command \<Rightarrow> execution_control \<Rightarrow> (input_error, unit) result \<times> execution_control" where
  "queue_terminal command c =
     (if ctl_cause c \<noteq> None then (Inl Unavailable, c)
      else if 64 \<le> length (ctl_terminal_commands c) then (Inl InBackpressure, c)
      else (Inr (), c\<lparr>ctl_terminal_commands := ctl_terminal_commands c @ [command]\<rparr>))"

definition resize ::
  "16 word \<Rightarrow> 16 word \<Rightarrow> execution_control \<Rightarrow> (input_error, unit) result \<times> execution_control" where
  "resize rows cols c = queue_terminal (Resize rows cols) c"

definition interrupt ::
  "execution_control \<Rightarrow> (input_error, 64 word) result \<times> execution_control" where
  "interrupt c =
     (let sequence = ctl_interrupt_sequence c + 1;
          (r, c') = queue_terminal (Interrupt sequence) (c\<lparr>ctl_interrupt_sequence := sequence\<rparr>)
      in (rbind r (\<lambda>_. Inr sequence), c'))"

definition interrupt_with_sequence ::
  "64 word \<Rightarrow> execution_control \<Rightarrow> (input_error, unit) result \<times> execution_control" where
  "interrupt_with_sequence sequence c = queue_terminal (Interrupt sequence) c"

definition take_terminal_command ::
  "execution_control \<Rightarrow> terminal_command option \<times> execution_control" where
  "take_terminal_command c =
     (case ctl_terminal_commands c of
        [] \<Rightarrow> (None, c)
      | command # rest \<Rightarrow> (Some command, c\<lparr>ctl_terminal_commands := rest\<rparr>))"

definition set_pending_signal_sequence :: "64 word \<Rightarrow> execution_control \<Rightarrow> execution_control" where
  "set_pending_signal_sequence sequence c = c\<lparr>ctl_pending_signal_sequence := sequence\<rparr>"

definition take_pending_signal_sequence ::
  "execution_control \<Rightarrow> 64 word option \<times> execution_control" where
  "take_pending_signal_sequence c =
     (let sequence = ctl_pending_signal_sequence c in
      (if 0 < sequence then Some sequence else None, c\<lparr>ctl_pending_signal_sequence := 0\<rparr>))"

definition begin_cleanup ::
  "deployment_limits \<Rightarrow> instant \<Rightarrow> execution_control \<Rightarrow> instant \<times> execution_control" where
  "begin_cleanup limits now c =
     (case ctl_cleanup_deadline c of
        Some d \<Rightarrow> (d, c)
      | None \<Rightarrow> (let d = now + cleanup_timeout limits in (d, c\<lparr>ctl_cleanup_deadline := Some d\<rparr>)))"

definition adopt_cleanup_deadline ::
  "deployment_limits \<Rightarrow> instant \<Rightarrow> instant \<Rightarrow> execution_control \<Rightarrow> instant \<times> execution_control" where
  "adopt_cleanup_deadline limits now candidate c =
     (let candidate = min candidate (now + cleanup_timeout limits);
          selected = (case ctl_cleanup_deadline c of
                        None \<Rightarrow> candidate | Some previous \<Rightarrow> min previous candidate)
      in (selected, c\<lparr>ctl_cleanup_deadline := Some selected\<rparr>))"

definition cleanup_deadline_expired :: "instant \<Rightarrow> execution_control \<Rightarrow> bool" where
  "cleanup_deadline_expired now c =
     (case ctl_cleanup_deadline c of None \<Rightarrow> False | Some deadline \<Rightarrow> deadline \<le> now)"

definition control_request ::
  "deployment_limits \<Rightarrow> instant \<Rightarrow> termination_cause \<Rightarrow> execution_control \<Rightarrow> bool \<times> execution_control" where
  "control_request limits now candidate c =
     (if ctl_cause c \<noteq> None then (False, c)
      else
        let c = c\<lparr>ctl_cause := Some candidate\<rparr> in
        (True,
         if candidate \<noteq> Exited
         then (snd (begin_cleanup limits now c))\<lparr>ctl_cancelled := True\<rparr>
         else c))"

definition control_cancel :: "deployment_limits \<Rightarrow> instant \<Rightarrow> execution_control \<Rightarrow> execution_control" where
  "control_cancel limits now c = snd (control_request limits now Cancelled c)"

definition control_cause :: "execution_control \<Rightarrow> termination_cause option" where
  "control_cause c = ctl_cause c"

definition is_cancelled :: "execution_control \<Rightarrow> bool" where
  "is_cancelled c = ctl_cancelled c"

section \<open>Interleaving\<close>

text \<open>
  The phase of the request that holds the lock of the cause: none, the cause is written, or the
  deadline is written too. Time passes between steps and never goes back.
\<close>

datatype request_phase = Idle | CauseWritten | DeadlineWritten

record control_system =
  sys_control :: execution_control
  sys_phase :: request_phase
  sys_now :: instant

definition system_init :: control_system where
  "system_init = \<lparr>sys_control = control_default, sys_phase = Idle, sys_now = 0\<rparr>"

inductive control_step :: "deployment_limits \<Rightarrow> control_system \<Rightarrow> control_system \<Rightarrow> bool"
  for limits where
  tick: "sys_now s \<le> t \<Longrightarrow> control_step limits s (s\<lparr>sys_now := t\<rparr>)"
| claim: "sys_phase s = Idle \<Longrightarrow> ctl_cause (sys_control s) = None \<Longrightarrow>
    control_step limits s
      (s\<lparr>sys_control := (sys_control s)\<lparr>ctl_cause := Some cause\<rparr>,
         sys_phase := (if cause = Exited then Idle else CauseWritten)\<rparr>)"
| deadline: "sys_phase s = CauseWritten \<Longrightarrow>
    control_step limits s
      (s\<lparr>sys_control := snd (begin_cleanup limits (sys_now s) (sys_control s)),
         sys_phase := DeadlineWritten\<rparr>)"
| publish: "sys_phase s = DeadlineWritten \<Longrightarrow>
    control_step limits s
      (s\<lparr>sys_control := (sys_control s)\<lparr>ctl_cancelled := True\<rparr>, sys_phase := Idle\<rparr>)"
| queue: "sys_phase s = Idle \<Longrightarrow>
    control_step limits s (s\<lparr>sys_control := snd (queue_terminal command (sys_control s))\<rparr>)"
| send_interrupt: "sys_phase s = Idle \<Longrightarrow>
    control_step limits s (s\<lparr>sys_control := snd (interrupt (sys_control s))\<rparr>)"
| take: "control_step limits s (s\<lparr>sys_control := snd (take_terminal_command (sys_control s))\<rparr>)"
| accepted: "control_step limits s (s\<lparr>sys_control := snd (accept (sys_now s) (sys_control s))\<rparr>)"
| cleanup: "control_step limits s
    (s\<lparr>sys_control := snd (begin_cleanup limits (sys_now s) (sys_control s))\<rparr>)"
| adopt: "control_step limits s
    (s\<lparr>sys_control := snd (adopt_cleanup_deadline limits (sys_now s) candidate (sys_control s))\<rparr>)"
| set_signal: "control_step limits s
    (s\<lparr>sys_control := set_pending_signal_sequence sequence (sys_control s)\<rparr>)"
| take_signal: "control_step limits s
    (s\<lparr>sys_control := snd (take_pending_signal_sequence (sys_control s))\<rparr>)"

inductive_cases control_stepE: "control_step limits s t"

definition control_inv :: "deployment_limits \<Rightarrow> control_system \<Rightarrow> bool" where
  "control_inv limits s \<longleftrightarrow>
     (let c = sys_control s in
      (sys_phase s = Idle \<longrightarrow>
         (ctl_cancelled c \<longleftrightarrow> ctl_cause c \<noteq> None \<and> ctl_cause c \<noteq> Some Exited)) \<and>
      (sys_phase s \<noteq> Idle \<longrightarrow>
         ctl_cause c \<noteq> None \<and> ctl_cause c \<noteq> Some Exited \<and> \<not> ctl_cancelled c) \<and>
      (sys_phase s = DeadlineWritten \<or> ctl_cancelled c \<longrightarrow> ctl_cleanup_deadline c \<noteq> None) \<and>
      (\<forall>d. ctl_cleanup_deadline c = Some d \<longrightarrow> d \<le> sys_now s + cleanup_timeout limits) \<and>
      length (ctl_terminal_commands c) \<le> 64)"

lemmas control_op_defs =
  queue_terminal_def interrupt_def take_terminal_command_def accept_def begin_cleanup_def
  adopt_cleanup_deadline_def set_pending_signal_sequence_def take_pending_signal_sequence_def

lemma control_inv_init: "control_inv limits system_init"
  by (simp add: control_inv_def system_init_def control_default_def)

lemma control_inv_step:
  assumes "control_step limits s t" "control_inv limits s"
  shows "control_inv limits t"
  using assms
  by (cases rule: control_step.cases)
    (auto simp: control_inv_def control_op_defs Let_def split: option.splits list.splits if_splits)

lemma control_inv_reachable:
  assumes "(control_step limits)\<^sup>*\<^sup>* system_init s"
  shows "control_inv limits s"
  using assms by (induction) (auto intro: control_inv_init control_inv_step)

text \<open>What no step takes back: the cause, the acceptance instant, and a deadline once there is one.\<close>

definition control_le :: "execution_control \<Rightarrow> execution_control \<Rightarrow> bool" where
  "control_le c c' \<longleftrightarrow>
     (\<forall>x. ctl_cause c = Some x \<longrightarrow> ctl_cause c' = Some x) \<and>
     (\<forall>t. ctl_accepted_at c = Some t \<longrightarrow> ctl_accepted_at c' = Some t) \<and>
     (\<forall>d. ctl_cleanup_deadline c = Some d \<longrightarrow> (\<exists>d' \<le> d. ctl_cleanup_deadline c' = Some d')) \<and>
     (ctl_cancelled c \<longrightarrow> ctl_cancelled c')"

lemma control_le_refl: "control_le c c"
  by (simp add: control_le_def)

lemma control_le_trans: "control_le a b \<Longrightarrow> control_le b c \<Longrightarrow> control_le a c"
  unfolding control_le_def by (meson order_trans)

lemma control_step_le:
  assumes "control_step limits s t"
  shows "control_le (sys_control s) (sys_control t)"
  using assms
  by (cases rule: control_step.cases)
    (auto simp: control_le_def control_op_defs Let_def split: option.splits list.splits if_splits)

lemma control_steps_le:
  assumes "(control_step limits)\<^sup>*\<^sup>* s t"
  shows "control_le (sys_control s) (sys_control t)"
  using assms by (induction) (auto intro: control_le_refl control_le_trans control_step_le)

text \<open>The function \<open>request\<close> is its three steps without interruption.\<close>

lemma control_request_steps:
  "(control_step limits)\<^sup>*\<^sup>*
     \<lparr>sys_control = c, sys_phase = Idle, sys_now = now\<rparr>
     \<lparr>sys_control = snd (control_request limits now cause c), sys_phase = Idle, sys_now = now\<rparr>"
proof (cases "ctl_cause c = None")
  case True
  let ?a = "\<lparr>sys_control = c, sys_phase = Idle, sys_now = now\<rparr>"
  let ?c1 = "c\<lparr>ctl_cause := Some cause\<rparr>"
  let ?c2 = "snd (begin_cleanup limits now ?c1)"
  have 1: "control_step limits ?a
      \<lparr>sys_control = ?c1, sys_phase = (if cause = Exited then Idle else CauseWritten), sys_now = now\<rparr>"
    using control_step.claim [of ?a limits cause] True by simp
  show ?thesis
  proof (cases "cause = Exited")
    case False
    let ?b = "\<lparr>sys_control = ?c1, sys_phase = CauseWritten, sys_now = now\<rparr>"
    let ?d = "\<lparr>sys_control = ?c2, sys_phase = DeadlineWritten, sys_now = now\<rparr>"
    have "control_step limits ?b ?d" using control_step.deadline [of ?b limits] by simp
    moreover have "control_step limits ?d
        \<lparr>sys_control = ?c2\<lparr>ctl_cancelled := True\<rparr>, sys_phase = Idle, sys_now = now\<rparr>"
      using control_step.publish [of ?d limits] by simp
    ultimately show ?thesis
      using 1 False True
      by (auto simp: control_request_def Let_def intro: converse_rtranclp_into_rtranclp)
  qed (use 1 True in \<open>auto simp: control_request_def Let_def\<close>)
qed (simp add: control_request_def)

section \<open>The deadline thread\<close>

text \<open>
  \<open>ExecutionDeadline\<close>: a thread that waits until the timeout counted from the start, or until its
  sender is dropped, whichever comes first; \<open>stop\<close> is the instant of the drop. The wait of
  \<open>finish\<close> sees the clock and whether the thread has ended, once per turn of its loop.
\<close>

record execution_deadline =
  dl_stop :: bool
  dl_worker :: bool
  dl_cleanup_deadline :: "instant option"

definition deadline_start :: "nat option \<Rightarrow> execution_deadline option" where
  "deadline_start timeout =
     (case timeout of
        None \<Rightarrow> None
      | Some _ \<Rightarrow> Some \<lparr>dl_stop = True, dl_worker = True, dl_cleanup_deadline = None\<rparr>)"

definition deadline_worker ::
  "deployment_limits \<Rightarrow> instant \<Rightarrow> nat \<Rightarrow> instant \<Rightarrow> instant option \<Rightarrow> execution_control \<Rightarrow> execution_control"
  where
  "deadline_worker limits start timeout now stop c =
     (let remaining = timeout - (now - start); wake = now + remaining in
      case stop of
        Some t \<Rightarrow> if t \<le> wake then c else snd (control_request limits wake Timeout c)
      | None \<Rightarrow> snd (control_request limits wake Timeout c))"

fun deadline_wait :: "instant \<Rightarrow> (instant \<times> bool) list \<Rightarrow> unit rs_result option" where
  "deadline_wait deadline [] = None"
| "deadline_wait deadline ((now, finished) # turns) =
     (if finished then Some (Inr ())
      else if deadline \<le> now
        then Some (Inl (error_new ''EXECUTION_CLEANUP_FAILED'' ''execution deadline worker did not stop''))
      else deadline_wait deadline turns)"

definition deadline_finish ::
  "instant \<Rightarrow> (instant \<times> bool) list \<Rightarrow> bool \<Rightarrow> execution_deadline \<Rightarrow>
     (unit rs_result \<times> execution_deadline) option" where
  "deadline_finish deadline turns join_ok d =
     (let deadline = (case dl_cleanup_deadline d of None \<Rightarrow> deadline | Some p \<Rightarrow> min p deadline);
          d = d\<lparr>dl_cleanup_deadline := Some deadline, dl_stop := False\<rparr> in
      if dl_worker d
      then (case deadline_wait deadline turns of
              None \<Rightarrow> None
            | Some (Inl e) \<Rightarrow> Some (Inl e, d)
            | Some (Inr _) \<Rightarrow>
                Some (if join_ok then Inr ()
                      else Inl (error_new ''EXECUTION_CLEANUP_FAILED'' ''execution deadline worker failed''),
                      d\<lparr>dl_worker := False\<rparr>))
      else Some (Inr (), d))"

lemma deadline_wait_returns:
  assumes "sorted_wrt (<) (map fst turns)" "deadline < t + length turns" "t \<le> deadline"
    and "\<forall>n \<in> set (map fst turns). t \<le> n"
  shows "deadline_wait deadline turns \<noteq> None"
  using assms
proof (induction turns arbitrary: t)
  case (Cons turn turns)
  obtain now finished where turn: "turn = (now, finished)" by (cases turn)
  have "deadline_wait deadline turns \<noteq> None" if "now < deadline"
  proof (rule Cons.IH)
    show "deadline < Suc now + length turns" using Cons.prems(2,4) turn by simp
    show "Suc now \<le> deadline" using that by simp
  qed (use Cons.prems turn in auto)
  then show ?case by (simp add: turn)
qed simp

section \<open>Properties\<close>

text \<open>
  C23: the first cause owns the termination. A request succeeds exactly when there is no cause
  yet and then records its own; from any state of the system, under every interleaving of the
  other operations, a recorded cause and the acceptance instant never change, the cancelled flag is
  never cleared and a cleanup deadline is never postponed.
\<close>

theorem first_cause_wins:
  "(fst (control_request limits now cause c) \<longleftrightarrow> ctl_cause c = None) \<and>
   ctl_cause (snd (control_request limits now cause c)) =
     Some (case ctl_cause c of None \<Rightarrow> cause | Some first \<Rightarrow> first) \<and>
   (\<forall>s t. (control_step limits)\<^sup>*\<^sup>* s t \<longrightarrow> control_le (sys_control s) (sys_control t))"
  using control_steps_le
  by (auto simp: control_request_def begin_cleanup_def Let_def split: option.splits)

theorem first_cause_wins_witness:
  "let c = snd (control_request default_limits 5 Timeout control_default) in
   ctl_cause (snd (control_request default_limits 9 Cancelled c)) = Some Timeout \<and>
   control_le c (snd (control_request default_limits 9 Cancelled c))"
proof -
  define c where "c = snd (control_request default_limits 5 Timeout control_default)"
  have "ctl_cause c = Some Timeout"
    by (simp add: c_def control_request_def begin_cleanup_def control_default_def Let_def)
  moreover have "control_le c (snd (control_request default_limits 9 Cancelled c))"
    using first_cause_wins [of default_limits 9 Cancelled c]
      control_request_steps [of default_limits c 9 Cancelled] by force
  ultimately show ?thesis
    using first_cause_wins [of default_limits 9 Cancelled c] by (simp add: c_def Let_def)
qed

text \<open>
  What an observer of the flag may rely on, in every state that any interleaving reaches.
  Whoever sees the execution cancelled finds a cause other than a normal exit and a cleanup
  deadline; when no request is under way the flag is set exactly for such a cause; every deadline
  lies within the configured cleanup time of the present; and the command queue holds at most 64.
\<close>

theorem cancellation_is_published_last:
  assumes "(control_step limits)\<^sup>*\<^sup>* system_init s" "c = sys_control s"
  shows "(is_cancelled c \<longrightarrow>
      (\<exists>cause. control_cause c = Some cause \<and> cause \<noteq> Exited) \<and> ctl_cleanup_deadline c \<noteq> None) \<and>
    (sys_phase s = Idle \<longrightarrow>
      (is_cancelled c \<longleftrightarrow> (\<exists>cause. control_cause c = Some cause \<and> cause \<noteq> Exited))) \<and>
    (\<forall>d. ctl_cleanup_deadline c = Some d \<longrightarrow> d \<le> sys_now s + cleanup_timeout limits) \<and>
    length (ctl_terminal_commands c) \<le> 64"
  using control_inv_reachable [OF assms(1)] assms(2)
  by (cases "sys_phase s")
    (auto simp: control_inv_def is_cancelled_def control_cause_def Let_def)

theorem cancellation_is_published_last_witness:
  "let c = snd (control_request default_limits 0 Timeout control_default) in
   is_cancelled c \<and> ctl_cleanup_deadline c \<noteq> None"
proof -
  let ?s = "\<lparr>sys_control = snd (control_request default_limits 0 Timeout control_default),
    sys_phase = Idle, sys_now = 0\<rparr>"
  have "(control_step default_limits)\<^sup>*\<^sup>* system_init ?s"
    using control_request_steps [of default_limits control_default 0 Timeout]
    by (simp add: system_init_def)
  from cancellation_is_published_last [OF this refl] show ?thesis
    by (simp add: Let_def control_request_def control_cause_def control_default_def
        begin_cleanup_def)
qed

text \<open>
  Error codes and causes. The code of a cause leads back to it, before and after the start;
  a code of no cause counts as a failed start before it and as a failed execution after it; and
  distinct causes have distinct names.
\<close>

theorem cause_codes_round_trip:
  "(\<forall>c code. cause_error_code c = Some code \<longrightarrow>
      cause_from_error_code code = c \<and> cause_from_started_error_code code = c) \<and>
   (\<forall>code. (\<forall>c. cause_error_code c \<noteq> Some code) \<longrightarrow>
      cause_from_error_code code = FailedToStart \<and>
      cause_from_started_error_code code = ExecutionFailed) \<and>
   inj cause_as_str"
proof (intro conjI allI impI)
  fix c code
  assume "cause_error_code c = Some code"
  then show "cause_from_error_code code = c"
    by (cases c) (auto simp: cause_from_error_code_def)
  then show "cause_from_started_error_code code = c"
    using \<open>cause_error_code c = Some code\<close>
    by (cases c) (auto simp: cause_from_started_error_code_def)
next
  fix code
  assume none: "\<forall>c. cause_error_code c \<noteq> Some code"
  then show "cause_from_error_code code = FailedToStart"
    using none [rule_format, of Cancelled] none [rule_format, of Timeout]
      none [rule_format, of OutputLimit] none [rule_format, of ClientDisconnected]
      none [rule_format, of Backpressure] none [rule_format, of InputFailed]
    by (simp add: cause_from_error_code_def)
  then show "cause_from_started_error_code code = ExecutionFailed"
    by (simp add: cause_from_started_error_code_def)
next
  show "inj cause_as_str"
    by (rule injI) (case_tac x; case_tac y; simp)
qed

theorem cause_codes_round_trip_witness:
  "cause_from_error_code ''EXECUTION_TIMEOUT'' = Timeout"
  using cause_codes_round_trip by (metis cause_error_code.simps(5))

text \<open>
  The deadline thread. Left alone it requests the timeout at the later of its own start and
  the deadline counted from the accepted start, so a late thread does not extend the timeout; once
  stopped before that it requests nothing. Waiting for it ends: on a clock that advances between
  the turns, \<open>finish\<close> returns within as many turns as its deadline allows.
\<close>

theorem deadline_thread_is_timely:
  assumes "start \<le> now"
  shows "deadline_worker limits start timeout now None c =
      snd (control_request limits (max now (start + timeout)) Timeout c) \<and>
    (\<forall>t. t \<le> max now (start + timeout) \<longrightarrow> deadline_worker limits start timeout now (Some t) c = c) \<and>
    (sorted_wrt (<) (map fst turns) \<and> deadline < length turns \<longrightarrow>
      (\<exists>r d'. deadline_finish deadline turns join_ok d = Some (r, d') \<and> \<not> dl_stop d'))"
proof (intro conjI allI impI)
  have wake: "now + (timeout - (now - start)) = max now (start + timeout)"
    using assms by simp
  show "deadline_worker limits start timeout now None c =
      snd (control_request limits (max now (start + timeout)) Timeout c)"
    by (simp add: deadline_worker_def Let_def wake)
  show "deadline_worker limits start timeout now (Some t) c = c"
    if "t \<le> max now (start + timeout)" for t
    using that by (simp add: deadline_worker_def Let_def wake)
  assume turns: "sorted_wrt (<) (map fst turns) \<and> deadline < length turns"
  have "deadline_wait (case dl_cleanup_deadline d of None \<Rightarrow> deadline | Some p \<Rightarrow> min p deadline) turns \<noteq> None"
    by (rule deadline_wait_returns [where t = 0]) (use turns in \<open>auto split: option.splits\<close>)
  then show "\<exists>r d'. deadline_finish deadline turns join_ok d = Some (r, d') \<and> \<not> dl_stop d'"
    by (auto simp: deadline_finish_def Let_def split: sum.splits)
qed

theorem deadline_thread_is_timely_witness:
  "ctl_cause (deadline_worker default_limits 100 50 120 None control_default) = Some Timeout \<and>
   deadline_worker default_limits 100 50 120 (Some 140) control_default = control_default \<and>
   (\<exists>r d'. deadline_finish 2 [(0, False), (5, False), (10, True)] True
     \<lparr>dl_stop = True, dl_worker = True, dl_cleanup_deadline = None\<rparr> = Some (r, d') \<and> \<not> dl_stop d')"
  using deadline_thread_is_timely [of 100 120 default_limits 50 control_default
      "[(0, False), (5, False), (10, True)]" 2 True
      "\<lparr>dl_stop = True, dl_worker = True, dl_cleanup_deadline = None\<rparr>"]
  by (simp add: control_request_def control_default_def begin_cleanup_def Let_def)

end
