(* ===== verification/Protocol_Writer.thy ===== *)
theory Protocol_Writer
  imports Execution_Control Component_Interfaces "HOL-Library.Sublist"
begin

text \<open>
  The frames of the stdio protocol, the writer thread and its queues: \<open>src/protocol/stdio_writer.rs\<close>.
  The JSON serializer is a
  parameter, the pieces it writes and the error it may end with; so is the capacity of a fresh
  vector. The atomic flags of frames and the gates of executions are identified by numbers.
\<close>

section \<open>Frames\<close>

datatype io_error = InvalidData string | IoInterrupted | WriteZero | OtherIo string

definition FRAME_OVERHEAD :: nat where "FRAME_OVERHEAD = 512"

definition newline :: byte where "newline = 10"

record frame =
  fr_bytes :: "byte list"
  fr_resident :: nat
  fr_data :: bool
  fr_guard :: "nat option"
  fr_starts :: "nat list"

definition checked_add :: "nat \<Rightarrow> nat \<Rightarrow> nat option" where
  "checked_add a b = (if a + b \<le> usize_max then Some (a + b) else None)"

definition count_piece :: "deployment_limits \<Rightarrow> byte list \<Rightarrow> nat \<Rightarrow> (io_error, nat) result" where
  "count_piece limits bytes count =
     ok_or (option_filter (\<lambda>count. count < rpc_frame_bytes limits) (checked_add count (length bytes)))
       (InvalidData ''outgoing protocol frame exceeds limit'')"

definition frame_encode ::
  "deployment_limits \<Rightarrow> (json \<Rightarrow> byte list list \<times> io_error option) \<Rightarrow> (nat \<Rightarrow> nat) \<Rightarrow>
     json \<Rightarrow> nat option \<Rightarrow> nat list \<Rightarrow> (io_error, frame) result" where
  "frame_encode limits to_writer with_capacity message guard starts =
     rbind (fold_result (count_piece limits) (fst (to_writer message)) 0) (\<lambda>counter.
     case snd (to_writer message) of
       Some err \<Rightarrow> Inl err
     | None \<Rightarrow>
         Inr \<lparr>fr_bytes = concat (fst (to_writer message)) @ [newline],
              fr_resident = with_capacity (counter + 1) + FRAME_OVERHEAD,
              fr_data = (json_index message ''method'' = JStr ''event''),
              fr_guard = guard, fr_starts = starts\<rparr>)"

definition frame_valid :: "(nat \<Rightarrow> bool) \<Rightarrow> frame \<Rightarrow> bool" where
  "frame_valid guards f = (case fr_guard f of None \<Rightarrow> True | Some g \<Rightarrow> guards g)"

section \<open>The queues of the writer\<close>

record writer_state =
  ws_control :: "frame list"
  ws_data :: "frame list"
  ws_bytes :: nat
  ws_data_bytes :: nat
  ws_progress :: instant
  ws_writing :: bool
  ws_failed :: bool
  ws_stopping :: bool

definition writer_init :: "instant \<Rightarrow> writer_state" where
  "writer_init now =
     \<lparr>ws_control = [], ws_data = [], ws_bytes = 0, ws_data_bytes = 0, ws_progress = now,
      ws_writing = False, ws_failed = False, ws_stopping = False\<rparr>"

definition enqueue ::
  "deployment_limits \<Rightarrow> instant \<Rightarrow> frame \<Rightarrow> writer_state \<Rightarrow> (frame, unit) result \<times> writer_state" where
  "enqueue limits now f st =
     (if ws_stopping st
         \<or> queued_protocol_bytes limits < ws_bytes st + fr_resident f
         \<or> (fr_data f \<and> protocol_data_bytes limits < ws_data_bytes st + fr_resident f)
      then (Inl f, st)
      else
        let st = (if ws_bytes st = 0 then st\<lparr>ws_progress := now\<rparr> else st);
            st = st\<lparr>ws_bytes := ws_bytes st + fr_resident f\<rparr> in
        (Inr (),
         if fr_data f
         then st\<lparr>ws_data_bytes := ws_data_bytes st + fr_resident f, ws_data := ws_data st @ [f]\<rparr>
         else st\<lparr>ws_control := ws_control st @ [f]\<rparr>))"

definition can_poll_events :: "deployment_limits \<Rightarrow> writer_state \<Rightarrow> bool" where
  "can_poll_events limits st \<longleftrightarrow>
     \<not> ws_stopping st
     \<and> ws_bytes st + rpc_frame_bytes limits + FRAME_OVERHEAD \<le> queued_protocol_bytes limits
     \<and> ws_data_bytes st + rpc_frame_bytes limits + FRAME_OVERHEAD \<le> protocol_data_bytes limits"

definition stalled :: "deployment_limits \<Rightarrow> instant \<Rightarrow> writer_state \<Rightarrow> bool" where
  "stalled limits now st \<longleftrightarrow> 0 < ws_bytes st \<and> backpressure_timeout limits \<le> now - ws_progress st"

definition writer_idle :: "writer_state \<Rightarrow> bool" where
  "writer_idle st \<longleftrightarrow> ws_bytes st = 0"

definition pop_frame :: "writer_state \<Rightarrow> (frame \<times> writer_state) option" where
  "pop_frame st =
     (case ws_control st of
        f # frames \<Rightarrow> Some (f, st\<lparr>ws_control := frames\<rparr>)
      | [] \<Rightarrow> (case ws_data st of
                 f # frames \<Rightarrow> Some (f, st\<lparr>ws_data := frames\<rparr>)
               | [] \<Rightarrow> None))"

definition release_frame :: "frame \<Rightarrow> writer_state \<Rightarrow> writer_state" where
  "release_frame f st =
     (let st = st\<lparr>ws_bytes := ws_bytes st - fr_resident f\<rparr> in
      if fr_data f then st\<lparr>ws_data_bytes := ws_data_bytes st - fr_resident f\<rparr> else st)"

lemma release_frame_queues [simp]:
  "ws_control (release_frame f st) = ws_control st"
  "ws_data (release_frame f st) = ws_data st"
  "ws_stopping (release_frame f st) = ws_stopping st"
  "ws_failed (release_frame f st) = ws_failed st"
  "ws_writing (release_frame f st) = ws_writing st"
  "ws_bytes (release_frame f st) = ws_bytes st - fr_resident f"
  "ws_data_bytes (release_frame f st) = ws_data_bytes st - (if fr_data f then fr_resident f else 0)"
  by (simp_all add: release_frame_def Let_def)

abbreviation queued :: "writer_state \<Rightarrow> frame list" where
  "queued st \<equiv> ws_control st @ ws_data st"

lemma pop_frame_SomeD:
  assumes "pop_frame st = Some (f, st')"
  shows "queued st = f # queued st'"
  using assms by (auto simp: pop_frame_def split: list.splits)

lemma pop_frame_shorter:
  "pop_frame st = Some (f, st') \<Longrightarrow> length (queued st') < length (queued st)"
  by (drule pop_frame_SomeD) (metis length_Cons lessI)

lemma pop_frame_None: "pop_frame st = None \<longleftrightarrow> queued st = []"
  by (auto simp: pop_frame_def split: list.splits)

function drop_queued :: "writer_state \<Rightarrow> writer_state" where
  "drop_queued st =
     (case pop_frame st of None \<Rightarrow> st | Some (f, st) \<Rightarrow> drop_queued (release_frame f st))"
  by pat_completeness auto
termination
  by (relation "measure (\<lambda>st. length (queued st))") (auto dest!: pop_frame_shorter)

declare drop_queued.simps [simp del]

definition writer_stop :: "writer_state \<Rightarrow> writer_state" where
  "writer_stop st = drop_queued (st\<lparr>ws_stopping := True\<rparr>)"

section \<open>The writer thread\<close>

text \<open>
  One pass of the worker under the lock: it returns, waits, or takes the first valid frame, control
  frames first, and drops the invalid ones it meets. \<open>guards\<close> are the flags as the pass reads them.
\<close>

datatype taken = ReturnNow | WaitReady | Took frame

function worker_take :: "(nat \<Rightarrow> bool) \<Rightarrow> writer_state \<Rightarrow> taken \<times> writer_state" where
  "worker_take guards st =
     (if ws_stopping st then (ReturnNow, st)
      else (case pop_frame st of
              Some (f, st) \<Rightarrow>
                if \<not> frame_valid guards f then worker_take guards (release_frame f st)
                else (Took f, st\<lparr>ws_writing := True\<rparr>)
            | None \<Rightarrow> (WaitReady, st)))"
  by pat_completeness auto
termination
  by (relation "measure (\<lambda>(_, st). length (queued st))") (auto dest!: pop_frame_shorter)

declare worker_take.simps [simp del]

definition finish_frame :: "instant \<Rightarrow> frame \<Rightarrow> bool \<Rightarrow> writer_state \<Rightarrow> writer_state" where
  "finish_frame now f ok st =
     (let st = (release_frame f st)\<lparr>ws_writing := False\<rparr> in
      if ok then st\<lparr>ws_progress := now\<rparr> else st\<lparr>ws_failed := True, ws_stopping := True\<rparr>)"

definition next_chunk :: "frame \<Rightarrow> nat \<Rightarrow> byte list" where
  "next_chunk f offset = (let end = min (offset + 4096) (length (fr_bytes f)) in
     take (end - offset) (drop offset (fr_bytes f)))"

text \<open>
  The worker between its critical sections: about to open the output, looking for a frame, at the
  head of the writing loop, past its check, past a write, and past the last flush or an error.
\<close>

datatype worker =
    Starting | Looking | Offering frame nat | Sending frame nat | Sent frame nat
  | Finishing frame bool | Returned

text \<open>
  The system: the shared state, the worker, what the operating system took from it and the gates it
  opened; \<open>sy_accepted\<close> and \<open>sy_delivered\<close> are history, the frames \<open>enqueue\<close> accepted and those the
  worker wrote and flushed.
\<close>

record writer_system =
  sy_state :: writer_state
  sy_worker :: worker
  sy_stdout :: "byte list"
  sy_permits :: "nat list"
  sy_accepted :: "frame list"
  sy_delivered :: "frame list"

definition writer_system_init :: "instant \<Rightarrow> writer_system" where
  "writer_system_init now =
     \<lparr>sy_state = writer_init now, sy_worker = Starting, sy_stdout = [], sy_permits = [],
      sy_accepted = [], sy_delivered = []\<rparr>"

inductive worker_step :: "writer_system \<Rightarrow> writer_system \<Rightarrow> bool" where
  opened: "sy_worker s = Starting \<Longrightarrow> worker_step s (s\<lparr>sy_worker := Looking\<rparr>)"
| open_failed: "sy_worker s = Starting \<Longrightarrow>
    worker_step s (s\<lparr>sy_state := (sy_state s)\<lparr>ws_failed := True, ws_stopping := True\<rparr>,
      sy_worker := Returned\<rparr>)"
| look: "sy_worker s = Looking \<Longrightarrow> worker_take guards (sy_state s) = (outcome, st) \<Longrightarrow>
    worker_step s (s\<lparr>sy_state := st,
      sy_worker := (case outcome of ReturnNow \<Rightarrow> Returned | WaitReady \<Rightarrow> Looking | Took f \<Rightarrow> Offering f 0)\<rparr>)"
| check: "sy_worker s = Offering f offset \<Longrightarrow> offset < length (fr_bytes f) \<Longrightarrow>
    worker_step s (s\<lparr>sy_worker :=
      (if ws_stopping (sy_state s) then Finishing f False else Sending f offset)\<rparr>)"
| wrote: "sy_worker s = Sending f offset \<Longrightarrow> 0 < n \<Longrightarrow> n \<le> length (next_chunk f offset) \<Longrightarrow>
    worker_step s (s\<lparr>sy_stdout := sy_stdout s @ take n (next_chunk f offset),
      sy_worker := Sent f (offset + n)\<rparr>)"
| write_failed: "sy_worker s = Sending f offset \<Longrightarrow>
    worker_step s (s\<lparr>sy_worker := Finishing f False\<rparr>)"
| progress: "sy_worker s = Sent f offset \<Longrightarrow>
    worker_step s (s\<lparr>sy_state := (sy_state s)\<lparr>ws_progress := now\<rparr>, sy_worker := Offering f offset\<rparr>)"
| flushed: "sy_worker s = Offering f offset \<Longrightarrow> length (fr_bytes f) \<le> offset \<Longrightarrow>
    worker_step s (s\<lparr>sy_permits := sy_permits s @ fr_starts f, sy_delivered := sy_delivered s @ [f],
      sy_worker := Finishing f True\<rparr>)"
| flush_failed: "sy_worker s = Offering f offset \<Longrightarrow> length (fr_bytes f) \<le> offset \<Longrightarrow>
    worker_step s (s\<lparr>sy_worker := Finishing f False\<rparr>)"
| finish: "sy_worker s = Finishing f ok \<Longrightarrow>
    worker_step s (s\<lparr>sy_state := finish_frame now f ok (sy_state s),
      sy_worker := (if ok then Looking else Returned)\<rparr>)"

inductive client_step :: "deployment_limits \<Rightarrow> writer_system \<Rightarrow> writer_system \<Rightarrow> bool" for limits where
  enqueue: "enqueue limits now f (sy_state s) = (answer, st) \<Longrightarrow>
    client_step limits s (s\<lparr>sy_state := st,
      sy_accepted := sy_accepted s @ (if answer = Inr () then [f] else [])\<rparr>)"
| stop: "client_step limits s (s\<lparr>sy_state := writer_stop (sy_state s)\<rparr>)"

definition writer_step :: "deployment_limits \<Rightarrow> writer_system \<Rightarrow> writer_system \<Rightarrow> bool" where
  "writer_step limits s t \<longleftrightarrow> worker_step s t \<or> client_step limits s t"

inductive_cases worker_stepE: "worker_step s t"
inductive_cases client_stepE: "client_step limits s t"

section \<open>Accounting\<close>

definition in_flight :: "worker \<Rightarrow> frame list" where
  "in_flight w = (case w of Offering f _ \<Rightarrow> [f] | Sending f _ \<Rightarrow> [f] | Sent f _ \<Rightarrow> [f] | Finishing f _ \<Rightarrow> [f] | _ \<Rightarrow> [])"

definition accounts :: "writer_state \<Rightarrow> frame list \<Rightarrow> bool" where
  "accounts st held \<longleftrightarrow>
     ws_bytes st = weight fr_resident (held @ queued st) \<and>
     ws_data_bytes st = weight fr_resident (filter fr_data (held @ queued st))"

lemma accounts_release:
  "accounts st (f # held) \<Longrightarrow> accounts (release_frame f st) held"
  by (simp add: accounts_def)

lemma accounts_pop:
  "accounts st held \<Longrightarrow> pop_frame st = Some (f, st') \<Longrightarrow> accounts st' (f # held)"
  by (auto simp: accounts_def pop_frame_def split: list.splits)

lemma drop_queued_spec:
  assumes "accounts st held"
  shows "accounts (drop_queued st) held" "queued (drop_queued st) = []"
    "ws_stopping (drop_queued st) = ws_stopping st"
    "ws_bytes (drop_queued st) \<le> ws_bytes st" "ws_data_bytes (drop_queued st) \<le> ws_data_bytes st"
proof -
  have "accounts (drop_queued st) held \<and> queued (drop_queued st) = [] \<and>
    ws_stopping (drop_queued st) = ws_stopping st \<and>
    ws_bytes (drop_queued st) \<le> ws_bytes st \<and> ws_data_bytes (drop_queued st) \<le> ws_data_bytes st"
    using assms
  proof (induction st rule: drop_queued.induct)
    case (1 st)
    show ?case
    proof (cases "pop_frame st")
      case None
      then have "queued st = []" by (simp add: pop_frame_None)
      with None 1(2) show ?thesis by (simp add: drop_queued.simps [of st])
    next
      case (Some p)
      obtain f st' where p: "p = (f, st')" by (cases p)
      have "accounts (release_frame f st') held"
        using accounts_release accounts_pop 1(2) Some p by blast
      from 1(1) [OF Some p [symmetric] this] show ?thesis
        using Some p by (auto simp: drop_queued.simps [of st] pop_frame_def split: list.splits if_splits)
    qed
  qed
  then show "accounts (drop_queued st) held" "queued (drop_queued st) = []"
    "ws_stopping (drop_queued st) = ws_stopping st"
    "ws_bytes (drop_queued st) \<le> ws_bytes st" "ws_data_bytes (drop_queued st) \<le> ws_data_bytes st"
    by simp_all
qed

definition lane_queue :: "bool \<Rightarrow> writer_state \<Rightarrow> frame list" where
  "lane_queue data st = (if data then ws_data st else ws_control st)"

lemma lane_queue_update [simp]:
  "lane_queue b (release_frame f st) = lane_queue b st"
  "lane_queue b (st\<lparr>ws_progress := now\<rparr>) = lane_queue b st"
  "lane_queue b (st\<lparr>ws_stopping := x\<rparr>) = lane_queue b st"
  "lane_queue b (st\<lparr>ws_failed := x\<rparr>) = lane_queue b st"
  by (simp_all add: lane_queue_def)

definition lane :: "bool \<Rightarrow> frame list \<Rightarrow> frame list" where
  "lane data = filter (\<lambda>f. fr_data f = data)"

definition wf_queues :: "writer_state \<Rightarrow> bool" where
  "wf_queues st \<longleftrightarrow> list_all (\<lambda>f. \<not> fr_data f) (ws_control st) \<and> list_all fr_data (ws_data st)"

definition taken_frames :: "taken \<Rightarrow> frame list" where
  "taken_frames outcome = (case outcome of Took f \<Rightarrow> [f] | _ \<Rightarrow> [])"

text \<open>
  A pass takes from the front of each lane: what it drops was guarded, and a control frame is taken
  before any data frame.
\<close>

lemma pop_frame_lane:
  assumes "pop_frame st = Some (f, st')" "wf_queues st"
  shows "lane_queue b st = lane b [f] @ lane_queue b st'" "wf_queues st'"
  using assms by (auto simp: pop_frame_def lane_queue_def lane_def wf_queues_def split: list.splits)

lemma worker_take_spec:
  assumes "worker_take guards st = (outcome, st')" "wf_queues st" "accounts st []"
  shows "wf_queues st' \<and> accounts st' (taken_frames outcome) \<and>
    ws_stopping st' = ws_stopping st \<and> ws_failed st' = ws_failed st \<and>
    ws_bytes st' \<le> ws_bytes st \<and> ws_data_bytes st' \<le> ws_data_bytes st \<and>
    (\<forall>b. \<exists>dropped. lane_queue b st = dropped @ lane b (taken_frames outcome) @ lane_queue b st' \<and>
       (\<forall>f \<in> set dropped. \<not> frame_valid guards f))"
  using assms
proof (induction guards st rule: worker_take.induct)
  case (1 guards st)
  show ?case
  proof (cases "ws_stopping st \<or> pop_frame st = None")
    case True
    with 1(2-) show ?thesis
      by (auto simp: worker_take.simps [of guards st] taken_frames_def lane_def split: option.splits if_splits)
  next
    case False
    then obtain f st1 where run: "\<not> ws_stopping st" and pop: "pop_frame st = Some (f, st1)" by auto
    note lane = pop_frame_lane [OF pop 1(3)]
    have acc: "accounts st1 [f]" using accounts_pop [OF 1(4) pop] .
    have same: "ws_stopping st1 = ws_stopping st" "ws_failed st1 = ws_failed st"
      "ws_bytes st1 = ws_bytes st" "ws_data_bytes st1 = ws_data_bytes st"
      using pop by (auto simp: pop_frame_def split: list.splits)
    show ?thesis
    proof (cases "frame_valid guards f")
      case True
      with 1(2) run pop have "outcome = Took f" "st' = st1\<lparr>ws_writing := True\<rparr>"
        by (simp_all add: worker_take.simps [of guards st])
      with lane acc same show ?thesis
        by (simp add: taken_frames_def wf_queues_def accounts_def lane_queue_def)
    next
      case invalid: False
      have "worker_take guards (release_frame f st1) = (outcome, st')"
        using 1(2) run pop invalid by (simp add: worker_take.simps [of guards st])
      moreover have "wf_queues (release_frame f st1)" using lane(2) by (simp add: wf_queues_def)
      moreover have "accounts (release_frame f st1) []" using acc by (rule accounts_release)
      ultimately have "wf_queues st' \<and> accounts st' (taken_frames outcome) \<and>
          ws_stopping st' = ws_stopping st1 \<and> ws_failed st' = ws_failed st1 \<and>
          ws_bytes st' \<le> ws_bytes st1 - fr_resident f \<and>
          ws_data_bytes st' \<le> ws_data_bytes st1 - (if fr_data f then fr_resident f else 0) \<and>
          (\<forall>b. \<exists>dropped. lane_queue b st1 = dropped @ lane b (taken_frames outcome) @ lane_queue b st' \<and>
             (\<forall>f \<in> set dropped. \<not> frame_valid guards f))"
        using 1(1) [OF run pop refl invalid] by (simp only: release_frame_queues lane_queue_update simp_thms)
      note IH = this
      have "\<exists>dropped. lane_queue b st = dropped @ lane b (taken_frames outcome) @ lane_queue b st' \<and>
             (\<forall>f \<in> set dropped. \<not> frame_valid guards f)" for b
      proof -
        obtain dropped where "lane_queue b st1 = dropped @ lane b (taken_frames outcome) @ lane_queue b st'"
          "\<forall>f \<in> set dropped. \<not> frame_valid guards f" using IH by blast
        then show ?thesis
          using lane(1) [of b] invalid by (intro exI [of _ "lane b [f] @ dropped"]) (auto simp: lane_def)
      qed
      with IH same show ?thesis by (elim conjE, intro conjI) (simp_all split: if_splits)
    qed
  qed
qed

section \<open>Invariants of the writer\<close>

definition budget_inv :: "deployment_limits \<Rightarrow> writer_system \<Rightarrow> bool" where
  "budget_inv limits s \<longleftrightarrow>
     wf_queues (sy_state s) \<and> accounts (sy_state s) (in_flight (sy_worker s)) \<and>
     ws_bytes (sy_state s) \<le> queued_protocol_bytes limits \<and>
     ws_data_bytes (sy_state s) \<le> protocol_data_bytes limits"

lemma enqueue_spec:
  assumes "enqueue limits now f st = (answer, st')"
  shows "ws_stopping st' = ws_stopping st"
    "accounts st held \<Longrightarrow> accounts st' held" "wf_queues st \<Longrightarrow> wf_queues st'"
    "ws_bytes st \<le> queued_protocol_bytes limits \<Longrightarrow> ws_bytes st' \<le> queued_protocol_bytes limits"
    "ws_data_bytes st \<le> protocol_data_bytes limits \<Longrightarrow> ws_data_bytes st' \<le> protocol_data_bytes limits"
    "lane_queue b st' = lane_queue b st @ (if answer = Inr () then lane b [f] else [])"
  using assms
  by (auto simp: enqueue_def Let_def accounts_def wf_queues_def lane_queue_def lane_def
      split: if_splits)

lemma finish_frame_spec:
  "accounts st [f] \<Longrightarrow> accounts (finish_frame now f ok st) []"
  "wf_queues (finish_frame now f ok st) = wf_queues st"
  "ws_bytes (finish_frame now f ok st) \<le> ws_bytes st"
  "ws_data_bytes (finish_frame now f ok st) \<le> ws_data_bytes st"
  "lane_queue b (finish_frame now f ok st) = lane_queue b st"
  "ws_stopping (finish_frame now f ok st) \<longleftrightarrow> ws_stopping st \<or> \<not> ok"
  using accounts_release [of st f "[]"]
  by (auto simp: finish_frame_def Let_def accounts_def wf_queues_def lane_queue_def)

lemma budget_inv_worker:
  assumes "worker_step s t" "budget_inv limits s"
  shows "budget_inv limits t"
  using assms
proof (cases rule: worker_step.cases)
  case (look guards outcome st)
  have "in_flight (case outcome of ReturnNow \<Rightarrow> Returned | WaitReady \<Rightarrow> Looking | Took f \<Rightarrow> Offering f 0) =
      taken_frames outcome" by (simp add: in_flight_def taken_frames_def split: taken.splits)
  with look assms(2) worker_take_spec [OF look(3)] show ?thesis
    by (auto simp: budget_inv_def in_flight_def)
next
  case (finish f ok now)
  with assms(2) show ?thesis
    using finish_frame_spec(1) [of "sy_state s" f now ok] finish_frame_spec(3,4) [of now f ok "sy_state s"]
    by (cases ok) (simp_all add: budget_inv_def in_flight_def finish_frame_spec(2))
qed (auto simp: budget_inv_def in_flight_def accounts_def wf_queues_def)

lemma budget_inv_client:
  assumes "client_step limits s t" "budget_inv limits s"
  shows "budget_inv limits t"
  using assms
proof (cases rule: client_step.cases)
  case (enqueue now f answer st)
  with assms(2) enqueue_spec [OF enqueue(2)] show ?thesis by (simp add: budget_inv_def)
next
  case stop
  have "accounts ((sy_state s)\<lparr>ws_stopping := True\<rparr>) (in_flight (sy_worker s))"
    using assms(2) by (simp add: budget_inv_def accounts_def)
  from drop_queued_spec [OF this] assms(2) stop show ?thesis
    by (simp add: budget_inv_def writer_stop_def wf_queues_def)
qed

lemma budget_inv_reachable:
  assumes "(writer_step limits)\<^sup>*\<^sup>* (writer_system_init now) s"
  shows "budget_inv limits s"
  using assms
proof induction
  case base
  show ?case
    by (simp add: budget_inv_def writer_system_init_def writer_init_def wf_queues_def accounts_def in_flight_def)
next
  case (step t u)
  then show ?case by (auto simp: writer_step_def intro: budget_inv_worker budget_inv_client)
qed

text \<open>The frame the worker has taken and not yet delivered, and what it has written of it.\<close>

definition undelivered :: "worker \<Rightarrow> frame list" where
  "undelivered w =
     (case w of Offering f _ \<Rightarrow> [f] | Sending f _ \<Rightarrow> [f] | Sent f _ \<Rightarrow> [f]
      | Finishing f ok \<Rightarrow> if ok then [] else [f] | _ \<Rightarrow> [])"

definition order_inv :: "writer_system \<Rightarrow> bool" where
  "order_inv s \<longleftrightarrow>
     (\<forall>b. subseq (lane b (sy_delivered s @ undelivered (sy_worker s)) @ lane_queue b (sy_state s))
            (lane b (sy_accepted s)) \<and>
        (\<not> ws_stopping (sy_state s) \<and> (\<forall>f \<in> set (sy_accepted s). fr_guard f = None) \<longrightarrow>
           lane b (sy_delivered s @ undelivered (sy_worker s)) @ lane_queue b (sy_state s) =
             lane b (sy_accepted s)))"

lemma subseq_drop_middle: "subseq (xs @ ds @ ys) zs \<Longrightarrow> subseq (xs @ ys) zs"
  by (erule subseq_order.trans [rotated]) (simp add: subseq_append' list_emb_append2)

lemma lane_append [simp]: "lane b (xs @ ys) = lane b xs @ lane b ys"
  by (simp add: lane_def)

lemma lane_Nil [simp]: "lane b [] = []"
  by (simp add: lane_def)

lemma order_invD:
  assumes "order_inv s"
  shows "subseq (lane b (sy_delivered s) @ lane b (undelivered (sy_worker s)) @ lane_queue b (sy_state s))
      (lane b (sy_accepted s))"
    "\<not> ws_stopping (sy_state s) \<Longrightarrow> \<forall>f \<in> set (sy_accepted s). fr_guard f = None \<Longrightarrow>
      lane b (sy_delivered s) @ lane b (undelivered (sy_worker s)) @ lane_queue b (sy_state s) =
        lane b (sy_accepted s)"
  using assms by (simp_all add: order_inv_def)

lemma order_inv_look:
  assumes "worker_take guards (sy_state s) = (outcome, st)" "sy_worker s = Looking"
    and "order_inv s" "budget_inv limits s"
    and w: "undelivered w = taken_frames outcome"
  shows "order_inv (s\<lparr>sy_state := st, sy_worker := w\<rparr>)"
proof -
  have inv: "wf_queues (sy_state s)" "accounts (sy_state s) []"
    using assms(2,4) by (simp_all add: budget_inv_def in_flight_def)
  note spec = worker_take_spec [OF assms(1) inv]
  have "subseq (lane b (sy_delivered s @ undelivered w) @ lane_queue b st) (lane b (sy_accepted s)) \<and>
     (\<not> ws_stopping st \<and> (\<forall>f \<in> set (sy_accepted s). fr_guard f = None) \<longrightarrow>
       lane b (sy_delivered s @ undelivered w) @ lane_queue b st = lane b (sy_accepted s))" for b
  proof -
    obtain dropped where eq: "lane_queue b (sy_state s) = dropped @ lane b (taken_frames outcome) @ lane_queue b st"
      and guarded: "\<forall>f \<in> set dropped. \<not> frame_valid guards f" using spec by blast
    have sub: "subseq (lane b (sy_delivered s) @ dropped @ lane b (taken_frames outcome) @ lane_queue b st)
        (lane b (sy_accepted s))"
      using order_invD(1) [OF assms(3), of b] assms(2) eq by (simp add: undelivered_def)
    have "dropped = []" if free: "\<forall>f \<in> set (sy_accepted s). fr_guard f = None"
    proof (rule ccontr)
      assume "dropped \<noteq> []"
      then obtain f where f: "f \<in> set dropped" by (cases dropped) auto
      then have "f \<in> set (sy_accepted s)"
        using list_emb_set [OF sub, of f] by (auto simp: lane_def)
      with f guarded free show False by (force simp: frame_valid_def)
    qed
    then show ?thesis
      using subseq_drop_middle [OF sub] order_invD(2) [OF assms(3), of b] assms(2) eq spec w
      by (simp add: undelivered_def)
  qed
  then show ?thesis by (simp add: order_inv_def)
qed

lemma order_inv_worker:
  assumes "worker_step s t" "order_inv s" "budget_inv limits s"
  shows "order_inv t"
  using assms
proof (cases rule: worker_step.cases)
  case (look guards outcome st)
  show ?thesis unfolding look(1)
    by (rule order_inv_look [OF look(3,2) assms(2,3)])
      (simp add: undelivered_def taken_frames_def split: taken.splits)
next
  case (finish f ok now)
  with assms(2) show ?thesis
    by (cases ok) (auto simp: order_inv_def undelivered_def finish_frame_spec(5,6) intro: subseq_drop_middle)
qed (auto simp: order_inv_def undelivered_def)

lemma order_inv_client:
  assumes "client_step limits s t" "order_inv s" "budget_inv limits s"
  shows "order_inv t"
  using assms
proof (cases rule: client_step.cases)
  case (enqueue now f answer st)
  with assms(2) enqueue_spec(1,6) [OF enqueue(2)] show ?thesis
    by (auto simp: order_inv_def simp flip: append_assoc)
next
  case stop
  have "accounts ((sy_state s)\<lparr>ws_stopping := True\<rparr>) (in_flight (sy_worker s))"
    using assms(3) by (simp add: budget_inv_def accounts_def)
  note drop = drop_queued_spec [OF this]
  have "lane_queue b (writer_stop (sy_state s)) = []" for b
    using drop(2) by (simp add: writer_stop_def lane_queue_def)
  moreover have "ws_stopping (writer_stop (sy_state s))" using drop(3) by (simp add: writer_stop_def)
  moreover have "subseq (lane b (sy_delivered s) @ lane b (undelivered (sy_worker s))) (lane b (sy_accepted s))" for b
    using subseq_drop_middle [of "lane b (sy_delivered s) @ lane b (undelivered (sy_worker s))" _ "[]"]
      order_invD(1) [OF assms(2), of b] by simp
  ultimately show ?thesis using stop by (simp add: order_inv_def)
qed

lemma order_inv_reachable:
  assumes "(writer_step limits)\<^sup>*\<^sup>* (writer_system_init now) s"
  shows "order_inv s"
  using assms
proof induction
  case base
  show ?case
    by (simp add: order_inv_def writer_system_init_def writer_init_def undelivered_def lane_queue_def)
next
  case (step t u)
  then have "budget_inv limits t" by (blast intro: budget_inv_reachable)
  with step show ?case by (auto simp: writer_step_def intro: order_inv_worker order_inv_client)
qed

lemma undelivered_accepted:
  assumes "order_inv s" "f \<in> set (undelivered (sy_worker s))"
  shows "f \<in> set (sy_accepted s)"
proof -
  have "subseq (lane (fr_data f) (sy_delivered s @ undelivered (sy_worker s)) @ lane_queue (fr_data f) (sy_state s))
      (lane (fr_data f) (sy_accepted s))" using assms(1) by (simp add: order_inv_def)
  from list_emb_set [OF this, of f] assms(2) show ?thesis by (auto simp: lane_def)
qed

text \<open>What the operating system has of the frame under way, or of the one a failure cut short.\<close>

definition partial_output :: "frame list \<Rightarrow> worker \<Rightarrow> byte list \<Rightarrow> bool" where
  "partial_output accepted w bytes \<longleftrightarrow>
     (case w of
        Offering f k \<Rightarrow> k \<le> length (fr_bytes f) \<and> bytes = take k (fr_bytes f)
      | Sending f k \<Rightarrow> k \<le> length (fr_bytes f) \<and> bytes = take k (fr_bytes f)
      | Sent f k \<Rightarrow> k \<le> length (fr_bytes f) \<and> bytes = take k (fr_bytes f)
      | Finishing f ok \<Rightarrow> if ok then bytes = [] else prefix bytes (fr_bytes f)
      | Returned \<Rightarrow> bytes = [] \<or> (\<exists>f \<in> set accepted. prefix bytes (fr_bytes f))
      | _ \<Rightarrow> bytes = [])"

lemma partial_output_cases:
  "partial_output accepted Looking bytes \<longleftrightarrow> bytes = []"
  "partial_output accepted Starting bytes \<longleftrightarrow> bytes = []"
  "partial_output accepted (Offering f k) bytes \<longleftrightarrow> k \<le> length (fr_bytes f) \<and> bytes = take k (fr_bytes f)"
  "partial_output accepted (Sending f k) bytes \<longleftrightarrow> k \<le> length (fr_bytes f) \<and> bytes = take k (fr_bytes f)"
  "partial_output accepted (Sent f k) bytes \<longleftrightarrow> k \<le> length (fr_bytes f) \<and> bytes = take k (fr_bytes f)"
  "partial_output accepted (Finishing f ok) bytes \<longleftrightarrow> (if ok then bytes = [] else prefix bytes (fr_bytes f))"
  "partial_output accepted Returned bytes \<longleftrightarrow> bytes = [] \<or> (\<exists>f \<in> set accepted. prefix bytes (fr_bytes f))"
  by (simp_all add: partial_output_def)

definition output_inv :: "writer_system \<Rightarrow> bool" where
  "output_inv s \<longleftrightarrow>
     sy_permits s = concat (map fr_starts (sy_delivered s)) \<and>
     (\<exists>bytes. sy_stdout s = concat (map fr_bytes (sy_delivered s)) @ bytes \<and>
        partial_output (sy_accepted s) (sy_worker s) bytes)"

lemma next_chunk_take:
  assumes "n \<le> length (next_chunk f k)" "k \<le> length (fr_bytes f)"
  shows "take k (fr_bytes f) @ take n (next_chunk f k) = take (k + n) (fr_bytes f)"
    "k + n \<le> length (fr_bytes f)"
  using assms by (auto simp: next_chunk_def Let_def take_add min_def split: if_splits)

lemma output_inv_worker:
  assumes "worker_step s t" "output_inv s" "order_inv s"
  shows "output_inv t"
  using assms
proof (cases rule: worker_step.cases)
  case (look guards outcome st)
  with assms(2) show ?thesis
    by (auto simp: output_inv_def partial_output_cases split: taken.splits)
next
  case (wrote f k n)
  with assms(2) next_chunk_take [OF wrote(4)] show ?thesis
    by (auto simp: output_inv_def partial_output_cases)
next
  case (finish f ok now)
  have "\<not> ok \<Longrightarrow> f \<in> set (sy_accepted s)"
    using undelivered_accepted [OF assms(3), of f] finish(2) by (simp add: undelivered_def)
  with assms(2) finish show ?thesis
    by (cases ok) (auto simp: output_inv_def partial_output_cases)
qed (auto simp: output_inv_def partial_output_cases take_is_prefix split: if_splits)

lemma partial_output_mono:
  "partial_output accepted w bytes \<Longrightarrow> partial_output (accepted @ added) w bytes"
  by (auto simp: partial_output_def split: worker.splits)

lemma output_inv_client:
  assumes "client_step limits s t" "output_inv s"
  shows "output_inv t"
  using assms
proof (cases rule: client_step.cases)
  case (enqueue now f answer st)
  with assms(2) show ?thesis by (auto simp: output_inv_def intro: partial_output_mono)
qed (use assms(2) in \<open>simp add: output_inv_def\<close>)

lemma output_inv_reachable:
  assumes "(writer_step limits)\<^sup>*\<^sup>* (writer_system_init now) s"
  shows "output_inv s"
  using assms
proof induction
  case base
  show ?case by (simp add: output_inv_def writer_system_init_def partial_output_cases)
next
  case (step t u)
  have "order_inv t" using step(1) by (rule order_inv_reachable)
  with step show ?case
    by (auto simp: writer_step_def intro: output_inv_worker output_inv_client)
qed

text \<open>How many steps the worker can still take once it has to stop.\<close>

definition worker_rank :: "worker \<Rightarrow> nat" where
  "worker_rank w =
     (case w of Returned \<Rightarrow> 0 | Looking \<Rightarrow> 1 | Starting \<Rightarrow> 2 | Finishing _ _ \<Rightarrow> 2
      | Offering _ _ \<Rightarrow> 3 | Sent _ _ \<Rightarrow> 4 | Sending _ _ \<Rightarrow> 5)"

lemma worker_step_progress: "sy_worker s \<noteq> Returned \<Longrightarrow> \<exists>t. worker_step s t"
proof (cases "sy_worker s")
  case (Offering f k)
  then show ?thesis
    by (cases "k < length (fr_bytes f)") (auto intro: worker_step.check worker_step.flushed simp: not_less)
next
  case Looking
  obtain outcome st where "worker_take (\<lambda>_. True) (sy_state s) = (outcome, st)" by fastforce
  with Looking show ?thesis by (blast intro: worker_step.look)
qed (auto intro: worker_step.intros)

lemma worker_step_rank:
  assumes "worker_step s t" "ws_stopping (sy_state s)"
  shows "worker_rank (sy_worker t) < worker_rank (sy_worker s) \<and> ws_stopping (sy_state t)"
  using assms
  by (cases rule: worker_step.cases)
    (auto simp: worker_rank_def worker_take.simps finish_frame_spec(6) split: if_splits)

section \<open>Encoding\<close>

lemma count_piece_ok:
  "count_piece limits bytes count = Inr n \<Longrightarrow> n = count + length bytes \<and> n < rpc_frame_bytes limits"
  by (auto simp: count_piece_def checked_add_def ok_or_def option_filter_def split: option.splits if_splits)

lemma count_pieces_ok:
  "fold_result (count_piece limits) pieces count = Inr n \<Longrightarrow>
     n = count + length (concat pieces) \<and> (pieces \<noteq> [] \<longrightarrow> n < rpc_frame_bytes limits)"
proof (induction pieces arbitrary: count)
  case (Cons piece pieces)
  then obtain m where "count_piece limits piece count = Inr m" "fold_result (count_piece limits) pieces m = Inr n"
    by (auto simp: rbind_Inr_iff)
  with Cons.IH [of m] count_piece_ok [of limits piece count m] show ?case
    by (cases pieces) auto
qed simp

lemma frame_encode_ok:
  assumes "frame_encode limits to_writer with_capacity message guard starts = Inr f"
    and "0 < rpc_frame_bytes limits"
  shows "fr_bytes f = concat (fst (to_writer message)) @ [newline]"
    "length (fr_bytes f) \<le> rpc_frame_bytes limits"
    "fr_resident f = with_capacity (length (fr_bytes f)) + FRAME_OVERHEAD"
    "fr_starts f = starts" "fr_guard f = guard"
proof -
  obtain n where n: "fold_result (count_piece limits) (fst (to_writer message)) 0 = Inr n"
    using assms(1) unfolding frame_encode_def by (elim rbind_InrE)
  note len = count_pieces_ok [OF n]
  show "fr_bytes f = concat (fst (to_writer message)) @ [newline]" "fr_starts f = starts" "fr_guard f = guard"
    "fr_resident f = with_capacity (length (fr_bytes f)) + FRAME_OVERHEAD"
    using assms(1) n len by (auto simp: frame_encode_def split: option.splits)
  then show "length (fr_bytes f) \<le> rpc_frame_bytes limits"
    using assms(2) len by (cases "fst (to_writer message) = []") auto
qed

section \<open>Properties\<close>

text \<open>A run of the writer, from the start to a frame that is written and flushed.\<close>

definition sample_frame :: frame where
  "sample_frame = \<lparr>fr_bytes = [123, 125, newline], fr_resident = 515, fr_data = False, fr_guard = None,
     fr_starts = [7]\<rparr>"

definition sample_done :: writer_system where
  "sample_done =
     \<lparr>sy_state = (writer_init 0)\<lparr>ws_progress := 2\<rparr>, sy_worker = Looking, sy_stdout = [123, 125, newline],
      sy_permits = [7], sy_accepted = [sample_frame], sy_delivered = [sample_frame]\<rparr>"

lemma sample_run:
  assumes "515 \<le> queued_protocol_bytes limits"
  shows "(writer_step limits)\<^sup>*\<^sup>* (writer_system_init 0) sample_done"
proof -
  let ?s0 = "writer_system_init 0"
  let ?s1 = "?s0\<lparr>sy_worker := Looking\<rparr>"
  let ?q = "(writer_init 0)\<lparr>ws_bytes := 515, ws_control := [sample_frame]\<rparr>"
  let ?s2 = "?s1\<lparr>sy_state := ?q, sy_accepted := [sample_frame]\<rparr>"
  let ?w = "(writer_init 0)\<lparr>ws_bytes := 515, ws_writing := True\<rparr>"
  let ?s3 = "?s2\<lparr>sy_state := ?w, sy_worker := Offering sample_frame 0\<rparr>"
  let ?s4 = "?s3\<lparr>sy_worker := Sending sample_frame 0\<rparr>"
  let ?s5 = "?s4\<lparr>sy_stdout := [123, 125, newline], sy_worker := Sent sample_frame 3\<rparr>"
  let ?s6 = "?s5\<lparr>sy_state := ?w\<lparr>ws_progress := 1\<rparr>, sy_worker := Offering sample_frame 3\<rparr>"
  let ?s7 = "?s6\<lparr>sy_permits := [7], sy_delivered := [sample_frame], sy_worker := Finishing sample_frame True\<rparr>"
  note defs = writer_step_def writer_system_init_def writer_init_def sample_frame_def
  have s1: "writer_step limits ?s0 ?s1"
    unfolding writer_step_def by (intro disjI1 worker_step.opened) (simp add: writer_system_init_def)
  have e: "enqueue limits 0 sample_frame (sy_state ?s1) = (Inr (), ?q)"
    using assms by (simp add: enqueue_def defs)
  have s2: "writer_step limits ?s1 ?s2"
    using client_step.enqueue [OF e] by (simp add: writer_step_def) (simp add: writer_system_init_def)
  have t: "worker_take (\<lambda>_. True) (sy_state ?s2) = (Took sample_frame, ?w)"
    by (simp add: worker_take.simps pop_frame_def frame_valid_def defs)
  have s3: "writer_step limits ?s2 ?s3"
    unfolding writer_step_def using worker_step.look [OF _ t] by simp
  have s4: "writer_step limits ?s3 ?s4"
    unfolding writer_step_def using worker_step.check [of ?s3 sample_frame 0]
    by (simp add: sample_frame_def writer_init_def)
  have s5: "writer_step limits ?s4 ?s5"
    unfolding writer_step_def using worker_step.wrote [of ?s4 sample_frame 0 3]
    by (simp add: next_chunk_def sample_frame_def writer_system_init_def)
  have s6: "writer_step limits ?s5 ?s6"
    unfolding writer_step_def using worker_step.progress [of ?s5 sample_frame 3 1] by simp
  have s7: "writer_step limits ?s6 ?s7"
    unfolding writer_step_def using worker_step.flushed [of ?s6 sample_frame 3]
    by (simp add: sample_frame_def writer_system_init_def)
  have s8: "writer_step limits ?s7 sample_done"
    unfolding writer_step_def using worker_step.finish [of ?s7 sample_frame True 2]
    by (simp add: sample_done_def finish_frame_def release_frame_def defs)
  show ?thesis
    using s1 s2 s3 s4 s5 s6 s7 s8 by (meson rtranclp.rtrancl_into_rtrancl rtranclp.rtrancl_refl)
qed

text \<open>
  C14: what reaches the client. Whatever the interleaving of requests, stops, write errors and
  partial writes, the output is the delivered frames one after the other and then at most a part of
  one accepted frame; the gates of executions that were opened are exactly those of the delivered
  frames, so that an execution starts only after its receipt was flushed; control frames and data
  frames are each delivered in the order they were accepted; and while the writer is not stopped,
  only frames of a revoked subscription are lost.
\<close>

theorem writer_delivers_whole_frames_in_order:
  assumes "(writer_step limits)\<^sup>*\<^sup>* (writer_system_init now) s"
  shows "(\<exists>part. sy_stdout s = concat (map fr_bytes (sy_delivered s)) @ part \<and>
      (part = [] \<or> (\<exists>f \<in> set (sy_accepted s). prefix part (fr_bytes f)))) \<and>
    sy_permits s = concat (map fr_starts (sy_delivered s)) \<and>
    (\<forall>b. subseq (lane b (sy_delivered s)) (lane b (sy_accepted s))) \<and>
    (\<not> ws_stopping (sy_state s) \<longrightarrow> (\<forall>f \<in> set (sy_accepted s). fr_guard f = None) \<longrightarrow>
      (\<forall>b. lane b (sy_delivered s) @ lane b (undelivered (sy_worker s)) @ lane_queue b (sy_state s) =
         lane b (sy_accepted s)))"
proof -
  note order = order_inv_reachable [OF assms] and out = output_inv_reachable [OF assms]
  obtain part where part: "sy_stdout s = concat (map fr_bytes (sy_delivered s)) @ part"
    "partial_output (sy_accepted s) (sy_worker s) part" using out by (auto simp: output_inv_def)
  have "part = [] \<or> (\<exists>f \<in> set (sy_accepted s). prefix part (fr_bytes f))"
    using part(2) undelivered_accepted [OF order]
    by (cases "sy_worker s")
      (simp_all add: partial_output_cases undelivered_def split: if_splits, (metis take_is_prefix)+)
  moreover have "subseq (lane b (sy_delivered s)) (lane b (sy_accepted s))" for b
    using order_invD(1) [OF order, of b] subseq_drop_middle [of "lane b (sy_delivered s)" _ "[]"] by simp
  ultimately show ?thesis
    using part(1) out order_invD(2) [OF order] by (auto simp: output_inv_def)
qed

theorem writer_delivers_whole_frames_in_order_witness:
  "(writer_step default_limits)\<^sup>*\<^sup>* (writer_system_init 0) sample_done \<and>
   sy_permits sample_done = concat (map fr_starts (sy_delivered sample_done)) \<and> sy_permits sample_done = [7]"
proof -
  have run: "(writer_step default_limits)\<^sup>*\<^sup>* (writer_system_init 0) sample_done"
    by (rule sample_run) (simp add: queued_protocol_bytes_def default_limits_def)
  from writer_delivers_whole_frames_in_order [OF run] run show ?thesis by (simp add: sample_done_def)
qed

text \<open>
  C33: the sender budget. The counters are exactly the resident bytes of the queued frames and the
  frame under way, so no subtraction wraps; they stay within the limits; and data can never take
  the share of control frames: while no control frame is queued or under way, a control frame of
  up to an eighth of the sender budget is accepted unless the writer is stopping. When events may
  be polled, the largest event frame is accepted next.
\<close>

theorem writer_budget_is_kept:
  assumes "(writer_step limits)\<^sup>*\<^sup>* (writer_system_init now) s" "wf_limits limits"
  shows "ws_bytes (sy_state s) = weight fr_resident (in_flight (sy_worker s) @ queued (sy_state s)) \<and>
    ws_data_bytes (sy_state s) =
      weight fr_resident (filter fr_data (in_flight (sy_worker s) @ queued (sy_state s))) \<and>
    ws_bytes (sy_state s) \<le> queued_protocol_bytes limits \<and>
    ws_data_bytes (sy_state s) \<le> protocol_data_bytes limits \<and>
    (\<forall>f. \<not> ws_stopping (sy_state s) \<and> \<not> fr_data f \<and> fr_resident f \<le> sender_bytes limits div 8 \<and>
       lane False (in_flight (sy_worker s) @ queued (sy_state s)) = [] \<longrightarrow>
       fst (enqueue limits time f (sy_state s)) = Inr ()) \<and>
    (\<forall>f. can_poll_events limits (sy_state s) \<and> fr_resident f \<le> rpc_frame_bytes limits + FRAME_OVERHEAD \<longrightarrow>
       fst (enqueue limits time f (sy_state s)) = Inr ())"
proof -
  have inv: "budget_inv limits s" using assms(1) by (rule budget_inv_reachable)
  then have acc: "accounts (sy_state s) (in_flight (sy_worker s))"
    and bounds: "ws_bytes (sy_state s) \<le> queued_protocol_bytes limits"
      "ws_data_bytes (sy_state s) \<le> protocol_data_bytes limits" by (simp_all add: budget_inv_def)
  have "fst (enqueue limits time f (sy_state s)) = Inr ()"
    if f: "\<not> ws_stopping (sy_state s)" "\<not> fr_data f" "fr_resident f \<le> sender_bytes limits div 8"
      and only: "lane False (in_flight (sy_worker s) @ queued (sy_state s)) = []" for f
  proof -
    have "filter fr_data (in_flight (sy_worker s) @ queued (sy_state s)) = in_flight (sy_worker s) @ queued (sy_state s)"
      using only by (simp add: lane_def filter_empty_conv)
    then have "ws_bytes (sy_state s) = ws_data_bytes (sy_state s)" using acc by (simp add: accounts_def)
    then have "ws_bytes (sy_state s) + fr_resident f \<le> queued_protocol_bytes limits"
      using bounds f(3) sender_budget(2) [OF assms(2)] by linarith
    with f show ?thesis by (simp add: enqueue_def Let_def)
  qed
  moreover have "fst (enqueue limits time f (sy_state s)) = Inr ()"
    if "can_poll_events limits (sy_state s)" "fr_resident f \<le> rpc_frame_bytes limits + FRAME_OVERHEAD" for f
    using that by (simp add: can_poll_events_def enqueue_def Let_def)
  ultimately show ?thesis using acc bounds by (simp add: accounts_def)
qed

theorem writer_budget_is_kept_witness:
  "(writer_step default_limits)\<^sup>*\<^sup>* (writer_system_init 0) sample_done \<and>
   fst (enqueue default_limits 9 sample_frame (sy_state sample_done)) = Inr ()"
proof -
  have run: "(writer_step default_limits)\<^sup>*\<^sup>* (writer_system_init 0) sample_done"
    by (rule sample_run) (simp add: queued_protocol_bytes_def default_limits_def)
  have "\<not> ws_stopping (sy_state sample_done)" "\<not> fr_data sample_frame"
    "fr_resident sample_frame \<le> sender_bytes default_limits div 8"
    "lane False (in_flight (sy_worker sample_done) @ queued (sy_state sample_done)) = []"
    by (simp_all add: sample_done_def sample_frame_def writer_init_def in_flight_def default_limits_def)
  with writer_budget_is_kept [OF run wf_default_limits, of 9] run show ?thesis by blast
qed

text \<open>
  Stopping. A stop empties the queues, leaves only the frame under way accounted for and lets
  nothing more in; from then on every step of the worker brings it closer to its return, which is at
  most five steps away, and until then some step is possible.
\<close>

theorem stopped_writer_returns:
  assumes "(writer_step limits)\<^sup>*\<^sup>* (writer_system_init now) s"
    and "t = s\<lparr>sy_state := writer_stop (sy_state s)\<rparr>"
  shows "queued (sy_state t) = [] \<and>
    ws_bytes (sy_state t) = weight fr_resident (in_flight (sy_worker s)) \<and>
    fst (enqueue limits time f (sy_state t)) = Inl f \<and>
    (sy_worker t \<noteq> Returned \<longrightarrow> (\<exists>u. worker_step t u)) \<and>
    (\<forall>n u. (worker_step ^^ n) t u \<longrightarrow>
       worker_rank (sy_worker u) + n \<le> worker_rank (sy_worker t) \<and> n \<le> 5 \<and>
       (sy_worker u \<noteq> Returned \<longrightarrow> (\<exists>v. worker_step u v)))"
proof -
  have "accounts ((sy_state s)\<lparr>ws_stopping := True\<rparr>) (in_flight (sy_worker s))"
    using budget_inv_reachable [OF assms(1)] by (simp add: budget_inv_def accounts_def)
  note drop = drop_queued_spec [OF this]
  have stopped: "ws_stopping (sy_state t)" using drop(3) assms(2) by (simp add: writer_stop_def)
  have run: "worker_rank (sy_worker u) + n \<le> worker_rank (sy_worker t) \<and> ws_stopping (sy_state u)"
    if "(worker_step ^^ n) t u" for n u
    using that
  proof (induction n arbitrary: u)
    case (Suc n)
    then obtain v where v: "(worker_step ^^ n) t v" "worker_step v u" by auto
    with Suc.IH [OF v(1)] worker_step_rank [OF v(2)] show ?case by simp
  qed (simp add: stopped)
  have rank: "worker_rank w \<le> 5" for w by (simp add: worker_rank_def split: worker.splits)
  have "n \<le> 5" if "(worker_step ^^ n) t u" for n u
    using run [OF that] rank [of "sy_worker t"] by linarith
  with drop assms(2) stopped run show ?thesis
    by (auto simp: writer_stop_def accounts_def enqueue_def intro: worker_step_progress)
qed

theorem stopped_writer_returns_witness:
  "(writer_step default_limits)\<^sup>*\<^sup>* (writer_system_init 0) sample_done \<and>
   queued (writer_stop (sy_state sample_done)) = []"
proof -
  have run: "(writer_step default_limits)\<^sup>*\<^sup>* (writer_system_init 0) sample_done"
    by (rule sample_run) (simp add: queued_protocol_bytes_def default_limits_def)
  from stopped_writer_returns [OF run refl] run show ?thesis by simp
qed

end
