(* ===== verification/Protocol_Reader.thy ===== *)
theory Protocol_Reader
  imports Protocol_Writer
begin

text \<open>
  The reader of frames, \<open>read_frame\<close> and the reader thread of \<open>src/protocol/rpc_handler.rs\<close>, against a
  reference that splits the whole input into lines, and the round trip with the writer.
\<close>

section \<open>Reading frames\<close>

text \<open>
  A reader is what its successive \<open>fill_buf\<close> calls return: an error, or the bytes at hand, none at
  the end of the input. Consuming part of a buffer leaves the rest for the next call.
\<close>

type_synonym reader = "(io_error, byte list) result list"

fun newline_position :: "byte list \<Rightarrow> nat option" where
  "newline_position [] = None"
| "newline_position (b # bytes) =
     (if b = newline then Some 0 else map_option Suc (newline_position bytes))"

definition consume :: "nat \<Rightarrow> byte list \<Rightarrow> reader \<Rightarrow> reader" where
  "consume n buffer rest = (if drop n buffer = [] then rest else Inr (drop n buffer) # rest)"

definition end_of_frame :: "byte list \<Rightarrow> bool \<Rightarrow> (io_error, byte list option) result" where
  "end_of_frame frame oversized =
     (if oversized then Inl (InvalidData ''frame too large'')
      else Inr (if frame \<noteq> [] then Some frame else None))"

definition extend_frame ::
  "nat \<Rightarrow> byte list \<Rightarrow> bool \<Rightarrow> byte list \<Rightarrow> byte list \<times> bool" where
  "extend_frame max_frame frame oversized bytes =
     (if oversized then (frame, True)
      else if max_frame < saturating_add (length frame) (length bytes) then ([], True)
      else (frame @ bytes, False))"

fun read_loop ::
  "nat \<Rightarrow> byte list \<Rightarrow> bool \<Rightarrow> reader \<Rightarrow> (io_error, byte list option) result \<times> reader" where
  "read_loop max_frame frame oversized [] = (end_of_frame frame oversized, [])"
| "read_loop max_frame frame oversized (Inl err # rest) = (Inl err, rest)"
| "read_loop max_frame frame oversized (Inr buffer # rest) =
     (if buffer = [] then (end_of_frame frame oversized, rest)
      else
        case newline_position buffer of
          Some index \<Rightarrow>
            let consumed = index + 1;
                (frame, oversized) = extend_frame max_frame frame oversized (take consumed buffer) in
            (if oversized then Inl (InvalidData ''frame too large'') else Inr (Some frame),
             consume consumed buffer rest)
        | None \<Rightarrow>
            let (frame, oversized) = extend_frame max_frame frame oversized buffer in
            read_loop max_frame frame oversized rest)"

definition read_frame ::
  "deployment_limits \<Rightarrow> reader \<Rightarrow> (io_error, byte list option) result \<times> reader" where
  "read_frame limits reader = read_loop (rpc_frame_bytes limits) [] False reader"

definition finished :: "(io_error, byte list option) result \<Rightarrow> bool" where
  "finished frame =
     (case frame of Inr None \<Rightarrow> True | Inr (Some _) \<Rightarrow> False | Inl (InvalidData _) \<Rightarrow> False | Inl _ \<Rightarrow> True)"

definition reader_size :: "reader \<Rightarrow> nat" where
  "reader_size r = sum_list (map (\<lambda>x. case x of Inl _ \<Rightarrow> 1 | Inr b \<Rightarrow> 1 + length b) r)"

lemma consume_size: "0 < n \<Longrightarrow> buffer \<noteq> [] \<Longrightarrow> reader_size (consume n buffer rest) < reader_size (Inr buffer # rest)"
  by (cases buffer) (auto simp: consume_def reader_size_def)

lemma read_loop_size:
  "read_loop max_frame frame oversized r = (result, r') \<Longrightarrow> r \<noteq> [] \<Longrightarrow> reader_size r' < reader_size r"
proof (induction max_frame frame oversized r arbitrary: result r' rule: read_loop.induct)
  case (3 max_frame frame oversized buffer rest)
  have smaller: "reader_size rest < reader_size (Inr buffer # rest)" by (simp add: reader_size_def)
  show ?case
  proof (cases "buffer = [] \<or> newline_position buffer \<noteq> None")
    case True
    with 3(2) smaller consume_size [of "Suc _" buffer rest] show ?thesis
      by (auto simp: Let_def split: option.splits prod.splits if_splits)
  next
    case False
    obtain f' o' where ext: "extend_frame max_frame frame oversized buffer = (f', o')" by fastforce
    have loop: "read_loop max_frame f' o' rest = (result, r')" using 3(2) False ext by simp
    show ?thesis
    proof (cases "rest = []")
      case True
      with loop smaller show ?thesis by simp
    next
      case rest: False
      have "reader_size r' < reader_size rest" using 3(1) False ext loop rest by simp
      with smaller show ?thesis by simp
    qed
  qed
qed (auto simp: reader_size_def)

text \<open>The reader thread: every result is sent, and the last one is the end or a lasting error.\<close>

function reader_thread :: "deployment_limits \<Rightarrow> reader \<Rightarrow> (io_error, byte list option) result list" where
  "reader_thread limits reader =
     (let (frame, rest) = read_frame limits reader in
      frame # (if finished frame then [] else reader_thread limits rest))"
  by pat_completeness auto
termination
proof (relation "measure (\<lambda>(_, r). reader_size r)")
  fix limits reader x frame rest
  assume "x = read_frame limits reader" "(frame, rest) = x" "\<not> finished frame"
  then have loop: "read_loop (rpc_frame_bytes limits) [] False reader = (frame, rest)"
    and "\<not> finished frame" by (simp_all add: read_frame_def)
  then have "reader \<noteq> []" by (auto simp: end_of_frame_def finished_def)
  from read_loop_size [OF loop this]
  show "((limits, rest), limits, reader) \<in> measure (\<lambda>(_, r). reader_size r)" by simp
qed simp

declare reader_thread.simps [simp del]

section \<open>The reference: lines of the whole input\<close>

definition first_line :: "byte list \<Rightarrow> byte list" where
  "first_line bytes =
     takeWhile (\<lambda>b. b \<noteq> newline) bytes @ (if newline \<in> set bytes then [newline] else [])"

definition line_result :: "nat \<Rightarrow> byte list \<Rightarrow> (io_error, byte list option) result" where
  "line_result max_frame line =
     (if max_frame < length line then Inl (InvalidData ''frame too large'')
      else Inr (if line = [] then None else Some line))"

function frame_results :: "nat \<Rightarrow> byte list \<Rightarrow> (io_error, byte list option) result list" where
  "frame_results max_frame bytes =
     (if bytes = [] then [Inr None]
      else line_result max_frame (first_line bytes) #
        frame_results max_frame (drop (length (first_line bytes)) bytes))"
  by pat_completeness auto
termination
  by (relation "measure (\<lambda>(_, bytes). length bytes)")
    (auto simp: first_line_def neq_Nil_conv split: if_splits)

declare frame_results.simps [simp del]

definition clean :: "reader \<Rightarrow> bool" where
  "clean r \<longleftrightarrow> list_all (\<lambda>x. case x of Inl _ \<Rightarrow> False | Inr b \<Rightarrow> b \<noteq> []) r"

definition content :: "reader \<Rightarrow> byte list" where
  "content r = concat (map (\<lambda>x. case x of Inl _ \<Rightarrow> [] | Inr b \<Rightarrow> b) r)"

lemma content_simps [simp]: "content [] = []" "content (Inr b # r) = b @ content r"
  by (simp_all add: content_def)

lemma clean_simps [simp]: "clean []" "clean (Inr b # r) \<longleftrightarrow> b \<noteq> [] \<and> clean r" "\<not> clean (Inl e # r)"
  by (simp_all add: clean_def)

lemma first_line_Cons:
  "first_line [] = []"
  "first_line (b # bytes) = b # (if b = newline then [] else first_line bytes)"
  by (simp_all add: first_line_def)

lemma newline_position_None: "newline_position bytes = None \<Longrightarrow> first_line (bytes @ cs) = bytes @ first_line cs"
  by (induction bytes) (auto simp: first_line_Cons split: if_splits)

lemma newline_position_Some:
  "newline_position bytes = Some i \<Longrightarrow> first_line (bytes @ cs) = take (i + 1) bytes \<and> i < length bytes"
  by (induction bytes arbitrary: i) (auto simp: first_line_Cons split: if_splits)

lemma consume_content: "content (consume n b r) = drop n b @ content r" "clean r \<Longrightarrow> clean (consume n b r)"
  by (simp_all add: consume_def)

text \<open>
  The loop keeps at most \<open>max_frame\<close> bytes, and its result is the one of the whole line, wherever
  the buffers end.
\<close>

definition loop_ok :: "nat \<Rightarrow> byte list \<Rightarrow> bool \<Rightarrow> bool" where
  "loop_ok max_frame frame oversized \<longleftrightarrow> length frame \<le> max_frame \<and> (oversized \<longrightarrow> frame = [])"

lemma extend_frame_cases:
  assumes "max_frame < usize_max" "loop_ok max_frame frame oversized"
    and "extend_frame max_frame frame oversized bytes = (frame', oversized')"
  shows "loop_ok max_frame frame' oversized'"
    "oversized' \<longleftrightarrow> oversized \<or> max_frame < length frame + length bytes"
    "\<not> oversized' \<Longrightarrow> frame' = frame @ bytes"
  using assms by (auto simp: loop_ok_def extend_frame_def saturating_add_def split: if_splits)

lemma read_loop_spec:
  assumes "clean r" "max_frame < usize_max" "loop_ok max_frame frame oversized"
  shows "\<exists>r'. read_loop max_frame frame oversized r =
      (if oversized then Inl (InvalidData ''frame too large'')
       else line_result max_frame (frame @ first_line (content r)), r') \<and>
    clean r' \<and> content r' = drop (length (first_line (content r))) (content r)"
  using assms
proof (induction max_frame frame oversized r rule: read_loop.induct)
  case (1 max_frame frame oversized)
  then show ?case by (auto simp: end_of_frame_def line_result_def first_line_Cons loop_ok_def)
next
  case (3 max_frame frame oversized buffer rest)
  then have b: "buffer \<noteq> []" and clean: "clean rest" by simp_all
  show ?case
  proof (cases "newline_position buffer")
    case None
    obtain f' o' where ext: "extend_frame max_frame frame oversized buffer = (f', o')" by fastforce
    note cases = extend_frame_cases [OF 3(3,4) ext]
    have line: "first_line (buffer @ content rest) = buffer @ first_line (content rest)"
      using None by (rule newline_position_None)
    obtain r' where r': "read_loop max_frame f' o' rest =
        (if o' then Inl (InvalidData ''frame too large'')
         else line_result max_frame (f' @ first_line (content rest)), r')"
      "clean r'" "content r' = drop (length (first_line (content rest))) (content rest)"
      using 3(1) [OF b None ext [symmetric] refl clean 3(3) cases(1)] by auto
    have "(if o' then Inl (InvalidData ''frame too large'')
         else line_result max_frame (f' @ first_line (content rest))) =
      (if oversized then Inl (InvalidData ''frame too large'')
       else line_result max_frame (frame @ buffer @ first_line (content rest)))"
      using cases(2,3) by (auto simp: line_result_def)
    with r' line None b ext show ?thesis by simp
  next
    case (Some i)
    obtain f' o' where ext: "extend_frame max_frame frame oversized (take (i + 1) buffer) = (f', o')" by fastforce
    note cases = extend_frame_cases [OF 3(3,4) ext]
    have line: "first_line (buffer @ content rest) = take (i + 1) buffer" and i: "i < length buffer"
      using newline_position_Some [OF Some] by simp_all
    have result: "(if o' then Inl (InvalidData ''frame too large'') else Inr (Some f')) =
      (if oversized then Inl (InvalidData ''frame too large'')
       else line_result max_frame (frame @ take (i + 1) buffer))"
      using cases(2,3) i b by (auto simp: line_result_def)
    have "read_loop max_frame frame oversized (Inr buffer # rest) =
        ((if o' then Inl (InvalidData ''frame too large'') else Inr (Some f')), consume (i + 1) buffer rest)"
      using Some b ext by (simp add: Let_def)
    then show ?thesis
      using result line i clean by (simp add: consume_content del: read_loop.simps)
  qed
qed simp

lemma read_frame_spec:
  assumes "clean r" "wf_limits limits"
  shows "\<exists>r'. read_frame limits r = (line_result (rpc_frame_bytes limits) (first_line (content r)), r') \<and>
    clean r' \<and> content r' = drop (length (first_line (content r))) (content r)"
proof -
  have "rpc_frame_bytes limits < usize_max" using assms(2) by (simp add: wf_limits_def usize_max_def)
  from read_loop_spec [OF assms(1) this, of "[]" False] show ?thesis by (simp add: read_frame_def loop_ok_def)
qed

lemma first_line_Nil_iff: "first_line bytes = [] \<longleftrightarrow> bytes = []"
  by (cases bytes) (simp_all add: first_line_Cons)

lemma reader_thread_lines:
  "clean r \<Longrightarrow> wf_limits limits \<Longrightarrow>
     reader_thread limits r = frame_results (rpc_frame_bytes limits) (content r)"
proof (induction limits r rule: reader_thread.induct)
  case (1 limits r)
  obtain r' where r': "read_frame limits r = (line_result (rpc_frame_bytes limits) (first_line (content r)), r')"
    "clean r'" "content r' = drop (length (first_line (content r))) (content r)"
    using read_frame_spec [OF 1(2,3)] by blast
  show ?case
  proof (cases "content r = []")
    case True
    with r' show ?thesis
      by (simp add: reader_thread.simps [of _ r] frame_results.simps [of _ "[]"] finished_def
          line_result_def first_line_Cons)
  next
    case False
    then have "\<not> finished (line_result (rpc_frame_bytes limits) (first_line (content r)))"
      by (simp add: finished_def line_result_def first_line_Nil_iff)
    with 1 r' False show ?thesis
      by (simp add: reader_thread.simps [of _ r] frame_results.simps [of _ "content r"])
  qed
qed

lemma frame_results_lines:
  assumes "\<forall>line \<in> set lines. newline \<notin> set line \<and> length line < max_frame"
  shows "frame_results max_frame (concat (map (\<lambda>line. line @ [newline]) lines)) =
    map (\<lambda>line. Inr (Some (line @ [newline]))) lines @ [Inr None]"
  using assms
proof (induction lines)
  case (Cons line lines)
  have "first_line ((line @ [newline]) @ cs) = line @ [newline]" for cs
    using Cons.prems by (induction line) (auto simp: first_line_Cons)
  with Cons show ?case
    by (subst frame_results.simps) (simp add: line_result_def)
qed (simp add: frame_results.simps)

section \<open>Properties\<close>

text \<open>
  Reading is independent of how the input arrives. For every division of the input into
  buffers, the reader thread sends what splitting the whole input into lines gives: each line
  within the limit as a frame, a longer one as one error after which reading resumes at the next
  line, and the end of the input last. (Termination of the thread is part of its definition.)
\<close>

theorem reading_ignores_buffer_boundaries:
  assumes "clean reader" "wf_limits limits"
  shows "reader_thread limits reader = frame_results (rpc_frame_bytes limits) (content reader) \<and>
    (\<forall>frame reader'. read_frame limits reader = (Inr (Some frame), reader') \<longrightarrow>
       length frame \<le> rpc_frame_bytes limits \<and> content reader = frame @ content reader')"
proof -
  have "length frame \<le> rpc_frame_bytes limits \<and> content reader = frame @ content reader'"
    if "read_frame limits reader = (Inr (Some frame), reader')" for frame reader'
  proof -
    have "line_result (rpc_frame_bytes limits) (first_line (content reader)) = Inr (Some frame)"
      and rest: "content reader' = drop (length (first_line (content reader))) (content reader)"
      using read_frame_spec [OF assms] that by auto
    then have "frame = first_line (content reader)" "length frame \<le> rpc_frame_bytes limits"
      by (auto simp: line_result_def split: if_splits)
    moreover have "take (length (first_line bytes)) bytes = first_line bytes" for bytes
      by (induction bytes) (simp_all add: first_line_Cons)
    ultimately show ?thesis using rest by (metis append_take_drop_id)
  qed
  with reader_thread_lines [OF assms] show ?thesis by blast
qed

theorem reading_ignores_buffer_boundaries_witness:
  "clean [Inr [97], Inr [98, newline, 99], Inr [100, newline]] \<and>
   reader_thread default_limits [Inr [97], Inr [98, newline, 99], Inr [100, newline]] =
     frame_results (rpc_frame_bytes default_limits) [97, 98, newline, 99, 100, newline]"
  using reading_ignores_buffer_boundaries [of "[Inr [97], Inr [98, newline, 99], Inr [100, newline]]"
      default_limits]
  by simp

text \<open>
  C32: the round trip. Messages encoded as frames, written one after the other and read back in
  whatever pieces they arrive, come out as the same frames in the same order, provided the
  serializer writes no line break within a message, as compact JSON has none; a message that does
  not fit the reader's limit is never encoded.
\<close>

theorem frames_round_trip:
  assumes "list_all2 (\<lambda>message f. frame_encode limits to_writer with_capacity message guard starts = Inr f)
      messages frames"
    and "\<forall>message. newline \<notin> set (concat (fst (to_writer message)))"
    and "clean reader" "content reader = concat (map fr_bytes frames)" "wf_limits limits"
  shows "reader_thread limits reader = map (\<lambda>f. Inr (Some (fr_bytes f))) frames @ [Inr None]"
proof -
  let ?body = "\<lambda>message. concat (fst (to_writer message))"
  have pos: "0 < rpc_frame_bytes limits" using assms(5) by (simp add: wf_limits_def)
  have enc: "fr_bytes f = ?body message @ [newline] \<and> length (?body message) < rpc_frame_bytes limits"
    if "frame_encode limits to_writer with_capacity message guard starts = Inr f" for message f
    using frame_encode_ok(1,2) [OF that pos] by simp
  have bytes: "map fr_bytes frames = map (\<lambda>message. ?body message @ [newline]) messages"
    and short: "\<forall>message \<in> set messages. length (?body message) < rpc_frame_bytes limits"
    using assms(1) by (induction rule: list_all2_induct) (auto dest: enc)
  have "reader_thread limits reader = frame_results (rpc_frame_bytes limits)
      (concat (map (\<lambda>line. line @ [newline]) (map ?body messages)))"
    using reader_thread_lines [OF assms(3,5)] assms(4) bytes by (simp add: comp_def)
  also have "\<dots> = map (\<lambda>line. Inr (Some (line @ [newline]))) (map ?body messages) @ [Inr None]"
    by (rule frame_results_lines) (use short assms(2) in auto)
  also have "\<dots> = map (\<lambda>bytes. Inr (Some bytes)) (map fr_bytes frames) @ [Inr None]"
    unfolding bytes by simp
  finally show ?thesis by simp
qed

definition sample_writer :: "json \<Rightarrow> byte list list \<times> io_error option" where
  "sample_writer message = ([[123], [125]], None)"

lemma sample_writer_encode:
  "frame_encode default_limits sample_writer id JNull None [] =
     Inr \<lparr>fr_bytes = [123, 125, newline], fr_resident = 3 + FRAME_OVERHEAD, fr_data = False,
          fr_guard = None, fr_starts = []\<rparr>"
  by (simp add: frame_encode_def sample_writer_def count_piece_def checked_add_def usize_max_def
      option_filter_def ok_or_def default_limits_def json_index_def json_get_def as_object_def)

theorem frames_round_trip_witness:
  "reader_thread default_limits [Inr [123], Inr [125, newline]] = [Inr (Some [123, 125, newline]), Inr None]"
proof -
  have "newline \<notin> set (concat (fst (sample_writer message)))" for message
    by (simp add: sample_writer_def newline_def)
  then show ?thesis
    using frames_round_trip [of default_limits sample_writer id None "[]" "[JNull]"
        "[\<lparr>fr_bytes = [123, 125, newline], fr_resident = 3 + FRAME_OVERHEAD, fr_data = False,
           fr_guard = None, fr_starts = []\<rparr>]" "[Inr [123], Inr [125, newline]]"]
    by (simp add: sample_writer_encode)
qed

end
