(* ===== verification/Rpc_Messages.thy ===== *)
theory Rpc_Messages
  imports Execution_Input
begin

text \<open>
  The messages of the protocol: \<open>src/rpc.rs\<close>, \<open>src/protocol/error_payload.rs\<close> and
  \<open>src/events.rs\<close>. The clock, the process identifier and the base64 encoder are parameters, the
  counter of execution identifiers is state.
\<close>

section \<open>JSON-RPC responses\<close>

definition json_neg :: "nat \<Rightarrow> json" where
  "json_neg n = JNum (NegInt (- of_nat n))"

definition rpc_result :: "json \<Rightarrow> json \<Rightarrow> json" where
  "rpc_result rid result = json_object [(''jsonrpc'', JStr ''2.0''), (''id'', rid), (''result'', result)]"

definition error_data :: "runseal_error \<Rightarrow> json" where
  "error_data err =
     (let data = obj_of [(''code'', JStr (err_code err)), (''reason'', JStr (err_reason err))] in
      JObj (case err_details err of
              None \<Rightarrow> data
            | Some details \<Rightarrow> obj_extend data (case as_object details of Some m \<Rightarrow> m | None \<Rightarrow> [])))"

definition error_with_code :: "json \<Rightarrow> nat \<Rightarrow> runseal_error \<Rightarrow> json" where
  "error_with_code rid code err = json_object
     [(''jsonrpc'', JStr ''2.0''), (''id'', rid),
      (''error'', json_object
        [(''code'', json_neg code), (''message'', JStr (err_message err)), (''data'', error_data err)])]"

text \<open>The numeric codes are negative; the argument is their absolute value.\<close>

definition rpc_error :: "json \<Rightarrow> runseal_error \<Rightarrow> json" where
  "rpc_error rid err =
     error_with_code rid
       (if err_code err = ''INVALID_REQUEST'' then 32602
        else if err_code err = ''INTERNAL_ERROR'' then 32603
        else 32000) err"

definition parse_error :: "string \<Rightarrow> json" where
  "parse_error reason = error_with_code JNull 32700 (invalid_request_error reason)"

definition invalid_request :: "json \<Rightarrow> runseal_error \<Rightarrow> json" where
  "invalid_request rid err = error_with_code rid 32600 err"

definition method_not_found :: "json \<Rightarrow> string \<Rightarrow> json" where
  "method_not_found rid method =
     error_with_code rid 32601 (error_new ''METHOD_NOT_FOUND'' (''method not found: '' @ method))"

definition cli_error_payload :: "runseal_error \<Rightarrow> json" where
  "cli_error_payload err = json_object
     [(''error'', json_object [(''message'', JStr (err_message err)), (''data'', error_data err)])]"

section \<open>Events\<close>

record execution_ids =
  ids_execution_id :: string
  ids_session_id :: string
  ids_seal_id :: string

record execution_event_context =
  ctx_ids :: execution_ids
  ctx_policy_id :: string
  ctx_policy_hash :: string
  ctx_policy_epoch :: string
  ctx_audit_path :: string
  ctx_backend :: json

definition hex_digit :: "nat \<Rightarrow> char" where
  "hex_digit n = (if n < 10 then char_of (48 + n) else char_of (87 + n))"

fun hex :: "nat \<Rightarrow> string" where
  "hex n = (if n < 16 then [hex_digit n] else hex (n div 16) @ [hex_digit (n mod 16)])"

declare hex.simps [simp del]

text \<open>The counter is a 64-bit atomic; the identifiers are made of it, the clock and the process.\<close>

definition new_execution_ids :: "nat \<Rightarrow> nat \<Rightarrow> 64 word \<Rightarrow> execution_ids \<times> 64 word" where
  "new_execution_ids millis pid counter =
     (let suffix = hex millis @ ''_'' @ hex pid @ ''_'' @ hex (unat counter) in
      (\<lparr>ids_execution_id = ''exec_'' @ suffix, ids_session_id = ''sess_'' @ suffix, ids_seal_id = ''seal_'' @ suffix\<rparr>,
       counter + 1))"

definition event_at :: "json \<Rightarrow> string \<Rightarrow> json" where
  "event_at event time = entry_or_insert ''time'' (JStr time) event"

definition execution_event_at ::
  "string \<Rightarrow> json \<Rightarrow> string \<Rightarrow> execution_event_context \<Rightarrow> json" where
  "execution_event_at version event time ctx =
     fold (\<lambda>(key, v) event. entry_or_insert key v event)
       [(''execution_id'', JStr (ids_execution_id (ctx_ids ctx))),
        (''session_id'', JStr (ids_session_id (ctx_ids ctx))),
        (''seal_id'', JStr (ids_seal_id (ctx_ids ctx))),
        (''policy_id'', JStr (ctx_policy_id ctx)),
        (''policy_hash'', JStr (ctx_policy_hash ctx)),
        (''policy_epoch'', JStr (ctx_policy_epoch ctx)),
        (''runseal_version'', JStr version),
        (''audit_path'', JStr (ctx_audit_path ctx)),
        (''backend'', ctx_backend ctx)]
       (event_at event time)"

definition stream_event ::
  "string \<Rightarrow> (byte list \<Rightarrow> string) \<Rightarrow> string \<Rightarrow> string \<Rightarrow> execution_event_context \<Rightarrow> byte list \<Rightarrow>
     64 word \<Rightarrow> json" where
  "stream_event version base64 time event_type ctx bytes offset =
     execution_event_at version
       (json_object
         [(''type'', JStr event_type),
          (''execution_id'', JStr (ids_execution_id (ctx_ids ctx))),
          (''data'', JStr (''base64:'' @ base64 bytes)),
          (''encoding'', JStr ''base64''),
          (''stream_offset'', json_u64 offset),
          (''bytes'', json_nat (length bytes))])
       time ctx"

definition backend_event_json :: "string \<Rightarrow> string \<Rightarrow> string \<Rightarrow> json" where
  "backend_event_json name status platform =
     json_object [(''name'', JStr name), (''status'', JStr status), (''platform'', JStr platform)]"

section \<open>Identifiers\<close>

lemma byte_of_hex_digit: "n < 16 \<Longrightarrow> byte_of (hex_digit n) = (if n < 10 then 48 + n else 87 + n)"
  by (simp add: hex_digit_def)

definition hex_value :: "char \<Rightarrow> nat" where
  "hex_value c = (if byte_of c < 58 then byte_of c - 48 else byte_of c - 87)"

lemma hex_value_digit [simp]: "n < 16 \<Longrightarrow> hex_value (hex_digit n) = n"
  by (simp add: hex_value_def byte_of_hex_digit)

lemma parse_hex: "foldl (\<lambda>n c. 16 * n + hex_value c) 0 (hex n) = n"
proof (induction n rule: hex.induct)
  case (1 n)
  show ?case
  proof (cases "n < 16")
    case False
    with 1 have "foldl (\<lambda>n c. 16 * n + hex_value c) 0 (hex (n div 16)) = n div 16" by simp
    with False show ?thesis by (simp add: hex.simps [of n])
  qed (simp add: hex.simps [of n])
qed

lemma hex_inj: "hex a = hex b \<Longrightarrow> a = b"
  by (metis parse_hex)

lemma hex_no_underscore: "CHR ''_'' \<notin> set (hex n)"
proof -
  have digit: "hex_digit k \<noteq> CHR ''_''" if "k < 16" for k
  proof
    assume "hex_digit k = CHR ''_''"
    then have "byte_of (hex_digit k) = 95" by (simp add: byte_of_def)
    with that show False by (simp add: byte_of_hex_digit split: if_splits)
  qed
  show ?thesis
  proof (induction n rule: hex.induct)
    case (1 n)
    then show ?case
      by (cases "n < 16") (auto simp: hex.simps [of n] digit [symmetric] dest: digit)
  qed
qed

lemma underscore_fields:
  assumes "CHR ''_'' \<notin> set a" "CHR ''_'' \<notin> set a'" "a @ ''_'' @ b = a' @ ''_'' @ b'"
  shows "a = a'" "b = b'"
proof -
  have "takeWhile (\<lambda>c. c \<noteq> CHR ''_'') (x @ CHR ''_'' # y) = x" if "CHR ''_'' \<notin> set x" for x y
    using that by (induction x) auto
  with assms show "a = a'" by (metis append_Cons append_Nil)
  with assms(3) show "b = b'" by simp
qed

lemma new_execution_ids_inj:
  assumes "fst (new_execution_ids m p c) = fst (new_execution_ids m' p' c')"
  shows "m = m'" "p = p'" "c = c'"
proof -
  have eq: "hex m @ ''_'' @ hex p @ ''_'' @ hex (unat c) = hex m' @ ''_'' @ hex p' @ ''_'' @ hex (unat c')"
    using assms by (simp add: new_execution_ids_def Let_def)
  note m = underscore_fields [OF hex_no_underscore hex_no_underscore eq]
  note p = underscore_fields [OF hex_no_underscore hex_no_underscore m(2)]
  show "m = m'" "p = p'" "c = c'"
    using m(1) p by (auto dest!: hex_inj simp: unsigned_word_eqI)
qed

section \<open>Fields of events\<close>

lemma entry_or_insert_get:
  "json_get (entry_or_insert k d (JObj m)) k' =
     (if k' = k \<and> obj_get m k = None then Some d else obj_get m k')"
  by (simp add: entry_or_insert_def split: option.splits)

lemma entries_or_insert_get:
  "\<exists>m'. fold (\<lambda>(k, d) v. entry_or_insert k d v) kvs (JObj m) = JObj m' \<and>
     obj_get m' k = (case obj_get m k of Some x \<Rightarrow> Some x | None \<Rightarrow> map_of kvs k)"
proof (induction kvs arbitrary: m)
  case (Cons kd kvs)
  obtain k0 d0 where kd: "kd = (k0, d0)" by (cases kd)
  obtain m1 where m1: "entry_or_insert k0 d0 (JObj m) = JObj m1"
    by (cases "obj_get m k0") (simp_all add: entry_or_insert_def)
  have "obj_get m1 k = (if k = k0 \<and> obj_get m k0 = None then Some d0 else obj_get m k)"
    using entry_or_insert_get [of k0 d0 m k] m1 by simp
  with Cons.IH [of m1] m1 kd show ?case
    by (auto split: option.splits if_splits)
qed (simp split: option.splits)

section \<open>Properties\<close>

text \<open>
  Identifiers. The execution, session and seal identifiers of one call share their suffix;
  two calls that differ in the clock, the process or the counter never give the same identifiers,
  so the counter alone keeps the executions of one process apart until it wraps.
\<close>

theorem execution_ids_are_unique:
  "(fst (new_execution_ids millis pid counter) = fst (new_execution_ids millis' pid' counter') \<longleftrightarrow>
      millis = millis' \<and> pid = pid' \<and> counter = counter') \<and>
   snd (new_execution_ids millis pid counter) = counter + 1 \<and>
   (\<exists>suffix. fst (new_execution_ids millis pid counter) =
      \<lparr>ids_execution_id = ''exec_'' @ suffix, ids_session_id = ''sess_'' @ suffix, ids_seal_id = ''seal_'' @ suffix\<rparr>)"
proof -
  have "fst (new_execution_ids millis pid counter) = fst (new_execution_ids millis' pid' counter') \<longleftrightarrow>
      millis = millis' \<and> pid = pid' \<and> counter = counter'"
    using new_execution_ids_inj by blast
  then show ?thesis by (auto simp: new_execution_ids_def Let_def)
qed

text \<open>
  Every event is attributed. Whatever object an emitter builds, the finished event has the
  identifiers, policy, version, audit path and backend of its execution unless the emitter set a
  field itself, which is then kept as it is; no field of the emitter is lost.
\<close>

theorem events_are_attributed:
  "\<exists>m'. execution_event_at version (JObj m) time ctx = JObj m' \<and>
     (\<forall>k v. obj_get m k = Some v \<longrightarrow> obj_get m' k = Some v) \<and>
     (\<forall>k v. obj_get m k = None \<and> (k, v) \<in>
        {(''time'', JStr time), (''execution_id'', JStr (ids_execution_id (ctx_ids ctx))),
         (''session_id'', JStr (ids_session_id (ctx_ids ctx))), (''seal_id'', JStr (ids_seal_id (ctx_ids ctx))),
         (''policy_id'', JStr (ctx_policy_id ctx)), (''policy_hash'', JStr (ctx_policy_hash ctx)),
         (''policy_epoch'', JStr (ctx_policy_epoch ctx)), (''runseal_version'', JStr version),
         (''audit_path'', JStr (ctx_audit_path ctx)), (''backend'', ctx_backend ctx)} \<longrightarrow>
        obj_get m' k = Some v)"
proof -
  let ?kvs = "[(''time'', JStr time),
        (''execution_id'', JStr (ids_execution_id (ctx_ids ctx))),
        (''session_id'', JStr (ids_session_id (ctx_ids ctx))),
        (''seal_id'', JStr (ids_seal_id (ctx_ids ctx))),
        (''policy_id'', JStr (ctx_policy_id ctx)),
        (''policy_hash'', JStr (ctx_policy_hash ctx)),
        (''policy_epoch'', JStr (ctx_policy_epoch ctx)),
        (''runseal_version'', JStr version),
        (''audit_path'', JStr (ctx_audit_path ctx)),
        (''backend'', ctx_backend ctx)]"
  have eq: "execution_event_at version (JObj m) time ctx =
      fold (\<lambda>(k, d) v. entry_or_insert k d v) ?kvs (JObj m)"
    by (simp add: execution_event_at_def event_at_def)
  obtain m' where m': "execution_event_at version (JObj m) time ctx = JObj m'"
    using entries_or_insert_get [of ?kvs m "[]"] eq by auto
  then have get: "obj_get m' k = (case obj_get m k of Some x \<Rightarrow> Some x | None \<Rightarrow> map_of ?kvs k)" for k
    using entries_or_insert_get [of ?kvs m k] eq by auto
  show ?thesis
    using m' by (auto simp: get)
qed

theorem events_are_attributed_witness:
  "\<exists>m'. execution_event_at ''0.2.3'' (JObj [(''type'', JStr ''stdout'')]) ''t''
     \<lparr>ctx_ids = \<lparr>ids_execution_id = ''e'', ids_session_id = ''s'', ids_seal_id = ''x''\<rparr>, ctx_policy_id = ''p'',
      ctx_policy_hash = ''h'', ctx_policy_epoch = ''1'', ctx_audit_path = ''a'', ctx_backend = JNull\<rparr>
     = JObj m' \<and> obj_get m' ''type'' = Some (JStr ''stdout'') \<and> obj_get m' ''seal_id'' = Some (JStr ''x'')"
  using events_are_attributed [of "''0.2.3''" "[(''type'', JStr ''stdout'')]" "''t''"
      "\<lparr>ctx_ids = \<lparr>ids_execution_id = ''e'', ids_session_id = ''s'', ids_seal_id = ''x''\<rparr>, ctx_policy_id = ''p'',
      ctx_policy_hash = ''h'', ctx_policy_epoch = ''1'', ctx_audit_path = ''a'', ctx_backend = JNull\<rparr>"]
  by (elim exE conjE) (auto simp: obj_get_def)

end
