(* ===== verification/Request_Validation.thy ===== *)
theory Request_Validation
  imports Policy_Guarantees Execution_Control Rpc_Messages
begin

text \<open>
  The validation of request parameters: \<open>src/protocol/request_validation.rs\<close>, \<open>src/stdin.rs\<close> and
  \<open>src/execution/paths.rs\<close>. The host is a parameter: the platform of the build with its path
  parser, the file system, the base64 decoder and the JSON serializer. Error texts of the host are
  the left values of its results. Durations are milliseconds.
\<close>

section \<open>The host\<close>

datatype file_kind = Directory | RegularFile | Symlink | OtherFile

record host =
  host_platform :: platform
  host_current_dir :: "string option"
  host_symlink_kind :: "string \<Rightarrow> (string, file_kind) result"
  host_canonicalize :: "string \<Rightarrow> (string, string) result"
  host_metadata :: "string \<Rightarrow> (string, file_kind \<times> nat) result"
  host_read :: "string \<Rightarrow> (string, byte list) result"
  host_is_absolute :: "string \<Rightarrow> bool"
  host_join :: "string \<Rightarrow> string \<Rightarrow> string"
  host_starts_with :: "string \<Rightarrow> string \<Rightarrow> bool"
  host_base64 :: "string \<Rightarrow> (string, byte list) result"
  host_json_bytes :: "json \<Rightarrow> (string, nat) result"

definition MAX_METADATA_BYTES :: nat where "MAX_METADATA_BYTES = 4096"
definition MAX_PROTOCOL_ID_BYTES :: nat where "MAX_PROTOCOL_ID_BYTES = 128"

abbreviation invalid_result :: "string \<Rightarrow> (runseal_error, 'a) result" where
  "invalid_result reason \<equiv> Inl (invalid_request_error reason)"

section \<open>Working directories\<close>

definition validate_execution_cwd :: "host \<Rightarrow> string \<Rightarrow> unit rs_result" where
  "validate_execution_cwd h cwd =
     rbind (map_err (\<lambda>err. invalid_request_error (''params.cwd must be an existing directory: '' @ err))
             (host_symlink_kind h cwd)) (\<lambda>kind.
     reject_if (kind = Symlink \<or> kind \<noteq> Directory)
       (invalid_request_error (''params.cwd must be an existing directory: '' @ cwd)))"

definition simplify_windows_extended_path :: "platform \<Rightarrow> string \<Rightarrow> string" where
  "simplify_windows_extended_path pl path =
     (let bs = CHR 0x5C in
      if pl = Windows
      then (case strip_prefix path ([bs, bs] @ ''?'' @ [bs] @ ''UNC'' @ [bs]) of
              Some stripped \<Rightarrow> [bs, bs] @ stripped
            | None \<Rightarrow> (case strip_prefix path ([bs, bs] @ ''?'' @ [bs]) of
                         Some stripped \<Rightarrow> stripped
                       | None \<Rightarrow> path))
      else path)"

definition normalize_execution_cwd :: "host \<Rightarrow> string \<Rightarrow> string rs_result" where
  "normalize_execution_cwd h cwd =
     rbind (validate_execution_cwd h cwd) (\<lambda>_.
     rbind (map_err (\<lambda>err. invalid_request_error (''params.cwd must be an existing directory: '' @ err))
             (host_canonicalize h cwd)) (\<lambda>path.
     Inr (simplify_windows_extended_path (host_platform h) path)))"

definition current_dir :: "host \<Rightarrow> string" where
  "current_dir h = (case host_current_dir h of Some d \<Rightarrow> d | None \<Rightarrow> ''.'')"

section \<open>Parameters\<close>

definition params_object :: "json \<Rightarrow> string \<Rightarrow> jmap rs_result" where
  "params_object params method =
     ok_or (as_object params) (invalid_request_error (method @ '' params must be an object''))"

definition validate_param_keys :: "jmap \<Rightarrow> string \<Rightarrow> string list \<Rightarrow> unit rs_result" where
  "validate_param_keys params method allowed_keys =
     for_each (\<lambda>key. reject_if (key \<notin> set allowed_keys)
       (invalid_request_error (''params.'' @ key @ '' is not supported by '' @ method)))
     (obj_keys params)"

abbreviation str_param :: "jmap \<Rightarrow> string \<Rightarrow> string option" where
  "str_param params field \<equiv> Option.bind (obj_get params field) as_str"

definition required_string_param :: "jmap \<Rightarrow> string \<Rightarrow> string rs_result" where
  "required_string_param params field =
     ok_or (option_filter (\<lambda>value. value \<noteq> []) (str_param params field))
       (invalid_request_error (''params.'' @ field @ '' is required''))"

definition required_prefixed_string_param :: "jmap \<Rightarrow> string \<Rightarrow> string \<Rightarrow> string rs_result" where
  "required_prefixed_string_param params field pre =
     rbind (required_string_param params field) (\<lambda>value.
     rbind (reject_if (\<not> starts_with value pre)
             (invalid_request_error (''params.'' @ field @ '' must start with '' @ pre))) (\<lambda>_.
     rbind (reject_if (length value = length pre)
             (invalid_request_error (''params.'' @ field @ '' must include an id suffix''))) (\<lambda>_.
     rbind (reject_if (MAX_PROTOCOL_ID_BYTES < length value)
             (invalid_request_error (''params.'' @ field @ '' must be at most ''
               @ dec MAX_PROTOCOL_ID_BYTES @ '' bytes''))) (\<lambda>_.
     rbind (reject_if (\<not> list_all (\<lambda>c. c = CHR ''_'' \<or> is_ascii_alphanumeric c) value)
             (invalid_request_error (''params.'' @ field
               @ '' must contain only ASCII letters, digits, or _''))) (\<lambda>_.
     Inr value)))))"

definition types_from_params :: "jmap \<Rightarrow> string list" where
  "types_from_params params =
     (case Option.bind (obj_get params ''types'') as_array of
        None \<Rightarrow> [] | Some types \<Rightarrow> List.map_filter as_str types)"

definition validate_optional_lookup_params :: "jmap \<Rightarrow> unit rs_result" where
  "validate_optional_lookup_params params =
     rbind (case obj_get params ''reason'' of
              None \<Rightarrow> Inr ()
            | Some reason \<Rightarrow> reject_if (option_filter (\<lambda>v. v \<noteq> []) (as_str reason) = None)
                (invalid_request_error ''params.reason must be a non-empty string'')) (\<lambda>_.
     case obj_get params ''types'' of
       None \<Rightarrow> Inr ()
     | Some types \<Rightarrow>
         rbind (ok_or (as_array types) (invalid_request_error ''params.types must be an array'')) (\<lambda>types.
         for_each (\<lambda>event_type. reject_if (option_filter (\<lambda>v. v \<noteq> []) (as_str event_type) = None)
           (invalid_request_error ''params.types entries must be non-empty strings'')) types))"

definition network_override_from_params :: "jmap \<Rightarrow> network_mode option rs_result" where
  "network_override_from_params params =
     (case obj_get params ''network'' of
        None \<Rightarrow> Inr None
      | Some value \<Rightarrow>
          rbind (case as_str value of
                   Some mode \<Rightarrow> Inr mode
                 | None \<Rightarrow> ok_or (Option.bind (json_get value ''mode'') as_str)
                     (invalid_request_error ''params.network.mode is required'')) (\<lambda>mode.
          ok_or (map_option Some (mode_from_str mode))
            (error_new ''POLICY_INVALID'' ''network.mode must be unmanaged, disabled, or proxy'')))"

definition timeout_from_params :: "jmap \<Rightarrow> sandbox_policy \<Rightarrow> 64 word option rs_result" where
  "timeout_from_params params policy =
     rbind (case obj_get params ''timeout_ms'' of
              Some value \<Rightarrow> ok_or (map_option Some (as_u64 value))
                (invalid_request_error ''params.timeout_ms must be an integer'')
            | None \<Rightarrow> Inr None) (\<lambda>requested.
     case (requested, res_timeout_ms (pol_resources policy)) of
       (Some r, Some limit) \<Rightarrow>
         if limit < r
         then invalid_result ''params.timeout_ms exceeds policy resources.timeout_ms''
         else Inr (Some r)
     | (Some r, None) \<Rightarrow> Inr (Some r)
     | (None, policy_timeout) \<Rightarrow> Inr policy_timeout)"

definition metadata_from_params :: "host \<Rightarrow> jmap \<Rightarrow> json option rs_result" where
  "metadata_from_params h params =
     (case obj_get params ''metadata'' of
        None \<Rightarrow> Inr None
      | Some metadata \<Rightarrow>
          rbind (ok_or (as_object metadata) (invalid_request_error ''params.metadata must be an object''))
            (\<lambda>object.
          rbind (map_err (\<lambda>err. invalid_request_error (''params.metadata could not be serialized: '' @ err))
                  (host_json_bytes h (JObj object))) (\<lambda>len.
          rbind (reject_if (MAX_METADATA_BYTES < len)
                  (invalid_request_error (''params.metadata must be at most ''
                    @ dec MAX_METADATA_BYTES @ '' bytes''))) (\<lambda>_.
          Inr (Some (JObj object))))))"

definition validate_command :: "host \<Rightarrow> string list \<Rightarrow> unit rs_result" where
  "validate_command h command =
     rbind (reject_if (list_ex (\<lambda>argument. nul \<in> set argument) command)
             (invalid_request_error ''command entries must not contain NUL'')) (\<lambda>_.
     case command of
       [] \<Rightarrow> invalid_result ''params.command is empty''
     | program # _ \<Rightarrow>
         if program = [] then invalid_result ''params.command is empty''
         else reject_if (\<not> (host_is_absolute h program \<or> CHR ''/'' \<in> set program \<or> CHR 0x5C \<in> set program))
                (invalid_request_error ''params.command[0] must be path-qualified''))"

section \<open>Environment\<close>

definition validate_env_key :: "string \<Rightarrow> unit rs_result" where
  "validate_env_key key =
     (let invalid = invalid_request_error (''params.env.'' @ key @ '' is not a valid environment variable name'') in
      if key = [] \<or> MAX_ENV_KEY_BYTES < length key then Inl invalid
      else (case key of
              [] \<Rightarrow> invalid_result ''params.env key is not a valid environment variable name''
            | first # chars \<Rightarrow>
                reject_if (\<not> (first = CHR ''_'' \<or> is_ascii_alphabetic first)
                    \<or> list_ex (\<lambda>c. \<not> (c = CHR ''_'' \<or> is_ascii_alphanumeric c)) chars)
                  invalid))"

definition same_env_key :: "platform \<Rightarrow> string \<Rightarrow> string \<Rightarrow> bool" where
  "same_env_key pl existing key =
     (if pl = Windows then to_ascii_lowercase existing = to_ascii_lowercase key else existing = key)"

fun upsert_env_entry ::
  "platform \<Rightarrow> (string \<times> string) list \<Rightarrow> string \<Rightarrow> string \<Rightarrow> (string \<times> string) list" where
  "upsert_env_entry pl [] key value = [(key, value)]"
| "upsert_env_entry pl ((existing, old) # entries) key value =
     (if same_env_key pl existing key then (existing, value) # entries
      else (existing, old) # upsert_env_entry pl entries key value)"

definition env_param ::
  "platform \<Rightarrow> string list \<Rightarrow> string \<times> json \<Rightarrow> (string \<times> string) list \<Rightarrow> (string \<times> string) list rs_result"
  where
  "env_param pl scrub kv entries =
     (let key = fst kv in
      rbind (validate_env_key key) (\<lambda>_.
      rbind (reject_if (scrubbed scrub key)
              (invalid_request_error (''params.env.'' @ key @ '' is denied by policy environment scrub'')))
        (\<lambda>_.
      rbind (ok_or (as_str (snd kv)) (invalid_request_error (''params.env.'' @ key @ '' must be a string'')))
        (\<lambda>value.
      rbind (reject_if (nul \<in> set value)
              (invalid_request_error ''environment values must not contain NUL'')) (\<lambda>_.
      rbind (reject_if (MAX_ENV_VALUE_BYTES < length value)
              (invalid_request_error (''params.env.'' @ key @ '' must be at most ''
                @ dec MAX_ENV_VALUE_BYTES @ '' bytes''))) (\<lambda>_.
      Inr (upsert_env_entry pl entries key value)))))))"

definition env_from_params ::
  "platform \<Rightarrow> jmap \<Rightarrow> sandbox_policy \<Rightarrow> (string \<times> string) list rs_result" where
  "env_from_params pl params policy =
     (let entries = env_set (pol_environment policy) in
      case obj_get params ''env'' of
        None \<Rightarrow> Inr entries
      | Some value \<Rightarrow>
          rbind (ok_or (as_object value) (invalid_request_error ''params.env must be an object'')) (\<lambda>env.
          rbind (reject_if (MAX_ENV_ENTRIES < length env)
                  (invalid_request_error (''params.env must include at most '' @ dec MAX_ENV_ENTRIES
                    @ '' entries''))) (\<lambda>_.
          rbind (fold_result (env_param pl (env_scrub (pol_environment policy))) env entries) (\<lambda>entries.
          rbind (reject_if (MAX_ENV_ENTRIES < length entries)
                  (invalid_request_error (''environment.set and params.env must include at most ''
                    @ dec MAX_ENV_ENTRIES @ '' combined entries''))) (\<lambda>_.
          Inr (sort_key fst entries))))))"

section \<open>Standard input and channels\<close>

datatype execution_stdin =
    StdinEmpty | StdinBytes "byte list" | StdinFile "byte list" | StdinStream input_state

datatype execution_io = Pipe | PipeControl "16 word" bool | Pty "16 word" "16 word"

definition control_fd :: "execution_io \<Rightarrow> 16 word option" where
  "control_fd io = (case io of PipeControl child_fd _ \<Rightarrow> Some child_fd | _ \<Rightarrow> None)"

definition has_control :: "execution_io \<Rightarrow> bool" where
  "has_control io \<longleftrightarrow> control_fd io \<noteq> None"

definition is_pty :: "execution_io \<Rightarrow> bool" where
  "is_pty io = (case io of Pty _ _ \<Rightarrow> True | _ \<Rightarrow> False)"

definition MAX_STDIN_BYTES :: nat where "MAX_STDIN_BYTES = 64 * 1024"

definition MAX_STDIN_DATA_BYTES :: nat where
  "MAX_STDIN_DATA_BYTES = length ''base64:'' + 4 * ((MAX_STDIN_BYTES + 2) div 3)"

definition MAX_STDIN_FILE_BYTES :: nat where "MAX_STDIN_FILE_BYTES = 16 * 1024 * 1024"

definition validate_stdin_keys :: "jmap \<Rightarrow> string list \<Rightarrow> unit rs_result" where
  "validate_stdin_keys stdin allowed =
     for_each (\<lambda>key. reject_if (key \<notin> set allowed)
       (invalid_request_error (''params.'' @ key @ '' is not supported by execute stdin''))) (obj_keys stdin)"

definition stdin_bytes_from_params :: "host \<Rightarrow> jmap \<Rightarrow> execution_stdin rs_result" where
  "stdin_bytes_from_params h stdin =
     rbind (validate_stdin_keys stdin [''mode'', ''data'', ''encoding'']) (\<lambda>_.
     rbind (ok_or (str_param stdin ''encoding'') (invalid_request_error ''params.stdin.encoding is required''))
       (\<lambda>encoding.
     rbind (reject_if (encoding \<noteq> ''base64'')
             (invalid_request_error ''params.stdin.encoding must be base64'')) (\<lambda>_.
     rbind (ok_or (str_param stdin ''data'') (invalid_request_error ''params.stdin.data is required'')) (\<lambda>data.
     rbind (reject_if (MAX_STDIN_DATA_BYTES < length data)
             (invalid_request_error (''params.stdin.data must decode to at most '' @ dec MAX_STDIN_BYTES
               @ '' bytes''))) (\<lambda>_.
     rbind (ok_or (strip_prefix data ''base64:'')
             (invalid_request_error ''params.stdin.data must use base64: prefix'')) (\<lambda>encoded.
     rbind (map_err (\<lambda>err. invalid_request_error (''params.stdin.data must be valid base64: '' @ err))
             (host_base64 h encoded)) (\<lambda>bytes.
     rbind (reject_if (MAX_STDIN_BYTES < length bytes)
             (invalid_request_error (''params.stdin.data must decode to at most '' @ dec MAX_STDIN_BYTES
               @ '' bytes''))) (\<lambda>_.
     Inr (StdinBytes bytes)))))))))"

definition stdin_file_from_params :: "host \<Rightarrow> jmap \<Rightarrow> string \<Rightarrow> execution_stdin rs_result" where
  "stdin_file_from_params h stdin cwd =
     rbind (validate_stdin_keys stdin [''mode'', ''path'']) (\<lambda>_.
     rbind (ok_or (str_param stdin ''path'') (invalid_request_error ''params.stdin.path is required''))
       (\<lambda>raw_path.
     rbind (reject_if (raw_path = []) (invalid_request_error ''params.stdin.path must not be empty'')) (\<lambda>_.
     let path = (if host_is_absolute h raw_path then raw_path else host_join h cwd raw_path) in
     rbind (map_err (\<lambda>err. invalid_request_error (''params.cwd must be an existing directory: '' @ err))
             (host_canonicalize h cwd)) (\<lambda>cwd.
     rbind (map_err (\<lambda>err. invalid_request_error
               (''params.stdin.path must be an existing file under params.cwd: '' @ err))
             (host_canonicalize h path)) (\<lambda>path.
     rbind (reject_if (\<not> host_starts_with h path cwd)
             (invalid_request_error ''params.stdin.path must be under params.cwd'')) (\<lambda>_.
     rbind (map_err (\<lambda>err. invalid_request_error (''params.stdin.path must be readable: '' @ err))
             (host_metadata h path)) (\<lambda>metadata.
     rbind (reject_if (fst metadata \<noteq> RegularFile)
             (invalid_request_error ''params.stdin.path must be a regular file'')) (\<lambda>_.
     rbind (reject_if (MAX_STDIN_FILE_BYTES < snd metadata)
             (invalid_request_error (''params.stdin.path must be at most '' @ dec MAX_STDIN_FILE_BYTES
               @ '' bytes''))) (\<lambda>_.
     rbind (map_err (\<lambda>err. invalid_request_error (''params.stdin.path must be readable: '' @ err))
             (host_read h path)) (\<lambda>bytes.
     rbind (reject_if (MAX_STDIN_FILE_BYTES < length bytes)
             (invalid_request_error (''params.stdin.path must be at most '' @ dec MAX_STDIN_FILE_BYTES
               @ '' bytes''))) (\<lambda>_.
     Inr (StdinFile bytes))))))))))))"

definition stdin_from_params :: "host \<Rightarrow> jmap \<Rightarrow> string \<Rightarrow> execution_stdin rs_result" where
  "stdin_from_params h params cwd =
     (case obj_get params ''stdin'' of
        None \<Rightarrow> Inr StdinEmpty
      | Some value \<Rightarrow>
          rbind (ok_or (as_object value) (invalid_request_error ''params.stdin must be an object'')) (\<lambda>stdin.
          rbind (ok_or (str_param stdin ''mode'') (invalid_request_error ''params.stdin.mode is required''))
            (\<lambda>mode.
          if mode = ''empty'' then rbind (validate_stdin_keys stdin [''mode'']) (\<lambda>_. Inr StdinEmpty)
          else if mode = ''bytes'' then stdin_bytes_from_params h stdin
          else if mode = ''file'' then stdin_file_from_params h stdin cwd
          else if mode = ''stream''
            then rbind (validate_stdin_keys stdin [''mode'']) (\<lambda>_. Inr (StdinStream input_default))
          else if mode = ''inherit''
            then invalid_result (''params.stdin.mode='' @ mode @ '' is not supported by execute'')
          else invalid_result (''params.stdin.mode must be empty, bytes, file, or stream, got '' @ mode))))"

definition stdin_audit_json :: "execution_stdin \<Rightarrow> json" where
  "stdin_audit_json stdin =
     (let entry = (\<lambda>mode count. json_object [(''mode'', JStr mode), (''byte_count'', json_nat count)]) in
      case stdin of
        StdinEmpty \<Rightarrow> entry ''empty'' 0
      | StdinBytes bytes \<Rightarrow> entry ''bytes'' (length bytes)
      | StdinFile bytes \<Rightarrow> entry ''file'' (length bytes)
      | StdinStream _ \<Rightarrow> entry ''stream'' 0)"

definition terminal_dimension :: "jmap \<Rightarrow> string \<Rightarrow> 16 word rs_result" where
  "terminal_dimension io field =
     ok_or (map_option ucast (option_filter (\<lambda>size. 1 \<le> size \<and> size \<le> 1000)
             (Option.bind (obj_get io field) as_u64)))
       (invalid_request_error (''io.'' @ field @ '' must be an integer from 1 to 1000''))"

definition control_from_params :: "platform \<Rightarrow> json \<Rightarrow> execution_io rs_result" where
  "control_from_params pl control =
     rbind (ok_or (as_object control) (invalid_request_error ''io.control must be an object'')) (\<lambda>control.
     rbind (validate_param_keys control ''io.control'' [''mode'', ''child_fd'']) (\<lambda>_.
     rbind (ok_or (option_filter (\<lambda>fd. 3 \<le> fd \<and> fd \<le> 255) (Option.bind (obj_get control ''child_fd'') as_u64))
             (invalid_request_error ''control child_fd must be from 3 to 255'')) (\<lambda>child_fd.
     rbind (reject_if (str_param control ''mode'' \<noteq> Some ''pipe'' \<and> str_param control ''mode'' \<noteq> Some ''socket'')
             (invalid_request_error ''control requires pipe or socket mode and child_fd from 3 to 255'')) (\<lambda>_.
     if pl = Windows \<or> pl = Macos
     then Inr (PipeControl (ucast child_fd) (str_param control ''mode'' = Some ''pipe''))
     else Inl (error_with_details ''BACKEND_CAPABILITY_MISSING'' ''control channel unavailable''
            (json_object [(''missing_features'', json_strs [''control_channel''])]))))))"

definition io_from_params :: "platform \<Rightarrow> jmap \<Rightarrow> execution_stdin \<Rightarrow> execution_io rs_result" where
  "io_from_params pl params stdin =
     (case obj_get params ''io'' of
        None \<Rightarrow> Inr Pipe
      | Some value \<Rightarrow>
          rbind (ok_or (as_object value) (invalid_request_error ''io must be an object'')) (\<lambda>io.
          if str_param io ''mode'' = Some ''pipe'' then
            rbind (validate_param_keys io ''io'' [''mode'', ''control'']) (\<lambda>_.
            case obj_get io ''control'' of
              Some control \<Rightarrow> control_from_params pl control
            | None \<Rightarrow> Inr Pipe)
          else if str_param io ''mode'' = Some ''pty'' then
            rbind (validate_param_keys io ''io'' [''mode'', ''rows'', ''cols'']) (\<lambda>_.
            rbind (reject_if (\<not> (case stdin of StdinStream _ \<Rightarrow> True | _ \<Rightarrow> False))
                    (invalid_request_error ''PTY requires stdin.stream'')) (\<lambda>_.
            rbind (terminal_dimension io ''rows'') (\<lambda>rows.
            rbind (terminal_dimension io ''cols'') (\<lambda>cols.
            if pl = Windows \<or> pl = Macos then Inr (Pty rows cols)
            else Inl (error_with_details ''BACKEND_CAPABILITY_MISSING'' ''PTY unavailable for this backend''
                   (json_object [(''missing_features'', json_strs [''pty''])]))))))
          else invalid_result ''io.mode must be pipe or pty''))"

section \<open>Requests\<close>

record execution_request =
  req_ids :: execution_ids
  req_control :: execution_control
  req_command :: "string list"
  req_cwd :: string
  req_policy :: sandbox_policy
  req_stdin :: execution_stdin
  req_control_input :: "input_state option"
  req_io :: execution_io
  req_env :: "(string \<times> string) list"
  req_metadata :: "json option"
  req_timeout :: "64 word option"

definition execute_keys :: "string list" where
  "execute_keys =
     [''command'', ''cwd'', ''policy'', ''network'', ''stdin'', ''io'', ''timeout_ms'', ''metadata'', ''env'']"

text \<open>A working directory that is not a string is as if it were absent.\<close>

definition cwd_param :: "host \<Rightarrow> jmap \<Rightarrow> string" where
  "cwd_param h params = (case str_param params ''cwd'' of Some cwd \<Rightarrow> cwd | None \<Rightarrow> current_dir h)"

definition policy_param :: "jmap \<Rightarrow> json" where
  "policy_param params = (case obj_get params ''policy'' of Some policy \<Rightarrow> policy | None \<Rightarrow> JStr ''read-only'')"

definition command_param :: "jmap \<Rightarrow> string list rs_result" where
  "command_param params =
     rbind (ok_or (Option.bind (obj_get params ''command'') as_array)
             (invalid_request_error ''params.command must be an array'')) (\<lambda>items.
     collect (\<lambda>item. ok_or (as_str item)
       (invalid_request_error ''params.command entries must be strings'')) items)"

text \<open>The identifiers are drawn last; \<open>clock\<close> is the time and the process, \<open>counter\<close> their state.\<close>

definition execution_request_from_params ::
  "deployment_limits \<Rightarrow> host \<Rightarrow> nat \<times> nat \<Rightarrow> 64 word \<Rightarrow> json \<Rightarrow>
     (execution_request \<times> 64 word) rs_result" where
  "execution_request_from_params limits h clock counter params =
     rbind (params_object params ''execute'') (\<lambda>params.
     rbind (validate_param_keys params ''execute'' execute_keys) (\<lambda>_.
     rbind (metadata_from_params h params) (\<lambda>metadata.
     rbind (command_param params) (\<lambda>command.
     rbind (validate_command h command) (\<lambda>_.
     rbind (normalize_execution_cwd h (cwd_param h params)) (\<lambda>cwd.
     rbind (stdin_from_params h params cwd) (\<lambda>stdin.
     rbind (io_from_params (host_platform h) params stdin) (\<lambda>io.
     rbind (network_override_from_params params) (\<lambda>network.
     rbind (map_err runseal_of_policy_error
             (normalize_policy limits (host_platform h) (policy_param params) cwd network)) (\<lambda>policy.
     rbind (timeout_from_params params policy) (\<lambda>timeout.
     rbind (env_from_params (host_platform h) params policy) (\<lambda>env.
     let (ids, counter) = new_execution_ids (fst clock) (snd clock) counter in
     Inr (\<lparr>req_ids = ids, req_control = control_default, req_command = command, req_cwd = cwd,
           req_policy = policy, req_stdin = stdin,
           req_control_input = (if has_control io then Some input_default else None), req_io = io,
           req_env = env, req_metadata = metadata, req_timeout = timeout\<rparr>, counter)))))))))))))"

text \<open>\<open>explain\<close> is \<open>explain_policy_json\<close>, which asks the active backend for its features.\<close>

definition explain_policy_from_params ::
  "deployment_limits \<Rightarrow> host \<Rightarrow> (sandbox_policy \<Rightarrow> string \<Rightarrow> json) \<Rightarrow> json \<Rightarrow> json rs_result" where
  "explain_policy_from_params limits h explain params =
     rbind (params_object params ''explainPolicy'') (\<lambda>params.
     rbind (validate_param_keys params ''explainPolicy'' [''policy'', ''cwd'', ''network'']) (\<lambda>_.
     rbind (normalize_execution_cwd h (cwd_param h params)) (\<lambda>cwd.
     rbind (network_override_from_params params) (\<lambda>network.
     rbind (map_err runseal_of_policy_error
             (normalize_policy limits (host_platform h) (policy_param params) cwd network)) (\<lambda>policy.
     Inr (explain policy cwd))))))"

definition setup_status_cwd_from_params :: "host \<Rightarrow> json \<Rightarrow> string rs_result" where
  "setup_status_cwd_from_params h params =
     rbind (params_object params ''getSetupStatus'') (\<lambda>params.
     rbind (validate_param_keys params ''getSetupStatus'' [''cwd'']) (\<lambda>_.
     rbind (case obj_get params ''cwd'' of
              Some value \<Rightarrow> ok_or (as_str value) (invalid_request_error ''params.cwd must be a string'')
            | None \<Rightarrow> Inr (current_dir h)) (\<lambda>cwd.
     normalize_execution_cwd h cwd)))"

definition get_execution_id_from_params :: "json \<Rightarrow> string rs_result" where
  "get_execution_id_from_params params =
     rbind (params_object params ''getExecution'') (\<lambda>params.
     rbind (validate_param_keys params ''getExecution'' [''execution_id'']) (\<lambda>_.
     required_prefixed_string_param params ''execution_id'' ''exec_''))"

definition cancel_execution_id_from_params :: "json \<Rightarrow> string rs_result" where
  "cancel_execution_id_from_params params =
     rbind (params_object params ''cancelExecution'') (\<lambda>params.
     rbind (validate_param_keys params ''cancelExecution'' [''execution_id'', ''reason'']) (\<lambda>_.
     rbind (validate_optional_lookup_params params) (\<lambda>_.
     rbind (case obj_get params ''reason'' of
              None \<Rightarrow> Inr ()
            | Some reason \<Rightarrow>
                reject_if (as_str reason \<noteq> Some ''user_requested'' \<and> as_str reason \<noteq> Some ''host_shutdown'')
                  (invalid_request_error ''params.reason must be user_requested or host_shutdown'')) (\<lambda>_.
     required_prefixed_string_param params ''execution_id'' ''exec_''))))"

record execution_input_request =
  eir_execution_id :: string
  eir_bytes :: "byte list option"
  eir_control_stream :: bool

definition input_bytes_param :: "deployment_limits \<Rightarrow> host \<Rightarrow> jmap \<Rightarrow> byte list rs_result" where
  "input_bytes_param limits h params =
     rbind (reject_if (str_param params ''encoding'' \<noteq> Some ''base64'')
             (invalid_request_error ''params.encoding must be base64'')) (\<lambda>_.
     rbind (ok_or (str_param params ''data'')
             (invalid_request_error ''params.data must be base64-prefixed bytes'')) (\<lambda>data.
     rbind (reject_if (7 + 4 * ((stream_chunk_bytes limits + 2) div 3) < length data)
             (invalid_request_error ''input chunk exceeds the configured byte limit'')) (\<lambda>_.
     rbind (ok_or (strip_prefix data ''base64:'')
             (invalid_request_error ''params.data must use base64: prefix'')) (\<lambda>encoded.
     rbind (map_err (\<lambda>_. invalid_request_error ''params.data must be valid base64'')
             (host_base64 h encoded)) (\<lambda>bytes.
     rbind (reject_if (stream_chunk_bytes limits < length bytes)
             (invalid_request_error ''input chunk exceeds the configured byte limit'')) (\<lambda>_.
     Inr bytes))))))"

definition execution_input_from_params ::
  "deployment_limits \<Rightarrow> host \<Rightarrow> json \<Rightarrow> bool \<Rightarrow> execution_input_request rs_result" where
  "execution_input_from_params limits h params is_write =
     (let method = (if is_write then ''writeExecutionInput'' else ''closeExecutionInput'') in
      rbind (params_object params method) (\<lambda>params.
      rbind (validate_param_keys params method
              (if is_write then [''execution_id'', ''stream'', ''encoding'', ''data'']
               else [''execution_id'', ''stream''])) (\<lambda>_.
      rbind (required_prefixed_string_param params ''execution_id'' ''exec_'') (\<lambda>eid.
      rbind (if str_param params ''stream'' = Some ''stdin'' then Inr False
             else if str_param params ''stream'' = Some ''control'' then Inr True
             else invalid_result ''params.stream must be stdin or control'') (\<lambda>control_stream.
      rbind (if is_write then rbind (input_bytes_param limits h params) (\<lambda>bytes. Inr (Some bytes))
             else Inr None) (\<lambda>bytes.
      Inr \<lparr>eir_execution_id = eid, eir_bytes = bytes, eir_control_stream = control_stream\<rparr>))))))"

record event_subscription_request =
  esr_execution_id :: string
  esr_types :: "string list"
  esr_after_seq :: "64 word option"

definition subscribe_events_params :: "json \<Rightarrow> event_subscription_request rs_result" where
  "subscribe_events_params params =
     rbind (params_object params ''subscribeEvents'') (\<lambda>params.
     rbind (validate_param_keys params ''subscribeEvents'' [''execution_id'', ''types'', ''after_seq'']) (\<lambda>_.
     rbind (validate_optional_lookup_params params) (\<lambda>_.
     rbind (required_prefixed_string_param params ''execution_id'' ''exec_'') (\<lambda>eid.
     rbind (case obj_get params ''after_seq'' of
              None \<Rightarrow> Inr None
            | Some value \<Rightarrow> ok_or (map_option Some (as_u64 value))
                (invalid_request_error ''params.after_seq must be a nonnegative integer'')) (\<lambda>after_seq.
     Inr \<lparr>esr_execution_id = eid, esr_types = types_from_params params, esr_after_seq = after_seq\<rparr>)))))"

definition unsubscribe_execution_id_from_params :: "json \<Rightarrow> string rs_result" where
  "unsubscribe_execution_id_from_params params =
     rbind (params_object params ''unsubscribeEvents'') (\<lambda>params.
     rbind (validate_param_keys params ''unsubscribeEvents'' [''execution_id'']) (\<lambda>_.
     required_prefixed_string_param params ''execution_id'' ''exec_''))"

definition lookup_events_params :: "json \<Rightarrow> string \<Rightarrow> (string \<times> string list) rs_result" where
  "lookup_events_params params method =
     rbind (params_object params method) (\<lambda>params.
     rbind (validate_param_keys params method [''execution_id'', ''types'']) (\<lambda>_.
     rbind (validate_optional_lookup_params params) (\<lambda>_.
     rbind (required_prefixed_string_param params ''execution_id'' ''exec_'') (\<lambda>eid.
     Inr (eid, types_from_params params)))))"

definition audit_events_params :: "json \<Rightarrow> (string \<times> string list) rs_result" where
  "audit_events_params params = lookup_events_params params ''getAuditEvents''"

definition tail_audit_params :: "json \<Rightarrow> string list rs_result" where
  "tail_audit_params params =
     rbind (params_object params ''tailAudit'') (\<lambda>params.
     rbind (validate_param_keys params ''tailAudit'' [''types'']) (\<lambda>_.
     rbind (validate_optional_lookup_params params) (\<lambda>_.
     Inr (types_from_params params))))"

definition session_id_from_params :: "json \<Rightarrow> string rs_result" where
  "session_id_from_params params =
     rbind (params_object params ''disposeSession'') (\<lambda>params.
     rbind (validate_param_keys params ''disposeSession'' [''session_id'']) (\<lambda>_.
     required_prefixed_string_param params ''session_id'' ''sess_''))"

definition validate_empty_params :: "json \<Rightarrow> string \<Rightarrow> unit rs_result" where
  "validate_empty_params params method =
     rbind (params_object params method) (\<lambda>params. validate_param_keys params method [])"

definition resize_from_params :: "json \<Rightarrow> (string \<times> 16 word \<times> 16 word) rs_result" where
  "resize_from_params params =
     rbind (params_object params ''resizeExecution'') (\<lambda>params.
     rbind (validate_param_keys params ''resizeExecution'' [''execution_id'', ''rows'', ''cols'']) (\<lambda>_.
     rbind (required_prefixed_string_param params ''execution_id'' ''exec_'') (\<lambda>eid.
     rbind (terminal_dimension params ''rows'') (\<lambda>rows.
     rbind (terminal_dimension params ''cols'') (\<lambda>cols.
     Inr (eid, rows, cols))))))"

definition signal_from_params :: "json \<Rightarrow> string rs_result" where
  "signal_from_params params =
     rbind (params_object params ''signalExecution'') (\<lambda>params.
     rbind (validate_param_keys params ''signalExecution'' [''execution_id'', ''signal'']) (\<lambda>_.
     rbind (reject_if (str_param params ''signal'' \<noteq> Some ''interrupt'')
             (invalid_request_error ''signal must be interrupt'')) (\<lambda>_.
     required_prefixed_string_param params ''execution_id'' ''exec_'')))"

section \<open>What validation establishes\<close>

lemma option_filter_Some_iff: "option_filter p x = Some a \<longleftrightarrow> x = Some a \<and> p a"
  by (auto simp: option_filter_def split: option.splits)

definition wf_protocol_id :: "string \<Rightarrow> string \<Rightarrow> bool" where
  "wf_protocol_id pre value \<longleftrightarrow>
     (\<exists>suffix. value = pre @ suffix \<and> suffix \<noteq> []) \<and> length value \<le> MAX_PROTOCOL_ID_BYTES \<and>
     list_all (\<lambda>c. c = CHR ''_'' \<or> is_ascii_alphanumeric c) value"

lemma required_prefixed_string_param_iff:
  "required_prefixed_string_param params field pre = Inr value \<longleftrightarrow>
     obj_get params field = Some (JStr value) \<and> wf_protocol_id pre value"
proof -
  have "starts_with value pre \<and> length value \<noteq> length pre \<longleftrightarrow>
      (\<exists>suffix. value = pre @ suffix \<and> suffix \<noteq> [])"
    by (auto simp: starts_with_iff)
  moreover have "required_string_param params field = Inr v \<longleftrightarrow>
      obj_get params field = Some (JStr v) \<and> v \<noteq> []" for v
    by (auto simp: required_string_param_def ok_or_Inr_iff option_filter_Some_iff bind_eq_Some_conv
        accessor_Some_iff)
  ultimately show ?thesis
    by (auto simp: required_prefixed_string_param_def rbind_Inr_iff reject_if_Inr_iff
        wf_protocol_id_def not_less)
qed

lemma validate_env_key_ok: "validate_env_key key = Inr u \<longleftrightarrow> valid_env_key key"
  by (cases key)
    (auto simp: validate_env_key_def valid_env_key_def Let_def reject_if_Inr_iff list_ex_iff list_all_iff)

lemma upsert_env_entry_ok:
  assumes "list_all (wf_env_entry scrub) entries" "wf_env_entry scrub (key, value)"
  shows "list_all (wf_env_entry scrub) (upsert_env_entry pl entries key value)"
  using assms by (induction entries) (auto simp: wf_env_entry_def)

text \<open>
  The values an environment has for a name, in order: Windows takes names that differ only in the case
  of ASCII letters to be the same, the other platforms do not.
\<close>

definition env_name :: "platform \<Rightarrow> string \<Rightarrow> string" where
  "env_name pl key = (if pl = Windows then to_ascii_lowercase key else key)"

definition env_values :: "platform \<Rightarrow> (string \<times> 'v) list \<Rightarrow> string \<Rightarrow> 'v list" where
  "env_values pl entries key = map snd (filter (\<lambda>e. env_name pl (fst e) = env_name pl key) entries)"

lemma env_values_simps [simp]:
  "env_values pl [] key = []"
  "env_values pl (e # entries) key =
     (if env_name pl (fst e) = env_name pl key then snd e # env_values pl entries key else env_values pl entries key)"
  by (simp_all add: env_values_def)

lemma same_env_key_name: "same_env_key pl a b \<longleftrightarrow> env_name pl a = env_name pl b"
  by (simp add: same_env_key_def env_name_def)

text \<open>An update replaces the first value of its name, or adds one, and leaves all other names alone.\<close>

lemma env_values_upsert:
  "env_values pl (upsert_env_entry pl entries key value) k =
     (if env_name pl key = env_name pl k then value # tl (env_values pl entries k) else env_values pl entries k)"
proof (induction entries)
  case (Cons e entries)
  then show ?case
    by (cases e) (auto simp: same_env_key_name)
qed (simp add: same_env_key_name)

text \<open>The entries of one name stay in order, so that the final sort does not swap them.\<close>

definition names_in_order :: "platform \<Rightarrow> (string \<times> 'v) list \<Rightarrow> bool" where
  "names_in_order pl entries \<longleftrightarrow> (\<forall>k. sorted (map fst (filter (\<lambda>e. env_name pl (fst e) = env_name pl k) entries)))"

lemma upsert_names:
  "map fst (filter (\<lambda>e. env_name pl (fst e) = env_name pl k) (upsert_env_entry pl entries key value)) =
     (let names = map fst (filter (\<lambda>e. env_name pl (fst e) = env_name pl k) entries) in
      if env_name pl key = env_name pl k \<and> names = [] then [key] else names)"
proof (induction entries)
  case (Cons e entries)
  then show ?case
    by (cases e) (auto simp: same_env_key_name Let_def)
qed (simp add: Let_def)

lemma names_in_order_upsert:
  "names_in_order pl entries \<Longrightarrow> names_in_order pl (upsert_env_entry pl entries key value)"
  unfolding names_in_order_def by (simp add: upsert_names Let_def)

lemma env_values_sort: "names_in_order pl entries \<Longrightarrow> env_values pl (sort_key fst entries) k = env_values pl entries k"
  unfolding names_in_order_def env_values_def by (simp add: filter_sort sort_key_id_if_sorted)

lemma names_in_order_sorted: "sorted (map fst entries) \<Longrightarrow> names_in_order pl entries"
  unfolding names_in_order_def by (simp add: sorted_filter)

lemma env_param_ok:
  assumes "env_param pl scrub kv entries = Inr entries'"
  obtains v where "kv = (fst kv, JStr v)" "wf_env_entry scrub (fst kv, v)"
    "entries' = upsert_env_entry pl entries (fst kv) v"
  using assms
  by (cases kv)
    (auto simp: env_param_def Let_def rbind_Inr_iff reject_if_Inr_iff ok_or_Inr_iff accessor_Some_iff
      validate_env_key_ok wf_env_entry_def not_less)

text \<open>
  A value set by the request replaces the first one of the policy; of several values the request has
  for a name, which can be so where case is ignored, the last counts.
\<close>

definition overridden_values :: "json list \<Rightarrow> string list \<Rightarrow> json list" where
  "overridden_values requested configured =
     (if requested = [] then map JStr configured else last requested # map JStr (tl configured))"

lemma overridden_length:
  "map JStr effective = overridden_values requested configured \<Longrightarrow>
     1 < length effective \<longleftrightarrow> 1 < length configured"
  by (drule arg_cong [of _ _ length]) (auto simp: overridden_values_def split: if_splits)

lemma env_params_ok:
  assumes "fold_result (env_param pl scrub) env entries = Inr entries'"
    and "list_all (wf_env_entry scrub) entries" "names_in_order pl entries"
  shows "list_all (wf_env_entry scrub) entries' \<and> names_in_order pl entries' \<and>
    (\<forall>k. map JStr (env_values pl entries' k) = overridden_values (env_values pl env k) (env_values pl entries k))"
  using assms
proof (induction env arbitrary: entries)
  case (Cons kv env)
  obtain mid where mid: "env_param pl scrub kv entries = Inr mid"
    "fold_result (env_param pl scrub) env mid = Inr entries'"
    using Cons.prems(1) by (auto simp: rbind_Inr_iff)
  obtain val where v: "kv = (fst kv, JStr val)" "wf_env_entry scrub (fst kv, val)"
    "mid = upsert_env_entry pl entries (fst kv) val"
    using mid(1) by (rule env_param_ok)
  have "list_all (wf_env_entry scrub) mid" "names_in_order pl mid"
    unfolding v(3) using Cons.prems v(2) by (simp_all add: upsert_env_entry_ok names_in_order_upsert)
  from Cons.IH [OF mid(2) this] show ?case
    using v(1) unfolding v(3)
    by (cases kv) (auto simp: env_values_upsert overridden_values_def)
qed (simp add: overridden_values_def)

lemma env_from_params_ok:
  assumes "env_from_params pl params policy = Inr env"
    and "list_all (wf_env_entry (env_scrub (pol_environment policy))) (env_set (pol_environment policy))"
    and "length (env_set (pol_environment policy)) \<le> MAX_ENV_ENTRIES"
    and "sorted (map fst (env_set (pol_environment policy)))"
  shows "list_all (wf_env_entry (env_scrub (pol_environment policy))) env \<and>
    length env \<le> MAX_ENV_ENTRIES \<and> sorted (map fst env) \<and>
    (\<forall>k. map JStr (env_values pl env k) =
       overridden_values
         (case obj_get params ''env'' of Some (JObj requested) \<Rightarrow> env_values pl requested k | _ \<Rightarrow> [])
         (env_values pl (env_set (pol_environment policy)) k))"
proof (cases "obj_get params ''env''")
  case None
  with assms show ?thesis by (auto simp: env_from_params_def overridden_values_def)
next
  case (Some object)
  let ?scrub = "env_scrub (pol_environment policy)" and ?set = "env_set (pol_environment policy)"
  obtain m entries where m: "object = JObj m" and
    entries: "fold_result (env_param pl ?scrub) m ?set = Inr entries" "length entries \<le> MAX_ENV_ENTRIES"
    and env: "env = sort_key fst entries"
    using assms(1)
    by (auto simp: env_from_params_def Some Let_def rbind_Inr_iff reject_if_Inr_iff ok_or_Inr_iff
        accessor_Some_iff)
  show ?thesis
    using env_params_ok [OF entries(1) assms(2) names_in_order_sorted [OF assms(4)]] entries(2)
    by (simp add: env Some m list_all_iff env_values_sort)
qed

lemma env_values_distinct:
  assumes "distinct (map fst entries)" "pl \<noteq> Windows"
  shows "length (env_values pl entries k) \<le> 1"
proof -
  have "filter (\<lambda>e. fst e = k) entries = [] \<or> (\<exists>e. filter (\<lambda>e. fst e = k) entries = [e])"
    using assms(1) by (induction entries) (auto simp: filter_empty_conv image_iff)
  then show ?thesis using assms(2) by (auto simp: env_values_def env_name_def)
qed

lemma validate_param_keys_ok:
  "validate_param_keys params method allowed = Inr u \<longleftrightarrow> set (obj_keys params) \<subseteq> set allowed"
  by (auto simp: validate_param_keys_def for_each_Inr_iff reject_if_Inr_iff)

lemma execution_requestE:
  assumes "execution_request_from_params limits h clock counter params = Inr (r, counter')"
  obtains m network u where "params = JObj m" "set (obj_keys m) \<subseteq> set execute_keys"
    "validate_command h (req_command r) = Inr u"
    "normalize_execution_cwd h (cwd_param h m) = Inr (req_cwd r)"
    "stdin_from_params h m (req_cwd r) = Inr (req_stdin r)"
    "io_from_params (host_platform h) m (req_stdin r) = Inr (req_io r)"
    "network_override_from_params m = Inr network"
    "normalize_policy limits (host_platform h) (policy_param m) (req_cwd r) network = Inr (req_policy r)"
    "timeout_from_params m (req_policy r) = Inr (req_timeout r)"
    "env_from_params (host_platform h) m (req_policy r) = Inr (req_env r)"
    "req_control_input r = (if has_control (req_io r) then Some input_default else None)"
    "req_control r = control_default" "counter' = counter + 1"
  using assms unfolding execution_request_from_params_def Let_def new_execution_ids_def prod.case
  apply (elim rbind_InrE return_InrE)
  apply (simp only: prod.inject map_err_Inr_iff validate_param_keys_ok params_object_def ok_or_Inr_iff
      accessor_Some_iff)
  apply (elim conjE)
  subgoal premises prems for m _ _ _ u _ _ _ network
    by (rule prems(1) [of m u network]) (use prems(2-) in \<open>simp_all only: execution_request.select_convs\<close>)
  done

lemma normalize_execution_cwd_ok:
  "normalize_execution_cwd h raw = Inr cwd \<longleftrightarrow>
     host_symlink_kind h raw = Inr Directory \<and>
     (\<exists>path. host_canonicalize h raw = Inr path \<and>
        cwd = simplify_windows_extended_path (host_platform h) path)"
  by (auto simp: normalize_execution_cwd_def validate_execution_cwd_def rbind_Inr_iff reject_if_Inr_iff
      map_err_Inr_iff)

lemma validate_command_ok:
  "validate_command h command = Inr u \<longleftrightarrow>
     (\<forall>argument \<in> set command. nul \<notin> set argument) \<and>
     (\<exists>program arguments. command = program # arguments \<and> program \<noteq> [] \<and>
        (host_is_absolute h program \<or> CHR ''/'' \<in> set program \<or> CHR 0x5C \<in> set program))"
  by (cases command)
    (auto simp: validate_command_def rbind_Inr_iff reject_if_Inr_iff list_ex_iff)

lemma timeout_from_params_ok:
  assumes "timeout_from_params m policy = Inr t" "res_timeout_ms (pol_resources policy) = Some limit"
  shows "\<exists>n \<le> limit. t = Some n"
  using assms
  by (auto simp: timeout_from_params_def rbind_Inr_iff ok_or_Inr_iff not_less
      split: option.splits if_splits)

lemma word_of_dimension:
  fixes n :: "64 word"
  assumes "n \<le> 1000"
  shows "unat (ucast n :: 16 word) = unat n"
proof -
  have "unat n \<le> 1000" using assms by (simp add: word_le_nat_alt)
  then show ?thesis by (simp add: unsigned_ucast_eq take_bit_nat_eq_self_iff)
qed

lemma terminal_dimension_ok:
  assumes "terminal_dimension io field = Inr d"
  shows "1 \<le> unat d \<and> unat d \<le> 1000"
proof -
  obtain n :: "64 word" where n: "1 \<le> n" "n \<le> 1000" "d = ucast n"
    using assms by (auto simp: terminal_dimension_def ok_or_Inr_iff option_filter_Some_iff)
  from n(1,2) have "1 \<le> unat n" "unat n \<le> 1000" by (simp_all add: word_le_nat_alt)
  with word_of_dimension [OF n(2)] n(3) show ?thesis by simp
qed

lemma control_from_params_ok:
  assumes "control_from_params pl control = Inr io"
  obtains fd byte_pipe where "io = PipeControl fd byte_pipe" "3 \<le> unat fd" "unat fd \<le> 255"
    "pl = Windows \<or> pl = Macos"
proof -
  obtain n :: "64 word" and b where n: "3 \<le> n" "n \<le> 255" "io = PipeControl (ucast n) b"
    and pl: "pl = Windows \<or> pl = Macos"
    using assms
    by (auto simp: control_from_params_def rbind_Inr_iff ok_or_Inr_iff option_filter_Some_iff
        split: if_splits)
  have "n \<le> 1000" using n(2) by (rule order_trans) simp
  moreover have "3 \<le> unat n" "unat n \<le> 255" using n(1,2) by (simp_all add: word_le_nat_alt)
  ultimately show ?thesis using n(3) pl word_of_dimension [of n] by (intro that) auto
qed

lemma stdin_bytes_ok: "stdin_bytes_from_params h m = Inr stdin \<Longrightarrow>
    \<exists>bytes. stdin = StdinBytes bytes \<and> length bytes \<le> MAX_STDIN_BYTES"
  unfolding stdin_bytes_from_params_def
  by (elim rbind_InrE return_InrE reject_ifE) (simp add: not_less)

lemma stdin_file_ok: "stdin_file_from_params h m cwd = Inr stdin \<Longrightarrow>
    \<exists>bytes root path. stdin = StdinFile bytes \<and> length bytes \<le> MAX_STDIN_FILE_BYTES \<and>
      host_canonicalize h cwd = Inr root \<and> host_starts_with h path root \<and> host_read h path = Inr bytes"
  unfolding stdin_file_from_params_def Let_def
  by (elim rbind_InrE return_InrE reject_ifE) (auto simp: not_less map_err_Inr_iff)

lemma stdin_from_params_ok:
  assumes "stdin_from_params h m cwd = Inr stdin"
  shows "case stdin of
      StdinEmpty \<Rightarrow> True
    | StdinBytes bytes \<Rightarrow> length bytes \<le> MAX_STDIN_BYTES
    | StdinFile bytes \<Rightarrow> length bytes \<le> MAX_STDIN_FILE_BYTES \<and>
        (\<exists>root path. host_canonicalize h cwd = Inr root \<and> host_starts_with h path root \<and>
           host_read h path = Inr bytes)
    | StdinStream st \<Rightarrow> st = input_default"
  using assms unfolding stdin_from_params_def
  by (elim case_option_InrE rbind_InrE if_InrE return_InrE)
    (auto dest!: stdin_bytes_ok stdin_file_ok)

lemma io_from_params_ok:
  assumes "io_from_params pl m stdin = Inr io"
  shows "case io of
      Pipe \<Rightarrow> True
    | PipeControl fd _ \<Rightarrow> (pl = Windows \<or> pl = Macos) \<and> 3 \<le> unat fd \<and> unat fd \<le> 255
    | Pty rows cols \<Rightarrow> (pl = Windows \<or> pl = Macos) \<and> (\<exists>st. stdin = StdinStream st) \<and>
        unat rows \<in> {1..1000} \<and> unat cols \<in> {1..1000}"
  using assms unfolding io_from_params_def
  by (elim case_option_InrE rbind_InrE if_InrE return_InrE reject_ifE)
    (auto simp: terminal_dimension_ok split: option.splits execution_stdin.splits
      elim!: control_from_params_ok dest!: terminal_dimension_ok)

section \<open>A sample host\<close>

text \<open>A Linux host with one directory, for the concrete instances of the properties.\<close>

definition sample_host :: host where
  "sample_host =
     \<lparr>host_platform = Linux, host_current_dir = Some ''/w'',
      host_symlink_kind = (\<lambda>p. if p = ''/w'' then Inr Directory else Inl ''not found''),
      host_canonicalize = (\<lambda>p. if p = ''/w'' \<or> p = ''/w/f'' then Inr p else Inl ''not found''),
      host_metadata = (\<lambda>p. Inr (RegularFile, 1)), host_read = (\<lambda>p. Inr [7]),
      host_is_absolute = (\<lambda>p. starts_with p ''/''),
      host_join = (\<lambda>base p. base @ ''/'' @ p), host_starts_with = (\<lambda>p base. starts_with p (base @ ''/'')),
      host_base64 = (\<lambda>s. Inr []), host_json_bytes = (\<lambda>v. Inr 2)\<rparr>"

definition sample_request :: json where
  "sample_request = JObj
     [(''command'', json_strs [''/bin/true'']), (''env'', JObj [(''A'', JStr ''1'')]),
      (''stdin'', JObj [(''mode'', JStr ''file''), (''path'', JStr ''f'')])]"

lemma sample_request_accepted:
  obtains r counter' where
    "execution_request_from_params default_limits sample_host (1, 2) 3 sample_request = Inr (r, counter')"
proof -
  obtain p where
    p: "normalize_policy default_limits Linux (JStr ''read-only'') ''/w'' None = Inr p"
    by (rule read_only_twins)
  then have env: "pol_environment p = default_environment (net_mode (pol_network p))"
    and timeout: "res_timeout_ms (pol_resources p) = None"
    by (auto elim: normalize_namedE simp: default_resources_def)
  have scrub: "\<not> scrubbed default_scrub ''A''" "validate_env_key ''A'' = Inr ()" by code_simp+
  have "stdin_from_params sample_host (case sample_request of JObj m \<Rightarrow> m) ''/w'' = Inr (StdinFile [7])"
    by (simp add: stdin_from_params_def stdin_file_from_params_def sample_request_def sample_host_def
        obj_get_def validate_stdin_keys_def obj_keys_def starts_with_def MAX_STDIN_FILE_BYTES_def map_err_def)
  then show ?thesis
    using p that
    by (simp add: execution_request_from_params_def params_object_def sample_request_def
        validate_param_keys_def execute_keys_def obj_keys_def metadata_from_params_def obj_get_def
        command_param_def json_strs_def validate_command_def nul_def sample_host_def starts_with_def
        normalize_execution_cwd_def validate_execution_cwd_def cwd_param_def current_dir_def map_err_def
        simplify_windows_extended_path_def io_from_params_def network_override_from_params_def
        policy_param_def timeout_from_params_def timeout env_from_params_def env env_param_def
        default_environment_def scrub MAX_ENV_ENTRIES_def MAX_ENV_VALUE_BYTES_def new_execution_ids_def Let_def)
qed

section \<open>Properties\<close>

text \<open>
  C38: an accepted \<open>execute\<close> request is valid throughout. It has only known parameters; the
  command has no NUL and a path-qualified program; the working directory is a real directory, not a
  link, in canonical form; the policy is the normalized one for that directory; a timeout of the
  policy is never exceeded; a terminal is used only with a streamed input; and a control queue
  exists exactly for a control channel.
\<close>

theorem accepted_requests_are_valid:
  assumes "execution_request_from_params limits h clock counter params = Inr (r, counter')"
  shows "\<exists>m. params = JObj m \<and> set (obj_keys m) \<subseteq> set execute_keys \<and>
    (\<forall>argument \<in> set (req_command r). nul \<notin> set argument) \<and>
    (\<exists>program arguments. req_command r = program # arguments \<and> program \<noteq> [] \<and>
       (host_is_absolute h program \<or> CHR ''/'' \<in> set program \<or> CHR 0x5C \<in> set program)) \<and>
    host_symlink_kind h (cwd_param h m) = Inr Directory \<and>
    (\<exists>path. host_canonicalize h (cwd_param h m) = Inr path \<and>
       req_cwd r = simplify_windows_extended_path (host_platform h) path) \<and>
    (\<exists>network. normalize_policy limits (host_platform h) (policy_param m) (req_cwd r) network
       = Inr (req_policy r)) \<and>
    (\<forall>limit. res_timeout_ms (pol_resources (req_policy r)) = Some limit \<longrightarrow>
       (\<exists>t \<le> limit. req_timeout r = Some t)) \<and>
    (is_pty (req_io r) \<longrightarrow> (\<exists>st. req_stdin r = StdinStream st)) \<and>
    (req_control_input r \<noteq> None \<longleftrightarrow> has_control (req_io r))"
proof -
  obtain m network u where params: "params = JObj m" "set (obj_keys m) \<subseteq> set execute_keys"
    and command: "validate_command h (req_command r) = Inr u"
    and cwd: "normalize_execution_cwd h (cwd_param h m) = Inr (req_cwd r)"
    and io: "io_from_params (host_platform h) m (req_stdin r) = Inr (req_io r)"
    and policy: "normalize_policy limits (host_platform h) (policy_param m) (req_cwd r) network = Inr (req_policy r)"
    and timeout: "timeout_from_params m (req_policy r) = Inr (req_timeout r)"
    and control: "req_control_input r = (if has_control (req_io r) then Some input_default else None)"
    using assms by (elim execution_requestE)
  have "is_pty (req_io r) \<longrightarrow> (\<exists>st. req_stdin r = StdinStream st)"
    using io_from_params_ok [OF io] by (auto simp: is_pty_def split: execution_io.splits)
  moreover have "\<forall>limit. res_timeout_ms (pol_resources (req_policy r)) = Some limit \<longrightarrow>
      (\<exists>t \<le> limit. req_timeout r = Some t)"
    using timeout_from_params_ok [OF timeout] by blast
  ultimately show ?thesis
    using params policy control command [unfolded validate_command_ok] cwd [unfolded normalize_execution_cwd_ok]
    by (intro exI [of _ m]) auto
qed

theorem accepted_requests_are_valid_witness:
  "\<exists>r counter'. execution_request_from_params default_limits sample_host (1, 2) 3 sample_request
      = Inr (r, counter') \<and> (\<exists>program arguments. req_command r = program # arguments \<and> program \<noteq> [])"
proof -
  obtain r counter' where
    r: "execution_request_from_params default_limits sample_host (1, 2) 3 sample_request = Inr (r, counter')"
    by (rule sample_request_accepted)
  with accepted_requests_are_valid [OF r] show ?thesis by blast
qed

text \<open>
  C39: the environment of an accepted request. Policy and request together set at most 64
  variables, in the order of their names, none of which a scrub pattern of the policy matches and
  all with valid names and bounded values without NUL. On every platform, with names compared as
  that platform compares them, a variable the request sets has the request's value first, its last
  one where it has several; every further value is one the policy has for the name already, and a
  variable the request does not set has the policy's values. Where case matters no variable has two
  values; on Windows one has more than one exactly when the policy sets names that differ only in
  case.
\<close>

theorem request_environment_is_scrubbed:
  assumes "execution_request_from_params limits h clock counter params = Inr (r, counter')" "wf_json params"
  shows "list_all (wf_env_entry (env_scrub (pol_environment (req_policy r)))) (req_env r) \<and>
    length (req_env r) \<le> MAX_ENV_ENTRIES \<and> sorted (map fst (req_env r)) \<and>
    (\<forall>k. let requested = (case json_get params ''env'' of
                             Some (JObj env) \<Rightarrow> env_values (host_platform h) env k | _ \<Rightarrow> []);
             configured = env_values (host_platform h) (env_set (pol_environment (req_policy r))) k;
             effective = env_values (host_platform h) (req_env r) k in
         map JStr effective =
           (if requested = [] then map JStr configured else last requested # map JStr (tl configured)) \<and>
         (1 < length effective \<longleftrightarrow> 1 < length configured) \<and>
         (host_platform h \<noteq> Windows \<longrightarrow> length effective \<le> 1))"
proof -
  obtain m network where m: "params = JObj m"
    and policy: "normalize_policy limits (host_platform h) (policy_param m) (req_cwd r) network = Inr (req_policy r)"
    and env: "env_from_params (host_platform h) m (req_policy r) = Inr (req_env r)"
    using assms(1) by (elim execution_requestE)
  have "wf_json (policy_param m)"
    using assms(2) m wf_json_member [of m "''policy''"] by (auto simp: policy_param_def split: option.splits)
  then have "distinct (map fst (env_set (pol_environment (req_policy r))))"
    using normalized_environment_entries [OF policy] by (auto simp: wf_entries_def strict_sorted_iff)
  note single = env_values_distinct [OF this, of "host_platform h"]
  have sound: "list_all (wf_env_entry (env_scrub (pol_environment (req_policy r)))) (req_env r)"
      "length (req_env r) \<le> MAX_ENV_ENTRIES" "sorted (map fst (req_env r))"
    and overridden: "map JStr (env_values (host_platform h) (req_env r) k) =
       overridden_values
         (case json_get params ''env'' of Some (JObj requested) \<Rightarrow> env_values (host_platform h) requested k | _ \<Rightarrow> [])
         (env_values (host_platform h) (env_set (pol_environment (req_policy r))) k)" for k
    using env_from_params_ok [OF env] normalized_environment_sound [OF policy] m by simp_all
  show ?thesis
    using sound overridden_length [OF overridden] single
    by (auto simp: Let_def overridden [unfolded overridden_values_def] not_less [symmetric])
qed

theorem request_environment_is_scrubbed_witness:
  "\<exists>r counter'. execution_request_from_params default_limits sample_host (1, 2) 3 sample_request
      = Inr (r, counter') \<and> env_values (host_platform sample_host) (req_env r) ''A'' = [''1'']"
proof -
  obtain r counter' where
    r: "execution_request_from_params default_limits sample_host (1, 2) 3 sample_request = Inr (r, counter')"
    by (rule sample_request_accepted)
  have "wf_json sample_request" by code_simp
  from request_environment_is_scrubbed [OF r this]
  have "\<exists>more. map JStr (env_values (host_platform sample_host) (req_env r) ''A'') = JStr ''1'' # more"
    "length (env_values (host_platform sample_host) (req_env r) ''A'') \<le> 1"
    by (auto simp: sample_host_def sample_request_def obj_get_def env_name_def Let_def dest!: spec [of _ "''A''"])
  then have "env_values (host_platform sample_host) (req_env r) ''A'' = [''1'']"
    by (cases "env_values (host_platform sample_host) (req_env r) ''A''") auto
  with r show ?thesis by blast
qed

text \<open>
  Protocol identifiers. A lookup is answered with an identifier exactly when the parameters
  are an object with no key but \<open>execution_id\<close> and that is a string: the prefix \<open>exec_\<close>, a non-empty
  suffix, at most 128 bytes, and only ASCII letters, digits and underscores, so that an identifier
  can never name a path.
\<close>

theorem execution_ids_are_plain:
  "get_execution_id_from_params params = Inr eid \<longleftrightarrow>
     (\<exists>m. params = JObj m \<and> set (obj_keys m) \<subseteq> {''execution_id''} \<and>
        obj_get m ''execution_id'' = Some (JStr eid) \<and> wf_protocol_id ''exec_'' eid)"
  by (auto simp: get_execution_id_from_params_def rbind_Inr_iff params_object_def ok_or_Inr_iff
      accessor_Some_iff validate_param_keys_ok required_prefixed_string_param_iff)

text \<open>
  Standard input and channels of an accepted request. Given bytes are at most 64 KiB and a
  file at most 16 MiB, read from a path below the canonical working directory; a streamed input
  starts empty; a terminal has 1 to 1000 rows and columns, a control descriptor is 3 to 255 (their
  narrowing to 16 bits loses nothing), and neither is accepted outside Windows and macOS.
\<close>

theorem request_channels_are_bounded:
  assumes "execution_request_from_params limits h clock counter params = Inr (r, counter')"
  shows "(case req_stdin r of
      StdinEmpty \<Rightarrow> True
    | StdinBytes bytes \<Rightarrow> length bytes \<le> MAX_STDIN_BYTES
    | StdinFile bytes \<Rightarrow> length bytes \<le> MAX_STDIN_FILE_BYTES \<and>
        (\<exists>root path. host_canonicalize h (req_cwd r) = Inr root \<and> host_starts_with h path root \<and>
           host_read h path = Inr bytes)
    | StdinStream st \<Rightarrow> st = input_default) \<and>
    (case req_io r of
      Pipe \<Rightarrow> True
    | PipeControl fd _ \<Rightarrow> host_platform h \<in> {Windows, Macos} \<and> unat fd \<in> {3..255}
    | Pty rows cols \<Rightarrow> host_platform h \<in> {Windows, Macos} \<and>
        unat rows \<in> {1..1000} \<and> unat cols \<in> {1..1000})"
proof -
  obtain m where stdin: "stdin_from_params h m (req_cwd r) = Inr (req_stdin r)"
    and io: "io_from_params (host_platform h) m (req_stdin r) = Inr (req_io r)"
    using assms by (elim execution_requestE)
  from io_from_params_ok [OF io] stdin_from_params_ok [OF stdin] show ?thesis
    by (auto split: execution_io.splits)
qed

theorem request_channels_are_bounded_witness:
  "\<exists>r counter'. execution_request_from_params default_limits sample_host (1, 2) 3 sample_request
      = Inr (r, counter') \<and>
    (case req_stdin r of StdinFile bytes \<Rightarrow> length bytes \<le> MAX_STDIN_FILE_BYTES | _ \<Rightarrow> True)"
proof -
  obtain r counter' where
    r: "execution_request_from_params default_limits sample_host (1, 2) 3 sample_request = Inr (r, counter')"
    by (rule sample_request_accepted)
  with request_channels_are_bounded [OF r] show ?thesis
    by (auto split: execution_stdin.splits)
qed

text \<open>
  An input chunk that validation lets through is never refused by the queue as oversized:
  both measure the decoded bytes against the same limit.
\<close>

theorem validated_input_is_never_oversized:
  assumes "execution_input_from_params limits h params True = Inr request"
  shows "\<exists>bytes. eir_bytes request = Some bytes \<and> wf_protocol_id ''exec_'' (eir_execution_id request) \<and>
    length bytes \<le> stream_chunk_bytes limits \<and> fst (input_write limits st bytes) \<noteq> Inl Oversized"
proof -
  obtain m bytes where eid: "required_prefixed_string_param m ''execution_id'' ''exec_'' = Inr (eir_execution_id request)"
    and bytes: "input_bytes_param limits h m = Inr bytes" "eir_bytes request = Some bytes"
    using assms unfolding execution_input_from_params_def Let_def if_True
    by (elim rbind_InrE return_InrE) auto
  have "length bytes \<le> stream_chunk_bytes limits"
    using bytes(1) unfolding input_bytes_param_def
    by (elim rbind_InrE return_InrE reject_ifE) (simp add: not_less)
  with eid bytes(2) show ?thesis
    by (auto simp: required_prefixed_string_param_iff input_write_def Let_def)
qed

theorem validated_input_is_never_oversized_witness:
  "let params = JObj [(''data'', JStr ''base64:''), (''encoding'', JStr ''base64''),
       (''execution_id'', JStr ''exec_1''), (''stream'', JStr ''stdin'')] in
   \<exists>request. execution_input_from_params default_limits sample_host params True = Inr request \<and>
     fst (input_write default_limits input_default []) \<noteq> Inl Oversized"
proof -
  let ?params = "JObj [(''data'', JStr ''base64:''), (''encoding'', JStr ''base64''),
       (''execution_id'', JStr ''exec_1''), (''stream'', JStr ''stdin'')]"
  have id: "required_prefixed_string_param (case ?params of JObj m \<Rightarrow> m) ''execution_id'' ''exec_'' = Inr ''exec_1''"
    unfolding required_prefixed_string_param_iff
    by (simp add: obj_get_def wf_protocol_id_def MAX_PROTOCOL_ID_BYTES_def is_ascii_alphanumeric_def
        is_ascii_alphabetic_def is_ascii_digit_def byte_of_def)
  have r: "execution_input_from_params default_limits sample_host ?params True =
      Inr \<lparr>eir_execution_id = ''exec_1'', eir_bytes = Some [], eir_control_stream = False\<rparr>"
    using id
    by (simp add: execution_input_from_params_def params_object_def validate_param_keys_def obj_keys_def
        input_bytes_param_def obj_get_def strip_prefix_def starts_with_def sample_host_def map_err_def
        default_limits_def)
  from validated_input_is_never_oversized [OF r, of input_default] r show ?thesis
    by (auto simp: Let_def)
qed

text \<open>
  A working directory that is not a string is ignored by \<open>execute\<close> and \<open>explainPolicy\<close>, which
  then use the directory of the service, while \<open>getSetupStatus\<close> refuses it; kept as a fact about
  the code.
\<close>

theorem non_string_cwd_is_ignored:
  assumes "obj_get m ''cwd'' = Some v" "as_str v = None" "set (obj_keys m) \<subseteq> {''cwd''}"
  shows "cwd_param h m = current_dir h \<and>
    explain_policy_from_params limits h explain (JObj m) = explain_policy_from_params limits h explain (JObj []) \<and>
    setup_status_cwd_from_params h (JObj m) = invalid_result ''params.cwd must be a string''"
proof -
  have cwd: "cwd_param h m = current_dir h" "cwd_param h [] = current_dir h"
    using assms by (simp_all add: cwd_param_def obj_get_def)
  have keys: "validate_param_keys m ''getSetupStatus'' [''cwd''] = Inr ()"
    "validate_param_keys m ''explainPolicy'' [''policy'', ''cwd'', ''network''] = Inr ()"
    "validate_param_keys [] ''explainPolicy'' [''policy'', ''cwd'', ''network''] = Inr ()"
    using assms(3) by (auto simp: validate_param_keys_ok obj_keys_def)
  have "obj_get m k = None" if "k \<noteq> ''cwd''" for k
    using that assms(3) by (auto simp: obj_get_def obj_keys_def map_of_eq_None_iff)
  then have "policy_param m = policy_param []" "network_override_from_params m = network_override_from_params []"
    by (simp_all add: policy_param_def network_override_from_params_def obj_get_def)
  with assms cwd keys show ?thesis
    by (simp add: setup_status_cwd_from_params_def explain_policy_from_params_def params_object_def)
qed

theorem non_string_cwd_is_ignored_witness:
  "cwd_param sample_host [(''cwd'', JNull)] = ''/w'' \<and>
   setup_status_cwd_from_params sample_host (JObj [(''cwd'', JNull)]) =
     invalid_result ''params.cwd must be a string''"
  using non_string_cwd_is_ignored [of "[(''cwd'', JNull)]" JNull sample_host default_limits]
  by (simp add: obj_get_def as_str_def obj_keys_def current_dir_def sample_host_def)

end
