(* ===== verification/Retention_Stores.thy ===== *)
theory Retention_Stores
  imports Rpc_Messages
begin

text \<open>
  The bounded stores of the service other than the replay cache: \<open>src/service/retention.rs\<close>,
  \<open>event_bus.rs\<close>, \<open>audit_index.rs\<close>, \<open>executions.rs\<close> and \<open>snapshot.rs\<close>, with
  \<open>audit_stream_event_metadata\<close> of \<open>src/execution/output.rs\<close>. How much the allocator reserves for a
  string or an array, and the size of a JSON node, are parameters; a value keeps its allocation
  while it is stored.
\<close>

section \<open>Residency and filters\<close>

record allocation =
  value_bytes :: nat
  str_capacity :: "string \<Rightarrow> nat"
  arr_capacity :: "json list \<Rightarrow> nat"

fun retained_bytes :: "allocation \<Rightarrow> json \<Rightarrow> nat" where
  "retained_bytes al (JStr text) = value_bytes al + (str_capacity al text + 32)"
| "retained_bytes al (JArr values) =
     value_bytes al
       + (arr_capacity al values * value_bytes al + sum_list (map (retained_bytes al) values))"
| "retained_bytes al (JObj object) =
     value_bytes al
       + sum_list (map (\<lambda>kv. 256 + str_capacity al (fst kv) + retained_bytes al (snd kv)) object)"
| "retained_bytes al _ = value_bytes al"

definition event_matches_types :: "json \<Rightarrow> string list \<Rightarrow> bool" where
  "event_matches_types event types =
     (if types = [] then True
      else (case Option.bind (json_get event ''type'') as_str of
              None \<Rightarrow> False
            | Some event_type \<Rightarrow>
                list_ex (\<lambda>flt. flt = event_type \<or> flt = ''*'' \<or>
                  (case strip_suffix flt ''*'' of
                     Some pre \<Rightarrow> starts_with event_type pre
                   | None \<Rightarrow> False)) types))"

definition audit_stream_event_metadata :: "json \<Rightarrow> json" where
  "audit_stream_event_metadata event =
     (case event of
        JObj object \<Rightarrow> JObj (obj_remove ''text'' (obj_remove ''data'' object))
      | _ \<Rightarrow> event)"

section \<open>The audit index\<close>

record audit_index =
  ai_events :: "json list"
  ai_bytes :: nat
  ai_truncated :: bool

definition audit_index_default :: audit_index where
  "audit_index_default = \<lparr>ai_events = [], ai_bytes = 0, ai_truncated = False\<rparr>"

text \<open>The loop that drops the oldest entries; \<open>bytes\<close> and \<open>truncated\<close> are its variables.\<close>

fun audit_evict :: "allocation \<Rightarrow> nat \<Rightarrow> json list \<Rightarrow> nat \<Rightarrow> bool \<Rightarrow> audit_index" where
  "audit_evict al limit [] bytes truncated =
     \<lparr>ai_events = [], ai_bytes = bytes, ai_truncated = truncated\<rparr>"
| "audit_evict al limit (oldest # events) bytes truncated =
     (if limit < bytes
      then audit_evict al limit events (bytes - (retained_bytes al oldest + 64)) True
      else \<lparr>ai_events = oldest # events, ai_bytes = bytes, ai_truncated = truncated\<rparr>)"

definition audit_record ::
  "deployment_limits \<Rightarrow> allocation \<Rightarrow> audit_index \<Rightarrow> json \<Rightarrow> audit_index" where
  "audit_record limits al idx event =
     (let event = audit_stream_event_metadata event in
      audit_evict al (audit_cache_bytes limits) (ai_events idx @ [event])
        (ai_bytes idx + (retained_bytes al event + 64)) (ai_truncated idx))"

definition audit_for_execution ::
  "audit_index \<Rightarrow> string \<Rightarrow> string list \<Rightarrow> 64 word \<Rightarrow> json list \<times> bool" where
  "audit_for_execution idx eid types latest_seq =
     (let retained = filter (\<lambda>event. json_index event ''execution_id'' = JStr eid) (ai_events idx);
          truncated =
            (case Option.bind (case retained of [] \<Rightarrow> None | e # _ \<Rightarrow> Some e)
                    (\<lambda>event. as_u64 (json_index event ''event_seq'')) of
               None \<Rightarrow> 0 < latest_seq
             | Some seq \<Rightarrow> 1 < seq)
      in (filter (\<lambda>event. event_matches_types event types) retained, truncated))"

definition audit_tail :: "audit_index \<Rightarrow> string list \<Rightarrow> json list \<times> bool" where
  "audit_tail idx types =
     (filter (\<lambda>event. event_matches_types event types) (ai_events idx), ai_truncated idx)"

abbreviation audit_weight :: "allocation \<Rightarrow> json \<Rightarrow> nat" where
  "audit_weight al event \<equiv> retained_bytes al event + 64"

lemma audit_evict_fits:
  assumes "bytes = weight (audit_weight al) events"
  shows "audit_evict al limit events bytes truncated =
    (let kept = fit_suffix (audit_weight al) limit events in
     \<lparr>ai_events = kept, ai_bytes = weight (audit_weight al) kept,
      ai_truncated = (truncated \<or> limit < bytes)\<rparr>)"
  using assms
proof (induction events arbitrary: bytes truncated)
  case (Cons oldest events)
  then show ?case
    by (cases "limit < bytes") (auto simp: Let_def)
qed simp

text \<open>What the index is after a history of records: the newest entries that fit.\<close>

definition audit_spec :: "deployment_limits \<Rightarrow> allocation \<Rightarrow> json list \<Rightarrow> audit_index" where
  "audit_spec limits al recorded =
     (let events = map audit_stream_event_metadata recorded;
          kept = fit_suffix (audit_weight al) (audit_cache_bytes limits) events
      in \<lparr>ai_events = kept, ai_bytes = weight (audit_weight al) kept,
          ai_truncated = (kept \<noteq> events)\<rparr>)"

lemma fit_suffix_snoc_eq_iff:
  "fit_suffix w n (xs @ [y]) = xs @ [y] \<longleftrightarrow> weight w (xs @ [y]) \<le> n"
  using fit_suffix_id [of w "xs @ [y]" n] fit_suffix_neq [of n w "xs @ [y]"] by fastforce

lemma audit_record_spec:
  "audit_record limits al (audit_spec limits al recorded) event = audit_spec limits al (recorded @ [event])"
proof -
  let ?w = "audit_weight al" and ?n = "audit_cache_bytes limits"
  let ?xs = "map audit_stream_event_metadata recorded"
  let ?y = "audit_stream_event_metadata event"
  let ?kept = "fit_suffix ?w ?n ?xs"
  have "audit_record limits al (audit_spec limits al recorded) event =
      audit_evict al ?n (?kept @ [?y]) (weight ?w (?kept @ [?y])) (?kept \<noteq> ?xs)"
    by (simp add: audit_record_def audit_spec_def Let_def)
  also have "\<dots> = (let kept = fit_suffix ?w ?n (?xs @ [?y]) in
      \<lparr>ai_events = kept, ai_bytes = weight ?w kept,
       ai_truncated = (?kept \<noteq> ?xs \<or> ?n < weight ?w (?kept @ [?y]))\<rparr>)"
    by (subst audit_evict_fits [OF refl]) (simp only: fit_suffix_snoc)
  also have "(?kept \<noteq> ?xs \<or> ?n < weight ?w (?kept @ [?y])) \<longleftrightarrow>
      fit_suffix ?w ?n (?xs @ [?y]) \<noteq> ?xs @ [?y]"
  proof (cases "?kept = ?xs")
    case True
    then show ?thesis using fit_suffix_snoc_eq_iff [of ?w ?n ?xs ?y] by auto
  next
    case False
    then have "?n < weight ?w ?xs" using fit_suffix_id [of ?w ?xs ?n] by force
    then have "\<not> weight ?w (?xs @ [?y]) \<le> ?n" by simp
    with False show ?thesis by (simp only: fit_suffix_snoc_eq_iff) simp
  qed
  finally show ?thesis by (simp add: audit_spec_def Let_def)
qed

lemma audit_history: "run_ops (audit_record limits al) audit_index_default recorded = audit_spec limits al recorded"
proof (induction recorded rule: rev_induct)
  case Nil
  show ?case by (simp add: audit_spec_def audit_index_default_def)
next
  case (snoc event recorded)
  then show ?case by (simp add: audit_record_spec)
qed

interpretation audit_index: bounded_store audit_index_default "audit_record limits al"
  "\<lambda>idx. \<exists>recorded. idx = audit_spec limits al recorded" ai_bytes "audit_cache_bytes limits"
  for limits al
proof unfold_locales
  show "\<exists>recorded. audit_index_default = audit_spec limits al recorded"
    using audit_history [of limits al "[]"] by auto
  show "\<exists>recorded. audit_record limits al idx event = audit_spec limits al recorded"
    if "\<exists>recorded. idx = audit_spec limits al recorded" for idx event
    using that audit_record_spec by blast
  show "ai_bytes idx \<le> audit_cache_bytes limits"
    if "\<exists>recorded. idx = audit_spec limits al recorded" for idx
    using that by (auto simp: audit_spec_def Let_def fit_suffix_fits)
qed

lemma metadata_fields:
  "k \<noteq> ''data'' \<Longrightarrow> k \<noteq> ''text'' \<Longrightarrow>
     json_index (audit_stream_event_metadata event) k = json_index event k"
  by (cases event) (simp_all add: audit_stream_event_metadata_def json_index_def json_get_def)

definition event_of :: "string \<Rightarrow> json \<Rightarrow> bool" where
  "event_of eid event \<longleftrightarrow> json_index event ''execution_id'' = JStr eid"

definition event_seq :: "json \<Rightarrow> 64 word option" where
  "event_seq event = as_u64 (json_index event ''event_seq'')"

lemma metadata_event_fields [simp]:
  "event_of eid (audit_stream_event_metadata event) = event_of eid event"
  "event_seq (audit_stream_event_metadata event) = event_seq event"
  by (simp_all add: event_of_def event_seq_def metadata_fields)

lemma numbered_suffix:
  assumes "map event_seq (dropped @ kept) = map (\<lambda>i. Some (of_nat i)) [1..<Suc n]" "n < 2 ^ 64"
  shows "(case Option.bind (case kept of [] \<Rightarrow> None | e # _ \<Rightarrow> Some e) event_seq of
            None \<Rightarrow> 0 < (of_nat n :: 64 word) | Some seq \<Rightarrow> 1 < seq) \<longleftrightarrow> dropped \<noteq> []"
proof -
  have n: "length dropped + length kept = n"
    using arg_cong [OF assms(1), of length] by simp
  show ?thesis
  proof (cases kept)
    case Nil
    then show ?thesis using n assms(2) by (auto simp: word_less_nat_alt unat_of_nat)
  next
    case (Cons e rest)
    have "map event_seq (dropped @ kept) ! length dropped = Some (of_nat (Suc (length dropped)))"
      unfolding assms(1) using n Cons by (simp del: upt_Suc)
    then have e: "event_seq e = Some (of_nat (Suc (length dropped)))"
      by (simp add: Cons nth_append del: of_nat_Suc)
    have "unat (of_nat (Suc (length dropped)) :: 64 word) = Suc (length dropped)"
      using n Cons assms(2) by (simp only: unat_of_nat) simp
    then have "1 < (of_nat (Suc (length dropped)) :: 64 word) \<longleftrightarrow> dropped \<noteq> []"
      by (simp add: word_less_nat_alt del: of_nat_Suc)
    then show ?thesis by (simp add: Cons e del: of_nat_Suc)
  qed
qed

section \<open>Finished executions\<close>

record execution_store =
  es_records :: "(string \<times> json) list"
  es_order :: "string list"
  es_retained_bytes :: nat
  es_truncated :: bool

definition execution_store_default :: execution_store where
  "execution_store_default =
     \<lparr>es_records = [], es_order = [], es_retained_bytes = 0, es_truncated = False\<rparr>"

definition record_bytes :: "allocation \<Rightarrow> json \<Rightarrow> nat" where
  "record_bytes al result = retained_bytes al result + 512"

fun store_evict ::
  "deployment_limits \<Rightarrow> allocation \<Rightarrow> (string \<times> json) list \<Rightarrow> string list \<Rightarrow> nat \<Rightarrow> bool \<Rightarrow> execution_store"
  where
  "store_evict limits al records [] bytes truncated =
     \<lparr>es_records = records, es_order = [], es_retained_bytes = bytes, es_truncated = truncated\<rparr>"
| "store_evict limits al records (oldest # order) bytes truncated =
     (if completed_executions limits < length records \<or> completed_execution_bytes limits < bytes
      then store_evict limits al (bt_remove oldest records) order
             (case map_of records oldest of
                Some result \<Rightarrow> bytes - record_bytes al result
              | None \<Rightarrow> bytes)
             True
      else \<lparr>es_records = records, es_order = oldest # order, es_retained_bytes = bytes,
            es_truncated = truncated\<rparr>)"

definition insert_record ::
  "deployment_limits \<Rightarrow> allocation \<Rightarrow> string \<Rightarrow> json \<Rightarrow> execution_store \<Rightarrow> execution_store" where
  "insert_record limits al eid result st =
     (let order = (if map_of (es_records st) eid = None then es_order st @ [eid] else es_order st);
          bytes = (case map_of (es_records st) eid of
                     Some previous \<Rightarrow> es_retained_bytes st - record_bytes al previous
                   | None \<Rightarrow> es_retained_bytes st);
          records = bt_remove eid (es_records st)
      in store_evict limits al (bt_insert eid result records) order
           (bytes + record_bytes al result) (es_truncated st))"

definition record_finished ::
  "deployment_limits \<Rightarrow> allocation \<Rightarrow> json \<Rightarrow> execution_store \<Rightarrow> string option \<times> execution_store" where
  "record_finished limits al result st =
     (case (Option.bind (json_get result ''execution_id'') as_str,
            Option.bind (json_get result ''session_id'') as_str) of
        (Some execution_id, Some session_id) \<Rightarrow>
          (Some session_id, insert_record limits al execution_id result st)
      | _ \<Rightarrow> (None, st))"

definition ids_for_session :: "execution_store \<Rightarrow> string \<Rightarrow> string list" where
  "ids_for_session st session_id =
     map fst (filter (\<lambda>kv. json_index (snd kv) ''session_id'' = JStr session_id) (es_records st))"

definition store_result :: "execution_store \<Rightarrow> string \<Rightarrow> json option" where
  "store_result st execution_id = map_of (es_records st) execution_id"

definition store_status :: "execution_store \<Rightarrow> string \<Rightarrow> string option" where
  "store_status st execution_id =
     map_option (\<lambda>result. case Option.bind (json_get result ''status'') as_str of
                            Some s \<Rightarrow> s | None \<Rightarrow> ''unknown'')
       (map_of (es_records st) execution_id)"

definition summary_keys :: "string list" where
  "summary_keys =
     [''execution_id'', ''session_id'', ''seal_id'', ''status'', ''policy_id'', ''policy_hash'',
      ''policy_epoch'', ''backend'', ''audit_path'', ''started_at'', ''finished_at'', ''exit_code'',
      ''signal'', ''stdout_bytes'', ''stderr_bytes'', ''terminal_bytes'', ''control_bytes'',
      ''stderr_merged'', ''output_truncated'', ''termination_reason'', ''cleanup_complete'',
      ''latest_seq'', ''earliest_available_seq'', ''error'']"

definition execution_summary :: "json \<Rightarrow> json" where
  "execution_summary result =
     JObj (fold (\<lambda>key summary. case json_get result key of
                   Some v \<Rightarrow> obj_insert key v summary | None \<Rightarrow> summary) summary_keys [])"

definition ordered_records :: "execution_store \<Rightarrow> json list" where
  "ordered_records st = List.map_filter (map_of (es_records st)) (es_order st)"

definition summaries :: "execution_store \<Rightarrow> json list" where
  "summaries st = map execution_summary (ordered_records st)"

text \<open>
  The invariant: the order lists each stored identifier once, and the counter is what the records
  retain. Between operations both budgets hold.
\<close>

definition store_indexed ::
  "allocation \<Rightarrow> (string \<times> json) list \<Rightarrow> string list \<Rightarrow> nat \<Rightarrow> bool" where
  "store_indexed al records order bytes \<longleftrightarrow>
     wf_map records \<and> distinct order \<and> set order = dom (map_of records) \<and>
     bytes = weight (record_bytes al \<circ> snd) records"

definition store_inv :: "deployment_limits \<Rightarrow> allocation \<Rightarrow> execution_store \<Rightarrow> bool" where
  "store_inv limits al st \<longleftrightarrow>
     store_indexed al (es_records st) (es_order st) (es_retained_bytes st) \<and>
     length (es_records st) \<le> completed_executions limits \<and>
     es_retained_bytes st \<le> completed_execution_bytes limits"

lemma store_evict_inv:
  "store_indexed al records order bytes \<Longrightarrow>
     store_inv limits al (store_evict limits al records order bytes truncated)"
proof (induction order arbitrary: records bytes truncated)
  case Nil
  then have "records = []" by (simp add: store_indexed_def dom_map_of_conv_image_fst)
  with Nil show ?case by (simp add: store_inv_def store_indexed_def)
next
  case (Cons oldest order)
  then obtain result where result: "map_of records oldest = Some result"
    unfolding store_indexed_def by (metis domD list.set_intros(1))
  have "store_indexed al (bt_remove oldest records) order (bytes - record_bytes al result)"
    using Cons.prems sum_values_remove(1) [of records oldest result "record_bytes al"] result
    by (auto simp: store_indexed_def)
  with Cons.IH Cons.prems result show ?case
    by (auto simp: store_inv_def)
qed

lemma insert_record_indexed:
  assumes "store_inv limits al st"
  shows "store_indexed al (bt_insert eid result (bt_remove eid (es_records st)))
    (if map_of (es_records st) eid = None then es_order st @ [eid] else es_order st)
    ((case map_of (es_records st) eid of
        Some previous \<Rightarrow> es_retained_bytes st - record_bytes al previous
      | None \<Rightarrow> es_retained_bytes st) + record_bytes al result)"
proof -
  have idx: "store_indexed al (es_records st) (es_order st) (es_retained_bytes st)"
    using assms by (simp add: store_inv_def)
  note ins = sum_values_insert(1) [of "bt_remove eid (es_records st)" eid "record_bytes al" result]
  show ?thesis
  proof (cases "map_of (es_records st) eid")
    case None
    then have "bt_remove eid (es_records st) = es_records st"
      by (auto simp: bt_remove_def map_of_eq_None_iff filter_id_conv)
    with None idx ins show ?thesis by (auto simp: store_indexed_def)
  next
    case (Some previous)
    with idx ins sum_values_remove(1) [of "es_records st" eid previous "record_bytes al"]
    show ?thesis by (auto simp: store_indexed_def)
  qed
qed

lemma insert_record_inv:
  "store_inv limits al st \<Longrightarrow> store_inv limits al (insert_record limits al eid result st)"
  unfolding insert_record_def Let_def by (rule store_evict_inv) (rule insert_record_indexed)

interpretation execution_store: bounded_store execution_store_default
  "\<lambda>st result. snd (record_finished limits al result st)" "store_inv limits al"
  es_retained_bytes "completed_execution_bytes limits" for limits al
proof unfold_locales
  show "store_inv limits al execution_store_default"
    by (simp add: store_inv_def store_indexed_def execution_store_default_def)
  show "store_inv limits al (snd (record_finished limits al result st))"
    if "store_inv limits al st" for st result
    using insert_record_inv [OF that] that
    by (auto simp: record_finished_def split: option.splits)
qed (simp add: store_inv_def)

lemma store_evict_keeps_newest:
  assumes "store_indexed al records (order @ [eid]) bytes" "map_of records eid = Some result"
    and "record_bytes al result \<le> completed_execution_bytes limits" "1 \<le> completed_executions limits"
  shows "map_of (es_records (store_evict limits al records (order @ [eid]) bytes truncated)) eid
    = Some result"
  using assms(1,2)
proof (induction order arbitrary: records bytes truncated)
  case Nil
  have "set (map fst records) = {eid}" and distinct: "distinct (map fst records)"
    using Nil.prems wf_map_distinct by (auto simp: store_indexed_def dom_map_of_conv_image_fst)
  then have "map fst records = [eid]"
    by (metis distinct_singleton length_Suc_conv length_0_conv distinct_card card_1_singleton_iff
        One_nat_def is_singletonI is_singleton_altdef list.set_intros(1) singletonD)
  then have records: "records = [(eid, result)]"
    using Nil.prems(2) by (cases records) auto
  with Nil.prems assms(3,4) show ?case by (auto simp: store_indexed_def)
next
  case (Cons oldest order)
  then obtain old where old: "map_of records oldest = Some old"
    unfolding store_indexed_def by (metis append_Cons domD list.set_intros(1))
  have "store_indexed al (bt_remove oldest records) (order @ [eid]) (bytes - record_bytes al old)"
    using Cons.prems(1) sum_values_remove(1) [of records oldest old "record_bytes al"] old
    by (auto simp: store_indexed_def)
  moreover have "oldest \<noteq> eid" using Cons.prems(1) by (auto simp: store_indexed_def)
  ultimately show ?case using Cons.IH Cons.prems(2) old by simp
qed

section \<open>Query responses\<close>

text \<open>
  \<open>snapshot::response\<close> fills a response from the newest item backwards. The length of a value as
  text is the parameter \<open>len\<close>.
\<close>

definition omitted_item :: "json \<Rightarrow> json" where
  "omitted_item item = json_object
     [(''omitted'', JBool True), (''execution_id'', json_index item ''execution_id''),
      (''event_seq'', json_index item ''event_seq'')]"

fun snapshot_take ::
  "(json \<Rightarrow> nat) \<Rightarrow> nat \<Rightarrow> nat \<Rightarrow> bool \<Rightarrow> json list \<Rightarrow> json list \<times> bool" where
  "snapshot_take len budget remaining truncated [] = ([], truncated)"
| "snapshot_take len budget remaining truncated (item # items) =
     (let large = budget < len item + 1;
          item = (if large then omitted_item item else item);
          size = len item + 1
      in if remaining < size then ([], True)
         else let (tail, truncated) =
                snapshot_take len budget (remaining - size) (truncated \<or> large) items
              in (item # tail, truncated))"

definition snapshot_response ::
  "deployment_limits \<Rightarrow> (json \<Rightarrow> nat) \<Rightarrow> json \<Rightarrow> string \<Rightarrow> json list \<Rightarrow> json \<Rightarrow> bool \<Rightarrow> json" where
  "snapshot_response limits len rid field items result truncated =
     (let max_response_bytes = query_response_bytes limits;
          result = json_set result field (JArr []);
          result = json_set result ''count'' (json_nat 0);
          result = json_set result ''truncated'' (JBool True);
          overhead = len (rpc_result rid result) + 32;
          budget = max_response_bytes - overhead;
          (tail, truncated) = snapshot_take len budget budget truncated (rev items);
          tail = rev tail;
          result = json_set result ''count'' (json_nat (length tail));
          result = json_set result field (JArr tail);
          result = json_set result ''truncated'' (JBool truncated)
      in rpc_result rid result)"

definition shrink_item :: "(json \<Rightarrow> nat) \<Rightarrow> nat \<Rightarrow> json \<Rightarrow> json" where
  "shrink_item len budget item = (if budget < len item + 1 then omitted_item item else item)"

lemma snapshot_take_spec:
  assumes "snapshot_take len budget remaining truncated items = (tail, truncated')"
    and "remaining \<le> budget"
  shows "length tail \<le> length items \<and>
    tail = map (shrink_item len budget) (take (length tail) items) \<and>
    weight (\<lambda>item. len item + 1) tail \<le> remaining \<and>
    (truncated' \<longleftrightarrow> truncated \<or> tail \<noteq> items)"
  using assms
proof (induction items arbitrary: remaining truncated tail truncated')
  case (Cons item items)
  let ?item = "shrink_item len budget item"
  let ?large = "budget < len item + 1"
  show ?case
  proof (cases "remaining < len ?item + 1")
    case True
    with Cons.prems show ?thesis by (auto simp: Let_def shrink_item_def split: if_splits)
  next
    case False
    obtain rest t where rest:
      "snapshot_take len budget (remaining - (len ?item + 1)) (truncated \<or> ?large) items = (rest, t)"
      by (cases "snapshot_take len budget (remaining - (len ?item + 1)) (truncated \<or> ?large) items")
    with Cons.prems False have eq: "tail = ?item # rest" "truncated' = t"
      by (auto simp: Let_def shrink_item_def split: if_splits)
    have "?large \<longleftrightarrow> ?item \<noteq> item"
    proof
      assume "?large"
      then show "?item \<noteq> item" using False Cons.prems(2) by auto
    qed (auto simp: shrink_item_def split: if_splits)
    moreover have "remaining - (len ?item + 1) \<le> budget" using Cons.prems(2) by simp
    note ih = Cons.IH [OF rest this]
    moreover from ih have "weight (\<lambda>item. len item + 1) rest \<le> remaining - (len ?item + 1)" by blast
    with False have "weight (\<lambda>item. len item + 1) (?item # rest) \<le> remaining" by simp
    ultimately show ?thesis by (auto simp: eq)
  qed
qed simp

section \<open>Properties\<close>

text \<open>
  The audit index. After any sequence of recorded events it holds the longest run of the
  newest ones, without their output data, whose accounted size fits the cache budget, and it says
  whether anything was dropped.
\<close>

theorem audit_index_keeps_newest:
  "run_ops (audit_record limits al) audit_index_default recorded = audit_spec limits al recorded \<and>
   ai_bytes (run_ops (audit_record limits al) audit_index_default recorded) \<le> audit_cache_bytes limits"
  using audit_history audit_index.bounded_reachable by blast

text \<open>
  Truncation is reported exactly. Where the events of an execution were recorded with the
  sequence numbers 1 to n in order, a query for it reports truncation exactly when one of them has
  been dropped, and returns those of the retained ones that match the requested types.
\<close>

theorem audit_query_reports_truncation:
  assumes "map event_seq (filter (event_of eid) recorded) = map (\<lambda>i. Some (of_nat i)) [1..<Suc n]"
    and "n < 2 ^ 64" "idx = run_ops (audit_record limits al) audit_index_default recorded"
  shows "audit_for_execution idx eid types (of_nat n) =
    (filter (\<lambda>event. event_matches_types event types) (filter (event_of eid) (ai_events idx)),
     filter (event_of eid) (ai_events idx)
       \<noteq> filter (event_of eid) (map audit_stream_event_metadata recorded))"
proof -
  let ?events = "map audit_stream_event_metadata recorded"
  obtain dropped where split: "?events = dropped @ ai_events idx"
    using fit_suffix_is_suffix [of ?events "audit_weight al" "audit_cache_bytes limits"]
    by (auto simp: assms(3) audit_history audit_spec_def Let_def)
  have "map event_seq (filter (event_of eid) ?events) = map event_seq (filter (event_of eid) recorded)"
    by (induction recorded) simp_all
  then have "map event_seq (filter (event_of eid) dropped @ filter (event_of eid) (ai_events idx)) =
      map (\<lambda>i. Some (of_nat i)) [1..<Suc n]"
    using assms(1) split by simp
  from numbered_suffix [OF this assms(2)] show ?thesis
    using split
    by (simp add: audit_for_execution_def Let_def event_seq_def [abs_def] event_of_def [abs_def])
qed

text \<open>An execution with two recorded events, for the concrete instances.\<close>

definition sample_event :: "nat \<Rightarrow> json" where
  "sample_event i = JObj [(''event_seq'', json_nat i), (''execution_id'', JStr ''e'')]"

definition sample_allocation :: allocation where
  "sample_allocation = \<lparr>value_bytes = 32, str_capacity = length, arr_capacity = length\<rparr>"

theorem audit_query_reports_truncation_witness:
  "audit_for_execution
     (run_ops (audit_record default_limits sample_allocation) audit_index_default
       [sample_event 1, sample_event 2]) ''e'' [] 2 =
   ([sample_event 1, sample_event 2], False)"
proof -
  have seqs: "map event_seq (filter (event_of ''e'') [sample_event 1, sample_event 2]) =
      map (\<lambda>i. Some (of_nat i)) [1..<Suc 2]"
    by (simp add: event_of_def event_seq_def sample_event_def json_index_def obj_get_def json_nat_def
        upt_rec numeral_2_eq_2)
  have "ai_events (run_ops (audit_record default_limits sample_allocation) audit_index_default
       [sample_event 1, sample_event 2]) = [sample_event 1, sample_event 2]"
    unfolding audit_history
    by (simp add: audit_spec_def Let_def sample_event_def audit_stream_event_metadata_def
        bt_remove_def json_nat_def sample_allocation_def default_limits_def)
  then show ?thesis
    using audit_query_reports_truncation [OF seqs _ refl, of default_limits sample_allocation "[]"]
    by (simp add: event_of_def sample_event_def json_index_def obj_get_def event_matches_types_def
        audit_stream_event_metadata_def bt_remove_def)
qed

text \<open>
  The store of finished executions. After any sequence of results it holds at most the
  configured number of records and bytes, its counter is exact, and its order lists every stored
  identifier once; a result under a new identifier that fits the byte budget on its own is stored
  and found again, whatever has to be evicted for it.
\<close>

theorem execution_store_is_bounded:
  assumes "wf_limits limits"
    and "st = run_ops (\<lambda>st result. snd (record_finished limits al result st)) execution_store_default results"
  shows "length (es_records st) \<le> completed_executions limits \<and>
    es_retained_bytes st \<le> completed_execution_bytes limits \<and>
    es_retained_bytes st = weight (record_bytes al \<circ> snd) (es_records st) \<and>
    distinct (es_order st) \<and> set (es_order st) = dom (map_of (es_records st)) \<and>
    (\<forall>result eid. Option.bind (json_get result ''execution_id'') as_str = Some eid \<and>
       Option.bind (json_get result ''session_id'') as_str \<noteq> None \<and>
       store_result st eid = None \<and> record_bytes al result \<le> completed_execution_bytes limits \<longrightarrow>
       store_result (snd (record_finished limits al result st)) eid = Some result)"
proof -
  have inv: "store_inv limits al st"
    unfolding assms(2) by (rule execution_store.inv_reachable)
  have one: "1 \<le> completed_executions limits" using assms(1) by (simp add: wf_limits_def)
  have "store_result (snd (record_finished limits al result st)) eid = Some result"
    if "Option.bind (json_get result ''execution_id'') as_str = Some eid"
      "Option.bind (json_get result ''session_id'') as_str \<noteq> None"
      "store_result st eid = None" "record_bytes al result \<le> completed_execution_bytes limits"
    for result eid
    using that insert_record_indexed [OF inv, of eid result]
      store_evict_keeps_newest [OF _ _ that(4) one,
        of "bt_insert eid result (bt_remove eid (es_records st))" "es_order st" eid]
    by (auto simp: record_finished_def insert_record_def store_result_def)
  with inv show ?thesis
    by (simp add: store_inv_def store_indexed_def)
qed

theorem execution_store_is_bounded_witness:
  "store_result (snd (record_finished default_limits sample_allocation
     (JObj [(''execution_id'', JStr ''e''), (''session_id'', JStr ''s'')]) execution_store_default)) ''e''
   = Some (JObj [(''execution_id'', JStr ''e''), (''session_id'', JStr ''s'')])"
  using execution_store_is_bounded [OF wf_default_limits refl, of sample_allocation "[]"]
  by (simp add: obj_get_def store_result_def execution_store_default_def record_bytes_def
      sample_allocation_def default_limits_def)

text \<open>
  A query response is the newest items that fit. The listed items are a tail of the
  requested ones, an item too large for any response being replaced by a marker with its identity;
  with the overhead their text fits the response limit (or none is listed), the count is their
  number, and the response says it is truncated exactly when an item is missing or replaced, or the
  source already was.
\<close>

theorem query_responses_are_bounded_tails:
  assumes "field \<noteq> ''count''" "field \<noteq> ''truncated''"
  shows "\<exists>listed r budget. snapshot_response limits len rid field items (JObj m) truncated = rpc_result rid r \<and>
    json_index r field = JArr listed \<and> json_index r ''count'' = json_nat (length listed) \<and>
    json_index r ''truncated'' = JBool (truncated \<or> listed \<noteq> items) \<and>
    budget \<le> query_response_bytes limits - 32 \<and>
    length listed \<le> length items \<and>
    listed = map (shrink_item len budget) (drop (length items - length listed) items) \<and>
    weight (\<lambda>item. len item + 1) listed \<le> budget"
proof -
  define base where "base = json_set (json_set (json_set (JObj m) field (JArr [])) ''count'' (json_nat 0))
    ''truncated'' (JBool True)"
  define budget where "budget = query_response_bytes limits - (len (rpc_result rid base) + 32)"
  obtain tail t where take: "snapshot_take len budget budget truncated (rev items) = (tail, t)"
    by (cases "snapshot_take len budget budget truncated (rev items)")
  note spec = snapshot_take_spec [OF take order_refl]
  define r where "r = json_set (json_set (json_set base ''count'' (json_nat (length tail))) field
    (JArr (rev tail))) ''truncated'' (JBool t)"
  have "snapshot_response limits len rid field items (JObj m) truncated = rpc_result rid r"
    by (simp add: snapshot_response_def Let_def take r_def base_def [symmetric] budget_def [symmetric])
  moreover have "json_index r field = JArr (rev tail)" "json_index r ''count'' = json_nat (length (rev tail))"
    "json_index r ''truncated'' = JBool t"
    using assms by (simp_all add: r_def base_def json_index_def json_set_def)
  moreover have "t \<longleftrightarrow> truncated \<or> rev tail \<noteq> items"
    using spec by (metis rev_rev_ident)
  moreover have "rev tail = map (shrink_item len budget) (drop (length items - length (rev tail)) items)"
    using spec by (metis length_rev rev_map rev_rev_ident take_rev)
  moreover have "weight (\<lambda>item. len item + 1) (rev tail) \<le> budget"
    using spec by (simp add: rev_map [symmetric] sum_list_rev)
  moreover have "length (rev tail) \<le> length items" using spec by simp
  moreover have "budget \<le> query_response_bytes limits - 32" by (simp add: budget_def)
  ultimately show ?thesis by blast
qed

theorem query_responses_are_bounded_tails_witness:
  "\<exists>listed r budget. snapshot_response default_limits (\<lambda>_. 9) JNull ''events'' [sample_event 1] (JObj []) False
     = rpc_result JNull r \<and> json_index r ''events'' = JArr listed \<and>
     json_index r ''truncated'' = JBool (False \<or> listed \<noteq> [sample_event 1]) \<and>
     weight (\<lambda>item. 9 + 1) listed \<le> budget"
proof -
  have "''events'' \<noteq> ''count''" "''events'' \<noteq> ''truncated''" by simp_all
  from query_responses_are_bounded_tails [OF this, of default_limits "\<lambda>_. 9" JNull "[sample_event 1]" "[]" False]
  show ?thesis by blast
qed

end
