(* ===== verification/Replay_Cache.thy ===== *)
theory Replay_Cache
  imports Retention_Stores "HOL-Library.While_Combinator" "HOL-Library.Multiset"
begin

text \<open>
  \<open>src/service/replay_cache.rs\<close>: the events a client may replay, per execution, with a budget per
  execution and one for the connection. The cache keeps a history per execution, a global index from
  insertion order to execution, and two byte counters. The insertion counter is 64 bits wide and
  counts recorded events; it is a natural number here. A loop that may not end is
  \<^const>\<open>while_option\<close>, so \<open>None\<close> would be a call that does not return.

  The specification is a single log of the retained events, oldest first: recording appends, drops
  the oldest of the same execution until its share fits, then the oldest of all until the rest fits.
\<close>

record cached_event =
  ce_order :: nat
  ce_bytes :: nat
  ce_value :: json

record history =
  hi_events :: "cached_event list"
  hi_bytes :: nat

record replay_cache =
  rc_histories :: "(string \<times> history) list"
  rc_order :: "(nat \<times> string) list"
  rc_next_order :: nat
  rc_bytes :: nat

definition history_default :: history where
  "history_default = \<lparr>hi_events = [], hi_bytes = 0\<rparr>"

definition replay_default :: replay_cache where
  "replay_default = \<lparr>rc_histories = [], rc_order = [], rc_next_order = 0, rc_bytes = 0\<rparr>"

section \<open>Operations\<close>

definition remove_first :: "string \<Rightarrow> replay_cache \<Rightarrow> replay_cache" where
  "remove_first eid c =
     (case map_of (rc_histories c) eid of
        None \<Rightarrow> c
      | Some history \<Rightarrow>
          let (history, c) =
            (case hi_events history of
               [] \<Rightarrow> (history, c)
             | event # events \<Rightarrow>
                 (history\<lparr>hi_events := events, hi_bytes := hi_bytes history - ce_bytes event\<rparr>,
                  c\<lparr>rc_bytes := rc_bytes c - ce_bytes event,
                    rc_order := bt_remove (ce_order event) (rc_order c)\<rparr>))
          in if hi_events history = []
             then c\<lparr>rc_histories := bt_remove eid (rc_histories c)\<rparr>
             else c\<lparr>rc_histories := bt_insert eid history (rc_histories c)\<rparr>)"

definition over_execution_budget :: "deployment_limits \<Rightarrow> string \<Rightarrow> replay_cache \<Rightarrow> bool" where
  "over_execution_budget limits eid c =
     (case map_of (rc_histories c) eid of
        None \<Rightarrow> False
      | Some history \<Rightarrow> replay_execution_bytes limits < hi_bytes history)"

definition evict_execution :: "deployment_limits \<Rightarrow> string \<Rightarrow> replay_cache \<Rightarrow> replay_cache option" where
  "evict_execution limits eid c =
     while_option (over_execution_budget limits eid) (remove_first eid) c"

definition evict_connection :: "deployment_limits \<Rightarrow> replay_cache \<Rightarrow> replay_cache option" where
  "evict_connection limits c =
     while_option (\<lambda>c. replay_connection_bytes limits < rc_bytes c \<and> rc_order c \<noteq> [])
       (\<lambda>c. remove_first (snd (hd (rc_order c))) c) c"

definition push_event :: "string \<Rightarrow> nat \<Rightarrow> json \<Rightarrow> replay_cache \<Rightarrow> replay_cache" where
  "push_event eid bytes event c =
     (let order = rc_next_order c + 1;
          history = (case map_of (rc_histories c) eid of Some h \<Rightarrow> h | None \<Rightarrow> history_default);
          history = history\<lparr>hi_bytes := hi_bytes history + bytes,
            hi_events := hi_events history @ [\<lparr>ce_order = order, ce_bytes = bytes, ce_value = event\<rparr>]\<rparr>
      in c\<lparr>rc_next_order := order,
           rc_histories := bt_insert eid history (rc_histories c),
           rc_order := bt_insert order eid (rc_order c),
           rc_bytes := rc_bytes c + bytes\<rparr>)"

definition replay_record ::
  "deployment_limits \<Rightarrow> allocation \<Rightarrow> json \<Rightarrow> replay_cache \<Rightarrow> replay_cache option" where
  "replay_record limits al event c =
     (case as_str (json_index event ''execution_id'') of
        None \<Rightarrow> Some c
      | Some eid \<Rightarrow>
          Option.bind (evict_execution limits eid (push_event eid (retained_bytes al event + 512) event c))
            (evict_connection limits))"

definition remove_execution :: "string \<Rightarrow> replay_cache \<Rightarrow> replay_cache option" where
  "remove_execution eid c =
     while_option (\<lambda>c. map_of (rc_histories c) eid \<noteq> None) (remove_first eid) c"

definition replay_events :: "replay_cache \<Rightarrow> string \<Rightarrow> json list" where
  "replay_events c eid =
     (case map_of (rc_histories c) eid of None \<Rightarrow> [] | Some h \<Rightarrow> map ce_value (hi_events h))"

definition earliest :: "replay_cache \<Rightarrow> string \<Rightarrow> 64 word \<Rightarrow> 64 word" where
  "earliest c eid latest =
     (case Option.bind (map_of (rc_histories c) eid)
             (\<lambda>h. Option.bind (case hi_events h of [] \<Rightarrow> None | e # _ \<Rightarrow> Some e)
                (\<lambda>e. as_u64 (json_index (ce_value e) ''event_seq''))) of
        Some seq \<Rightarrow> seq
      | None \<Rightarrow> latest + 1)"

text \<open>The two loops of the preview, over the references only.\<close>

fun preview_execution ::
  "nat \<Rightarrow> nat \<Rightarrow> nat \<Rightarrow> nat set \<Rightarrow> cached_event list \<Rightarrow> nat \<times> nat set" where
  "preview_execution limit retained total_bytes removed [] = (total_bytes, removed)"
| "preview_execution limit retained total_bytes removed (old # events) =
     (if retained \<le> limit then (total_bytes, removed)
      else preview_execution limit (retained - ce_bytes old) (total_bytes - ce_bytes old)
             (insert (ce_order old) removed) events)"

fun preview_connection :: "nat \<Rightarrow> nat \<Rightarrow> nat set \<Rightarrow> cached_event list \<Rightarrow> nat set" where
  "preview_connection limit total_bytes removed [] = removed"
| "preview_connection limit total_bytes removed (old # events) =
     (if total_bytes \<le> limit then removed
      else if ce_order old \<in> removed then preview_connection limit total_bytes removed events
      else preview_connection limit (total_bytes - ce_bytes old) (insert (ce_order old) removed) events)"

definition earliest_after ::
  "deployment_limits \<Rightarrow> allocation \<Rightarrow> replay_cache \<Rightarrow> json \<Rightarrow> 64 word" where
  "earliest_after limits al c event =
     (case as_str (json_index event ''execution_id'') of
        None \<Rightarrow> 0
      | Some eid \<Rightarrow>
          let latest = (case as_u64 (json_index event ''event_seq'') of Some n \<Rightarrow> n | None \<Rightarrow> 0);
              incoming = retained_bytes al event + 512 in
          if replay_execution_bytes limits < incoming then latest + 1
          else
            let own = (case map_of (rc_histories c) eid of None \<Rightarrow> [] | Some h \<Rightarrow> hi_events h);
                (total_bytes, removed) =
                  (case map_of (rc_histories c) eid of
                     None \<Rightarrow> (rc_bytes c + incoming, {})
                   | Some h \<Rightarrow> preview_execution (replay_execution_bytes limits) (hi_bytes h + incoming)
                                (rc_bytes c + incoming) {} (hi_events h));
                candidates = sort_key ce_order
                  (concat (map (\<lambda>kv. hi_events (snd kv)) (rc_histories c)));
                removed = preview_connection (replay_connection_bytes limits) total_bytes removed candidates
            in case Option.bind (List.find (\<lambda>old. ce_order old \<notin> removed) own)
                      (\<lambda>old. as_u64 (json_index (ce_value old) ''event_seq'')) of
                 Some seq \<Rightarrow> seq
               | None \<Rightarrow> latest)"

section \<open>The log\<close>

text \<open>Grouping a list by a key that is listed once each loses nothing.\<close>

lemma partition_by_key:
  assumes "distinct keys" "set (map f xs) \<subseteq> set keys"
  shows "mset (concat (map (\<lambda>k. filter (\<lambda>x. f x = k) xs) keys)) = mset xs"
  using assms
proof (induction keys arbitrary: xs)
  case (Cons k keys)
  let ?rest = "filter (\<lambda>x. f x \<noteq> k) xs"
  have "filter (\<lambda>x. f x = k') ?rest = filter (\<lambda>x. f x = k') xs" if "k' \<in> set keys" for k'
    using that Cons.prems(1) by (auto intro: filter_cong)
  then have "concat (map (\<lambda>k. filter (\<lambda>x. f x = k) xs) keys) =
      concat (map (\<lambda>k. filter (\<lambda>x. f x = k) ?rest) keys)"
    by (metis (mono_tags, lifting) map_cong)
  moreover have "mset (concat (map (\<lambda>k. filter (\<lambda>x. f x = k) ?rest) keys)) = mset ?rest"
    by (rule Cons.IH) (use Cons.prems in auto)
  moreover have "mset (filter (\<lambda>x. f x = k) xs) + mset ?rest = mset xs"
    by (simp add: multiset_partition [symmetric])
  ultimately show ?case by simp
qed simp

lemma sort_key_eq_distinct:
  assumes "mset ys = mset xs" "sorted (map f ys)" "distinct (map f ys)"
  shows "sort_key f xs = ys"
proof (rule properties_for_sort_key [OF assms(1) _ assms(2)])
  fix k assume "k \<in> set ys"
  then have single: "filter (\<lambda>x. f k = f x) ys = [k]"
    using assms(3) by (induction ys) (auto simp: filter_empty_conv image_iff)
  have "mset (filter (\<lambda>x. f k = f x) xs) = mset (filter (\<lambda>x. f k = f x) ys)"
    using assms(1) by simp
  then show "filter (\<lambda>x. f k = f x) ys = filter (\<lambda>x. f k = f x) xs"
    unfolding single by (metis mset_single_iff_right)
qed


type_synonym log = "(string \<times> cached_event) list"

abbreviation log_weight :: "log \<Rightarrow> nat" where
  "log_weight xs \<equiv> weight (\<lambda>x. ce_bytes (snd x)) xs"

abbreviation log_of :: "string \<Rightarrow> log \<Rightarrow> log" where
  "log_of eid xs \<equiv> filter (\<lambda>x. fst x = eid) xs"

fun drop_first :: "string \<Rightarrow> log \<Rightarrow> log" where
  "drop_first eid [] = []"
| "drop_first eid (x # xs) = (if fst x = eid then xs else x # drop_first eid xs)"

fun trim_execution :: "nat \<Rightarrow> string \<Rightarrow> log \<Rightarrow> log" where
  "trim_execution limit eid [] = []"
| "trim_execution limit eid (x # xs) =
     (if fst x = eid \<and> limit < log_weight (log_of eid (x # xs))
      then trim_execution limit eid xs
      else x # trim_execution limit eid xs)"

definition record_log :: "deployment_limits \<Rightarrow> string \<Rightarrow> cached_event \<Rightarrow> log \<Rightarrow> log" where
  "record_log limits eid event xs =
     fit_suffix (\<lambda>x. ce_bytes (snd x)) (replay_connection_bytes limits)
       (trim_execution (replay_execution_bytes limits) eid (xs @ [(eid, event)]))"

definition history_of :: "string \<Rightarrow> log \<Rightarrow> history option" where
  "history_of eid xs =
     (if log_of eid xs = [] then None
      else Some \<lparr>hi_events = map snd (log_of eid xs), hi_bytes = log_weight (log_of eid xs)\<rparr>)"

text \<open>The cache represents the log.\<close>

definition represents :: "replay_cache \<Rightarrow> log \<Rightarrow> bool" where
  "represents c xs \<longleftrightarrow>
     wf_map (rc_histories c) \<and> (\<forall>eid. map_of (rc_histories c) eid = history_of eid xs) \<and>
     sorted_wrt (<) (map (ce_order \<circ> snd) xs) \<and>
     rc_order c = map (\<lambda>x. (ce_order (snd x), fst x)) xs \<and>
     rc_bytes c = log_weight xs \<and>
     (\<forall>x \<in> set xs. ce_order (snd x) \<le> rc_next_order c)"

lemma log_of_drop_first:
  "log_of eid (drop_first eid' xs) = (if eid = eid' then tl (log_of eid xs) else log_of eid xs)"
  by (induction xs) auto

lemma drop_first_absent: "log_of eid xs = [] \<Longrightarrow> drop_first eid xs = xs"
  by (induction xs) (auto split: if_splits)

lemma drop_first_split:
  assumes "log_of eid xs = x # rest"
  obtains pre post where "xs = pre @ x # post" "log_of eid pre = []" "fst x = eid"
    "drop_first eid xs = pre @ post"
  using assms
proof (induction xs arbitrary: thesis)
  case (Cons y ys)
  show ?case
  proof (cases "fst y = eid")
    case True
    with Cons.prems(2) show ?thesis by (intro Cons.prems(1) [of "[]"]) auto
  next
    case False
    with Cons.prems(2) obtain pre post where "ys = pre @ x # post" "log_of eid pre = []" "fst x = eid"
      "drop_first eid ys = pre @ post"
      using Cons.IH by auto
    with False show ?thesis by (intro Cons.prems(1) [of "y # pre"]) auto
  qed
qed simp

lemma remove_first_represents:
  assumes "represents c xs"
  shows "represents (remove_first eid c) (drop_first eid xs)"
proof (cases "log_of eid xs")
  case Nil
  with assms have "map_of (rc_histories c) eid = None" by (simp add: represents_def history_of_def)
  with Nil assms show ?thesis by (simp add: remove_first_def drop_first_absent)
next
  case (Cons x rest)
  then obtain pre post where split: "xs = pre @ x # post" "fst x = eid" "drop_first eid xs = pre @ post"
    by (rule drop_first_split)
  let ?h = "\<lparr>hi_events = map snd rest, hi_bytes = log_weight rest\<rparr>"
  have get: "map_of (rc_histories c) eid =
      Some \<lparr>hi_events = snd x # map snd rest, hi_bytes = ce_bytes (snd x) + log_weight rest\<rparr>"
    using assms Cons by (simp add: represents_def history_of_def)
  have eq: "remove_first eid c = c\<lparr>rc_bytes := rc_bytes c - ce_bytes (snd x),
      rc_order := bt_remove (ce_order (snd x)) (rc_order c),
      rc_histories := (if rest = [] then bt_remove eid (rc_histories c)
                       else bt_insert eid ?h (rc_histories c))\<rparr>"
    by (simp add: remove_first_def get)
  have sorted: "sorted_wrt (<) (map (ce_order \<circ> snd) (pre @ x # post))"
    using assms split(1) by (simp add: represents_def)
  have others: "filter (\<lambda>kv. fst kv \<noteq> ce_order (snd x)) (map (\<lambda>x. (ce_order (snd x), fst x)) ys)
      = map (\<lambda>x. (ce_order (snd x), fst x)) ys" if "set ys \<subseteq> set pre \<union> set post" for ys
    by (rule filter_True) (use sorted that in \<open>fastforce simp: sorted_wrt_append\<close>)
  then have "bt_remove (ce_order (snd x)) (map (\<lambda>x. (ce_order (snd x), fst x)) (pre @ x # post))
      = map (\<lambda>x. (ce_order (snd x), fst x)) (pre @ post)"
    by (simp add: bt_remove_def)
  then have "rc_order (remove_first eid c) = map (\<lambda>x. (ce_order (snd x), fst x)) (pre @ post)"
    "rc_bytes (remove_first eid c) = log_weight (pre @ post)"
    "rc_next_order (remove_first eid c) = rc_next_order c" "wf_map (rc_histories (remove_first eid c))"
    using assms split(1,2) by (auto simp: represents_def eq)
  moreover have "map_of (rc_histories (remove_first eid c)) e = history_of e (pre @ post)" for e
    using assms log_of_drop_first [of e eid xs] Cons
    by (simp add: eq split(3) represents_def history_of_def split: if_splits)
  ultimately show ?thesis
    unfolding split(3) using assms sorted split(1) by (auto simp: represents_def sorted_wrt_append)
qed

lemma push_event_represents:
  assumes "represents c xs"
  shows "represents (push_event eid bytes event c)
    (xs @ [(eid, \<lparr>ce_order = rc_next_order c + 1, ce_bytes = bytes, ce_value = event\<rparr>)])"
proof -
  let ?e = "\<lparr>ce_order = rc_next_order c + 1, ce_bytes = bytes, ce_value = event\<rparr>"
  have bound: "\<forall>x \<in> set xs. ce_order (snd x) \<le> rc_next_order c"
    using assms by (simp add: represents_def)
  let ?c = "push_event eid bytes event c"
  have "bt_insert (rc_next_order c + 1) eid (rc_order c) = rc_order c @ [(rc_next_order c + 1, eid)]"
    by (rule bt_insert_last) (use assms bound in \<open>auto simp: represents_def\<close>)
  then have "rc_order ?c = rc_order c @ [(rc_next_order c + 1, eid)]" "rc_bytes ?c = rc_bytes c + bytes"
    "rc_next_order ?c = rc_next_order c + 1"
    by (simp_all add: push_event_def Let_def)
  moreover have "map_of (rc_histories ?c) e = history_of e (xs @ [(eid, ?e)])" for e
    using assms
    by (auto simp: represents_def push_event_def Let_def history_of_def history_default_def)
  moreover have "wf_map (rc_histories ?c)"
    using assms by (auto simp: represents_def push_event_def Let_def)
  ultimately show ?thesis
    using assms bound by (auto simp: represents_def sorted_wrt_append le_imp_less_Suc)
qed

lemma over_execution_budget_iff:
  "represents c xs \<Longrightarrow>
     over_execution_budget limits eid c \<longleftrightarrow> replay_execution_bytes limits < log_weight (log_of eid xs)"
  by (auto simp: over_execution_budget_def represents_def history_of_def)

lemma trim_execution_id:
  "log_weight (log_of eid xs) \<le> limit \<Longrightarrow> trim_execution limit eid xs = xs"
  by (induction xs) (auto split: if_splits)

lemma trim_execution_drop:
  "limit < log_weight (log_of eid xs) \<Longrightarrow>
     trim_execution limit eid xs = trim_execution limit eid (drop_first eid xs)"
  by (induction xs) (auto simp: log_of_drop_first)

lemma drop_first_length: "log_of eid xs \<noteq> [] \<Longrightarrow> length (drop_first eid xs) < length xs"
  by (induction xs) auto

lemma evict_execution_represents:
  assumes "represents c xs"
  shows "\<exists>c'. evict_execution limits eid c = Some c' \<and>
    represents c' (trim_execution (replay_execution_bytes limits) eid xs)"
  using assms
proof (induction xs arbitrary: c rule: length_induct)
  case (1 xs)
  show ?case
  proof (cases "replay_execution_bytes limits < log_weight (log_of eid xs)")
    case True
    then have "log_of eid xs \<noteq> []" by auto
    then have "length (drop_first eid xs) < length xs" by (rule drop_first_length)
    with 1 remove_first_represents [of c xs eid]
    obtain c' where "evict_execution limits eid (remove_first eid c) = Some c'"
      "represents c' (trim_execution (replay_execution_bytes limits) eid (drop_first eid xs))"
      by blast
    with True 1 show ?thesis
      by (simp add: evict_execution_def while_option_unfold [of _ _ c] over_execution_budget_iff
          trim_execution_drop)
  next
    case False
    with 1 show ?thesis
      by (simp add: evict_execution_def while_option_unfold [of _ _ c] over_execution_budget_iff
          trim_execution_id)
  qed
qed

lemma evict_connection_represents:
  assumes "represents c xs"
  shows "\<exists>c'. evict_connection limits c = Some c' \<and>
    represents c' (fit_suffix (\<lambda>x. ce_bytes (snd x)) (replay_connection_bytes limits) xs)"
  using assms
proof (induction xs arbitrary: c)
  case Nil
  then show ?case
    by (simp add: evict_connection_def while_option_unfold [of _ _ c] represents_def)
next
  case (Cons x xs)
  have c: "rc_bytes c = log_weight (x # xs)" "rc_order c \<noteq> []" "snd (hd (rc_order c)) = fst x"
    using Cons.prems by (simp_all add: represents_def)
  have "represents (remove_first (fst x) c) xs"
    using remove_first_represents [OF Cons.prems, of "fst x"] by simp
  from Cons.IH [OF this] Cons.prems c show ?case
    by (simp add: evict_connection_def while_option_unfold [of _ _ c])
qed

lemma remove_execution_represents:
  assumes "represents c xs"
  shows "\<exists>c'. remove_execution eid c = Some c' \<and> represents c' (filter (\<lambda>x. fst x \<noteq> eid) xs)"
  using assms
proof (induction xs arbitrary: c rule: length_induct)
  case (1 xs)
  show ?case
  proof (cases "log_of eid xs = []")
    case True
    then have "filter (\<lambda>x. fst x \<noteq> eid) xs = xs" by (auto simp: filter_empty_conv filter_id_conv)
    with True 1 show ?thesis
      by (simp add: remove_execution_def while_option_unfold [of _ _ c] represents_def history_of_def)
  next
    case False
    have same: "filter (\<lambda>x. fst x \<noteq> eid) (drop_first eid xs) = filter (\<lambda>x. fst x \<noteq> eid) xs"
      by (induction xs) auto
    have "length (drop_first eid xs) < length xs" using False by (rule drop_first_length)
    with 1 remove_first_represents [of c xs eid]
    obtain c' where "remove_execution eid (remove_first eid c) = Some c'"
      "represents c' (filter (\<lambda>x. fst x \<noteq> eid) (drop_first eid xs))"
      by blast
    moreover have "map_of (rc_histories c) eid \<noteq> None"
      using 1 False by (auto simp: represents_def history_of_def)
    ultimately show ?thesis
      by (simp add: remove_execution_def while_option_unfold [of _ _ c] same)
  qed
qed

lemma replay_record_represents:
  assumes "represents c xs"
  shows "\<exists>c'. replay_record limits al event c = Some c' \<and>
    represents c'
      (case as_str (json_index event ''execution_id'') of
         None \<Rightarrow> xs
       | Some eid \<Rightarrow> record_log limits eid
           \<lparr>ce_order = rc_next_order c + 1, ce_bytes = retained_bytes al event + 512, ce_value = event\<rparr> xs)"
proof (cases "as_str (json_index event ''execution_id'')")
  case (Some eid)
  let ?e = "\<lparr>ce_order = rc_next_order c + 1, ce_bytes = retained_bytes al event + 512, ce_value = event\<rparr>"
  obtain c1 where c1: "evict_execution limits eid (push_event eid (retained_bytes al event + 512) event c) = Some c1"
    "represents c1 (trim_execution (replay_execution_bytes limits) eid (xs @ [(eid, ?e)]))"
    using evict_execution_represents [OF push_event_represents [OF assms]] by blast
  obtain c2 where "evict_connection limits c1 = Some c2" "represents c2 (record_log limits eid ?e xs)"
    using evict_connection_represents [OF c1(2), of limits] by (auto simp: record_log_def)
  with c1 Some show ?thesis by (simp add: replay_record_def)
qed (use assms in \<open>simp add: replay_record_def\<close>)

section \<open>The preview\<close>

lemma trim_execution_preview:
  assumes "sorted_wrt (<) (map (ce_order \<circ> snd) xs)" "ce_bytes e \<le> limit"
    and "removed \<inter> (ce_order \<circ> snd) ` set xs = {}" "total_bytes = log_weight xs + extra"
    and "preview_execution limit (log_weight (log_of eid xs) + ce_bytes e) total_bytes removed
      (map snd (log_of eid xs)) = (total', removed')"
  shows "trim_execution limit eid (xs @ [(eid, e)]) =
      filter (\<lambda>x. ce_order (snd x) \<notin> removed') xs @ [(eid, e)] \<and>
    total' = log_weight (filter (\<lambda>x. ce_order (snd x) \<notin> removed') xs) + extra \<and>
    removed \<subseteq> removed' \<and> removed' \<subseteq> removed \<union> (ce_order \<circ> snd) ` set xs"
  using assms
proof (induction xs arbitrary: removed total_bytes extra)
  case (Cons x xs)
  have sorted: "sorted_wrt (<) (map (ce_order \<circ> snd) xs)"
    and fresh: "ce_order (snd x) \<notin> (ce_order \<circ> snd) ` set xs"
    using Cons.prems(1) by (auto simp: comp_def)
  note ih = Cons.IH [OF sorted Cons.prems(2)]
  consider (other) "fst x \<noteq> eid"
    | (keep) "fst x = eid" "log_weight (log_of eid (x # xs)) + ce_bytes e \<le> limit"
    | (drop) "fst x = eid" "limit < log_weight (log_of eid (x # xs)) + ce_bytes e"
    by linarith
  then show ?case
  proof cases
    case other
    have "total_bytes = log_weight xs + (ce_bytes (snd x) + extra)" using Cons.prems(4) by simp
    from ih [OF _ this, of removed] other Cons.prems(3,5) fresh show ?thesis by auto
  next
    case keep
    then have "trim_execution limit eid ((x # xs) @ [(eid, e)]) = (x # xs) @ [(eid, e)]"
      by (intro trim_execution_id) simp
    moreover have "total' = total_bytes \<and> removed' = removed"
      using Cons.prems(5) keep by simp
    moreover have "filter (\<lambda>x. ce_order (snd x) \<notin> removed) (x # xs) = x # xs"
      using Cons.prems(3) by (intro filter_True) auto
    ultimately show ?thesis using Cons.prems(4) by auto
  next
    case drop
    have "total_bytes - ce_bytes (snd x) = log_weight xs + extra" using Cons.prems(4) by simp
    from ih [OF _ this, of "insert (ce_order (snd x)) removed"] drop Cons.prems(3,5) fresh
    show ?thesis by auto
  qed
qed simp

lemma preview_connection_mono: "removed \<subseteq> preview_connection limit total_bytes removed events"
  by (induction events arbitrary: total_bytes removed) (auto, blast)

lemma fit_suffix_preview:
  assumes "sorted_wrt (<) (map (ce_order \<circ> snd) xs)" "ce_bytes e \<le> limit"
  shows "fit_suffix (\<lambda>x. ce_bytes (snd x)) limit
      (filter (\<lambda>x. ce_order (snd x) \<notin> removed) xs @ [(eid, e)]) =
    filter (\<lambda>x. ce_order (snd x) \<notin>
      preview_connection limit (log_weight (filter (\<lambda>x. ce_order (snd x) \<notin> removed) xs) + ce_bytes e)
        removed (map snd xs)) xs @ [(eid, e)]"
  using assms
proof (induction xs arbitrary: removed)
  case (Cons x xs)
  let ?kept = "filter (\<lambda>x. ce_order (snd x) \<notin> removed)"
  have fresh: "ce_order (snd x) \<notin> (ce_order \<circ> snd) ` set xs"
    and ih: "sorted_wrt (<) (map (ce_order \<circ> snd) xs)" using Cons.prems(1) by (auto simp: comp_def)
  note ih = Cons.IH [OF ih Cons.prems(2)]
  show ?case
  proof (cases "log_weight (?kept (x # xs)) + ce_bytes e \<le> limit")
    case True
    then have "fit_suffix (\<lambda>x. ce_bytes (snd x)) limit (?kept (x # xs) @ [(eid, e)]) =
        ?kept (x # xs) @ [(eid, e)]"
      by (intro fit_suffix_id) simp
    with True show ?thesis by simp
  next
    case False
    show ?thesis
    proof (cases "ce_order (snd x) \<in> removed")
      case True
      with preview_connection_mono [of removed limit _ "map snd xs"] False ih [of removed]
      show ?thesis by auto
    next
      case out: False
      let ?removed = "insert (ce_order (snd x)) removed"
      have same: "filter (\<lambda>x. ce_order (snd x) \<notin> ?removed) xs = ?kept xs"
      proof (rule filter_cong [OF refl])
        fix y assume "y \<in> set xs"
        then have "ce_order (snd y) \<noteq> ce_order (snd x)" using fresh by (metis comp_apply image_eqI)
        then show "(ce_order (snd y) \<notin> ?removed) = (ce_order (snd y) \<notin> removed)" by simp
      qed
      have "ce_order (snd x) \<in> preview_connection limit t ?removed (map snd xs)" for t
        using preview_connection_mono [of ?removed limit t "map snd xs"] by blast
      with out False ih [of ?removed, unfolded same] show ?thesis by simp
    qed
  qed
qed simp

lemma represents_member:
  assumes "represents c xs" "kv \<in> set (rc_histories c)"
  shows "Some (snd kv) = history_of (fst kv) xs"
proof -
  have "map_of (rc_histories c) (fst kv) = Some (snd kv)"
    using assms wf_map_distinct by (intro map_of_is_SomeI) (auto simp: represents_def)
  with assms(1) show ?thesis by (simp add: represents_def)
qed

lemma sort_candidates:
  assumes "represents c xs"
  shows "sort_key ce_order (concat (map (\<lambda>kv. hi_events (snd kv)) (rc_histories c))) = map snd xs"
proof -
  have wf: "wf_map (rc_histories c)" and get: "\<And>eid. map_of (rc_histories c) eid = history_of eid xs"
    and sorted: "sorted_wrt (<) (map (ce_order \<circ> snd) xs)"
    using assms by (auto simp: represents_def)
  let ?ids = "map fst (rc_histories c)"
  have ids: "set (map fst xs) \<subseteq> set ?ids"
  proof
    fix eid assume "eid \<in> set (map fst xs)"
    then have "history_of eid xs \<noteq> None" by (auto simp: history_of_def filter_empty_conv)
    then show "eid \<in> set ?ids" using get [of eid] by (metis map_of_eq_None_iff set_map)
  qed
  have "hi_events (snd kv) = map snd (log_of (fst kv) xs)" if "kv \<in> set (rc_histories c)" for kv
    using represents_member [OF assms that] by (simp add: history_of_def split: if_splits)
  then have "concat (map (\<lambda>kv. hi_events (snd kv)) (rc_histories c)) =
      map snd (concat (map (\<lambda>eid. log_of eid xs) ?ids))"
    by (simp add: map_concat comp_def cong: map_cong)
  also have "mset \<dots> = mset (map snd xs)"
    using partition_by_key [OF wf_map_distinct [OF wf] ids] by simp
  finally have "mset (map snd xs) = mset (concat (map (\<lambda>kv. hi_events (snd kv)) (rc_histories c)))" ..
  moreover have "sorted (map ce_order (map snd xs))" "distinct (map ce_order (map snd xs))"
    using sorted by (simp_all add: strict_sorted_iff comp_def)
  ultimately show ?thesis
    by (intro sort_key_eq_distinct)
qed

lemma trim_execution_oversized:
  assumes "limit < ce_bytes e"
  shows "log_of eid (trim_execution limit eid (xs @ [(eid, e)])) = []"
  using assms by (induction xs) auto

lemma fit_suffix_subset: "set (fit_suffix w n xs) \<subseteq> set xs"
  using fit_suffix_is_suffix [of xs w n] by (metis Un_upper2 set_append)

lemma trim_execution_subset: "set (trim_execution limit eid xs) \<subseteq> set xs"
  by (induction xs) auto

lemma record_log_subset: "set (record_log limits eid e xs) \<subseteq> insert (eid, e) (set xs)"
  unfolding record_log_def
  by (rule order_trans [OF fit_suffix_subset]) (use trim_execution_subset in fastforce)

lemma find_filter: "List.find P xs = (case filter P xs of [] \<Rightarrow> None | x # _ \<Rightarrow> Some x)"
  by (induction xs) auto

lemma earliest_represents:
  "represents c xs \<Longrightarrow> earliest c eid latest =
     (case log_of eid xs of
        [] \<Rightarrow> latest + 1
      | x # _ \<Rightarrow> (case event_seq (ce_value (snd x)) of Some seq \<Rightarrow> seq | None \<Rightarrow> latest + 1))"
  by (auto simp: earliest_def represents_def history_of_def event_seq_def split: list.splits)

lemma earliest_after_represents:
  assumes "represents c xs" "replay_execution_bytes limits \<le> replay_connection_bytes limits"
    and "as_str (json_index event ''execution_id'') = Some eid" "event_seq event = Some latest"
    and "\<forall>x \<in> set xs. event_seq (ce_value (snd x)) \<noteq> None"
    and "ce_bytes e = retained_bytes al event + 512" "ce_value e = event"
  shows "earliest_after limits al c event =
    (case log_of eid (record_log limits eid e xs) of
       [] \<Rightarrow> latest + 1
     | x # _ \<Rightarrow> (case event_seq (ce_value (snd x)) of Some seq \<Rightarrow> seq | None \<Rightarrow> latest + 1))"
proof (cases "replay_execution_bytes limits < ce_bytes e")
  case True
  have "log_of eid (record_log limits eid e xs) = []"
    using trim_execution_oversized [OF True, of eid xs]
      fit_suffix_subset [of "\<lambda>x. ce_bytes (snd x)" "replay_connection_bytes limits"]
    by (auto simp: record_log_def filter_empty_conv)
  with True assms(3,4,6) show ?thesis by (simp add: earliest_after_def event_seq_def)
next
  case False
  have sorted: "sorted_wrt (<) (map (ce_order \<circ> snd) xs)" and bytes: "rc_bytes c = log_weight xs"
    and get: "map_of (rc_histories c) eid = history_of eid xs"
    using assms(1) by (auto simp: represents_def)
  obtain total' removed where pre:
    "preview_execution (replay_execution_bytes limits) (log_weight (log_of eid xs) + ce_bytes e)
      (rc_bytes c + ce_bytes e) {} (map snd (log_of eid xs)) = (total', removed)"
    by (metis surj_pair)
  have "ce_bytes e \<le> replay_execution_bytes limits" using False by simp
  note trim = trim_execution_preview [OF sorted this, of "{}" _ "ce_bytes e" eid, OF _ _ pre, unfolded bytes,
      simplified]
  define final where "final = preview_connection (replay_connection_bytes limits) total' removed (map snd xs)"
  have log: "record_log limits eid e xs = filter (\<lambda>x. ce_order (snd x) \<notin> final) xs @ [(eid, e)]"
    using trim fit_suffix_preview [OF sorted, of e "replay_connection_bytes limits" removed eid] False assms(2)
    by (simp add: record_log_def final_def)
  let ?own = "map snd (log_of eid xs)"
  have own: "(case map_of (rc_histories c) eid of None \<Rightarrow> [] | Some h \<Rightarrow> hi_events h) = ?own"
    by (simp add: get history_of_def)
  have two: "(case map_of (rc_histories c) eid of
        None \<Rightarrow> (rc_bytes c + ce_bytes e, {})
      | Some h \<Rightarrow> preview_execution (replay_execution_bytes limits) (hi_bytes h + ce_bytes e)
          (rc_bytes c + ce_bytes e) {} (hi_events h)) = (total', removed)"
    using pre by (auto simp: get history_of_def)
  have "earliest_after limits al c event =
      (case Option.bind (List.find (\<lambda>old. ce_order old \<notin> final) ?own)
              (\<lambda>old. event_seq (ce_value old)) of Some seq \<Rightarrow> seq | None \<Rightarrow> latest)"
    using False assms(3,4) two
    by (simp add: earliest_after_def own sort_candidates [OF assms(1)] assms(6) [symmetric]
        final_def event_seq_def)
  also have "List.find (\<lambda>old. ce_order old \<notin> final) ?own =
      (case log_of eid (filter (\<lambda>x. ce_order (snd x) \<notin> final) xs) of [] \<Rightarrow> None | x # _ \<Rightarrow> Some (snd x))"
    by (simp add: find_filter filter_map comp_def conj_commute split: list.splits)
  finally show ?thesis
    using assms(4,5,7) log by (auto simp: log filter_eq_Cons_iff split: list.splits)
qed

lemma weight_concat:
  "(\<And>x. x \<in> set xs \<Longrightarrow> f x = weight w (g x)) \<Longrightarrow> weight f xs = weight w (concat (map g xs))"
  by (induction xs) auto

lemma represents_total:
  assumes "represents c xs"
  shows "rc_bytes c = weight (hi_bytes \<circ> snd) (rc_histories c)"
proof -
  have "hi_bytes (snd kv) = weight ce_bytes (hi_events (snd kv))" if "kv \<in> set (rc_histories c)" for kv
    using represents_member [OF assms that] by (simp add: history_of_def comp_def split: if_splits)
  then have "weight (hi_bytes \<circ> snd) (rc_histories c) =
      weight ce_bytes (concat (map (\<lambda>kv. hi_events (snd kv)) (rc_histories c)))"
    by (intro weight_concat) simp
  also have "\<dots> = weight ce_bytes (map snd xs)"
    using arg_cong [OF sort_candidates [OF assms], of "\<lambda>l. sum_mset (image_mset ce_bytes (mset l))"]
    by (simp add: sum_mset_sum_list [symmetric] image_mset.compositionality)
  also have "\<dots> = rc_bytes c"
    using assms by (simp add: represents_def comp_def)
  finally show ?thesis ..
qed

section \<open>Histories\<close>

datatype replay_op = RecordOp json | RemoveOp string

text \<open>A call that did not return would leave the cache; it does not happen.\<close>

fun replay_step :: "deployment_limits \<Rightarrow> allocation \<Rightarrow> replay_cache \<Rightarrow> replay_op \<Rightarrow> replay_cache" where
  "replay_step limits al c (RecordOp event) =
     (case replay_record limits al event c of Some c' \<Rightarrow> c' | None \<Rightarrow> c)"
| "replay_step limits al c (RemoveOp eid) =
     (case remove_execution eid c of Some c' \<Rightarrow> c' | None \<Rightarrow> c)"

definition within_budgets :: "deployment_limits \<Rightarrow> log \<Rightarrow> bool" where
  "within_budgets limits xs \<longleftrightarrow>
     log_weight xs \<le> replay_connection_bytes limits \<and>
     (\<forall>eid. log_weight (log_of eid xs) \<le> replay_execution_bytes limits)"

lemma weight_filter_le: "weight w (filter P xs) \<le> weight w xs"
  by (induction xs) auto

lemma within_budgets_filter:
  assumes "within_budgets limits xs"
  shows "within_budgets limits (filter P xs)"
proof -
  have "log_of eid (filter P xs) = filter P (log_of eid xs)" for eid
    by (simp add: conj_commute)
  moreover have "log_weight (filter P ys) \<le> limit" if "log_weight ys \<le> limit" for ys limit
    using weight_filter_le that by (rule order_trans)
  ultimately show ?thesis
    using assms by (simp add: within_budgets_def del: filter_filter)
qed

lemma trim_execution_weight:
  "log_weight (log_of eid (trim_execution limit eid xs)) \<le> limit"
  "eid' \<noteq> eid \<Longrightarrow> log_of eid' (trim_execution limit eid xs) = log_of eid' xs"
proof -
  show "log_weight (log_of eid (trim_execution limit eid xs)) \<le> limit"
  proof (induction xs)
    case (Cons x xs)
    then show ?case
      by (cases "limit < log_weight (log_of eid (x # xs))") (auto simp: trim_execution_id)
  qed simp
qed (induction xs, auto)

lemma suffix_filter_weight: "weight w (filter P (fit_suffix v n xs)) \<le> weight w (filter P xs)"
proof -
  obtain d where "xs = d @ fit_suffix v n xs" using fit_suffix_is_suffix by blast
  then have "weight w (filter P xs) = weight w (filter P d) + weight w (filter P (fit_suffix v n xs))"
    by (metis filter_append map_append sum_list_append)
  then show ?thesis by simp
qed

lemma record_log_budgets:
  assumes "within_budgets limits xs"
  shows "within_budgets limits (record_log limits eid e xs)"
  unfolding within_budgets_def
proof (intro conjI allI)
  show "log_weight (record_log limits eid e xs) \<le> replay_connection_bytes limits"
    unfolding record_log_def by (rule fit_suffix_fits)
  fix eid'
  let ?t = "trim_execution (replay_execution_bytes limits) eid (xs @ [(eid, e)])"
  have "log_weight (log_of eid' ?t) \<le> replay_execution_bytes limits"
  proof (cases "eid' = eid")
    case True
    then show ?thesis using trim_execution_weight(1) [of eid] by simp
  next
    case False
    then show ?thesis
      using trim_execution_weight(2) [OF False, of "replay_execution_bytes limits" "xs @ [(eid, e)]"] assms
      by (simp add: within_budgets_def)
  qed
  then show "log_weight (log_of eid' (record_log limits eid e xs)) \<le> replay_execution_bytes limits"
    unfolding record_log_def by (rule order_trans [OF suffix_filter_weight])
qed

lemma replay_step_represents:
  assumes "represents c xs" "within_budgets limits xs"
  shows "\<exists>ys. represents (replay_step limits al c x) ys \<and> within_budgets limits ys \<and>
    ce_value ` snd ` set ys \<subseteq> ce_value ` snd ` set xs \<union> (case x of RecordOp event \<Rightarrow> {event} | _ \<Rightarrow> {})"
proof (cases x)
  case (RecordOp event)
  from replay_record_represents [OF assms(1), of limits al event]
  obtain c' where c': "replay_record limits al event c = Some c'" and
    rep: "represents c' (case as_str (json_index event ''execution_id'') of
         None \<Rightarrow> xs
       | Some eid \<Rightarrow> record_log limits eid
           \<lparr>ce_order = rc_next_order c + 1, ce_bytes = retained_bytes al event + 512, ce_value = event\<rparr> xs)"
    by blast
  show ?thesis
  proof (cases "as_str (json_index event ''execution_id'')")
    case None
    with c' rep assms(2) RecordOp show ?thesis by auto
  next
    case (Some eid)
    let ?e = "\<lparr>ce_order = rc_next_order c + 1, ce_bytes = retained_bytes al event + 512, ce_value = event\<rparr>"
    have "represents (replay_step limits al c x) (record_log limits eid ?e xs)"
      using c' rep Some RecordOp by simp
    moreover have "ce_value ` snd ` set (record_log limits eid ?e xs) \<subseteq>
        ce_value ` snd ` insert (eid, ?e) (set xs)"
      by (intro image_mono record_log_subset)
    ultimately show ?thesis
      using record_log_budgets [OF assms(2), of eid ?e] RecordOp by auto
  qed
next
  case (RemoveOp eid)
  let ?ys = "filter (\<lambda>x. fst x \<noteq> eid) xs"
  have "within_budgets limits ?ys" using assms(2) by (rule within_budgets_filter)
  moreover have "ce_value ` snd ` set ?ys \<subseteq> ce_value ` snd ` set xs" by (intro image_mono) auto
  moreover obtain c' where "remove_execution eid c = Some c'" "represents c' ?ys"
    using remove_execution_represents [OF assms(1), of eid] by blast
  ultimately show ?thesis by (intro exI [of _ ?ys]) (auto simp: RemoveOp)
qed

lemma replay_history:
  assumes "c = run_ops (replay_step limits al) replay_default ops"
  shows "\<exists>xs. represents c xs \<and> within_budgets limits xs \<and>
    ce_value ` snd ` set xs \<subseteq> {event. RecordOp event \<in> set ops}"
  using assms
proof (induction ops arbitrary: c rule: rev_induct)
  case Nil
  then show ?case
    by (intro exI [of _ "[]"])
      (simp add: represents_def within_budgets_def history_of_def replay_default_def)
next
  case (snoc x ops)
  then obtain xs where "represents (run_ops (replay_step limits al) replay_default ops) xs"
    "within_budgets limits xs" "ce_value ` snd ` set xs \<subseteq> {event. RecordOp event \<in> set ops}"
    by blast
  with replay_step_represents [OF this(1,2), of al x] snoc.prems show ?case
    by (force split: replay_op.splits)
qed

interpretation replay: bounded_store replay_default "replay_step limits al"
  "\<lambda>c. \<exists>xs. represents c xs \<and> within_budgets limits xs" rc_bytes "replay_connection_bytes limits"
  for limits al
proof unfold_locales
  show "\<exists>xs. represents replay_default xs \<and> within_budgets limits xs"
    using replay_history [of replay_default limits _ "[]"] by auto
  show "\<exists>xs. represents (replay_step limits al c x) xs \<and> within_budgets limits xs"
    if "\<exists>xs. represents c xs \<and> within_budgets limits xs" for c x
    using that replay_step_represents by blast
  show "rc_bytes c \<le> replay_connection_bytes limits"
    if "\<exists>xs. represents c xs \<and> within_budgets limits xs" for c
    using that by (auto simp: represents_def within_budgets_def)
qed

section \<open>Properties\<close>

text \<open>
  C37: the cache refines the log. From a cache that represents a log, recording an event returns,
  and the new cache represents the log with the event appended, the oldest events of its execution
  dropped until its share fits, then the oldest of all until the rest fits; removing an execution
  returns and leaves exactly the other executions' events. Neither loop runs forever.
\<close>

theorem replay_cache_refines_log:
  assumes "represents c xs"
  shows "(\<exists>c'. replay_record limits al event c = Some c' \<and>
      represents c'
        (case as_str (json_index event ''execution_id'') of
           None \<Rightarrow> xs
         | Some eid \<Rightarrow> record_log limits eid
             \<lparr>ce_order = rc_next_order c + 1, ce_bytes = retained_bytes al event + 512, ce_value = event\<rparr> xs)) \<and>
    (\<exists>c'. remove_execution eid c = Some c' \<and> represents c' (filter (\<lambda>x. fst x \<noteq> eid) xs)) \<and>
    replay_events c eid = map (\<lambda>x. ce_value (snd x)) (log_of eid xs)"
  using replay_record_represents [OF assms] remove_execution_represents [OF assms] assms
  by (simp add: replay_events_def represents_def history_of_def)

theorem replay_cache_refines_log_witness:
  "(\<exists>c'. replay_record default_limits sample_allocation (sample_event 1) replay_default = Some c') \<and>
   replay_events replay_default ''e'' = []"
proof -
  have "represents replay_default []"
    by (simp add: represents_def history_of_def replay_default_def)
  from replay_cache_refines_log [OF this, of default_limits sample_allocation "sample_event 1" "''e''"]
  show ?thesis by auto
qed

text \<open>
  The replay budgets. After any sequence of recorded events and removed executions the cache
  is within the connection budget, every execution within its own, and both counters and the global
  index agree with the histories.
\<close>

theorem replay_budgets_are_kept:
  assumes "c = run_ops (replay_step limits al) replay_default ops"
  shows "rc_bytes c \<le> replay_connection_bytes limits \<and>
    rc_bytes c = weight (hi_bytes \<circ> snd) (rc_histories c) \<and>
    (\<forall>eid h. map_of (rc_histories c) eid = Some h \<longrightarrow>
       hi_events h \<noteq> [] \<and> hi_bytes h = weight ce_bytes (hi_events h) \<and>
       hi_bytes h \<le> replay_execution_bytes limits \<and>
       (\<forall>e \<in> set (hi_events h). map_of (rc_order c) (ce_order e) = Some eid))"
proof -
  obtain xs where rep: "represents c xs" and budgets: "within_budgets limits xs"
    using replay_history [OF assms] by blast
  have bytes: "rc_bytes c \<le> replay_connection_bytes limits"
    unfolding assms by (rule replay.bounded_reachable)
  have total: "rc_bytes c = weight (hi_bytes \<circ> snd) (rc_histories c)"
    using rep by (rule represents_total)
  have "hi_events h \<noteq> [] \<and> hi_bytes h = weight ce_bytes (hi_events h) \<and>
       hi_bytes h \<le> replay_execution_bytes limits \<and>
       (\<forall>e \<in> set (hi_events h). map_of (rc_order c) (ce_order e) = Some eid)"
    if "map_of (rc_histories c) eid = Some h" for eid h
  proof -
    have h: "Some h = history_of eid xs" using rep that by (simp add: represents_def)
    have "distinct (map fst (rc_order c))"
      using rep by (auto simp: represents_def strict_sorted_iff comp_def)
    then have "map_of (rc_order c) (ce_order (snd x)) = Some (fst x)" if "x \<in> set xs" for x
      using rep that by (intro map_of_is_SomeI) (auto simp: represents_def)
    with h budgets show ?thesis
      by (auto simp: history_of_def within_budgets_def comp_def split: if_splits)
  qed
  with bytes total show ?thesis by blast
qed

theorem replay_budgets_are_kept_witness:
  "rc_bytes (run_ops (replay_step default_limits sample_allocation) replay_default
     [RecordOp (sample_event 1), RemoveOp ''x'', RecordOp (sample_event 2)])
   \<le> replay_connection_bytes default_limits"
  using replay_budgets_are_kept [OF refl] by blast

text \<open>
  C18: the preview is exact. The service puts the earliest replayable sequence number into the
  final event before that event is audited and recorded; the number it computes without changing
  the cache is the one the cache answers after recording, evictions for both budgets included.
\<close>

theorem replay_preview_is_exact:
  assumes "wf_limits limits" "c = run_ops (replay_step limits al) replay_default ops"
    and "\<forall>e. RecordOp e \<in> set ops \<longrightarrow> event_seq e \<noteq> None"
    and "as_str (json_index event ''execution_id'') = Some eid" "event_seq event = Some latest"
  shows "\<exists>c'. replay_record limits al event c = Some c' \<and>
    earliest_after limits al c event = earliest c' eid latest"
proof -
  obtain xs where rep: "represents c xs"
    and vals: "ce_value ` snd ` set xs \<subseteq> {event. RecordOp event \<in> set ops}"
    using replay_history [OF assms(2)] by blast
  let ?e = "\<lparr>ce_order = rc_next_order c + 1, ce_bytes = retained_bytes al event + 512, ce_value = event\<rparr>"
  obtain c' where c': "replay_record limits al event c = Some c'"
    and rep': "represents c' (record_log limits eid ?e xs)"
    using replay_record_represents [OF rep, of limits al event] assms(4) by auto
  have "\<forall>x \<in> set xs. event_seq (ce_value (snd x)) \<noteq> None" using vals assms(3) by fast
  moreover have "replay_execution_bytes limits \<le> replay_connection_bytes limits"
    using assms(1) by (simp add: wf_limits_def)
  ultimately have "earliest_after limits al c event = earliest c' eid latest"
    using earliest_after_represents [OF rep _ assms(4,5), of limits ?e al]
      earliest_represents [OF rep'] by simp
  with c' show ?thesis by blast
qed

theorem replay_preview_is_exact_witness:
  "\<exists>c'. replay_record default_limits sample_allocation (sample_event 2)
       (run_ops (replay_step default_limits sample_allocation) replay_default [RecordOp (sample_event 1)])
     = Some c' \<and>
   earliest_after default_limits sample_allocation
     (run_ops (replay_step default_limits sample_allocation) replay_default [RecordOp (sample_event 1)])
     (sample_event 2) = earliest c' ''e'' 2"
  by (rule replay_preview_is_exact [OF wf_default_limits refl])
    (auto simp: sample_event_def event_seq_def json_index_def obj_get_def json_nat_def)

end
