(* ===== verification/Service_State.thy ===== *)
theory Service_State
  imports Request_Validation Replay_Cache
begin

text \<open>
  The state of the service and its smaller operations: \<open>Service\<close> of \<open>src/service/mod.rs\<close> with
  \<open>state.rs\<close>, \<open>sessions.rs\<close> and the types of \<open>admission.rs\<close>. Objects shared with other threads (the
  control of an execution, an input queue, the validity flag of a subscription) live in a heap and
  are named by numbers; so are threads, start gates and reply channels. A channel is the messages
  in it and whether its other end is gone. Ordered maps and sets are the sorted lists of
  \<open>Ordered_Map\<close>.
\<close>

section \<open>Data\<close>

datatype lifecycle_message =
    LifecycleEvent json
  | TerminalRange json nat
  | Complete string "(json list \<times> json) rs_result"

record active_execution =
  ac_result :: json
  ac_control :: nat
  ac_sequence :: "64 word"
  ac_stdin :: "nat option"
  ac_control_input :: "nat option"
  ac_audit_metadata :: "json option"

record pending_disposal =
  pd_id :: json
  pd_remaining :: "string list"
  pd_execution_ids :: "string list"
  pd_deadline :: instant
  pd_failed :: "string list"
  pd_released :: nat

record subscription =
  sb_types :: "string list"
  sb_after_seq :: "64 word"
  sb_valid :: nat

record event_history =
  eh_events :: "json list"
  eh_earliest_seq :: "64 word"
  eh_latest_seq :: "64 word"

record ready_admission =
  ra_active :: active_execution
  ra_start :: nat

datatype admission_message = Ready ready_admission | Rejected runseal_error

record pending_admission =
  pa_id :: json
  pa_control :: nat
  pa_worker :: "nat option"
  pa_messages :: "admission_message list"
  pa_sender_gone :: bool
  pa_accept :: "unit rs_result option"
  pa_accept_gone :: bool
  pa_rejection :: "runseal_error option"

record owned_worker =
  ow_execution_id :: string
  ow_control :: nat
  ow_thread :: nat

record service_state =
  ss_executions :: execution_store
  ss_sessions :: "string list"

datatype service_mode = Direct | Stateful

record shared_heap =
  hp_controls :: "nat \<Rightarrow> execution_control"
  hp_inputs :: "nat \<Rightarrow> input_state"
  hp_flags :: "nat \<Rightarrow> bool"
  hp_next :: nat
  hp_replies :: "(nat \<times> 64 word) list"
  hp_retained :: "nat list"

record service =
  sv_state :: service_state
  sv_mode :: service_mode
  sv_active :: "(string \<times> active_execution) list"
  sv_disposals :: "(string \<times> pending_disposal) list"
  sv_unclean_sessions :: "(string \<times> string list) list"
  sv_lifecycle :: "lifecycle_message list"
  sv_pending_starts :: "nat list"
  sv_pending_admissions :: "pending_admission list"
  sv_workers :: "owned_worker list"
  sv_admission_cleanup_failed :: bool
  sv_subscriptions :: "(string \<times> subscription) list"
  sv_notification_guards :: "(string \<times> nat) list"
  sv_delivery_hold :: "nat option"
  sv_audit_index :: audit_index
  sv_replay_cache :: replay_cache
  sv_heap :: shared_heap

text \<open>
  What is fixed for a process (limits, host, allocator, the length of serialized JSON and the
  payloads other modules build), and what one call observes: the time, which threads have finished
  or panicked, which flags are still held by frames outside the service, and whether a thread can
  be started.
\<close>

record service_env =
  en_limits :: deployment_limits
  en_host :: host
  en_allocation :: allocation
  en_json_len :: "json \<Rightarrow> nat"
  en_version :: json
  en_capabilities :: json
  en_setup_status :: "string \<Rightarrow> (string, json) result"
  en_explain :: "sandbox_policy \<Rightarrow> string \<Rightarrow> json"

record moment =
  mo_now :: instant
  mo_finished :: "nat \<Rightarrow> bool"
  mo_panicked :: "nat \<Rightarrow> bool"
  mo_held :: "nat \<Rightarrow> bool"
  mo_spawn_ok :: bool

section \<open>Sets and stored state\<close>

abbreviation bs_insert :: "string \<Rightarrow> string list \<Rightarrow> string list" where
  "bs_insert \<equiv> insort_insert"

definition bs_extend :: "string list \<Rightarrow> string list \<Rightarrow> string list" where
  "bs_extend xs ys = fold bs_insert ys xs"

definition bs_entry :: "string \<Rightarrow> (string \<times> string list) list \<Rightarrow> string list" where
  "bs_entry k m = (case map_of m k of None \<Rightarrow> [] | Some xs \<Rightarrow> xs)"

definition service_state_default :: service_state where
  "service_state_default = \<lparr>ss_executions = execution_store_default, ss_sessions = []\<rparr>"

definition record_finished_execution :: "service_env \<Rightarrow> json \<Rightarrow> service_state \<Rightarrow> service_state" where
  "record_finished_execution env result st =
     (case record_finished (en_limits env) (en_allocation env) result (ss_executions st) of
        (Some session_id, executions) \<Rightarrow>
          st\<lparr>ss_executions := executions, ss_sessions := bs_insert session_id (ss_sessions st)\<rparr>
      | (None, executions) \<Rightarrow> st\<lparr>ss_executions := executions\<rparr>)"

definition execution_result :: "service_state \<Rightarrow> string \<Rightarrow> json option" where
  "execution_result st eid = store_result (ss_executions st) eid"

definition execution_status :: "service_state \<Rightarrow> string \<Rightarrow> string option" where
  "execution_status st eid = store_status (ss_executions st) eid"

definition execution_summaries :: "service_state \<Rightarrow> json list" where
  "execution_summaries st = summaries (ss_executions st)"

definition execution_ids_for_session :: "service_state \<Rightarrow> string \<Rightarrow> string list" where
  "execution_ids_for_session st session_id = ids_for_session (ss_executions st) session_id"

definition state_dispose_session :: "string \<Rightarrow> service_state \<Rightarrow> service_state" where
  "state_dispose_session session_id st = st\<lparr>ss_sessions := removeAll session_id (ss_sessions st)\<rparr>"

section \<open>The heap\<close>

definition heap_default :: shared_heap where
  "heap_default =
     \<lparr>hp_controls = (\<lambda>_. control_default), hp_inputs = (\<lambda>_. input_default), hp_flags = (\<lambda>_. False),
      hp_next = 0, hp_replies = [], hp_retained = []\<rparr>"

definition control_of :: "service \<Rightarrow> nat \<Rightarrow> execution_control" where
  "control_of sv c = hp_controls (sv_heap sv) c"

definition set_control :: "nat \<Rightarrow> execution_control \<Rightarrow> service \<Rightarrow> service" where
  "set_control c control sv =
     sv\<lparr>sv_heap := (sv_heap sv)\<lparr>hp_controls := (hp_controls (sv_heap sv))(c := control)\<rparr>\<rparr>"

definition set_input :: "nat \<Rightarrow> input_state \<Rightarrow> service \<Rightarrow> service" where
  "set_input q st sv =
     sv\<lparr>sv_heap := (sv_heap sv)\<lparr>hp_inputs := (hp_inputs (sv_heap sv))(q := st)\<rparr>\<rparr>"

definition set_flag :: "nat \<Rightarrow> bool \<Rightarrow> service \<Rightarrow> service" where
  "set_flag g b sv = sv\<lparr>sv_heap := (sv_heap sv)\<lparr>hp_flags := (hp_flags (sv_heap sv))(g := b)\<rparr>\<rparr>"

definition reply_range :: "nat \<Rightarrow> 64 word \<Rightarrow> service \<Rightarrow> service" where
  "reply_range r n sv = sv\<lparr>sv_heap := (sv_heap sv)\<lparr>hp_replies := hp_replies (sv_heap sv) @ [(r, n)]\<rparr>\<rparr>"

text \<open>Keeping a thread reaps those already kept that have finished.\<close>

definition retain_thread :: "moment \<Rightarrow> nat \<Rightarrow> service \<Rightarrow> service" where
  "retain_thread mo t sv =
     sv\<lparr>sv_heap := (sv_heap sv)\<lparr>hp_retained :=
       filter (\<lambda>t. \<not> mo_finished mo t) (hp_retained (sv_heap sv)) @ [t]\<rparr>\<rparr>"

definition fresh :: "service \<Rightarrow> nat \<times> service" where
  "fresh sv = (hp_next (sv_heap sv), sv\<lparr>sv_heap := (sv_heap sv)\<lparr>hp_next := hp_next (sv_heap sv) + 1\<rparr>\<rparr>)"

definition request_cause ::
  "service_env \<Rightarrow> moment \<Rightarrow> termination_cause \<Rightarrow> nat \<Rightarrow> service \<Rightarrow> service" where
  "request_cause env mo cause c sv =
     set_control c (snd (control_request (en_limits env) (mo_now mo) cause (control_of sv c))) sv"

section \<open>The service\<close>

definition service_new :: "service_mode \<Rightarrow> service" where
  "service_new mode =
     \<lparr>sv_state = service_state_default, sv_mode = mode, sv_active = [], sv_disposals = [],
      sv_unclean_sessions = [], sv_lifecycle = [], sv_pending_starts = [],
      sv_pending_admissions = [], sv_workers = [], sv_admission_cleanup_failed = False,
      sv_subscriptions = [], sv_notification_guards = [], sv_delivery_hold = None,
      sv_audit_index = audit_index_default, sv_replay_cache = replay_default,
      sv_heap = heap_default\<rparr>"

definition take_admitted_starts :: "service \<Rightarrow> nat list \<times> service" where
  "take_admitted_starts sv = (sv_pending_starts sv, sv\<lparr>sv_pending_starts := []\<rparr>)"

definition cancel_owned_for ::
  "service_env \<Rightarrow> moment \<Rightarrow> termination_cause \<Rightarrow> service \<Rightarrow> service" where
  "cancel_owned_for env mo cause sv =
     fold (request_cause env mo cause)
       (map (ac_control \<circ> snd) (sv_active sv) @ map pa_control (sv_pending_admissions sv)
         @ map ow_control (sv_workers sv)) sv"

definition cancel_owned :: "service_env \<Rightarrow> moment \<Rightarrow> service \<Rightarrow> service" where
  "cancel_owned env mo = cancel_owned_for env mo ClientDisconnected"

text \<open>A weak reference can be upgraded while a subscription, the hold or a frame keeps the flag.\<close>

definition upgrade :: "moment \<Rightarrow> service \<Rightarrow> nat \<Rightarrow> nat option" where
  "upgrade mo sv g =
     (if mo_held mo g \<or> list_ex (\<lambda>kv. sb_valid (snd kv) = g) (sv_subscriptions sv)
         \<or> sv_delivery_hold sv = Some g
      then Some g else None)"

definition delivery_guard :: "moment \<Rightarrow> service \<Rightarrow> json \<Rightarrow> nat option" where
  "delivery_guard mo sv message =
     (if json_index message ''method'' \<noteq> JStr ''event'' then None
      else Option.bind (as_str (json_index (json_index message ''params'') ''execution_id''))
             (\<lambda>eid. Option.bind (map_of (sv_notification_guards sv) eid) (upgrade mo sv)))"

definition revoke_guard :: "moment \<Rightarrow> string \<Rightarrow> service \<Rightarrow> service" where
  "revoke_guard mo eid sv =
     (case Option.bind (map_of (sv_notification_guards sv) eid) (upgrade mo sv) of
        Some previous \<Rightarrow> set_flag previous False sv
      | None \<Rightarrow> sv)"

definition install_subscription ::
  "moment \<Rightarrow> string \<Rightarrow> string list \<Rightarrow> 64 word \<Rightarrow> service \<Rightarrow> service" where
  "install_subscription mo eid types after_seq sv =
     (let sv = revoke_guard mo eid sv;
          (valid, sv) = fresh sv;
          sv = set_flag valid True sv in
      sv\<lparr>sv_notification_guards := bt_insert eid valid (sv_notification_guards sv),
         sv_subscriptions := bt_insert eid
           \<lparr>sb_types = types, sb_after_seq = after_seq, sb_valid = valid\<rparr> (sv_subscriptions sv)\<rparr>)"

definition has_active :: "service \<Rightarrow> bool" where
  "has_active sv \<longleftrightarrow> sv_active sv \<noteq> [] \<or> sv_pending_admissions sv \<noteq> [] \<or> sv_workers sv \<noteq> []"

definition mark_unclean :: "string \<Rightarrow> string list \<Rightarrow> service \<Rightarrow> service" where
  "mark_unclean session_id eids sv =
     sv\<lparr>sv_unclean_sessions := bt_insert session_id
          (bs_extend (bs_entry session_id (sv_unclean_sessions sv)) eids) (sv_unclean_sessions sv)\<rparr>"

definition close_unconfirmed_worker :: "string \<Rightarrow> service \<Rightarrow> service" where
  "close_unconfirmed_worker eid sv =
     (let sv = sv\<lparr>sv_admission_cleanup_failed := True\<rparr> in
      case map_of (sv_active sv) eid of
        None \<Rightarrow> sv
      | Some active \<Rightarrow>
          let sv = sv\<lparr>sv_active := bt_remove eid (sv_active sv)\<rparr> in
          (case as_str (json_index (ac_result active) ''session_id'') of
             None \<Rightarrow> sv
           | Some session_id \<Rightarrow> mark_unclean session_id [eid] sv))"

definition event_message :: "json \<Rightarrow> json" where
  "event_message event =
     json_object [(''jsonrpc'', JStr ''2.0''), (''method'', JStr ''event''), (''params'', event)]"

definition deliver_event :: "json \<Rightarrow> service \<Rightarrow> json list \<times> service" where
  "deliver_event event sv =
     (case as_str (json_index event ''execution_id'') of
        None \<Rightarrow> ([], sv)
      | Some eid \<Rightarrow>
          (case map_of (sv_subscriptions sv) eid of
             None \<Rightarrow> ([], sv)
           | Some subscription \<Rightarrow>
               let sv = sv\<lparr>sv_delivery_hold := Some (sb_valid subscription)\<rparr>;
                   sequence = (case as_u64 (json_index event ''event_seq'') of Some n \<Rightarrow> n | None \<Rightarrow> 0) in
               if sequence \<le> sb_after_seq subscription then ([], sv)
               else
                 let sv = sv\<lparr>sv_subscriptions := bt_insert eid (subscription\<lparr>sb_after_seq := sequence\<rparr>)
                            (sv_subscriptions sv)\<rparr> in
                 if \<not> event_matches_types event (sb_types subscription) then ([], sv)
                 else ([event_message event], sv)))"

definition service_history :: "service \<Rightarrow> string \<Rightarrow> event_history option" where
  "service_history sv eid =
     (let latest = (case map_of (sv_active sv) eid of
                      Some active \<Rightarrow> Some (ac_sequence active)
                    | None \<Rightarrow> map_option (\<lambda>result. case as_u64 (json_index result ''latest_seq'') of
                                                     Some n \<Rightarrow> n | None \<Rightarrow> 0)
                                (execution_result (sv_state sv) eid)) in
      map_option (\<lambda>latest_seq.
        \<lparr>eh_events = replay_events (sv_replay_cache sv) eid,
         eh_earliest_seq = earliest (sv_replay_cache sv) eid latest_seq,
         eh_latest_seq = latest_seq\<rparr>) latest)"

section \<open>What the operations leave alone\<close>

lemma set_control_frame [simp]:
  "sv_active (set_control c x sv) = sv_active sv"
  "sv_pending_admissions (set_control c x sv) = sv_pending_admissions sv"
  "sv_workers (set_control c x sv) = sv_workers sv"
  "sv_pending_starts (set_control c x sv) = sv_pending_starts sv"
  "sv_admission_cleanup_failed (set_control c x sv) = sv_admission_cleanup_failed sv"
  "sv_unclean_sessions (set_control c x sv) = sv_unclean_sessions sv"
  "sv_disposals (set_control c x sv) = sv_disposals sv"
  "sv_subscriptions (set_control c x sv) = sv_subscriptions sv"
  "sv_lifecycle (set_control c x sv) = sv_lifecycle sv"
  "sv_mode (set_control c x sv) = sv_mode sv"
  "sv_state (set_control c x sv) = sv_state sv"
  "sv_replay_cache (set_control c x sv) = sv_replay_cache sv"
  "sv_audit_index (set_control c x sv) = sv_audit_index sv"
  by (simp_all add: set_control_def Let_def split: option.splits if_splits prod.splits)

lemma set_input_frame [simp]:
  "sv_active (set_input q st sv) = sv_active sv"
  "sv_pending_admissions (set_input q st sv) = sv_pending_admissions sv"
  "sv_workers (set_input q st sv) = sv_workers sv"
  "sv_pending_starts (set_input q st sv) = sv_pending_starts sv"
  "sv_admission_cleanup_failed (set_input q st sv) = sv_admission_cleanup_failed sv"
  "sv_unclean_sessions (set_input q st sv) = sv_unclean_sessions sv"
  "sv_disposals (set_input q st sv) = sv_disposals sv"
  "sv_subscriptions (set_input q st sv) = sv_subscriptions sv"
  "sv_lifecycle (set_input q st sv) = sv_lifecycle sv"
  "sv_mode (set_input q st sv) = sv_mode sv"
  "sv_state (set_input q st sv) = sv_state sv"
  "sv_replay_cache (set_input q st sv) = sv_replay_cache sv"
  "sv_audit_index (set_input q st sv) = sv_audit_index sv"
  by (simp_all add: set_input_def Let_def split: option.splits if_splits prod.splits)

lemma set_flag_frame [simp]:
  "sv_active (set_flag g b sv) = sv_active sv"
  "sv_pending_admissions (set_flag g b sv) = sv_pending_admissions sv"
  "sv_workers (set_flag g b sv) = sv_workers sv"
  "sv_pending_starts (set_flag g b sv) = sv_pending_starts sv"
  "sv_admission_cleanup_failed (set_flag g b sv) = sv_admission_cleanup_failed sv"
  "sv_unclean_sessions (set_flag g b sv) = sv_unclean_sessions sv"
  "sv_disposals (set_flag g b sv) = sv_disposals sv"
  "sv_subscriptions (set_flag g b sv) = sv_subscriptions sv"
  "sv_lifecycle (set_flag g b sv) = sv_lifecycle sv"
  "sv_mode (set_flag g b sv) = sv_mode sv"
  "sv_state (set_flag g b sv) = sv_state sv"
  "sv_replay_cache (set_flag g b sv) = sv_replay_cache sv"
  "sv_audit_index (set_flag g b sv) = sv_audit_index sv"
  by (simp_all add: set_flag_def Let_def split: option.splits if_splits prod.splits)

lemma reply_range_frame [simp]:
  "sv_active (reply_range r n sv) = sv_active sv"
  "sv_pending_admissions (reply_range r n sv) = sv_pending_admissions sv"
  "sv_workers (reply_range r n sv) = sv_workers sv"
  "sv_pending_starts (reply_range r n sv) = sv_pending_starts sv"
  "sv_admission_cleanup_failed (reply_range r n sv) = sv_admission_cleanup_failed sv"
  "sv_unclean_sessions (reply_range r n sv) = sv_unclean_sessions sv"
  "sv_disposals (reply_range r n sv) = sv_disposals sv"
  "sv_subscriptions (reply_range r n sv) = sv_subscriptions sv"
  "sv_lifecycle (reply_range r n sv) = sv_lifecycle sv"
  "sv_mode (reply_range r n sv) = sv_mode sv"
  "sv_state (reply_range r n sv) = sv_state sv"
  "sv_replay_cache (reply_range r n sv) = sv_replay_cache sv"
  "sv_audit_index (reply_range r n sv) = sv_audit_index sv"
  by (simp_all add: reply_range_def Let_def split: option.splits if_splits prod.splits)

lemma retain_thread_frame [simp]:
  "sv_active (retain_thread mo t sv) = sv_active sv"
  "sv_pending_admissions (retain_thread mo t sv) = sv_pending_admissions sv"
  "sv_workers (retain_thread mo t sv) = sv_workers sv"
  "sv_pending_starts (retain_thread mo t sv) = sv_pending_starts sv"
  "sv_admission_cleanup_failed (retain_thread mo t sv) = sv_admission_cleanup_failed sv"
  "sv_unclean_sessions (retain_thread mo t sv) = sv_unclean_sessions sv"
  "sv_disposals (retain_thread mo t sv) = sv_disposals sv"
  "sv_subscriptions (retain_thread mo t sv) = sv_subscriptions sv"
  "sv_lifecycle (retain_thread mo t sv) = sv_lifecycle sv"
  "sv_mode (retain_thread mo t sv) = sv_mode sv"
  "sv_state (retain_thread mo t sv) = sv_state sv"
  "sv_replay_cache (retain_thread mo t sv) = sv_replay_cache sv"
  "sv_audit_index (retain_thread mo t sv) = sv_audit_index sv"
  by (simp_all add: retain_thread_def Let_def split: option.splits if_splits prod.splits)

lemma fresh_frame [simp]:
  "sv_active (snd (fresh sv)) = sv_active sv"
  "sv_pending_admissions (snd (fresh sv)) = sv_pending_admissions sv"
  "sv_workers (snd (fresh sv)) = sv_workers sv"
  "sv_pending_starts (snd (fresh sv)) = sv_pending_starts sv"
  "sv_admission_cleanup_failed (snd (fresh sv)) = sv_admission_cleanup_failed sv"
  "sv_unclean_sessions (snd (fresh sv)) = sv_unclean_sessions sv"
  "sv_disposals (snd (fresh sv)) = sv_disposals sv"
  "sv_subscriptions (snd (fresh sv)) = sv_subscriptions sv"
  "sv_lifecycle (snd (fresh sv)) = sv_lifecycle sv"
  "sv_mode (snd (fresh sv)) = sv_mode sv"
  "sv_state (snd (fresh sv)) = sv_state sv"
  "sv_replay_cache (snd (fresh sv)) = sv_replay_cache sv"
  "sv_audit_index (snd (fresh sv)) = sv_audit_index sv"
  by (simp_all add: fresh_def Let_def split: option.splits if_splits prod.splits)

lemma request_cause_frame [simp]:
  "sv_active (request_cause env mo cause c sv) = sv_active sv"
  "sv_pending_admissions (request_cause env mo cause c sv) = sv_pending_admissions sv"
  "sv_workers (request_cause env mo cause c sv) = sv_workers sv"
  "sv_pending_starts (request_cause env mo cause c sv) = sv_pending_starts sv"
  "sv_admission_cleanup_failed (request_cause env mo cause c sv) = sv_admission_cleanup_failed sv"
  "sv_unclean_sessions (request_cause env mo cause c sv) = sv_unclean_sessions sv"
  "sv_disposals (request_cause env mo cause c sv) = sv_disposals sv"
  "sv_subscriptions (request_cause env mo cause c sv) = sv_subscriptions sv"
  "sv_lifecycle (request_cause env mo cause c sv) = sv_lifecycle sv"
  "sv_mode (request_cause env mo cause c sv) = sv_mode sv"
  "sv_state (request_cause env mo cause c sv) = sv_state sv"
  "sv_replay_cache (request_cause env mo cause c sv) = sv_replay_cache sv"
  "sv_audit_index (request_cause env mo cause c sv) = sv_audit_index sv"
  by (simp_all add: request_cause_def Let_def split: option.splits if_splits prod.splits)

lemma revoke_guard_frame [simp]:
  "sv_active (revoke_guard mo eid sv) = sv_active sv"
  "sv_pending_admissions (revoke_guard mo eid sv) = sv_pending_admissions sv"
  "sv_workers (revoke_guard mo eid sv) = sv_workers sv"
  "sv_pending_starts (revoke_guard mo eid sv) = sv_pending_starts sv"
  "sv_admission_cleanup_failed (revoke_guard mo eid sv) = sv_admission_cleanup_failed sv"
  "sv_unclean_sessions (revoke_guard mo eid sv) = sv_unclean_sessions sv"
  "sv_disposals (revoke_guard mo eid sv) = sv_disposals sv"
  "sv_subscriptions (revoke_guard mo eid sv) = sv_subscriptions sv"
  "sv_lifecycle (revoke_guard mo eid sv) = sv_lifecycle sv"
  "sv_mode (revoke_guard mo eid sv) = sv_mode sv"
  "sv_state (revoke_guard mo eid sv) = sv_state sv"
  "sv_replay_cache (revoke_guard mo eid sv) = sv_replay_cache sv"
  "sv_audit_index (revoke_guard mo eid sv) = sv_audit_index sv"
  by (simp_all add: revoke_guard_def Let_def split: option.splits if_splits prod.splits)

lemma install_subscription_frame [simp]:
  "sv_active (install_subscription mo eid types n sv) = sv_active sv"
  "sv_pending_admissions (install_subscription mo eid types n sv) = sv_pending_admissions sv"
  "sv_workers (install_subscription mo eid types n sv) = sv_workers sv"
  "sv_pending_starts (install_subscription mo eid types n sv) = sv_pending_starts sv"
  "sv_admission_cleanup_failed (install_subscription mo eid types n sv) = sv_admission_cleanup_failed sv"
  "sv_unclean_sessions (install_subscription mo eid types n sv) = sv_unclean_sessions sv"
  "sv_disposals (install_subscription mo eid types n sv) = sv_disposals sv"
  "sv_lifecycle (install_subscription mo eid types n sv) = sv_lifecycle sv"
  "sv_mode (install_subscription mo eid types n sv) = sv_mode sv"
  "sv_state (install_subscription mo eid types n sv) = sv_state sv"
  "sv_replay_cache (install_subscription mo eid types n sv) = sv_replay_cache sv"
  "sv_audit_index (install_subscription mo eid types n sv) = sv_audit_index sv"
  by (simp_all add: install_subscription_def fresh_def Let_def split: option.splits if_splits prod.splits)

lemma mark_unclean_frame [simp]:
  "sv_active (mark_unclean session eids sv) = sv_active sv"
  "sv_pending_admissions (mark_unclean session eids sv) = sv_pending_admissions sv"
  "sv_workers (mark_unclean session eids sv) = sv_workers sv"
  "sv_pending_starts (mark_unclean session eids sv) = sv_pending_starts sv"
  "sv_admission_cleanup_failed (mark_unclean session eids sv) = sv_admission_cleanup_failed sv"
  "sv_disposals (mark_unclean session eids sv) = sv_disposals sv"
  "sv_subscriptions (mark_unclean session eids sv) = sv_subscriptions sv"
  "sv_lifecycle (mark_unclean session eids sv) = sv_lifecycle sv"
  "sv_mode (mark_unclean session eids sv) = sv_mode sv"
  "sv_state (mark_unclean session eids sv) = sv_state sv"
  "sv_replay_cache (mark_unclean session eids sv) = sv_replay_cache sv"
  "sv_audit_index (mark_unclean session eids sv) = sv_audit_index sv"
  by (simp_all add: mark_unclean_def Let_def split: option.splits if_splits prod.splits)

lemma close_unconfirmed_worker_frame [simp]:
  "sv_pending_admissions (close_unconfirmed_worker eid sv) = sv_pending_admissions sv"
  "sv_workers (close_unconfirmed_worker eid sv) = sv_workers sv"
  "sv_pending_starts (close_unconfirmed_worker eid sv) = sv_pending_starts sv"
  "sv_disposals (close_unconfirmed_worker eid sv) = sv_disposals sv"
  "sv_subscriptions (close_unconfirmed_worker eid sv) = sv_subscriptions sv"
  "sv_lifecycle (close_unconfirmed_worker eid sv) = sv_lifecycle sv"
  "sv_mode (close_unconfirmed_worker eid sv) = sv_mode sv"
  "sv_state (close_unconfirmed_worker eid sv) = sv_state sv"
  "sv_replay_cache (close_unconfirmed_worker eid sv) = sv_replay_cache sv"
  "sv_audit_index (close_unconfirmed_worker eid sv) = sv_audit_index sv"
  by (simp_all add: close_unconfirmed_worker_def Let_def split: option.splits if_splits prod.splits)

lemma deliver_event_frame [simp]:
  "sv_active (snd (deliver_event event sv)) = sv_active sv"
  "sv_pending_admissions (snd (deliver_event event sv)) = sv_pending_admissions sv"
  "sv_workers (snd (deliver_event event sv)) = sv_workers sv"
  "sv_pending_starts (snd (deliver_event event sv)) = sv_pending_starts sv"
  "sv_admission_cleanup_failed (snd (deliver_event event sv)) = sv_admission_cleanup_failed sv"
  "sv_unclean_sessions (snd (deliver_event event sv)) = sv_unclean_sessions sv"
  "sv_disposals (snd (deliver_event event sv)) = sv_disposals sv"
  "sv_lifecycle (snd (deliver_event event sv)) = sv_lifecycle sv"
  "sv_mode (snd (deliver_event event sv)) = sv_mode sv"
  "sv_state (snd (deliver_event event sv)) = sv_state sv"
  "sv_replay_cache (snd (deliver_event event sv)) = sv_replay_cache sv"
  "sv_audit_index (snd (deliver_event event sv)) = sv_audit_index sv"
  by (simp_all add: deliver_event_def Let_def split: option.splits if_splits prod.splits)

end
