(* ===== verification/Service_Lifecycle.thy ===== *)
theory Service_Lifecycle
  imports Service_State
begin

text \<open>
  What the service does between requests, from \<open>src/service/mod.rs\<close>: the messages of execution
  threads (\<open>poll_lifecycle\<close>), the disposal of sessions (\<open>finish_disposal\<close>, \<open>poll_disposal_deadlines\<close>) and
  the admission of executions (\<open>poll_admissions\<close>), whose two loops over an index with \<open>swap_remove\<close>
  are recursions with a termination measure.
\<close>

section \<open>Disposal of sessions\<close>

definition release_execution :: "service_env \<Rightarrow> moment \<Rightarrow> string \<Rightarrow> service \<Rightarrow> service" where
  "release_execution env mo eid sv =
     (let sv = sv\<lparr>sv_subscriptions := bt_remove eid (sv_subscriptions sv)\<rparr>;
          sv = revoke_guard mo eid sv in
      sv\<lparr>sv_replay_cache :=
           replay_step (en_limits env) (en_allocation env) (sv_replay_cache sv) (RemoveOp eid)\<rparr>)"

definition finish_disposal ::
  "service_env \<Rightarrow> moment \<Rightarrow> string \<Rightarrow> service \<Rightarrow> json list \<times> service" where
  "finish_disposal env mo session_id sv =
     (case map_of (sv_disposals sv) session_id of
        None \<Rightarrow> ([], sv)
      | Some disposal \<Rightarrow>
          let sv = sv\<lparr>sv_disposals := bt_remove session_id (sv_disposals sv)\<rparr> in
          if pd_failed disposal \<noteq> []
          then ([rpc_error (pd_id disposal)
                   (error_with_details ''EXECUTION_CLEANUP_FAILED'' ''session cleanup could not be verified''
                     (json_object [(''session_id'', JStr session_id), (''cleanup_complete'', JBool False),
                        (''execution_ids'', json_strs (pd_failed disposal))]))], sv)
          else
            let sv = fold (release_execution env mo) (pd_execution_ids disposal) sv in
            ([rpc_result (pd_id disposal)
                (json_object [(''session_id'', JStr session_id), (''status'', JStr ''disposed''),
                   (''released_executions'', json_nat (pd_released disposal)),
                   (''cleanup_complete'', JBool True)])],
             sv\<lparr>sv_state := state_dispose_session session_id (sv_state sv)\<rparr>))"

definition expire_disposal ::
  "service_env \<Rightarrow> moment \<Rightarrow> string \<Rightarrow> json list \<times> service \<Rightarrow> json list \<times> service" where
  "expire_disposal env mo session acc =
     (let (messages, sv) = acc;
          sv = (case map_of (sv_disposals sv) session of
                  None \<Rightarrow> sv
                | Some disposal \<Rightarrow>
                    mark_unclean session (pd_remaining disposal)
                      (sv\<lparr>sv_disposals := bt_insert session
                            (disposal\<lparr>pd_failed := pd_failed disposal @ pd_remaining disposal\<rparr>)
                            (sv_disposals sv)\<rparr>));
          (answers, sv) = finish_disposal env mo session sv in
      (messages @ answers, sv))"

definition poll_disposal_deadlines ::
  "service_env \<Rightarrow> moment \<Rightarrow> service \<Rightarrow> json list \<times> service" where
  "poll_disposal_deadlines env mo sv =
     (let expired = map fst (filter (\<lambda>kv. pd_remaining (snd kv) \<noteq> [] \<and> pd_deadline (snd kv) \<le> mo_now mo)
                      (sv_disposals sv)) in
      fold (expire_disposal env mo) expired ([], sv))"

section \<open>Messages of execution threads\<close>

definition is_terminal_type :: "json \<Rightarrow> bool" where
  "is_terminal_type event \<longleftrightarrow>
     as_str (json_index event ''type'') = Some ''execution.finished''
     \<or> as_str (json_index event ''type'') = Some ''execution.failed''"

definition completion_of :: "(json list \<times> json) rs_result \<Rightarrow> (json \<times> json) option" where
  "completion_of outcome =
     (case outcome of
        Inr (events, result) \<Rightarrow>
          if events \<noteq> [] \<and> is_terminal_type (last events) then Some (result, last events) else None
      | Inl err \<Rightarrow> map_option (\<lambda>terminal. (json_index terminal ''result'', terminal)) (err_terminal_event err))"

definition terminal_rejected ::
  "active_execution \<Rightarrow> string \<Rightarrow> string \<Rightarrow> json \<Rightarrow> json \<Rightarrow> bool" where
  "terminal_rejected active eid session_id result terminal \<longleftrightarrow>
     json_index terminal ''execution_id'' \<noteq> JStr eid
     \<or> json_index (json_index terminal ''result'') ''execution_id'' \<noteq> JStr eid
     \<or> json_index (json_index terminal ''result'') ''session_id'' \<noteq> JStr session_id
     \<or> json_index result ''execution_id'' \<noteq> JStr eid
     \<or> json_index result ''session_id'' \<noteq> JStr session_id
     \<or> json_index result ''cleanup_complete''
         \<noteq> json_index (json_index terminal ''result'') ''cleanup_complete''
     \<or> \<not> is_terminal_type terminal
     \<or> (case as_u64 (json_index terminal ''event_seq'') of
          None \<Rightarrow> True | Some sequence \<Rightarrow> sequence \<le> ac_sequence active)
     \<or> as_str (json_index result ''status'') \<notin> {Some ''finished'', Some ''failed''}
     \<or> json_index result ''status'' \<noteq> json_index (json_index terminal ''result'') ''status''
     \<or> (as_str (json_index terminal ''type''), as_str (json_index result ''status''))
         \<notin> {(Some ''execution.finished'', Some ''finished''), (Some ''execution.failed'', Some ''failed'')}
     \<or> list_ex (\<lambda>key. json_index terminal key \<noteq> json_index (ac_result active) key
                    \<or> json_index result key \<noteq> json_index (ac_result active) key)
         [''policy_id'', ''policy_hash'', ''policy_epoch'']"

definition strip_output :: "json \<Rightarrow> json" where
  "strip_output result =
     (case result of JObj m \<Rightarrow> JObj (obj_remove ''stderr'' (obj_remove ''stdout'' m)) | _ \<Rightarrow> result)"

definition with_metadata :: "active_execution \<Rightarrow> json \<Rightarrow> json" where
  "with_metadata active event =
     (case ac_audit_metadata active of
        Some metadata \<Rightarrow> json_set event ''metadata'' metadata
      | None \<Rightarrow> event)"

definition record_audit :: "service_env \<Rightarrow> json \<Rightarrow> service \<Rightarrow> service" where
  "record_audit env event sv =
     sv\<lparr>sv_audit_index := audit_record (en_limits env) (en_allocation env) (sv_audit_index sv) event\<rparr>"

definition record_replay :: "service_env \<Rightarrow> json \<Rightarrow> service \<Rightarrow> service" where
  "record_replay env event sv =
     sv\<lparr>sv_replay_cache :=
          replay_step (en_limits env) (en_allocation env) (sv_replay_cache sv) (RecordOp event)\<rparr>"

definition settle_cleanup :: "string \<Rightarrow> string \<Rightarrow> json \<Rightarrow> json \<Rightarrow> service \<Rightarrow> service" where
  "settle_cleanup session_id eid result terminal sv =
     (if json_index result ''cleanup_complete'' \<noteq> JBool True
         \<or> json_index (json_index terminal ''result'') ''cleanup_complete'' \<noteq> JBool True
      then mark_unclean session_id [eid] sv
      else (case map_of (sv_unclean_sessions sv) session_id of
              None \<Rightarrow> sv
            | Some unclean \<Rightarrow>
                let unclean = removeAll eid unclean in
                if unclean = [] then sv\<lparr>sv_unclean_sessions := bt_remove session_id (sv_unclean_sessions sv)\<rparr>
                else sv\<lparr>sv_unclean_sessions := bt_insert session_id unclean (sv_unclean_sessions sv)\<rparr>))"

definition settle_disposal :: "string \<Rightarrow> string \<Rightarrow> json \<Rightarrow> service \<Rightarrow> service" where
  "settle_disposal session_id eid result sv =
     (case map_of (sv_disposals sv) session_id of
        None \<Rightarrow> sv
      | Some disposal \<Rightarrow>
          if eid \<notin> set (pd_remaining disposal) then sv
          else
            let disposal = disposal\<lparr>pd_remaining := removeAll eid (pd_remaining disposal)\<rparr>;
                disposal = (if json_index result ''cleanup_complete'' = JBool True
                            then disposal\<lparr>pd_released := pd_released disposal + 1\<rparr>
                            else disposal\<lparr>pd_failed := pd_failed disposal @ [eid]\<rparr>) in
            sv\<lparr>sv_disposals := bt_insert session_id disposal (sv_disposals sv)\<rparr>)"

definition accept_terminal ::
  "service_env \<Rightarrow> moment \<Rightarrow> active_execution \<Rightarrow> string \<Rightarrow> string \<Rightarrow> json \<Rightarrow> json \<Rightarrow> service \<Rightarrow>
     json list \<times> service" where
  "accept_terminal env mo active eid session_id result terminal sv =
     (let result = strip_output result;
          sv = record_replay env terminal sv;
          sv = record_audit env (with_metadata active terminal) sv;
          sv = (if sv_mode sv = Stateful
                then sv\<lparr>sv_state := record_finished_execution env result (sv_state sv)\<rparr> else sv);
          sv = settle_cleanup session_id eid result terminal sv;
          sv = settle_disposal session_id eid result sv;
          (messages, sv) = deliver_event terminal sv;
          (answers, sv) =
            (case map_of (sv_disposals sv) session_id of
               Some disposal \<Rightarrow> if pd_remaining disposal = [] then finish_disposal env mo session_id sv
                               else ([], sv)
             | None \<Rightarrow> ([], sv)) in
      (messages @ answers,
       sv\<lparr>sv_subscriptions := filter (\<lambda>kv. map_of (sv_active sv) (fst kv) \<noteq> None
              \<or> execution_status (sv_state sv) (fst kv) \<noteq> None) (sv_subscriptions sv)\<rparr>))"

definition on_complete ::
  "service_env \<Rightarrow> moment \<Rightarrow> string \<Rightarrow> (json list \<times> json) rs_result \<Rightarrow> service \<Rightarrow> json list \<times> service" where
  "on_complete env mo eid outcome sv =
     (case map_of (sv_active sv) eid of
        None \<Rightarrow> ([], sv)
      | Some active \<Rightarrow>
          let sv = sv\<lparr>sv_active := bt_remove eid (sv_active sv)\<rparr>;
              session_id = (case as_str (json_index (ac_result active) ''session_id'') of
                              Some s \<Rightarrow> s | None \<Rightarrow> '''');
              sv = mark_unclean session_id [eid] sv in
          case completion_of outcome of
            None \<Rightarrow> ([], sv)
          | Some (result, terminal) \<Rightarrow>
              if terminal_rejected active eid session_id result terminal then ([], sv)
              else accept_terminal env mo active eid session_id result terminal sv)"

definition set_active :: "string \<Rightarrow> active_execution \<Rightarrow> service \<Rightarrow> service" where
  "set_active eid active sv = sv\<lparr>sv_active := bt_insert eid active (sv_active sv)\<rparr>"

definition on_event :: "service_env \<Rightarrow> json \<Rightarrow> service \<Rightarrow> json list \<times> service" where
  "on_event env event sv =
     (case as_str (json_index event ''execution_id'') of
        None \<Rightarrow> ([], sv)
      | Some eid \<Rightarrow>
          (case map_of (sv_active sv) eid of
             None \<Rightarrow> ([], sv)
           | Some active \<Rightarrow>
               let sequence = (case as_u64 (json_index event ''event_seq'') of
                                 Some n \<Rightarrow> n | None \<Rightarrow> ac_sequence active);
                   active = active\<lparr>ac_sequence := sequence\<rparr>;
                   sv = record_audit env (with_metadata active (audit_stream_event_metadata event)) sv;
                   active =
                     (if json_index event ''type'' = JStr ''execution.started''
                      then let result = json_set (ac_result active) ''started_at'' (json_index event ''time'') in
                           active\<lparr>ac_result :=
                             (if \<not> is_cancelled (control_of sv (ac_control active))
                              then json_set result ''status'' (JStr ''running'') else result)\<rparr>
                      else active);
                   sv = record_replay env event sv;
                   result = json_set (ac_result active) ''latest_seq'' (json_u64 sequence);
                   result = json_set result ''earliest_available_seq''
                              (json_u64 (earliest (sv_replay_cache sv) eid sequence));
                   sv = set_active eid (active\<lparr>ac_result := result\<rparr>) sv in
               deliver_event event sv))"

definition poll_lifecycle :: "service_env \<Rightarrow> moment \<Rightarrow> service \<Rightarrow> json list \<times> service" where
  "poll_lifecycle env mo sv =
     (let sv = sv\<lparr>sv_delivery_hold := None\<rparr>;
          sv = sv\<lparr>sv_notification_guards :=
                 filter (\<lambda>kv. upgrade mo sv (snd kv) \<noteq> None) (sv_notification_guards sv)\<rparr> in
      case sv_lifecycle sv of
        [] \<Rightarrow> ([], sv)
      | message # rest \<Rightarrow>
          let sv = sv\<lparr>sv_lifecycle := rest\<rparr> in
          (case message of
             TerminalRange event reply \<Rightarrow>
               ([], reply_range reply
                  (earliest_after (en_limits env) (en_allocation env) (sv_replay_cache sv) event) sv)
           | LifecycleEvent event \<Rightarrow> on_event env event sv
           | Complete eid outcome \<Rightarrow> on_complete env mo eid outcome sv))"

section \<open>Admission\<close>

definition swap_remove :: "nat \<Rightarrow> 'a list \<Rightarrow> 'a list" where
  "swap_remove i xs = (if i + 1 = length xs then butlast xs else (butlast xs)[i := last xs])"

lemma length_swap_remove [simp]: "length (swap_remove i xs) = length xs - 1"
  by (simp add: swap_remove_def)

function poll_workers :: "moment \<Rightarrow> nat \<Rightarrow> service \<Rightarrow> service" where
  "poll_workers mo index sv =
     (if index < length (sv_workers sv) then
        let worker = sv_workers sv ! index;
            removed = sv\<lparr>sv_workers := swap_remove index (sv_workers sv)\<rparr> in
        if mo_finished mo (ow_thread worker) then
          poll_workers mo index
            (if mo_panicked mo (ow_thread worker)
             then close_unconfirmed_worker (ow_execution_id worker) removed else removed)
        else if cleanup_deadline_expired (mo_now mo) (control_of sv (ow_control worker)) then
          poll_workers mo index
            (retain_thread mo (ow_thread worker)
              (close_unconfirmed_worker (ow_execution_id worker) removed))
        else poll_workers mo (index + 1) sv
      else sv)"
  by pat_completeness auto
termination
  by (relation "measure (\<lambda>(mo, index, sv). length (sv_workers sv) - index)") auto

declare poll_workers.simps [simp del]

definition unverified_cleanup_error :: runseal_error where
  "unverified_cleanup_error =
     error_with_details ''EXECUTION_CLEANUP_FAILED'' ''unverified execution cleanup prevents admission''
       (json_object [(''cleanup_complete'', JBool False)])"

definition admission_error :: "string \<Rightarrow> runseal_error" where
  "admission_error reason =
     error_with_details ''EXECUTION_CLEANUP_FAILED'' reason
       (json_object [(''cleanup_complete'', JBool False)])"

definition set_pending :: "nat \<Rightarrow> pending_admission \<Rightarrow> service \<Rightarrow> service" where
  "set_pending index pending sv =
     sv\<lparr>sv_pending_admissions := (sv_pending_admissions sv)[index := pending]\<rparr>"

text \<open>Sending to the worker fails when its end is gone or the single slot is taken.\<close>

definition accept_ready :: "pending_admission \<Rightarrow> bool" where
  "accept_ready pending \<longleftrightarrow> \<not> pa_accept_gone pending \<and> pa_accept pending = None"

definition admit ::
  "moment \<Rightarrow> nat \<Rightarrow> pending_admission \<Rightarrow> ready_admission \<Rightarrow> service \<Rightarrow> json list \<times> service" where
  "admit mo index pending ready sv =
     (let eid = (case as_str (json_index (ac_result (ra_active ready)) ''execution_id'') of
                   Some s \<Rightarrow> s | None \<Rightarrow> '''');
          receipt = ac_result (ra_active ready);
          sv = set_active eid (ra_active ready) sv;
          sv = install_subscription mo eid [] 0 sv;
          sv = sv\<lparr>sv_pending_starts := sv_pending_starts sv @ [ra_start ready]\<rparr>;
          sv = sv\<lparr>sv_pending_admissions := swap_remove index (sv_pending_admissions sv)\<rparr>;
          sv = (case pa_worker pending of
                  None \<Rightarrow> sv
                | Some thread \<Rightarrow>
                    sv\<lparr>sv_workers := sv_workers sv @
                         [\<lparr>ow_execution_id = eid, ow_control = pa_control pending, ow_thread = thread\<rparr>]\<rparr>) in
      ([rpc_result (pa_id pending) receipt], sv))"

text \<open>
  The answer of a worker: \<open>Inl\<close> ends the turn of the loop with \<open>continue\<close>, \<open>Inr\<close> goes on to the checks.
\<close>

definition receive_admission ::
  "service_env \<Rightarrow> moment \<Rightarrow> nat \<Rightarrow> pending_admission \<Rightarrow> service \<Rightarrow> (json list \<times> service) + service" where
  "receive_admission env mo index pending sv =
     (case pa_messages pending of
        Ready ready # rest \<Rightarrow>
          let pending = pending\<lparr>pa_messages := rest\<rparr>;
              blocked = sv_admission_cleanup_failed sv \<or> sv_unclean_sessions sv \<noteq> [] in
          if is_cancelled (control_of sv (pa_control pending)) \<or> blocked then
            let sv = request_cause env mo FailedToStart (pa_control pending) sv;
                error = (if blocked then unverified_cleanup_error
                         else error_new
                           (case Option.bind (control_cause (control_of sv (pa_control pending))) cause_error_code of
                              Some code \<Rightarrow> code | None \<Rightarrow> ''EXECUTION_CANCELLED'')
                           ''execution admission stopped'');
                pending = (if accept_ready pending then pending\<lparr>pa_accept := Some (Inl error)\<rparr> else pending) in
            Inr (set_pending index pending sv)
          else
            let sv = set_control (pa_control pending)
                       (snd (accept (mo_now mo) (control_of sv (pa_control pending)))) sv in
            if \<not> accept_ready pending then
              let sv = request_cause env mo FailedToStart (pa_control pending) sv in
              Inl ([], set_pending index
                (pending\<lparr>pa_rejection := Some (admission_error ''execution admission acknowledgment unavailable'')\<rparr>) sv)
            else Inl (admit mo index (pending\<lparr>pa_accept := Some (Inr ())\<rparr>) ready sv)
      | Rejected error # rest \<Rightarrow>
          Inr (set_pending index (pending\<lparr>pa_messages := rest, pa_rejection := Some error\<rparr>)
            (request_cause env mo FailedToStart (pa_control pending) sv))
      | [] \<Rightarrow>
          if pa_sender_gone pending then
            Inr (set_pending index
              (pending\<lparr>pa_rejection := Some (admission_error ''execution admission completion unavailable'')\<rparr>)
              (request_cause env mo FailedToStart (pa_control pending) sv))
          else Inr sv)"

definition check_admission ::
  "moment \<Rightarrow> nat \<Rightarrow> service \<Rightarrow> json list \<times> nat \<times> service" where
  "check_admission mo index sv =
     (let pending = sv_pending_admissions sv ! index;
          ended = (case pa_worker pending of None \<Rightarrow> False | Some thread \<Rightarrow> mo_finished mo thread);
          removed = sv\<lparr>sv_pending_admissions := swap_remove index (sv_pending_admissions sv)\<rparr> in
      if cleanup_deadline_expired (mo_now mo) (control_of sv (pa_control pending)) then
        let sv = removed\<lparr>sv_admission_cleanup_failed := True\<rparr>;
            sv = (case pa_worker pending of
                    None \<Rightarrow> sv
                  | Some thread \<Rightarrow> if mo_finished mo thread then sv else retain_thread mo thread sv) in
        ([rpc_error (pa_id pending) (admission_error ''execution admission cleanup could not be verified'')],
         index, sv)
      else
        (case (ended, pa_rejection pending) of
           (True, Some error) \<Rightarrow>
             ([rpc_error (pa_id pending) error], index,
              if err_code error = ''EXECUTION_CLEANUP_FAILED'' \<and> \<not> err_backend_gate_rejection error
              then removed\<lparr>sv_admission_cleanup_failed := True\<rparr> else removed)
         | _ \<Rightarrow> ([], index + 1, sv)))"

text \<open>One turn of the loop over the pending admissions: its answers, the next index, the service.\<close>

definition admission_turn ::
  "service_env \<Rightarrow> moment \<Rightarrow> nat \<Rightarrow> service \<Rightarrow> json list \<times> nat \<times> service" where
  "admission_turn env mo index sv =
     (let pending = sv_pending_admissions sv ! index in
      if pa_rejection pending = None then
        (case receive_admission env mo index pending sv of
           Inl (answers, sv) \<Rightarrow> (answers, index, sv)
         | Inr sv \<Rightarrow> check_admission mo index sv)
      else check_admission mo index sv)"

text \<open>
  The loop ends: every turn removes an admission, moves on, or decides the rejection of one that
  had none.
\<close>

lemma mset_swap_remove:
  assumes "i < length xs"
  shows "mset xs = add_mset (xs ! i) (mset (swap_remove i xs))"
proof -
  obtain ys y where xs: "xs = ys @ [y]" using assms by (cases xs rule: rev_exhaust) auto
  show ?thesis
  proof (cases "i = length ys")
    case True
    then show ?thesis by (simp add: xs swap_remove_def)
  next
    case False
    with assms have "i < length ys" by (simp add: xs)
    then show ?thesis
      by (simp add: xs swap_remove_def nth_append mset_update insert_DiffM2 add_mset_commute)
  qed
qed

lemma set_swap_remove: "i < length xs \<Longrightarrow> set (swap_remove i xs) \<subseteq> set xs"
  by (drule mset_swap_remove) (metis set_mset_add_mset_insert set_mset_mset subset_insertI)

definition undecided :: "pending_admission list \<Rightarrow> nat" where
  "undecided ps = size (filter_mset (\<lambda>p. pa_rejection p = None) (mset ps))"

lemma undecided_swap_remove: "i < length ps \<Longrightarrow> undecided (swap_remove i ps) \<le> undecided ps"
  by (drule mset_swap_remove) (simp add: undecided_def)

lemma undecided_update:
  assumes "i < length ps" "pa_rejection (ps ! i) = None"
  shows "undecided (ps[i := p]) = (if pa_rejection p = None then undecided ps else undecided ps - 1)"
    "0 < undecided ps"
proof -
  have "undecided ps =
      size (filter_mset (\<lambda>p. pa_rejection p = None) (add_mset (ps ! i) (mset ps - {#ps ! i#})))"
    using assms(1) by (simp add: undecided_def)
  also have "\<dots> = Suc (size (filter_mset (\<lambda>p. pa_rejection p = None) (mset ps - {#ps ! i#})))"
    using assms(2) by (simp only: filter_mset_add_mset if_True size_add_mset simp_thms)
  finally have "undecided ps = Suc (size (filter_mset (\<lambda>p. pa_rejection p = None) (mset ps - {#ps ! i#})))" .
  moreover have "undecided (ps[i := p]) =
      size (filter_mset (\<lambda>p. pa_rejection p = None) (mset ps - {#ps ! i#})) + (if pa_rejection p = None then 1 else 0)"
    using assms(1) by (simp add: undecided_def mset_update)
  ultimately show "undecided (ps[i := p]) = (if pa_rejection p = None then undecided ps else undecided ps - 1)"
    "0 < undecided ps" by simp_all
qed

lemma release_execution_frame [simp]:
  "sv_active (release_execution env mo eid sv) = sv_active sv"
  "sv_pending_admissions (release_execution env mo eid sv) = sv_pending_admissions sv"
  "sv_workers (release_execution env mo eid sv) = sv_workers sv"
  "sv_pending_starts (release_execution env mo eid sv) = sv_pending_starts sv"
  "sv_admission_cleanup_failed (release_execution env mo eid sv) = sv_admission_cleanup_failed sv"
  "sv_unclean_sessions (release_execution env mo eid sv) = sv_unclean_sessions sv"
  "sv_disposals (release_execution env mo eid sv) = sv_disposals sv"
  "sv_lifecycle (release_execution env mo eid sv) = sv_lifecycle sv"
  "sv_mode (release_execution env mo eid sv) = sv_mode sv"
  "sv_state (release_execution env mo eid sv) = sv_state sv"
  "sv_audit_index (release_execution env mo eid sv) = sv_audit_index sv"
  by (simp_all add: release_execution_def Let_def split: option.splits if_splits prod.splits)

lemma record_audit_frame [simp]:
  "sv_active (record_audit env event sv) = sv_active sv"
  "sv_pending_admissions (record_audit env event sv) = sv_pending_admissions sv"
  "sv_workers (record_audit env event sv) = sv_workers sv"
  "sv_pending_starts (record_audit env event sv) = sv_pending_starts sv"
  "sv_admission_cleanup_failed (record_audit env event sv) = sv_admission_cleanup_failed sv"
  "sv_unclean_sessions (record_audit env event sv) = sv_unclean_sessions sv"
  "sv_disposals (record_audit env event sv) = sv_disposals sv"
  "sv_subscriptions (record_audit env event sv) = sv_subscriptions sv"
  "sv_lifecycle (record_audit env event sv) = sv_lifecycle sv"
  "sv_mode (record_audit env event sv) = sv_mode sv"
  "sv_state (record_audit env event sv) = sv_state sv"
  "sv_replay_cache (record_audit env event sv) = sv_replay_cache sv"
  by (simp_all add: record_audit_def Let_def split: option.splits if_splits prod.splits)

lemma record_replay_frame [simp]:
  "sv_active (record_replay env event sv) = sv_active sv"
  "sv_pending_admissions (record_replay env event sv) = sv_pending_admissions sv"
  "sv_workers (record_replay env event sv) = sv_workers sv"
  "sv_pending_starts (record_replay env event sv) = sv_pending_starts sv"
  "sv_admission_cleanup_failed (record_replay env event sv) = sv_admission_cleanup_failed sv"
  "sv_unclean_sessions (record_replay env event sv) = sv_unclean_sessions sv"
  "sv_disposals (record_replay env event sv) = sv_disposals sv"
  "sv_subscriptions (record_replay env event sv) = sv_subscriptions sv"
  "sv_lifecycle (record_replay env event sv) = sv_lifecycle sv"
  "sv_mode (record_replay env event sv) = sv_mode sv"
  "sv_state (record_replay env event sv) = sv_state sv"
  "sv_audit_index (record_replay env event sv) = sv_audit_index sv"
  by (simp_all add: record_replay_def Let_def split: option.splits if_splits prod.splits)

lemma settle_cleanup_frame [simp]:
  "sv_active (settle_cleanup session eid result terminal sv) = sv_active sv"
  "sv_pending_admissions (settle_cleanup session eid result terminal sv) = sv_pending_admissions sv"
  "sv_workers (settle_cleanup session eid result terminal sv) = sv_workers sv"
  "sv_pending_starts (settle_cleanup session eid result terminal sv) = sv_pending_starts sv"
  "sv_admission_cleanup_failed (settle_cleanup session eid result terminal sv) = sv_admission_cleanup_failed sv"
  "sv_disposals (settle_cleanup session eid result terminal sv) = sv_disposals sv"
  "sv_subscriptions (settle_cleanup session eid result terminal sv) = sv_subscriptions sv"
  "sv_lifecycle (settle_cleanup session eid result terminal sv) = sv_lifecycle sv"
  "sv_mode (settle_cleanup session eid result terminal sv) = sv_mode sv"
  "sv_state (settle_cleanup session eid result terminal sv) = sv_state sv"
  "sv_replay_cache (settle_cleanup session eid result terminal sv) = sv_replay_cache sv"
  "sv_audit_index (settle_cleanup session eid result terminal sv) = sv_audit_index sv"
  by (simp_all add: settle_cleanup_def Let_def split: option.splits if_splits prod.splits)

lemma settle_disposal_frame [simp]:
  "sv_active (settle_disposal session eid result sv) = sv_active sv"
  "sv_pending_admissions (settle_disposal session eid result sv) = sv_pending_admissions sv"
  "sv_workers (settle_disposal session eid result sv) = sv_workers sv"
  "sv_pending_starts (settle_disposal session eid result sv) = sv_pending_starts sv"
  "sv_admission_cleanup_failed (settle_disposal session eid result sv) = sv_admission_cleanup_failed sv"
  "sv_unclean_sessions (settle_disposal session eid result sv) = sv_unclean_sessions sv"
  "sv_subscriptions (settle_disposal session eid result sv) = sv_subscriptions sv"
  "sv_lifecycle (settle_disposal session eid result sv) = sv_lifecycle sv"
  "sv_mode (settle_disposal session eid result sv) = sv_mode sv"
  "sv_state (settle_disposal session eid result sv) = sv_state sv"
  "sv_replay_cache (settle_disposal session eid result sv) = sv_replay_cache sv"
  "sv_audit_index (settle_disposal session eid result sv) = sv_audit_index sv"
  by (simp_all add: settle_disposal_def Let_def split: option.splits if_splits prod.splits)

lemma set_active_frame [simp]:
  "sv_pending_admissions (set_active eid active sv) = sv_pending_admissions sv"
  "sv_workers (set_active eid active sv) = sv_workers sv"
  "sv_pending_starts (set_active eid active sv) = sv_pending_starts sv"
  "sv_admission_cleanup_failed (set_active eid active sv) = sv_admission_cleanup_failed sv"
  "sv_unclean_sessions (set_active eid active sv) = sv_unclean_sessions sv"
  "sv_disposals (set_active eid active sv) = sv_disposals sv"
  "sv_subscriptions (set_active eid active sv) = sv_subscriptions sv"
  "sv_lifecycle (set_active eid active sv) = sv_lifecycle sv"
  "sv_mode (set_active eid active sv) = sv_mode sv"
  "sv_state (set_active eid active sv) = sv_state sv"
  "sv_replay_cache (set_active eid active sv) = sv_replay_cache sv"
  "sv_audit_index (set_active eid active sv) = sv_audit_index sv"
  by (simp_all add: set_active_def Let_def split: option.splits if_splits prod.splits)

lemma set_pending_frame [simp]:
  "sv_active (set_pending index pending sv) = sv_active sv"
  "sv_workers (set_pending index pending sv) = sv_workers sv"
  "sv_pending_starts (set_pending index pending sv) = sv_pending_starts sv"
  "sv_admission_cleanup_failed (set_pending index pending sv) = sv_admission_cleanup_failed sv"
  "sv_unclean_sessions (set_pending index pending sv) = sv_unclean_sessions sv"
  "sv_disposals (set_pending index pending sv) = sv_disposals sv"
  "sv_subscriptions (set_pending index pending sv) = sv_subscriptions sv"
  "sv_lifecycle (set_pending index pending sv) = sv_lifecycle sv"
  "sv_mode (set_pending index pending sv) = sv_mode sv"
  "sv_state (set_pending index pending sv) = sv_state sv"
  "sv_replay_cache (set_pending index pending sv) = sv_replay_cache sv"
  "sv_audit_index (set_pending index pending sv) = sv_audit_index sv"
  by (simp_all add: set_pending_def Let_def split: option.splits if_splits prod.splits)

lemma set_pending_list [simp]:
  "sv_pending_admissions (set_pending i p sv) = (sv_pending_admissions sv)[i := p]"
  by (simp add: set_pending_def)

lemma admit_pending:
  "admit mo index pending ready sv = (answers, sv') \<Longrightarrow>
     sv_pending_admissions sv' = swap_remove index (sv_pending_admissions sv)"
  by (auto simp: admit_def Let_def split: option.splits)

lemma receive_admission_pending:
  assumes "index < length (sv_pending_admissions sv)" "pa_rejection (sv_pending_admissions sv ! index) = None"
    and "receive_admission env mo index (sv_pending_admissions sv ! index) sv = outcome"
  shows "case outcome of
      Inl (answers, sv') \<Rightarrow>
        length (sv_pending_admissions sv') - index + undecided (sv_pending_admissions sv') <
        length (sv_pending_admissions sv) - index + undecided (sv_pending_admissions sv)
    | Inr sv' \<Rightarrow> length (sv_pending_admissions sv') = length (sv_pending_admissions sv) \<and>
        undecided (sv_pending_admissions sv') \<le> undecided (sv_pending_admissions sv)"
  using assms undecided_update [OF assms(1,2)] undecided_swap_remove [OF assms(1)]
  by (auto simp: receive_admission_def Let_def dest!: admit_pending
      split: list.splits admission_message.splits if_splits sum.splits)

lemma check_admission_pending:
  assumes "index < length (sv_pending_admissions sv)" "check_admission mo index sv = (answers, index', sv')"
  shows "length (sv_pending_admissions sv') - index' + undecided (sv_pending_admissions sv') <
    length (sv_pending_admissions sv) - index + undecided (sv_pending_admissions sv)"
  using assms undecided_swap_remove [OF assms(1)]
  by (auto simp: check_admission_def Let_def split: option.splits if_splits bool.splits)

lemma admission_turn_decreases:
  assumes "index < length (sv_pending_admissions sv)" "admission_turn env mo index sv = (answers, index', sv')"
  shows "length (sv_pending_admissions sv') - index' + undecided (sv_pending_admissions sv') <
    length (sv_pending_admissions sv) - index + undecided (sv_pending_admissions sv)"
proof (cases "pa_rejection (sv_pending_admissions sv ! index) = None")
  case True
  show ?thesis
  proof (cases "receive_admission env mo index (sv_pending_admissions sv ! index) sv")
    case (Inl p)
    with receive_admission_pending [OF assms(1) True Inl] assms(2) True show ?thesis
      by (auto simp: admission_turn_def Let_def split: prod.splits)
  next
    case (Inr sv1)
    with receive_admission_pending [OF assms(1) True Inr] assms(2) True
      check_admission_pending [of index sv1 mo answers index' sv'] assms(1)
    show ?thesis by (auto simp: admission_turn_def Let_def)
  qed
next
  case False
  with check_admission_pending [OF assms(1)] assms(2) show ?thesis
    by (simp add: admission_turn_def Let_def)
qed

function poll_pending ::
  "service_env \<Rightarrow> moment \<Rightarrow> nat \<Rightarrow> json list \<Rightarrow> service \<Rightarrow> json list \<times> service" where
  "poll_pending env mo index responses sv =
     (if index < length (sv_pending_admissions sv) then
        let (answers, index', sv') = admission_turn env mo index sv in
        poll_pending env mo index' (responses @ answers) sv'
      else (responses, sv))"
  by pat_completeness auto
termination
proof (relation "measure (\<lambda>(env, mo, index, responses, sv).
      length (sv_pending_admissions sv) - index + undecided (sv_pending_admissions sv))")
  fix env mo index responses sv x answers y index' sv'
  assume index: "index < length (sv_pending_admissions sv)"
    and "x = admission_turn env mo index sv" "(answers, y) = x" "(index', sv') = y"
  then have "admission_turn env mo index sv = (answers, index', sv')" by simp
  from admission_turn_decreases [OF index this]
  show "((env, mo, index', responses @ answers, sv'), env, mo, index, responses, sv) \<in>
      measure (\<lambda>(env, mo, index, responses, sv).
        length (sv_pending_admissions sv) - index + undecided (sv_pending_admissions sv))" by simp
qed simp

declare poll_pending.simps [simp del]

definition poll_admissions :: "service_env \<Rightarrow> moment \<Rightarrow> service \<Rightarrow> json list \<times> service" where
  "poll_admissions env mo sv = poll_pending env mo 0 [] (poll_workers mo 0 sv)"

end
