(* ===== verification/Service_Requests.thy ===== *)
theory Service_Requests
  imports Service_Lifecycle
begin

text \<open>
  The requests of the service, from \<open>src/service/mod.rs\<close> and \<open>spawn\<close> of \<open>src/service/admission.rs\<close>: one
  definition per handler, each from the identifier of the request and its parameters to the
  messages it answers and the new state, and \<open>handle_rpc_request\<close>, which reads the envelope and
  dispatches on the method.
\<close>

section \<open>Errors and the envelope\<close>

definition execution_not_found :: "string \<Rightarrow> runseal_error" where
  "execution_not_found eid =
     error_with_details ''EXECUTION_NOT_FOUND'' (''execution not found: '' @ eid)
       (json_object [(''execution_id'', JStr eid)])"

definition execution_not_cancellable :: "string \<Rightarrow> string \<Rightarrow> runseal_error" where
  "execution_not_cancellable eid status =
     error_with_details ''EXECUTION_NOT_CANCELLABLE'' (''execution is not cancellable: '' @ eid)
       (json_object [(''execution_id'', JStr eid), (''status'', JStr status)])"

definition is_valid_request_id :: "json \<Rightarrow> bool" where
  "is_valid_request_id value = (case value of JStr _ \<Rightarrow> True | JNum _ \<Rightarrow> True | JNull \<Rightarrow> True | _ \<Rightarrow> False)"

definition validated_request_id :: "json \<Rightarrow> json rs_result" where
  "validated_request_id value =
     (if is_valid_request_id value then Inr value
      else invalid_result ''request.id must be a string, number, or null'')"

definition request_id_for_error :: "json \<Rightarrow> json" where
  "request_id_for_error request =
     (case option_filter is_valid_request_id (json_get request ''id'') of Some v \<Rightarrow> v | None \<Rightarrow> JNull)"

definition rpc_request_parts :: "json \<Rightarrow> (json option \<times> string \<times> json) rs_result" where
  "rpc_request_parts request =
     rbind (reject_if (case request of JArr _ \<Rightarrow> True | _ \<Rightarrow> False)
             (invalid_request_error ''batch requests are not supported'')) (\<lambda>_.
     rbind (ok_or (as_object request) (invalid_request_error ''JSON-RPC request must be an object'')) (\<lambda>request.
     rbind (case obj_get request ''id'' of
              None \<Rightarrow> Inr None
            | Some v \<Rightarrow> rbind (validated_request_id v) (\<lambda>v. Inr (Some v))) (\<lambda>rid.
     rbind (reject_if (str_param request ''jsonrpc'' \<noteq> Some ''2.0'')
             (invalid_request_error ''request.jsonrpc must be 2.0'')) (\<lambda>_.
     rbind (ok_or (option_filter (\<lambda>m. m \<noteq> []) (str_param request ''method''))
             (invalid_request_error ''request.method is required'')) (\<lambda>method.
     Inr (rid, method, case obj_get request ''params'' of Some p \<Rightarrow> p | None \<Rightarrow> JObj []))))))"

section \<open>Execution\<close>

definition service_status :: "service \<Rightarrow> json" where
  "service_status sv =
     (let stateful = (sv_mode sv = Stateful) in
      json_object [(''status'', JStr ''running''),
        (''mode'', JStr (if stateful then ''service'' else ''direct'')), (''transport'', JStr ''stdio''),
        (''stateful'', JBool stateful), (''local_only'', JBool True), (''remote_listener'', JBool False)])"

text \<open>
  \<open>spawn\<close> starts the admission thread with a fresh control; its channels start empty and open. What
  the thread does is the environment of the service.
\<close>

definition admission_spawn :: "moment \<Rightarrow> json \<Rightarrow> service \<Rightarrow> (runseal_error + pending_admission) \<times> service" where
  "admission_spawn mo rid sv =
     (if \<not> mo_spawn_ok mo
      then (Inl (error_with_details ''EXECUTION_FAILED_TO_START'' ''execution admission worker unavailable''
              (json_object [(''cleanup_complete'', JBool True)])), sv)
      else
        let (c, sv) = fresh sv; sv = set_control c control_default sv; (t, sv) = fresh sv in
        (Inr \<lparr>pa_id = rid, pa_control = c, pa_worker = Some t, pa_messages = [], pa_sender_gone = False,
              pa_accept = None, pa_accept_gone = False, pa_rejection = None\<rparr>, sv))"

definition execute :: "service_env \<Rightarrow> moment \<Rightarrow> json \<Rightarrow> json \<Rightarrow> service \<Rightarrow> json list \<times> service" where
  "execute env mo rid params sv =
     (if sv_admission_cleanup_failed sv \<or> sv_unclean_sessions sv \<noteq> []
      then ([rpc_error rid
              (error_with_details ''EXECUTION_CLEANUP_FAILED'' ''unverified execution cleanup prevents admission''
                (json_object [(''cleanup_complete'', JBool False),
                   (''execution_ids'', json_strs (concat (map snd (sv_unclean_sessions sv))))]))], sv)
      else if max_active_executions (en_limits env)
          \<le> max (length (sv_active sv)) (length (sv_workers sv)) + length (sv_pending_admissions sv)
      then ([rpc_error rid (error_new ''EXECUTION_LIMIT_EXCEEDED'' ''active execution limit exceeded'')], sv)
      else (case admission_spawn mo rid sv of
              (Inr pending, sv) \<Rightarrow> ([], sv\<lparr>sv_pending_admissions := sv_pending_admissions sv @ [pending]\<rparr>)
            | (Inl error, sv) \<Rightarrow> ([rpc_error rid error], sv)))"

definition get_execution :: "json \<Rightarrow> json \<Rightarrow> service \<Rightarrow> json list" where
  "get_execution rid params sv =
     (case get_execution_id_from_params params of
        Inl err \<Rightarrow> [rpc_error rid err]
      | Inr eid \<Rightarrow>
          (case (case map_of (sv_active sv) eid of
                   Some active \<Rightarrow> Some (ac_result active)
                 | None \<Rightarrow> execution_result (sv_state sv) eid) of
             Some result \<Rightarrow>
               let latest = (case as_u64 (json_index result ''latest_seq'') of Some n \<Rightarrow> n | None \<Rightarrow> 0) in
               [rpc_result rid (json_set result ''earliest_available_seq''
                  (json_u64 (earliest (sv_replay_cache sv) eid latest)))]
           | None \<Rightarrow>
               if list_ex (\<lambda>kv. eid \<in> set (snd kv)) (sv_unclean_sessions sv)
               then [rpc_error rid
                       (error_with_details ''EXECUTION_CLEANUP_FAILED'' ''execution cleanup could not be verified''
                         (json_object [(''execution_id'', JStr eid), (''cleanup_complete'', JBool False)]))]
               else [rpc_error rid (execution_not_found eid)]))"

definition not_active_error :: "service \<Rightarrow> string \<Rightarrow> runseal_error" where
  "not_active_error sv eid =
     (if execution_status (sv_state sv) eid \<noteq> None
      then error_new ''EXECUTION_NOT_RUNNING'' ''execution is terminal''
      else execution_not_found eid)"

definition missing_feature :: "string \<Rightarrow> string \<Rightarrow> runseal_error" where
  "missing_feature reason feature =
     error_with_details ''BACKEND_CAPABILITY_MISSING'' reason
       (json_object [(''missing_features'', json_strs [feature])])"

definition signal_execution :: "json \<Rightarrow> json \<Rightarrow> service \<Rightarrow> json list \<times> service" where
  "signal_execution rid params sv =
     (case signal_from_params params of
        Inl error \<Rightarrow> ([rpc_error rid error], sv)
      | Inr eid \<Rightarrow>
          (case map_of (sv_active sv) eid of
             None \<Rightarrow> ([rpc_error rid (not_active_error sv eid)], sv)
           | Some active \<Rightarrow>
               let control = control_of sv (ac_control active) in
               if is_cancelled control \<or> control_cause control \<noteq> None
               then ([rpc_error rid (error_new ''EXECUTION_NOT_RUNNING'' ''execution is stopping'')], sv)
               else if json_index (ac_result active) ''stderr_merged'' \<noteq> JBool True
               then ([rpc_error rid (missing_feature ''interrupt requires a PTY'' ''pty_interrupt'')], sv)
               else
                 (case interrupt control of
                    (Inr sequence, control) \<Rightarrow>
                      ([rpc_result rid (json_object [(''execution_id'', JStr eid), (''accepted'', JBool True),
                          (''signal'', JStr ''interrupt''), (''sequence'', json_u64 sequence)])],
                       set_control (ac_control active) control sv)
                  | (Inl error, control) \<Rightarrow>
                      ([rpc_error rid (error_new (input_error_code error) ''terminal control queue rejected interrupt'')],
                       set_control (ac_control active) control sv))))"

definition resize_execution :: "json \<Rightarrow> json \<Rightarrow> service \<Rightarrow> json list \<times> service" where
  "resize_execution rid params sv =
     (case resize_from_params params of
        Inl error \<Rightarrow> ([rpc_error rid error], sv)
      | Inr (eid, rows, cols) \<Rightarrow>
          (case map_of (sv_active sv) eid of
             None \<Rightarrow> ([rpc_error rid (not_active_error sv eid)], sv)
           | Some active \<Rightarrow>
               let control = control_of sv (ac_control active) in
               if is_cancelled control
               then ([rpc_error rid (error_new ''EXECUTION_NOT_RUNNING'' ''execution is stopping'')], sv)
               else if json_index (ac_result active) ''stderr_merged'' \<noteq> JBool True
               then ([rpc_error rid (missing_feature ''resize requires a PTY'' ''pty_resize'')], sv)
               else
                 (case resize rows cols control of
                    (Inr _, control) \<Rightarrow>
                      ([rpc_result rid (json_object [(''execution_id'', JStr eid), (''accepted'', JBool True),
                          (''rows'', json_nat (unat rows)), (''cols'', json_nat (unat cols))])],
                       set_control (ac_control active) control sv)
                  | (Inl error, control) \<Rightarrow>
                      ([rpc_error rid (error_new (input_error_code error) ''terminal control queue rejected resize'')],
                       set_control (ac_control active) control sv))))"

definition execution_input ::
  "service_env \<Rightarrow> json \<Rightarrow> json \<Rightarrow> bool \<Rightarrow> service \<Rightarrow> json list \<times> service" where
  "execution_input env rid params is_write sv =
     (case execution_input_from_params (en_limits env) (en_host env) params is_write of
        Inl err \<Rightarrow> ([rpc_error rid err], sv)
      | Inr request \<Rightarrow>
          (case map_of (sv_active sv) (eir_execution_id request) of
             None \<Rightarrow> ([rpc_error rid (not_active_error sv (eir_execution_id request))], sv)
           | Some active \<Rightarrow>
               if is_cancelled (control_of sv (ac_control active))
               then ([rpc_error rid (error_new ''EXECUTION_NOT_RUNNING'' ''execution is stopping'')], sv)
               else
                 (case (if eir_control_stream request then ac_control_input active else ac_stdin active) of
                    None \<Rightarrow> ([rpc_error rid (invalid_request_error ''execution input stream unavailable'')], sv)
                  | Some queue \<Rightarrow>
                      if is_cancelled (control_of sv (ac_control active))
                      then ([rpc_error rid (error_new ''EXECUTION_NOT_RUNNING'' ''execution is terminating'')], sv)
                      else if \<not> eir_control_stream request \<and> eir_bytes request = None
                         \<and> json_index (ac_result active) ''stderr_merged'' = JBool True
                      then ([rpc_error rid (missing_feature ''PTY input cannot be closed as a pipe'' ''pty_eof'')], sv)
                      else
                        let st = hp_inputs (sv_heap sv) queue;
                            (result, st') =
                              (case eir_bytes request of
                                 Some bytes \<Rightarrow>
                                   (case input_write (en_limits env) st bytes of
                                      (r, st') \<Rightarrow> (rbind r (\<lambda>accepted. Inr (json_object
                                         [(''accepted_bytes'', json_nat accepted)])), st'))
                               | None \<Rightarrow>
                                   (case input_close st of
                                      (r, st') \<Rightarrow> (rbind r (\<lambda>_. Inr (json_object [(''closed'', JBool True)])), st'))) in
                        ([case result of
                            Inr result \<Rightarrow> rpc_result rid result
                          | Inl err \<Rightarrow> rpc_error rid
                              (error_new (input_error_code err) ''execution input request rejected'')],
                         set_input queue st' sv))))"

definition cancel_execution ::
  "service_env \<Rightarrow> moment \<Rightarrow> json \<Rightarrow> json \<Rightarrow> service \<Rightarrow> json list \<times> service" where
  "cancel_execution env mo rid params sv =
     (case cancel_execution_id_from_params params of
        Inl err \<Rightarrow> ([rpc_error rid err], sv)
      | Inr eid \<Rightarrow>
          (case map_of (sv_active sv) eid of
             Some active \<Rightarrow>
               if control_cause (control_of sv (ac_control active)) = Some Exited
               then ([rpc_error rid (execution_not_cancellable eid ''finished'')], sv)
               else
                 let sv = request_cause env mo Cancelled (ac_control active) sv;
                     sv = set_active eid
                            (active\<lparr>ac_result := json_set (ac_result active) ''status'' (JStr ''canceling'')\<rparr>) sv in
                 ([rpc_result rid (json_object [(''execution_id'', JStr eid), (''status'', JStr ''canceling'')])], sv)
           | None \<Rightarrow>
               (case execution_status (sv_state sv) eid of
                  Some status \<Rightarrow> ([rpc_error rid (execution_not_cancellable eid status)], sv)
                | None \<Rightarrow> ([rpc_error rid (execution_not_found eid)], sv))))"

section \<open>Queries and subscriptions\<close>

definition refresh_earliest :: "service \<Rightarrow> json \<Rightarrow> json" where
  "refresh_earliest sv result =
     (case (as_str (json_index result ''execution_id''), as_u64 (json_index result ''latest_seq'')) of
        (Some eid, Some latest) \<Rightarrow>
          json_set result ''earliest_available_seq'' (json_u64 (earliest (sv_replay_cache sv) eid latest))
      | _ \<Rightarrow> result)"

definition list_executions :: "service_env \<Rightarrow> json \<Rightarrow> service \<Rightarrow> json" where
  "list_executions env rid sv =
     snapshot_response (en_limits env) (en_json_len env) rid ''executions''
       (map (refresh_earliest sv)
         (execution_summaries (sv_state sv) @ map (ac_result \<circ> snd) (sv_active sv)))
       (JObj []) (es_truncated (ss_executions (sv_state sv)))"

definition u64_saturating_add :: "64 word \<Rightarrow> 64 word \<Rightarrow> 64 word" where
  "u64_saturating_add a b = (if unat a + unat b < 2 ^ 64 then a + b else - 1)"

definition subscribe_events :: "moment \<Rightarrow> json \<Rightarrow> json \<Rightarrow> service \<Rightarrow> json list \<times> service" where
  "subscribe_events mo rid params sv =
     (case subscribe_events_params params of
        Inl err \<Rightarrow> ([rpc_error rid err], sv)
      | Inr request \<Rightarrow>
          (case service_history sv (esr_execution_id request) of
             None \<Rightarrow> ([rpc_error rid (execution_not_found (esr_execution_id request))], sv)
           | Some h \<Rightarrow>
               let eid = esr_execution_id request;
                   problem =
                     (case esr_after_seq request of
                        None \<Rightarrow> None
                      | Some after \<Rightarrow>
                          if eh_latest_seq h < after
                          then Some (invalid_request_error ''params.after_seq exceeds latest event sequence'')
                          else if u64_saturating_add after 1 < eh_earliest_seq h
                          then Some (error_with_details ''EVENT_HISTORY_UNAVAILABLE'' ''requested event history was evicted''
                                 (json_object [(''execution_id'', JStr eid),
                                    (''earliest_available_seq'', json_u64 (eh_earliest_seq h)),
                                    (''latest_seq'', json_u64 (eh_latest_seq h))]))
                          else None) in
               case problem of
                 Some error \<Rightarrow> ([rpc_error rid error], sv)
               | None \<Rightarrow>
                   let replay =
                         (case esr_after_seq request of
                            None \<Rightarrow> []
                          | Some after \<Rightarrow>
                              filter (\<lambda>event.
                                  (case as_u64 (json_index event ''event_seq'') of Some seq \<Rightarrow> after < seq | None \<Rightarrow> False)
                                  \<and> event_matches_types event (esr_types request)) (eh_events h)) in
                   (rpc_result rid (json_object [(''execution_id'', JStr eid), (''status'', JStr ''subscribed''),
                        (''event_count'', json_nat (length replay))]) # map event_message replay,
                    install_subscription mo eid (esr_types request) (eh_latest_seq h) sv)))"

definition unsubscribe_events :: "moment \<Rightarrow> json \<Rightarrow> json \<Rightarrow> service \<Rightarrow> json list \<times> service" where
  "unsubscribe_events mo rid params sv =
     (case unsubscribe_execution_id_from_params params of
        Inl err \<Rightarrow> ([rpc_error rid err], sv)
      | Inr eid \<Rightarrow>
          ([rpc_result rid (json_object [(''execution_id'', JStr eid), (''unsubscribed'', JBool True)])],
           revoke_guard mo eid (sv\<lparr>sv_subscriptions := bt_remove eid (sv_subscriptions sv)\<rparr>)))"

definition get_audit_events :: "service_env \<Rightarrow> json \<Rightarrow> json \<Rightarrow> service \<Rightarrow> json list" where
  "get_audit_events env rid params sv =
     (case audit_events_params params of
        Inl err \<Rightarrow> [rpc_error rid err]
      | Inr (eid, types) \<Rightarrow>
          if map_of (sv_active sv) eid = None \<and> execution_status (sv_state sv) eid = None
          then [rpc_error rid (execution_not_found eid)]
          else
            let latest = (case map_of (sv_active sv) eid of
                            Some active \<Rightarrow> ac_sequence active
                          | None \<Rightarrow>
                              (case Option.bind (execution_result (sv_state sv) eid)
                                      (\<lambda>result. as_u64 (json_index result ''latest_seq'')) of
                                 Some n \<Rightarrow> n | None \<Rightarrow> 0));
                (events, truncated) = audit_for_execution (sv_audit_index sv) eid types latest in
            [snapshot_response (en_limits env) (en_json_len env) rid ''events'' events
               (json_object [(''execution_id'', JStr eid)]) truncated])"

definition tail_audit :: "service_env \<Rightarrow> json \<Rightarrow> json \<Rightarrow> service \<Rightarrow> json list" where
  "tail_audit env rid params sv =
     (case tail_audit_params params of
        Inl err \<Rightarrow> [rpc_error rid err]
      | Inr types \<Rightarrow>
          let (events, truncated) = audit_tail (sv_audit_index sv) types in
          [snapshot_response (en_limits env) (en_json_len env) rid ''events'' events (JObj []) truncated])"

section \<open>Sessions\<close>

definition cancel_member ::
  "service_env \<Rightarrow> moment \<Rightarrow> string \<times> active_execution \<Rightarrow> service \<Rightarrow> service" where
  "cancel_member env mo kv sv =
     set_active (fst kv)
       ((snd kv)\<lparr>ac_result := json_set (ac_result (snd kv)) ''status'' (JStr ''canceling'')\<rparr>)
       (request_cause env mo Cancelled (ac_control (snd kv)) sv)"

definition dispose_session ::
  "service_env \<Rightarrow> moment \<Rightarrow> json \<Rightarrow> json \<Rightarrow> service \<Rightarrow> json list \<times> service" where
  "dispose_session env mo rid params sv =
     (case session_id_from_params params of
        Inl err \<Rightarrow> ([rpc_error rid err], sv)
      | Inr session_id \<Rightarrow>
          if map_of (sv_disposals sv) session_id \<noteq> None
          then ([rpc_error rid (invalid_request_error ''session disposal already pending'')], sv)
          else
            let members = filter (\<lambda>kv. json_index (ac_result (snd kv)) ''session_id'' = JStr session_id)
                            (sv_active sv);
                sv = fold (cancel_member env mo) members sv;
                remaining = map fst members;
                stored = execution_ids_for_session (sv_state sv) session_id;
                unclean = bs_entry session_id (sv_unclean_sessions sv);
                execution_ids = bs_extend (bs_extend remaining stored) unclean;
                failed = bs_extend unclean
                           (filter (\<lambda>eid. case execution_result (sv_state sv) eid of
                                            Some result \<Rightarrow> json_index result ''cleanup_complete'' \<noteq> JBool True
                                          | None \<Rightarrow> False) stored);
                disposal = \<lparr>pd_id = rid, pd_remaining = remaining, pd_execution_ids = execution_ids,
                            pd_deadline = mo_now mo + cleanup_timeout (en_limits env),
                            pd_failed = failed, pd_released = 0\<rparr>;
                sv = sv\<lparr>sv_disposals := bt_insert session_id disposal (sv_disposals sv)\<rparr> in
            if remaining = [] then finish_disposal env mo session_id sv else ([], sv))"

section \<open>Dispatch\<close>

definition answer_result :: "json \<Rightarrow> json rs_result \<Rightarrow> json list" where
  "answer_result rid r = [case r of Inr result \<Rightarrow> rpc_result rid result | Inl err \<Rightarrow> rpc_error rid err]"

definition dispatch ::
  "service_env \<Rightarrow> moment \<Rightarrow> json \<Rightarrow> string \<Rightarrow> json \<Rightarrow> service \<Rightarrow> json list \<times> service" where
  "dispatch env mo rid method params sv =
     (let empty = (\<lambda>result. answer_result rid (rbind (validate_empty_params params method) (\<lambda>_. Inr result))) in
      if method = ''getVersion'' then (empty (en_version env), sv)
      else if method = ''getCapabilities'' then (empty (en_capabilities env), sv)
      else if method = ''getServiceStatus'' then (empty (service_status sv), sv)
      else if method = ''explainPolicy'' then
        (answer_result rid (explain_policy_from_params (en_limits env) (en_host env) (en_explain env) params), sv)
      else if method = ''getSetupStatus'' then
        (answer_result rid
           (rbind (setup_status_cwd_from_params (en_host env) params) (\<lambda>cwd.
            map_err (\<lambda>err. error_new ''SETUP_STATUS_FAILED'' err) (en_setup_status env cwd))), sv)
      else if method = ''execute'' then execute env mo rid params sv
      else if method = ''getExecution'' then (get_execution rid params sv, sv)
      else if method = ''listExecutions'' then
        ((case validate_empty_params params ''listExecutions'' of
            Inr _ \<Rightarrow> [list_executions env rid sv]
          | Inl err \<Rightarrow> [rpc_error rid err]), sv)
      else if method = ''cancelExecution'' then cancel_execution env mo rid params sv
      else if method = ''resizeExecution'' then resize_execution rid params sv
      else if method = ''signalExecution'' then signal_execution rid params sv
      else if method = ''writeExecutionInput'' then execution_input env rid params True sv
      else if method = ''closeExecutionInput'' then execution_input env rid params False sv
      else if method = ''subscribeEvents'' then subscribe_events mo rid params sv
      else if method = ''unsubscribeEvents'' then unsubscribe_events mo rid params sv
      else if method = ''getAuditEvents'' then (get_audit_events env rid params sv, sv)
      else if method = ''tailAudit'' then (tail_audit env rid params sv, sv)
      else if method = ''disposeSession'' then dispose_session env mo rid params sv
      else ([method_not_found rid method], sv))"

definition handle_rpc_request ::
  "service_env \<Rightarrow> moment \<Rightarrow> json \<Rightarrow> service \<Rightarrow> json list \<times> service" where
  "handle_rpc_request env mo request sv =
     (case rpc_request_parts request of
        Inl err \<Rightarrow> ([invalid_request (request_id_for_error request) err], sv)
      | Inr (None, _, _) \<Rightarrow> ([], sv)
      | Inr (Some rid, method, params) \<Rightarrow> dispatch env mo rid method params sv)"

text \<open>Dropping the service keeps every thread it owned.\<close>

definition service_drop :: "service_env \<Rightarrow> moment \<Rightarrow> service \<Rightarrow> service" where
  "service_drop env mo sv =
     (let sv = cancel_owned env mo sv;
          sv = fold (retain_thread mo) (List.map_filter pa_worker (sv_pending_admissions sv)) sv;
          sv = sv\<lparr>sv_pending_admissions := []\<rparr>;
          sv = fold (retain_thread mo) (map ow_thread (sv_workers sv)) sv in
      sv\<lparr>sv_workers := []\<rparr>)"

end
