(* ===== verification/Service_Admission.thy ===== *)
theory Service_Admission
  imports Service_Requests
begin

text \<open>
  Admission: every request for an execution is answered once, the number of executions stays within
  the limit, and nothing is started while a cleanup is unverified. The environment of the service
  (admission threads, execution threads, the other ends of channels) takes part as operations of
  its own, so that a history is an arbitrary interleaving.
\<close>

section \<open>Histories of the service\<close>

datatype service_op =
    Request json | PollLifecycle | PollAdmissions | PollDisposals | CancelOwned termination_cause
  | TakeStarts | LifecycleSend lifecycle_message | AdmissionSend nat admission_message
  | AdmissionGone nat | AcceptTaken nat | AcceptGone nat
  | ControlChange nat execution_control | InputChange nat input_state

definition change_pending :: "nat \<Rightarrow> (pending_admission \<Rightarrow> pending_admission) \<Rightarrow> service \<Rightarrow> service" where
  "change_pending i f sv =
     (if i < length (sv_pending_admissions sv)
      then set_pending i (f (sv_pending_admissions sv ! i)) sv else sv)"

fun service_run :: "service_env \<Rightarrow> service \<Rightarrow> moment \<times> service_op \<Rightarrow> json list \<times> service" where
  "service_run env sv (mo, Request request) = handle_rpc_request env mo request sv"
| "service_run env sv (mo, PollLifecycle) = poll_lifecycle env mo sv"
| "service_run env sv (mo, PollAdmissions) = poll_admissions env mo sv"
| "service_run env sv (mo, PollDisposals) = poll_disposal_deadlines env mo sv"
| "service_run env sv (mo, CancelOwned cause) = ([], cancel_owned_for env mo cause sv)"
| "service_run env sv (mo, TakeStarts) = ([], snd (take_admitted_starts sv))"
| "service_run env sv (mo, LifecycleSend message) = ([], sv\<lparr>sv_lifecycle := sv_lifecycle sv @ [message]\<rparr>)"
| "service_run env sv (mo, AdmissionSend i message) =
     ([], change_pending i (\<lambda>p. p\<lparr>pa_messages := pa_messages p @ [message]\<rparr>) sv)"
| "service_run env sv (mo, AdmissionGone i) = ([], change_pending i (\<lambda>p. p\<lparr>pa_sender_gone := True\<rparr>) sv)"
| "service_run env sv (mo, AcceptTaken i) = ([], change_pending i (\<lambda>p. p\<lparr>pa_accept := None\<rparr>) sv)"
| "service_run env sv (mo, AcceptGone i) = ([], change_pending i (\<lambda>p. p\<lparr>pa_accept_gone := True\<rparr>) sv)"
| "service_run env sv (mo, ControlChange c x) = ([], set_control c x sv)"
| "service_run env sv (mo, InputChange q x) = ([], set_input q x sv)"

definition service_step :: "service_env \<Rightarrow> service \<Rightarrow> moment \<times> service_op \<Rightarrow> service" where
  "service_step env sv x = snd (service_run env sv x)"

section \<open>Answers to admissions\<close>

definition response_id :: "json \<Rightarrow> json" where
  "response_id message = json_index message ''id''"

lemma response_id_simps [simp]:
  "response_id (rpc_result rid result) = rid" "response_id (error_with_code rid code err) = rid"
  "response_id (rpc_error rid err) = rid"
  by (simp_all add: response_id_def rpc_result_def rpc_error_def error_with_code_def json_object_def
      obj_of_def obj_extend_def json_index_def json_get_def obj_get_def)

abbreviation pending_ids :: "service \<Rightarrow> json multiset" where
  "pending_ids sv \<equiv> mset (map pa_id (sv_pending_admissions sv))"

lemma pending_ids_remove:
  assumes "i < length ps"
  shows "mset (map pa_id ps) = add_mset (pa_id (ps ! i)) (mset (map pa_id (swap_remove i ps)))"
  using arg_cong [OF mset_swap_remove [OF assms], of "image_mset pa_id"] by simp

lemma pending_ids_update:
  assumes "pa_id p = pa_id (ps ! i)"
  shows "map pa_id (ps[i := p]) = map pa_id ps"
    "image_mset pa_id (mset (ps[i := p])) = image_mset pa_id (mset ps)"
proof -
  show "map pa_id (ps[i := p]) = map pa_id ps"
    using assms by (simp add: map_update) (metis list_update_id map_update)
  then show "image_mset pa_id (mset (ps[i := p])) = image_mset pa_id (mset ps)"
    by (metis mset_map)
qed

definition ready_id :: "ready_admission \<Rightarrow> string" where
  "ready_id ready =
     (case as_str (json_index (ac_result (ra_active ready)) ''execution_id'') of Some s \<Rightarrow> s | None \<Rightarrow> '''')"

lemma admit_simps [simp]:
  "fst (admit mo index pending ready sv) = [rpc_result (pa_id pending) (ac_result (ra_active ready))]"
  "sv_pending_admissions (snd (admit mo index pending ready sv)) = swap_remove index (sv_pending_admissions sv)"
  "sv_pending_starts (snd (admit mo index pending ready sv)) = sv_pending_starts sv @ [ra_start ready]"
  "sv_workers (snd (admit mo index pending ready sv)) = sv_workers sv @
     (case pa_worker pending of None \<Rightarrow> [] | Some t \<Rightarrow>
        [\<lparr>ow_execution_id = ready_id ready, ow_control = pa_control pending, ow_thread = t\<rparr>])"
  "sv_active (snd (admit mo index pending ready sv)) = bt_insert (ready_id ready) (ra_active ready) (sv_active sv)"
  "sv_unclean_sessions (snd (admit mo index pending ready sv)) = sv_unclean_sessions sv"
  "sv_admission_cleanup_failed (snd (admit mo index pending ready sv)) = sv_admission_cleanup_failed sv"
  "sv_disposals (snd (admit mo index pending ready sv)) = sv_disposals sv"
  by (simp_all add: admit_def set_active_def ready_id_def Let_def split: option.splits)

lemma receive_admission_ids:
  assumes "index < length (sv_pending_admissions sv)"
    and "receive_admission env mo index (sv_pending_admissions sv ! index) sv = outcome"
  shows "case outcome of
      Inl x \<Rightarrow> pending_ids sv = mset (map response_id (fst x)) + pending_ids (snd x)
    | Inr sv' \<Rightarrow> map pa_id (sv_pending_admissions sv') = map pa_id (sv_pending_admissions sv)"
  using assms pending_ids_remove [OF assms(1)]
  by (auto simp: receive_admission_def Let_def pending_ids_update
      split: list.splits admission_message.splits if_splits)

lemma check_admission_ids:
  assumes "index < length (sv_pending_admissions sv)" "check_admission mo index sv = (answers, index', sv')"
  shows "pending_ids sv = mset (map response_id answers) + pending_ids sv'"
  using assms pending_ids_remove [OF assms(1)]
  by (auto simp: check_admission_def Let_def split: option.splits if_splits bool.splits)

lemma admission_turn_ids:
  assumes "index < length (sv_pending_admissions sv)" "admission_turn env mo index sv = (answers, index', sv')"
  shows "pending_ids sv = mset (map response_id answers) + pending_ids sv'"
proof (cases "pa_rejection (sv_pending_admissions sv ! index) = None")
  case True
  show ?thesis
  proof (cases "receive_admission env mo index (sv_pending_admissions sv ! index) sv")
    case (Inl p)
    with receive_admission_ids [OF assms(1) Inl] assms(2) True show ?thesis
      by (auto simp: admission_turn_def Let_def split: prod.splits)
  next
    case (Inr sv1)
    have ids: "map pa_id (sv_pending_admissions sv1) = map pa_id (sv_pending_admissions sv)"
      using receive_admission_ids [OF assms(1) Inr] by simp
    then have "index < length (sv_pending_admissions sv1)"
      using assms(1) by (metis length_map)
    from check_admission_ids [OF this] ids Inr assms(2) True show ?thesis
      by (simp add: admission_turn_def Let_def)
  qed
next
  case False
  with check_admission_ids [OF assms(1)] assms(2) show ?thesis
    by (simp add: admission_turn_def Let_def)
qed

lemma poll_pending_ids:
  "poll_pending env mo index responses sv = (answers, sv') \<Longrightarrow>
     mset (map response_id responses) + pending_ids sv = mset (map response_id answers) + pending_ids sv'"
proof (induction env mo index responses sv rule: poll_pending.induct)
  case (1 env mo index responses sv)
  show ?case
  proof (cases "index < length (sv_pending_admissions sv)")
    case True
    obtain as i sv1 where turn: "admission_turn env mo index sv = (as, i, sv1)" by (metis prod_cases3)
    have "poll_pending env mo i (responses @ as) sv1 = (answers, sv')"
      using 1(2) True turn by (simp add: poll_pending.simps [of _ _ index])
    from 1(1) [OF True turn [symmetric] refl refl this] admission_turn_ids [OF True turn]
    show ?thesis by (simp add: ac_simps)
  next
    case False
    with 1(2) show ?thesis by (simp add: poll_pending.simps [of _ _ index])
  qed
qed

lemma poll_workers_pending [simp]: "sv_pending_admissions (poll_workers mo index sv) = sv_pending_admissions sv"
  by (induction mo index sv rule: poll_workers.induct) (subst poll_workers.simps, simp add: Let_def)

section \<open>One turn of the admission loop\<close>

definition blocked :: "service \<Rightarrow> bool" where
  "blocked sv \<longleftrightarrow> sv_admission_cleanup_failed sv \<or> sv_unclean_sessions sv \<noteq> []"

text \<open>
  A turn either leaves executions and starts alone, or admits one execution, which needs that no
  cleanup is unverified; it never forgets an unverified cleanup.
\<close>

definition turn_quiet :: "service \<Rightarrow> service \<Rightarrow> bool" where
  "turn_quiet sv sv' \<longleftrightarrow>
     sv_active sv' = sv_active sv \<and> sv_workers sv' = sv_workers sv \<and>
     sv_pending_starts sv' = sv_pending_starts sv \<and>
     length (sv_pending_admissions sv') \<le> length (sv_pending_admissions sv) \<and>
     sv_unclean_sessions sv' = sv_unclean_sessions sv \<and>
     (sv_admission_cleanup_failed sv \<longrightarrow> sv_admission_cleanup_failed sv')"

definition turn_admits :: "service \<Rightarrow> service \<Rightarrow> bool" where
  "turn_admits sv sv' \<longleftrightarrow>
     \<not> blocked sv \<and> (\<exists>eid active start. sv_active sv' = bt_insert eid active (sv_active sv) \<and>
       sv_pending_starts sv' = sv_pending_starts sv @ [start]) \<and>
     length (sv_workers sv') \<le> Suc (length (sv_workers sv)) \<and>
     Suc (length (sv_pending_admissions sv')) = length (sv_pending_admissions sv) \<and>
     sv_unclean_sessions sv' = sv_unclean_sessions sv \<and>
     sv_admission_cleanup_failed sv' = sv_admission_cleanup_failed sv"

lemma receive_admission_effect:
  assumes "index < length (sv_pending_admissions sv)"
    and "receive_admission env mo index (sv_pending_admissions sv ! index) sv = outcome"
  shows "case outcome of
      Inl x \<Rightarrow> turn_quiet sv (snd x) \<or> turn_admits sv (snd x)
    | Inr sv' \<Rightarrow> turn_quiet sv sv' \<and> length (sv_pending_admissions sv') = length (sv_pending_admissions sv)"
  using assms
  by (auto simp: receive_admission_def turn_quiet_def turn_admits_def blocked_def Let_def
      split: list.splits admission_message.splits if_splits option.splits) (blast | linarith)+

lemma check_admission_effect:
  assumes "index < length (sv_pending_admissions sv)" "check_admission mo index sv = (answers, index', sv')"
  shows "turn_quiet sv sv'"
  using assms
  by (auto simp: check_admission_def turn_quiet_def Let_def split: option.splits if_splits bool.splits)

lemma turn_quiet_trans: "turn_quiet s t \<Longrightarrow> turn_quiet t u \<Longrightarrow> turn_quiet s u"
  by (auto simp: turn_quiet_def)

lemma admission_turn_effect:
  assumes "index < length (sv_pending_admissions sv)" "admission_turn env mo index sv = (answers, index', sv')"
  shows "turn_quiet sv sv' \<or> turn_admits sv sv'"
proof (cases "pa_rejection (sv_pending_admissions sv ! index) = None")
  case True
  show ?thesis
  proof (cases "receive_admission env mo index (sv_pending_admissions sv ! index) sv")
    case (Inl p)
    with receive_admission_effect [OF assms(1) Inl] assms(2) True show ?thesis
      by (cases p) (simp add: admission_turn_def Let_def)
  next
    case (Inr sv1)
    with receive_admission_effect [OF assms(1) Inr] assms True
      check_admission_effect [of index sv1 mo answers index' sv'] turn_quiet_trans
    show ?thesis by (auto simp: admission_turn_def Let_def)
  qed
next
  case False
  with check_admission_effect [OF assms(1)] assms(2) show ?thesis
    by (simp add: admission_turn_def Let_def)
qed

text \<open>What every turn keeps, the loop keeps.\<close>

lemma poll_pending_keeps:
  assumes "\<And>sv sv'. P sv \<Longrightarrow> turn_quiet sv sv' \<or> turn_admits sv sv' \<Longrightarrow> P sv'"
  shows "P sv \<Longrightarrow> P (snd (poll_pending env mo index responses sv))"
proof (induction env mo index responses sv rule: poll_pending.induct)
  case (1 env mo index responses sv)
  show ?case
  proof (cases "index < length (sv_pending_admissions sv)")
    case True
    obtain as i sv1 where turn: "admission_turn env mo index sv = (as, i, sv1)" by (metis prod_cases3)
    have "P sv1" using assms [OF 1(2) admission_turn_effect [OF True turn]] .
    with 1(1) [OF True turn [symmetric] refl refl] True turn show ?thesis
      by (simp add: poll_pending.simps [of _ _ index])
  next
    case False
    with 1(2) show ?thesis by (simp add: poll_pending.simps [of _ _ index])
  qed
qed

text \<open>The loop over the workers only takes workers away and closes what they leave unverified.\<close>

definition workers_reaped :: "service \<Rightarrow> service \<Rightarrow> bool" where
  "workers_reaped sv sv' \<longleftrightarrow>
     (wf_map (sv_active sv) \<longrightarrow> wf_map (sv_active sv')) \<and>
     dom (map_of (sv_active sv')) \<subseteq> dom (map_of (sv_active sv)) \<and>
     length (sv_workers sv') \<le> length (sv_workers sv) \<and>
     sv_pending_starts sv' = sv_pending_starts sv \<and>
     (blocked sv \<longrightarrow> blocked sv') \<and>
     (sv_admission_cleanup_failed sv \<longrightarrow> sv_admission_cleanup_failed sv') \<and>
     (sv_active sv' \<noteq> sv_active sv \<longrightarrow> sv_admission_cleanup_failed sv')"

lemma bt_insert_nonempty [simp]: "bt_insert k v m \<noteq> []"
  by (cases m) (auto split: if_splits)

lemma close_unconfirmed_worker_effect:
  "sv_admission_cleanup_failed (close_unconfirmed_worker eid sv)"
  "sv_active (close_unconfirmed_worker eid sv) = (if map_of (sv_active sv) eid = None then sv_active sv
     else bt_remove eid (sv_active sv))"
  by (auto simp: close_unconfirmed_worker_def Let_def split: option.splits)

lemma workers_reaped_refl: "workers_reaped sv sv"
  by (simp add: workers_reaped_def)

lemma workers_reaped_trans: "workers_reaped s t \<Longrightarrow> workers_reaped t u \<Longrightarrow> workers_reaped s u"
  unfolding workers_reaped_def by (metis order_trans)

lemma poll_workers_reaped: "workers_reaped sv (poll_workers mo index sv)"
proof (induction mo index sv rule: poll_workers.induct)
  case (1 mo index sv)
  let ?w = "sv_workers sv ! index"
  let ?removed = "sv\<lparr>sv_workers := swap_remove index (sv_workers sv)\<rparr>"
  let ?closed = "close_unconfirmed_worker (ow_execution_id ?w) ?removed"
  have removed: "workers_reaped sv ?removed" by (simp add: workers_reaped_def blocked_def)
  have closed: "workers_reaped sv ?closed"
    by (auto simp: workers_reaped_def blocked_def close_unconfirmed_worker_effect dest: wf_map_remove
        split: if_splits)
  have retained: "workers_reaped sv (retain_thread mo (ow_thread ?w) ?closed)"
    using closed by (simp add: workers_reaped_def blocked_def)
  show ?case
  proof (cases "index < length (sv_workers sv)")
    case True
    consider "mo_finished mo (ow_thread ?w)"
      | "\<not> mo_finished mo (ow_thread ?w)" "cleanup_deadline_expired (mo_now mo) (control_of sv (ow_control ?w))"
      | "\<not> mo_finished mo (ow_thread ?w)" "\<not> cleanup_deadline_expired (mo_now mo) (control_of sv (ow_control ?w))"
      by blast
    then show ?thesis
    proof cases
      case 1
      note fin = this
      have "workers_reaped sv (if mo_panicked mo (ow_thread ?w) then ?closed else ?removed)"
        using removed closed by simp
      from workers_reaped_trans [OF this "1.IH"(1) [OF True refl refl fin]] True fin
      show ?thesis by (simp add: poll_workers.simps [of mo index sv] Let_def)
    next
      case 2
      from workers_reaped_trans [OF retained "1.IH"(2) [OF True refl refl 2]] True 2
      show ?thesis by (simp add: poll_workers.simps [of mo index sv] Let_def)
    next
      case 3
      from "1.IH"(3) [OF True refl refl 3] True 3
      show ?thesis by (simp add: poll_workers.simps [of mo index sv] Let_def)
    qed
  next
    case False
    then show ?thesis by (simp add: poll_workers.simps [of mo index sv] workers_reaped_refl)
  qed
qed

section \<open>Everything else admits nothing\<close>

definition keeps :: "service \<Rightarrow> service \<Rightarrow> bool" where
  "keeps sv sv' \<longleftrightarrow>
     (wf_map (sv_active sv) \<longrightarrow> wf_map (sv_active sv')) \<and>
     dom (map_of (sv_active sv')) = dom (map_of (sv_active sv)) \<and>
     sv_workers sv' = sv_workers sv \<and> sv_pending_admissions sv' = sv_pending_admissions sv \<and>
     sv_pending_starts sv' = sv_pending_starts sv \<and>
     sv_admission_cleanup_failed sv' = sv_admission_cleanup_failed sv"

lemma keeps_refl [simp]: "keeps sv sv"
  by (simp add: keeps_def)

lemma keeps_trans: "keeps s t \<Longrightarrow> keeps t u \<Longrightarrow> keeps s u"
  unfolding keeps_def by metis

text \<open>A state that differs only in fields the relation does not read.\<close>

lemma keepsI:
  "sv_active sv' = sv_active sv \<Longrightarrow> sv_workers sv' = sv_workers sv \<Longrightarrow>
   sv_pending_admissions sv' = sv_pending_admissions sv \<Longrightarrow> sv_pending_starts sv' = sv_pending_starts sv \<Longrightarrow>
   sv_admission_cleanup_failed sv' = sv_admission_cleanup_failed sv \<Longrightarrow> keeps sv sv'"
  by (simp add: keeps_def)

lemma keeps_fold: "(\<And>x s. x \<in> set xs \<Longrightarrow> keeps sv s \<Longrightarrow> keeps sv (f x s)) \<Longrightarrow> keeps sv s \<Longrightarrow> keeps sv (fold f xs s)"
  by (induction xs arbitrary: s) auto

lemma keeps_update_active:
  "keeps sv s \<Longrightarrow> map_of (sv_active sv) eid \<noteq> None \<Longrightarrow> keeps sv (set_active eid a s)"
  by (auto simp: keeps_def set_active_def)

lemmas keeps_set_active = keeps_update_active [OF keeps_refl]

lemma keeps_finish_disposal: "keeps sv (snd (finish_disposal env mo session sv))"
proof -
  have fold: "keeps sv (fold (release_execution env mo) eids (sv\<lparr>sv_disposals := ds\<rparr>))" for eids ds
    by (rule keeps_fold) (auto intro: keeps_trans [OF _ keepsI] keepsI)
  have state: "keeps s (s\<lparr>sv_state := x\<rparr>)" for s x by (rule keepsI) simp_all
  show ?thesis
    using keeps_trans [OF fold state]
    by (auto simp: finish_disposal_def Let_def intro: keepsI split: option.splits)
qed

lemma keeps_deliver_event: "keeps sv (snd (deliver_event event sv))"
  by (rule keepsI) simp_all

lemma keeps_accept_terminal: "keeps sv (snd (accept_terminal env mo active eid session result terminal sv))"
proof -
  have filt: "keeps sv s \<Longrightarrow> keeps sv (s\<lparr>sv_subscriptions := x\<rparr>)" for s x
    by (erule keeps_trans) (rule keepsI; simp)
  have deliver: "keeps sv s \<Longrightarrow> keeps sv (snd (deliver_event terminal s))" for s
    by (erule keeps_trans) (rule keeps_deliver_event)
  have finish: "keeps sv s \<Longrightarrow> keeps sv (snd (finish_disposal env mo session s))" for s
    by (erule keeps_trans) (rule keeps_finish_disposal)
  have settled: "keeps sv (settle_disposal session eid r (settle_cleanup session eid r terminal
      (record_audit env e (record_replay env terminal sv))))"
    "keeps sv (settle_disposal session eid r (settle_cleanup session eid r terminal
      (record_audit env e (record_replay env terminal sv)\<lparr>sv_state := st\<rparr>)))" for r e st
    by (rule keepsI; simp)+
  show ?thesis
    by (cases "sv_mode sv")
      (auto simp: accept_terminal_def Let_def case_prod_beta intro!: filt deliver finish settled
        split: option.splits)
qed

text \<open>A completion takes one execution out of the active ones.\<close>

definition without :: "string \<Rightarrow> service \<Rightarrow> service" where
  "without eid sv = sv\<lparr>sv_active := bt_remove eid (sv_active sv)\<rparr>"

lemma keeps_on_complete: "keeps (without eid sv) (snd (on_complete env mo eid outcome sv))"
proof (cases "map_of (sv_active sv) eid")
  case None
  then have "bt_remove eid (sv_active sv) = sv_active sv"
    by (auto simp: bt_remove_def map_of_eq_None_iff filter_id_conv)
  with None show ?thesis by (simp add: on_complete_def without_def)
next
  case (Some active)
  have s: "keeps (without eid sv) (mark_unclean session [eid] (without eid sv))" for session
    by (rule keepsI) simp_all
  with Some keeps_trans [OF s keeps_accept_terminal] show ?thesis
    by (simp add: on_complete_def without_def [symmetric] Let_def split: option.splits prod.splits)
qed

lemma keeps_on_event: "keeps sv (snd (on_event env event sv))"
proof (cases "as_str (json_index event ''execution_id'')")
  case (Some eid)
  show ?thesis
  proof (cases "map_of (sv_active sv) eid")
    case active: (Some active)
    have "keeps sv (snd (deliver_event event (set_active eid a (record_replay env event (record_audit env e sv)))))" for a e
    proof -
      let ?s = "record_replay env event (record_audit env e sv)"
      have "keeps sv ?s" by (rule keepsI) simp_all
      moreover have "keeps ?s (set_active eid a ?s)" by (rule keeps_set_active) (simp add: active)
      ultimately show ?thesis by (blast intro: keeps_trans keeps_deliver_event)
    qed
    with Some active show ?thesis by (simp add: on_event_def Let_def)
  qed (simp add: on_event_def Some)
qed (simp add: on_event_def)

text \<open>The state in which \<open>poll_lifecycle\<close> treats the message it took.\<close>

definition message_state :: "moment \<Rightarrow> service \<Rightarrow> service" where
  "message_state mo sv =
     sv\<lparr>sv_delivery_hold := None,
        sv_notification_guards := filter (\<lambda>kv. upgrade mo (sv\<lparr>sv_delivery_hold := None\<rparr>) (snd kv) \<noteq> None)
          (sv_notification_guards sv),
        sv_lifecycle := tl (sv_lifecycle sv)\<rparr>"

lemma message_state_frame [simp]:
  "sv_active (message_state mo sv) = sv_active sv"
  "sv_unclean_sessions (message_state mo sv) = sv_unclean_sessions sv"
  "sv_admission_cleanup_failed (message_state mo sv) = sv_admission_cleanup_failed sv"
  "keeps sv (message_state mo sv)"
  by (simp_all add: message_state_def keeps_def)

lemma poll_lifecycle_cases:
  "sv_lifecycle sv = [] \<Longrightarrow> poll_lifecycle env mo sv = ([], message_state mo sv)"
  "sv_lifecycle sv = TerminalRange event reply # rest \<Longrightarrow> poll_lifecycle env mo sv =
     ([], reply_range reply (earliest_after (en_limits env) (en_allocation env) (sv_replay_cache sv) event)
        (message_state mo sv))"
  "sv_lifecycle sv = LifecycleEvent event # rest \<Longrightarrow>
     poll_lifecycle env mo sv = on_event env event (message_state mo sv)"
  "sv_lifecycle sv = Complete eid outcome # rest \<Longrightarrow>
     poll_lifecycle env mo sv = on_complete env mo eid outcome (message_state mo sv)"
  by (simp_all add: poll_lifecycle_def message_state_def Let_def)

lemma poll_lifecycle_effect:
  "keeps sv (snd (poll_lifecycle env mo sv)) \<or>
   (\<exists>eid outcome rest. sv_lifecycle sv = Complete eid outcome # rest \<and>
      poll_lifecycle env mo sv = on_complete env mo eid outcome (message_state mo sv))"
proof -
  have range: "keeps sv (reply_range r n (message_state mo sv))" for r n
    by (rule keeps_trans [OF message_state_frame(4)], rule keepsI) simp_all
  have event: "keeps sv (snd (on_event env event (message_state mo sv)))" for event
    by (rule keeps_trans [OF message_state_frame(4) keeps_on_event])
  show ?thesis
  proof (cases "sv_lifecycle sv")
    case (Cons message rest)
    then show ?thesis by (cases message) (simp_all add: poll_lifecycle_cases range event)
  qed (simp add: poll_lifecycle_cases)
qed

lemma poll_lifecycle_without:
  "keeps sv (snd (poll_lifecycle env mo sv)) \<or>
   (\<exists>eid. keeps (without eid sv) (snd (poll_lifecycle env mo sv)))"
proof -
  have "keeps (without eid sv) (without eid (message_state mo sv))" for eid
    by (rule keepsI) (simp_all add: without_def message_state_def)
  then show ?thesis using poll_lifecycle_effect keeps_on_complete keeps_trans by metis
qed

lemma keeps_expire_disposal: "keeps sv (snd acc) \<Longrightarrow> keeps sv (snd (expire_disposal env mo session acc))"
proof -
  assume acc: "keeps sv (snd acc)"
  have mark: "keeps s (mark_unclean session eids (s\<lparr>sv_disposals := ds\<rparr>))" for s eids ds
    by (rule keepsI) simp_all
  show ?thesis
    using acc keeps_trans [OF keeps_trans [OF acc mark] keeps_finish_disposal] keeps_trans [OF acc keeps_finish_disposal]
    by (cases acc) (simp add: expire_disposal_def Let_def split: prod.splits option.splits, metis snd_conv)
qed

lemma keeps_poll_disposal_deadlines: "keeps sv (snd (poll_disposal_deadlines env mo sv))"
proof -
  have "keeps sv (snd (fold (expire_disposal env mo) xs acc))" if "keeps sv (snd acc)" for xs acc
    using that by (induction xs arbitrary: acc) (simp_all add: keeps_expire_disposal)
  from this [of "([], sv)"] show ?thesis by (simp add: poll_disposal_deadlines_def Let_def)
qed

lemma keeps_cancel_owned: "keeps sv (cancel_owned_for env mo cause sv)"
  unfolding cancel_owned_for_def by (rule keeps_fold) (auto intro: keeps_trans [OF _ keepsI])

lemma keeps_signal: "keeps sv (snd (signal_execution rid params sv))"
  by (rule keepsI)
    (simp_all add: signal_execution_def Let_def split: sum.splits option.splits prod.splits)

lemma keeps_resize: "keeps sv (snd (resize_execution rid params sv))"
  by (rule keepsI)
    (simp_all add: resize_execution_def Let_def split: sum.splits option.splits prod.splits)

lemma keeps_execution_input: "keeps sv (snd (execution_input env rid params is_write sv))"
  by (rule keepsI)
    (simp_all add: execution_input_def Let_def case_prod_beta split: sum.splits option.splits)

lemma keeps_cancel_execution: "keeps sv (snd (cancel_execution env mo rid params sv))"
proof -
  have cause: "keeps sv (request_cause env mo Cancelled c sv)" for c by (rule keepsI) simp_all
  show ?thesis
    by (auto simp: cancel_execution_def Let_def intro: keeps_update_active [OF cause]
        split: sum.splits option.splits)
qed

lemma keeps_subscribe: "keeps sv (snd (subscribe_events mo rid params sv))"
  by (rule keepsI) (simp_all add: subscribe_events_def Let_def split: sum.splits option.splits)

lemma keeps_unsubscribe: "keeps sv (snd (unsubscribe_events mo rid params sv))"
  by (rule keepsI) (simp_all add: unsubscribe_events_def Let_def split: sum.splits option.splits)

lemma keeps_cancel_members:
  assumes "set members \<subseteq> set (sv_active sv)"
  shows "keeps sv (fold (cancel_member env mo) members sv)"
proof (rule keeps_fold)
  fix kv s
  assume "kv \<in> set members" and s: "keeps sv s"
  then have "map_of (sv_active sv) (fst kv) \<noteq> None"
    using assms by (metis in_mono map_of_eq_None_iff prod.collapse weak_map_of_SomeI option.distinct(1))
  moreover have "keeps sv (request_cause env mo Cancelled c s)" for c
    by (rule keeps_trans [OF s keepsI]) simp_all
  ultimately show "keeps sv (cancel_member env mo kv s)"
    unfolding cancel_member_def by (blast intro: keeps_update_active)
qed simp

lemma keeps_dispose_session: "keeps sv (snd (dispose_session env mo rid params sv))"
proof -
  have "keeps sv (fold (cancel_member env mo) (filter P (sv_active sv)) sv\<lparr>sv_disposals := ds\<rparr>)" for P ds
    by (rule keeps_trans [OF keeps_cancel_members keepsI]) auto
  moreover have "keeps sv (sv\<lparr>sv_disposals := ds\<rparr>)" for ds by (rule keepsI) simp_all
  ultimately show ?thesis
    by (auto simp: dispose_session_def Let_def intro: keeps_trans [OF _ keeps_finish_disposal] split: sum.splits)
qed

lemmas keeps_handlers = keeps_signal keeps_resize keeps_execution_input keeps_cancel_execution
  keeps_subscribe keeps_unsubscribe keeps_dispose_session

lemma keeps_dispatch: "method \<noteq> ''execute'' \<Longrightarrow> keeps sv (snd (dispatch env mo rid method params sv))"
  by (simp add: dispatch_def Let_def keeps_handlers)

section \<open>What one operation can change\<close>

definition execute_queues :: "service_env \<Rightarrow> service \<Rightarrow> service \<Rightarrow> bool" where
  "execute_queues env sv sv' \<longleftrightarrow>
     \<not> blocked sv \<and> sv_active sv' = sv_active sv \<and> sv_workers sv' = sv_workers sv \<and>
     sv_pending_starts sv' = sv_pending_starts sv \<and>
     sv_admission_cleanup_failed sv' = sv_admission_cleanup_failed sv \<and>
     (\<exists>pending. sv_pending_admissions sv' = sv_pending_admissions sv @ [pending]) \<and>
     max (length (sv_active sv)) (length (sv_workers sv)) + length (sv_pending_admissions sv) <
       max_active_executions (en_limits env)"

lemma execute_effect: "keeps sv (snd (execute env mo rid params sv)) \<or> execute_queues env sv (snd (execute env mo rid params sv))"
  by (auto simp: execute_def admission_spawn_def execute_queues_def blocked_def Let_def case_prod_beta)

lemma request_effect:
  "keeps sv (snd (handle_rpc_request env mo request sv)) \<or>
   execute_queues env sv (snd (handle_rpc_request env mo request sv))"
proof -
  have "keeps sv (snd (dispatch env mo rid name params sv)) \<or>
      execute_queues env sv (snd (dispatch env mo rid name params sv))" for name rid params
    by (cases "name = ''execute''") (use execute_effect in \<open>simp_all add: keeps_dispatch, simp add: dispatch_def\<close>)
  then show ?thesis
    by (simp add: handle_rpc_request_def split: sum.splits option.splits prod.splits)
qed

lemma length_wf_map: "wf_map m \<Longrightarrow> length m = card (dom (map_of m))"
  by (metis distinct_card dom_map_of_conv_image_fst length_map set_map wf_map_distinct)

lemma wf_map_length_mono:
  "wf_map m \<Longrightarrow> wf_map n \<Longrightarrow> dom (map_of m) \<subseteq> dom (map_of n) \<Longrightarrow> length m \<le> length n"
  by (simp add: length_wf_map card_mono finite_dom_map_of)

lemma length_bt_insert: "length (bt_insert k v m) \<le> Suc (length m)"
  by (induction m) auto

lemma change_pending_frame [simp]:
  "sv_active (change_pending i f sv) = sv_active sv"
  "sv_workers (change_pending i f sv) = sv_workers sv"
  "sv_pending_starts (change_pending i f sv) = sv_pending_starts sv"
  "sv_admission_cleanup_failed (change_pending i f sv) = sv_admission_cleanup_failed sv"
  "sv_unclean_sessions (change_pending i f sv) = sv_unclean_sessions sv"
  "length (sv_pending_admissions (change_pending i f sv)) = length (sv_pending_admissions sv)"
  by (simp_all add: change_pending_def)

text \<open>The number of executions that are being admitted or run, as \<open>execute\<close> counts it.\<close>

definition load :: "service \<Rightarrow> nat" where
  "load sv = max (length (sv_active sv)) (length (sv_workers sv)) + length (sv_pending_admissions sv)"

definition load_inv :: "service_env \<Rightarrow> service \<Rightarrow> bool" where
  "load_inv env sv \<longleftrightarrow> wf_map (sv_active sv) \<and> load sv \<le> max_active_executions (en_limits env)"

lemma load_inv_keeps: "load_inv env sv \<Longrightarrow> keeps sv sv' \<Longrightarrow> load_inv env sv'"
  using wf_map_length_mono [of "sv_active sv'" "sv_active sv"]
  by (auto simp: load_inv_def load_def keeps_def)

lemma load_inv_without: "load_inv env sv \<Longrightarrow> load_inv env (without eid sv)"
proof -
  have "length (bt_remove eid (sv_active sv)) \<le> length (sv_active sv)" by (simp add: bt_remove_def)
  then show "load_inv env sv \<Longrightarrow> load_inv env (without eid sv)"
    by (auto simp: load_inv_def load_def without_def)
qed

lemma load_inv_queues: "load_inv env sv \<Longrightarrow> execute_queues env sv sv' \<Longrightarrow> load_inv env sv'"
  by (auto simp: load_inv_def load_def execute_queues_def)

lemma load_inv_turn:
  assumes "load_inv env sv" "turn_quiet sv sv' \<or> turn_admits sv sv'"
  shows "load_inv env sv'"
  using assms(2)
proof
  assume admits: "turn_admits sv sv'"
  then obtain eid active where ins: "sv_active sv' = bt_insert eid active (sv_active sv)"
    by (auto simp: turn_admits_def)
  have "length (sv_active sv') \<le> Suc (length (sv_active sv))"
    using length_bt_insert ins by metis
  with admits assms(1) show ?thesis
    by (auto simp: load_inv_def load_def turn_admits_def ins intro: wf_map_insert)
qed (use assms(1) in \<open>auto simp: load_inv_def load_def turn_quiet_def\<close>)

lemma load_inv_poll_workers: "load_inv env sv \<Longrightarrow> load_inv env (poll_workers mo index sv)"
  using poll_workers_reaped [of sv mo index] wf_map_length_mono [of "sv_active (poll_workers mo index sv)" "sv_active sv"]
  by (auto simp: load_inv_def load_def workers_reaped_def)

lemma load_inv_same:
  "load_inv env sv \<Longrightarrow> sv_active sv' = sv_active sv \<Longrightarrow> sv_workers sv' = sv_workers sv \<Longrightarrow>
   length (sv_pending_admissions sv') = length (sv_pending_admissions sv) \<Longrightarrow> load_inv env sv'"
  by (simp add: load_inv_def load_def)

lemma load_inv_step: "load_inv env sv \<Longrightarrow> load_inv env (service_step env sv x)"
proof -
  assume inv: "load_inv env sv"
  note keep = load_inv_keeps [OF inv]
  have polled: "load_inv env (snd (poll_admissions env mo sv))" for mo
    unfolding poll_admissions_def
    by (rule poll_pending_keeps [where P = "load_inv env", OF _ load_inv_poll_workers [OF inv]])
      (rule load_inv_turn)
  have requested: "load_inv env (snd (handle_rpc_request env mo request sv))" for mo request
    using request_effect [of sv env mo request] keep load_inv_queues [OF inv] by blast
  have messages: "load_inv env (snd (poll_lifecycle env mo sv))" for mo
    using poll_lifecycle_without [of sv env mo] keep load_inv_keeps [OF load_inv_without [OF inv]] by blast
  show ?thesis
    unfolding service_step_def
    by (cases "(env, sv, x)" rule: service_run.cases)
      (simp_all add: polled requested messages take_admitted_starts_def keep load_inv_same [OF inv]
        keeps_poll_disposal_deadlines keeps_cancel_owned)
qed

section \<open>Admission is bounded\<close>

text \<open>Whatever happens to the service, what it admits and runs stays within the limit.\<close>

interpretation admission: bounded_store "service_new mode" "service_step env" "load_inv env" load
  "max_active_executions (en_limits env)" for mode env
  by unfold_locales (simp_all add: load_inv_step, simp_all add: load_inv_def load_def service_new_def)

text \<open>
  C22: The executions being admitted and running never exceed the limit of the deployment, in any
  history of requests, polls, messages of workers and changes of shared controls: those pending
  admission, added to the larger of the active executions and the worker threads still owned, are
  at most \<open>max_active_executions\<close>; the active executions form an ordered map with one entry for
  each identifier.
\<close>

theorem executions_are_bounded:
  "let sv = run_ops (service_step env) (service_new mode) ops in
     max (length (sv_active sv)) (length (sv_workers sv)) + length (sv_pending_admissions sv)
       \<le> max_active_executions (en_limits env) \<and>
     distinct (map fst (sv_active sv))"
  using admission.bounded_reachable [of env mode ops] admission.inv_reachable [of env mode ops]
  by (simp add: Let_def load_def load_inv_def wf_map_distinct)

section \<open>Nothing is admitted while a cleanup is unverified\<close>

definition admits_nothing :: "service \<Rightarrow> service \<Rightarrow> bool" where
  "admits_nothing sv sv' \<longleftrightarrow>
     dom (map_of (sv_active sv')) \<subseteq> dom (map_of (sv_active sv)) \<and>
     set (sv_pending_starts sv') \<subseteq> set (sv_pending_starts sv) \<and>
     length (sv_workers sv') \<le> length (sv_workers sv) \<and>
     length (sv_pending_admissions sv') \<le> length (sv_pending_admissions sv)"

lemma admits_nothing_refl: "admits_nothing sv sv"
  by (simp add: admits_nothing_def)

lemma admits_nothing_trans: "admits_nothing s t \<Longrightarrow> admits_nothing t u \<Longrightarrow> admits_nothing s u"
  unfolding admits_nothing_def by (meson order_trans)

lemma keeps_admits_nothing: "keeps sv sv' \<Longrightarrow> admits_nothing sv sv'"
  by (simp add: keeps_def admits_nothing_def)

lemma blocked_poll_admissions:
  assumes "blocked sv"
  shows "admits_nothing sv (snd (poll_admissions env mo sv)) \<and>
    (sv_admission_cleanup_failed sv \<longrightarrow> sv_admission_cleanup_failed (snd (poll_admissions env mo sv)))"
proof -
  let ?P = "\<lambda>s. blocked s \<and> admits_nothing sv s \<and>
    (sv_admission_cleanup_failed sv \<longrightarrow> sv_admission_cleanup_failed s)"
  have start: "?P (poll_workers mo 0 sv)"
    using poll_workers_reaped [of sv mo 0] assms by (simp add: workers_reaped_def admits_nothing_def)
  have turn: "?P s'" if "?P s" "turn_quiet s s' \<or> turn_admits s s'" for s s'
    using that by (auto simp: turn_quiet_def turn_admits_def blocked_def admits_nothing_def)
  have "?P (snd (poll_pending env mo 0 [] (poll_workers mo 0 sv)))"
    by (rule poll_pending_keeps [where P = ?P]) (rule turn, assumption+, rule start)
  then show ?thesis by (simp add: poll_admissions_def)
qed

lemma blocked_step:
  assumes "blocked sv"
  shows "admits_nothing sv (service_step env sv x) \<and>
    (sv_admission_cleanup_failed sv \<longrightarrow> sv_admission_cleanup_failed (service_step env sv x))"
proof -
  have keep: "keeps sv sv' \<Longrightarrow> admits_nothing sv sv' \<and>
      (sv_admission_cleanup_failed sv \<longrightarrow> sv_admission_cleanup_failed sv')" for sv'
    by (simp add: keeps_admits_nothing) (simp add: keeps_def)
  have requested: "keeps sv (snd (handle_rpc_request env mo request sv))" for mo request
    using request_effect [of sv env mo request] assms by (auto simp: execute_queues_def)
  have "keeps (without eid sv) sv' \<Longrightarrow> admits_nothing sv sv' \<and>
      (sv_admission_cleanup_failed sv \<longrightarrow> sv_admission_cleanup_failed sv')" for eid sv'
    by (auto simp: keeps_def admits_nothing_def without_def)
  with poll_lifecycle_without [of sv env] keep
  have messages: "admits_nothing sv (snd (poll_lifecycle env mo sv)) \<and>
      (sv_admission_cleanup_failed sv \<longrightarrow> sv_admission_cleanup_failed (snd (poll_lifecycle env mo sv)))" for mo
    by blast
  show ?thesis
    unfolding service_step_def
    by (cases "(env, sv, x)" rule: service_run.cases)
      (simp_all add: keep requested messages blocked_poll_admissions [OF assms]
        keeps_poll_disposal_deadlines keeps_cancel_owned,
       simp_all add: take_admitted_starts_def admits_nothing_def)
qed

lemma failed_history:
  "sv_admission_cleanup_failed sv \<Longrightarrow>
     admits_nothing sv (run_ops (service_step env) sv ops) \<and>
     sv_admission_cleanup_failed (run_ops (service_step env) sv ops)"
proof (induction ops arbitrary: sv)
  case (Cons x ops)
  then have "admits_nothing sv (service_step env sv x)" "sv_admission_cleanup_failed (service_step env sv x)"
    using blocked_step [of sv env x] by (auto simp: blocked_def)
  with Cons.IH show ?case by (auto intro: admits_nothing_trans)
qed (simp add: admits_nothing_refl)

section \<open>A sample service\<close>

definition sample_env :: service_env where
  "sample_env =
     \<lparr>en_limits = default_limits, en_host = sample_host, en_allocation = sample_allocation,
      en_json_len = (\<lambda>_. 64), en_version = JStr ''1'', en_capabilities = JObj [],
      en_setup_status = (\<lambda>_. Inr JNull), en_explain = (\<lambda>_ _. JNull)\<rparr>"

definition sample_moment :: "instant \<Rightarrow> moment" where
  "sample_moment now =
     \<lparr>mo_now = now, mo_finished = (\<lambda>_. True), mo_panicked = (\<lambda>_. False), mo_held = (\<lambda>_. False),
      mo_spawn_ok = True\<rparr>"

text \<open>
  C11: An unverified cleanup stops admission. While the flag is set or a session is unclean, a
  request to execute is refused with \<open>EXECUTION_CLEANUP_FAILED\<close> and changes nothing, and no operation
  of the service or of its threads adds an active execution, a start, an owned thread or a pending
  admission. The flag is never cleared: once it is set, nothing is admitted in any later history.
\<close>

theorem unverified_cleanup_stops_admission:
  assumes "sv_admission_cleanup_failed sv \<or> sv_unclean_sessions sv \<noteq> []"
  shows "(\<exists>err. execute env mo rid params sv = ([rpc_error rid err], sv) \<and>
            err_code err = ''EXECUTION_CLEANUP_FAILED'')
    \<and> admits_nothing sv (service_step env sv x)
    \<and> (sv_admission_cleanup_failed sv \<longrightarrow>
         admits_nothing sv (run_ops (service_step env) sv ops)
         \<and> sv_admission_cleanup_failed (run_ops (service_step env) sv ops))"
proof (intro conjI impI)
  show "\<exists>err. execute env mo rid params sv = ([rpc_error rid err], sv) \<and>
      err_code err = ''EXECUTION_CLEANUP_FAILED''"
    using assms by (auto simp: execute_def error_with_details_def error_new_def)
  show "admits_nothing sv (service_step env sv x)"
    using blocked_step assms by (simp add: blocked_def)
qed (simp_all add: failed_history)

definition sample_ready :: ready_admission where
  "sample_ready =
     \<lparr>ra_active = \<lparr>ac_result = JObj [(''execution_id'', JStr ''e''), (''session_id'', JStr ''s'')], ac_control = 0,
                   ac_sequence = 0, ac_stdin = None, ac_control_input = None, ac_audit_metadata = None\<rparr>,
      ra_start = 7\<rparr>"

definition sample_execute :: json where
  "sample_execute =
     JObj [(''id'', json_nat 1), (''jsonrpc'', JStr ''2.0''), (''method'', JStr ''execute'')]"

theorem unverified_cleanup_stops_admission_witness:
  "sv_pending_starts (run_ops (service_step sample_env) (close_unconfirmed_worker ''e'' (service_new Stateful))
     [(sample_moment 1, Request sample_execute), (sample_moment 2, AdmissionSend 0 (Ready sample_ready)),
      (sample_moment 3, PollAdmissions)]) = []"
proof -
  let ?sv = "close_unconfirmed_worker ''e'' (service_new Stateful)"
  have failed: "sv_admission_cleanup_failed ?sv" by (simp add: close_unconfirmed_worker_effect)
  have "admits_nothing ?sv (run_ops (service_step sample_env) ?sv ops)" for ops
    using unverified_cleanup_stops_admission [OF disjI1 [OF failed], of sample_env] failed by blast
  moreover have "sv_pending_starts ?sv = []" by (simp add: service_new_def)
  ultimately show ?thesis by (metis admits_nothing_def list.set(1) set_empty subset_empty)
qed

section \<open>Every admission is answered once\<close>

text \<open>
  C30: Polling answers what it takes away, once. The identifiers of the requests pending before a
  poll are, as a multiset, those of the responses it returns together with those still pending:
  no request for an execution is dropped without an answer or answered twice, whatever the workers
  sent and whichever of them finished, panicked or ran out of time.
\<close>

theorem admissions_are_answered_once:
  "mset (map pa_id (sv_pending_admissions sv)) =
     mset (map (\<lambda>message. json_index message ''id'') (fst (poll_admissions env mo sv)))
     + mset (map pa_id (sv_pending_admissions (snd (poll_admissions env mo sv))))"
proof -
  obtain answers sv' where poll: "poll_pending env mo 0 [] (poll_workers mo 0 sv) = (answers, sv')"
    by (metis prod.exhaust)
  from poll_pending_ids [OF this] poll show ?thesis
    by (simp add: poll_admissions_def response_id_def [abs_def])
qed

end
