(* ===== verification/Protocol_Loop.thy ===== *)
theory Protocol_Loop
  imports Protocol_Reader Service_Admission
begin

text \<open>
  The connection: the main loop \<open>run_stdio\<close> of \<open>src/protocol/rpc_handler.rs\<close>, which joins the reader,
  the service and the writer. The loop is a state machine whose steps are the pieces of its body
  between two uses of shared state; between any two of them the writer thread and the threads of
  executions may take any number of steps of their own, and every step reads its own time.
\<close>

section \<open>State\<close>

text \<open>What the receiver of the input channel answers.\<close>

datatype input_message = Received "(io_error, byte list option) result" | Disconnected | TimedOut

text \<open>The JSON parser and serializer and the capacity of a fresh vector are parameters.\<close>

record loop_env =
  le_service :: service_env
  le_from_slice :: "byte list \<Rightarrow> json option"
  le_to_writer :: "json \<Rightarrow> byte list list \<times> io_error option"
  le_with_capacity :: "nat \<Rightarrow> nat"

abbreviation le_limits :: "loop_env \<Rightarrow> deployment_limits" where
  "le_limits env \<equiv> en_limits (le_service env)"

text \<open>Where the loop is in its body, with the messages gathered so far.\<close>

datatype loop_phase =
    Top | Draining | Receiving | Polling "json list" | Disposing "json list" | Queueing "json list"
  | Lifecycle | Deciding | Left

record protocol_loop =
  pl_service :: service
  pl_writer :: writer_system
  pl_pending :: "frame list"
  pl_pending_bytes :: nat
  pl_input_closed :: bool
  pl_aborted :: "termination_cause option"
  pl_reader_stop :: bool
  pl_phase :: loop_phase

definition loop_init :: "service_mode \<Rightarrow> instant \<Rightarrow> protocol_loop" where
  "loop_init mode now =
     \<lparr>pl_service = service_new mode, pl_writer = writer_system_init now, pl_pending = [],
      pl_pending_bytes = 0, pl_input_closed = False, pl_aborted = None, pl_reader_stop = False,
      pl_phase = Top\<rparr>"

section \<open>The pieces of the body\<close>

abbreviation writer_now :: "protocol_loop \<Rightarrow> writer_state" where
  "writer_now lp \<equiv> sy_state (pl_writer lp)"

definition close_connection :: "loop_env \<Rightarrow> moment \<Rightarrow> termination_cause \<Rightarrow> protocol_loop \<Rightarrow> protocol_loop" where
  "close_connection env mo cause lp =
     lp\<lparr>pl_service := cancel_owned_for (le_service env) mo cause (pl_service lp),
        pl_writer := (pl_writer lp)\<lparr>sy_state := writer_stop (writer_now lp)\<rparr>,
        pl_pending := [], pl_pending_bytes := 0, pl_reader_stop := True\<rparr>"

definition check_writer :: "loop_env \<Rightarrow> moment \<Rightarrow> protocol_loop \<Rightarrow> protocol_loop" where
  "check_writer env mo lp =
     (if pl_aborted lp = None \<and> (ws_failed (writer_now lp) \<or> stalled (le_limits env) (mo_now mo) (writer_now lp))
      then let cause = (if ws_failed (writer_now lp) then ClientDisconnected else Backpressure) in
        (close_connection env mo cause lp)\<lparr>pl_aborted := Some cause\<rparr>
      else lp)"

text \<open>Handing the first pending frame to the writer; the result says whether to go on.\<close>

definition drain_pending :: "loop_env \<Rightarrow> instant \<Rightarrow> protocol_loop \<Rightarrow> bool \<times> protocol_loop" where
  "drain_pending env now lp =
     (case pl_pending lp of
        [] \<Rightarrow> (False, lp)
      | f # frames \<Rightarrow>
          let lp = lp\<lparr>pl_pending := frames\<rparr>; bytes = fr_resident f in
          (case enqueue (le_limits env) now f (writer_now lp) of
             (Inr _, st) \<Rightarrow>
               (True, lp\<lparr>pl_pending_bytes := pl_pending_bytes lp - bytes,
                  pl_writer := (pl_writer lp)\<lparr>sy_state := st, sy_accepted := sy_accepted (pl_writer lp) @ [f]\<rparr>\<rparr>)
           | (Inl f, st) \<Rightarrow>
               (False, lp\<lparr>pl_pending := f # pl_pending lp, pl_writer := (pl_writer lp)\<lparr>sy_state := st\<rparr>\<rparr>)))"

definition is_ascii_whitespace :: "byte \<Rightarrow> bool" where
  "is_ascii_whitespace b \<longleftrightarrow> b \<in> {9, 10, 12, 13, 32}"

definition receive_input ::
  "loop_env \<Rightarrow> moment \<Rightarrow> input_message \<Rightarrow> protocol_loop \<Rightarrow> json list \<times> protocol_loop" where
  "receive_input env mo input lp =
     (if \<not> pl_input_closed lp \<and> pl_aborted lp = None \<and> pl_pending_bytes lp < pending_input_pause_bytes (le_limits env)
      then
        let closed = ([], lp\<lparr>pl_input_closed := True,
                         pl_service := cancel_owned (le_service env) mo (pl_service lp)\<rparr>) in
        (case input of
           Received (Inr (Some line)) \<Rightarrow>
             if list_all is_ascii_whitespace line then ([], lp)
             else (case le_from_slice env line of
                     Some request \<Rightarrow>
                       (case handle_rpc_request (le_service env) mo request (pl_service lp) of
                          (messages, sv) \<Rightarrow> (messages, lp\<lparr>pl_service := sv\<rparr>))
                   | None \<Rightarrow> ([parse_error ''invalid JSON-RPC request''], lp))
         | Received (Inl (InvalidData _)) \<Rightarrow> ([parse_error ''JSON-RPC frame exceeds maximum length''], lp)
         | Received _ \<Rightarrow> closed
         | Disconnected \<Rightarrow> closed
         | TimedOut \<Rightarrow> ([], lp))
      else ([], lp))"

definition queue_message ::
  "loop_env \<Rightarrow> moment \<Rightarrow> nat list \<Rightarrow> json \<Rightarrow> protocol_loop \<Rightarrow> protocol_loop" where
  "queue_message env mo permits message lp =
     (case frame_encode (le_limits env) (le_to_writer env) (le_with_capacity env) message
             (delivery_guard mo (pl_service lp) message) permits of
        Inr f \<Rightarrow> lp\<lparr>pl_pending_bytes := pl_pending_bytes lp + fr_resident f, pl_pending := pl_pending lp @ [f]\<rparr>
      | Inl _ \<Rightarrow> lp\<lparr>pl_aborted := Some ClientDisconnected\<rparr>)"

text \<open>The last message carries the permits of the executions admitted in this turn.\<close>

fun queue_messages ::
  "loop_env \<Rightarrow> moment \<Rightarrow> nat list \<Rightarrow> json list \<Rightarrow> protocol_loop \<Rightarrow> protocol_loop" where
  "queue_messages env mo starts [] lp = lp"
| "queue_messages env mo starts (message # messages) lp =
     queue_messages env mo starts messages
       (queue_message env mo (if messages = [] then starts else []) message lp)"

definition queue_batch :: "loop_env \<Rightarrow> moment \<Rightarrow> json list \<Rightarrow> protocol_loop \<Rightarrow> protocol_loop" where
  "queue_batch env mo messages lp =
     (let (starts, sv) = take_admitted_starts (pl_service lp);
          lp = queue_messages env mo starts messages (lp\<lparr>pl_service := sv\<rparr>) in
      if pending_protocol_bytes (le_limits env) < pl_pending_bytes lp
      then lp\<lparr>pl_aborted := Some Backpressure\<rparr> else lp)"

definition queue_live :: "loop_env \<Rightarrow> moment \<Rightarrow> json \<Rightarrow> protocol_loop \<Rightarrow> protocol_loop" where
  "queue_live env mo message lp = (if pl_aborted lp \<noteq> None then lp else queue_message env mo [] message lp)"

definition lifecycle_turn :: "loop_env \<Rightarrow> moment \<Rightarrow> protocol_loop \<Rightarrow> protocol_loop" where
  "lifecycle_turn env mo lp =
     (if pl_aborted lp \<noteq> None \<or> (pl_pending lp = [] \<and> can_poll_events (le_limits env) (writer_now lp))
      then (case poll_lifecycle (le_service env) mo (pl_service lp) of
              (messages, sv) \<Rightarrow> fold (queue_live env mo) messages (lp\<lparr>pl_service := sv\<rparr>))
      else lp)"

text \<open>The end of the body: the result says whether the loop is left.\<close>

definition decide :: "loop_env \<Rightarrow> moment \<Rightarrow> protocol_loop \<Rightarrow> bool \<times> protocol_loop" where
  "decide env mo lp =
     (case pl_aborted lp of
        Some cause \<Rightarrow> let lp = close_connection env mo cause lp in (\<not> has_active (pl_service lp), lp)
      | None \<Rightarrow>
          (pl_input_closed lp \<and> \<not> has_active (pl_service lp) \<and> pl_pending lp = [] \<and> writer_idle (writer_now lp), lp))"

definition loop_result :: "protocol_loop \<Rightarrow> string + unit" where
  "loop_result lp =
     (if pl_aborted lp \<noteq> None then Inl ''protocol connection closed after transport failure'' else Inr ())"

section \<open>Steps\<close>

text \<open>What the threads of executions and admissions do to the state they share with the service.\<close>

definition outside_op :: "service_op \<Rightarrow> bool" where
  "outside_op x \<longleftrightarrow>
     (case x of Request _ \<Rightarrow> False | PollLifecycle \<Rightarrow> False | PollAdmissions \<Rightarrow> False | PollDisposals \<Rightarrow> False
      | CancelOwned _ \<Rightarrow> False | TakeStarts \<Rightarrow> False | _ \<Rightarrow> True)"

inductive loop_step :: "loop_env \<Rightarrow> protocol_loop \<Rightarrow> protocol_loop \<Rightarrow> bool" for env where
  top: "pl_phase lp = Top \<Longrightarrow> loop_step env lp ((check_writer env mo lp)\<lparr>pl_phase := Draining\<rparr>)"
| drain: "pl_phase lp = Draining \<Longrightarrow> drain_pending env now lp = (again, lp') \<Longrightarrow>
    loop_step env lp (lp'\<lparr>pl_phase := (if again then Draining else Receiving)\<rparr>)"
| receive: "pl_phase lp = Receiving \<Longrightarrow> receive_input env mo input lp = (messages, lp') \<Longrightarrow>
    loop_step env lp (lp'\<lparr>pl_phase := Polling messages\<rparr>)"
| admissions: "pl_phase lp = Polling messages \<Longrightarrow>
    poll_admissions (le_service env) mo (pl_service lp) = (replies, sv) \<Longrightarrow>
    loop_step env lp (lp\<lparr>pl_service := sv, pl_phase := Disposing (messages @ replies)\<rparr>)"
| disposals: "pl_phase lp = Disposing messages \<Longrightarrow>
    poll_disposal_deadlines (le_service env) mo (pl_service lp) = (replies, sv) \<Longrightarrow>
    loop_step env lp (lp\<lparr>pl_service := sv, pl_phase := Queueing (messages @ replies)\<rparr>)"
| queue: "pl_phase lp = Queueing messages \<Longrightarrow>
    loop_step env lp ((queue_batch env mo messages lp)\<lparr>pl_phase := Lifecycle\<rparr>)"
| lifecycle: "pl_phase lp = Lifecycle \<Longrightarrow> loop_step env lp ((lifecycle_turn env mo lp)\<lparr>pl_phase := Deciding\<rparr>)"
| decide: "pl_phase lp = Deciding \<Longrightarrow> decide env mo lp = (leave, lp') \<Longrightarrow>
    loop_step env lp (lp'\<lparr>pl_phase := (if leave then Left else Top)\<rparr>)"
| writer: "worker_step (pl_writer lp) w \<Longrightarrow> loop_step env lp (lp\<lparr>pl_writer := w\<rparr>)"
| outside: "outside_op x \<Longrightarrow>
    loop_step env lp (lp\<lparr>pl_service := service_step (le_service env) (pl_service lp) (mo, x)\<rparr>)"


inductive_cases loop_stepE: "loop_step env lp lp'"

section \<open>Control frames are never overtaken\<close>

text \<open>Without guards, the control frames delivered are a prefix of those accepted, even after a stop.\<close>

definition control_prefix :: "writer_system \<Rightarrow> bool" where
  "control_prefix s \<longleftrightarrow>
     (\<forall>f \<in> set (lane False (sy_accepted s)). fr_guard f = None) \<longrightarrow>
     prefix (lane False (sy_delivered s @ undelivered (sy_worker s))) (lane False (sy_accepted s)) \<and>
     (\<not> ws_stopping (sy_state s) \<longrightarrow>
        lane False (sy_delivered s @ undelivered (sy_worker s)) @ lane_queue False (sy_state s) =
          lane False (sy_accepted s))"

lemma control_prefix_look:
  assumes "worker_take guards (sy_state s) = (outcome, st)" "sy_worker s = Looking"
    and "control_prefix s" "budget_inv limits s" "undelivered w = taken_frames outcome"
  shows "control_prefix (s\<lparr>sy_state := st, sy_worker := w\<rparr>)"
proof (cases "ws_stopping (sy_state s)")
  case True
  with assms(1) have "outcome = ReturnNow" "st = sy_state s" by (simp_all add: worker_take.simps)
  with assms(2,3,5) True show ?thesis by (simp add: control_prefix_def taken_frames_def undelivered_def)
next
  case False
  have inv: "wf_queues (sy_state s)" "accounts (sy_state s) []"
    using assms(2,4) by (simp_all add: budget_inv_def in_flight_def)
  obtain dropped where
    eq: "lane_queue False (sy_state s) = dropped @ lane False (taken_frames outcome) @ lane_queue False st"
    and invalid: "\<forall>f \<in> set dropped. \<not> frame_valid guards f" and stop: "ws_stopping st = ws_stopping (sy_state s)"
    using worker_take_spec [OF assms(1) inv] by blast
  have "prefix (lane False (sy_delivered s @ undelivered w)) (lane False (sy_accepted s)) \<and>
      lane False (sy_delivered s @ undelivered w) @ lane_queue False st = lane False (sy_accepted s)"
    if free: "\<forall>f \<in> set (lane False (sy_accepted s)). fr_guard f = None"
  proof -
    have whole: "lane False (sy_delivered s) @ dropped @ lane False (taken_frames outcome) @ lane_queue False st =
        lane False (sy_accepted s)"
      using assms(2,3) free False eq by (simp add: control_prefix_def undelivered_def)
    have "dropped = []"
    proof (rule ccontr)
      assume "dropped \<noteq> []"
      then obtain f where f: "f \<in> set dropped" by (cases dropped) auto
      with whole have "f \<in> set (lane False (sy_accepted s))" by (metis Un_iff set_append)
      with f invalid free show False by (force simp: frame_valid_def)
    qed
    then have "lane False (sy_delivered s @ undelivered w) @ lane_queue False st = lane False (sy_accepted s)"
      using whole assms(5) by simp
    then show ?thesis by (metis prefixI)
  qed
  then show ?thesis by (simp add: control_prefix_def)
qed

lemma control_prefix_worker:
  assumes "worker_step s t" "control_prefix s" "budget_inv limits s"
  shows "control_prefix t"
  using assms
proof (cases rule: worker_step.cases)
  case (look guards outcome st)
  show ?thesis unfolding look(1)
    by (rule control_prefix_look [OF look(3,2) assms(2,3)])
      (simp add: undelivered_def taken_frames_def split: taken.splits)
next
  case (finish f ok now)
  with assms(2) show ?thesis
    by (cases ok) (auto simp: control_prefix_def undelivered_def finish_frame_spec(5,6) dest: append_prefixD)
qed (auto simp: control_prefix_def undelivered_def)

lemma control_prefix_client:
  assumes "client_step limits s t" "control_prefix s" "budget_inv limits s"
  shows "control_prefix t"
  using assms
proof (cases rule: client_step.cases)
  case (enqueue now f answer st)
  with assms(2) enqueue_spec(1,6) [OF enqueue(2)] show ?thesis
    by (auto simp: control_prefix_def simp flip: append_assoc)
next
  case stop
  have "accounts ((sy_state s)\<lparr>ws_stopping := True\<rparr>) (in_flight (sy_worker s))"
    using assms(3) by (simp add: budget_inv_def accounts_def)
  from drop_queued_spec(3) [OF this] stop assms(2) show ?thesis
    by (auto simp: control_prefix_def writer_stop_def)
qed

lemma control_prefix_reachable:
  assumes "(writer_step limits)\<^sup>*\<^sup>* (writer_system_init now) s"
  shows "control_prefix s"
  using assms
proof induction
  case base
  show ?case
    by (simp add: control_prefix_def writer_system_init_def writer_init_def undelivered_def lane_queue_def)
next
  case (step t u)
  then have "budget_inv limits t" by (blast intro: budget_inv_reachable)
  with step show ?case by (auto simp: writer_step_def intro: control_prefix_worker control_prefix_client)
qed

section \<open>Receipts of admissions\<close>

definition is_event :: "json \<Rightarrow> bool" where
  "is_event message \<longleftrightarrow> json_index message ''method'' = JStr ''event''"

lemma is_event_response [simp]:
  "\<not> is_event (rpc_result rid result)" "\<not> is_event (error_with_code rid code err)" "\<not> is_event (rpc_error rid err)"
  by (simp_all add: is_event_def rpc_result_def rpc_error_def error_with_code_def json_object_def
      obj_of_def obj_extend_def json_index_def json_get_def obj_get_def)

abbreviation receipt :: "json \<Rightarrow> ready_admission \<Rightarrow> json" where
  "receipt rid ready \<equiv> rpc_result rid (ac_result (ra_active ready))"

text \<open>
  An admission is offered under an identifier while its answer waits in the channel of a pending
  admission with that identifier. \<open>offers own\<close> says that every admission on offer has the property
  \<open>own\<close>.
\<close>

definition offered :: "pending_admission list \<Rightarrow> json \<Rightarrow> ready_admission \<Rightarrow> bool" where
  "offered admissions rid ready \<longleftrightarrow> (\<exists>pa \<in> set admissions. pa_id pa = rid \<and> Ready ready \<in> set (pa_messages pa))"

definition offers :: "(json \<Rightarrow> ready_admission \<Rightarrow> bool) \<Rightarrow> service \<Rightarrow> bool" where
  "offers own sv \<longleftrightarrow> (\<forall>pa \<in> set (sv_pending_admissions sv). \<forall>ready. Ready ready \<in> set (pa_messages pa) \<longrightarrow> own (pa_id pa) ready)"

lemma offers_iff: "offers own sv \<longleftrightarrow> (\<forall>rid ready. offered (sv_pending_admissions sv) rid ready \<longrightarrow> own rid ready)"
  by (auto simp: offers_def offered_def)

lemma offers_same: "sv_pending_admissions sv' = sv_pending_admissions sv \<Longrightarrow> offers own sv' = offers own sv"
  by (simp add: offers_def)

lemma offers_update:
  assumes "offers own sv" "sv_pending_admissions sv' = (sv_pending_admissions sv)[i := p]" "i < length (sv_pending_admissions sv)"
    and "pa_id p = pa_id (sv_pending_admissions sv ! i)" "set (pa_messages p) \<subseteq> set (pa_messages (sv_pending_admissions sv ! i))"
  shows "offers own sv'"
  unfolding offers_def assms(2)
proof (intro ballI allI impI)
  fix pa ready assume pa: "pa \<in> set ((sv_pending_admissions sv)[i := p])" "Ready ready \<in> set (pa_messages pa)"
  then consider "pa = p" | "pa \<in> set (sv_pending_admissions sv)" using set_update_subset_insert by fastforce
  then show "own (pa_id pa) ready"
  proof cases
    case 1
    with pa(2) assms show ?thesis unfolding offers_def by (metis nth_mem subsetD)
  next
    case 2
    with pa(2) assms(1) show ?thesis unfolding offers_def by blast
  qed
qed

lemma offers_remove:
  assumes "offers own sv" "sv_pending_admissions sv' = swap_remove i (sv_pending_admissions sv)" "i < length (sv_pending_admissions sv)"
  shows "offers own sv'"
  using assms(1) set_swap_remove [OF assms(3)] unfolding offers_def assms(2) by blast

text \<open>
  Every start the loop over the admissions adds is the gate of an admission on offer, with the receipt
  for its identifier among the answers.
\<close>

definition starts_answered :: "(json \<Rightarrow> ready_admission \<Rightarrow> bool) \<Rightarrow> service \<Rightarrow> json list \<Rightarrow> service \<Rightarrow> bool" where
  "starts_answered own sv replies sv' \<longleftrightarrow>
     offers own sv' \<and> (\<forall>m \<in> set replies. \<not> is_event m) \<and>
     (\<exists>rs. sv_pending_starts sv' = sv_pending_starts sv @ map (\<lambda>x. ra_start (snd x)) rs \<and>
        (\<forall>x \<in> set rs. own (fst x) (snd x) \<and> receipt (fst x) (snd x) \<in> set replies))"

lemma starts_answered_quiet:
  "offers own sv' \<Longrightarrow> \<forall>m \<in> set replies. \<not> is_event m \<Longrightarrow> sv_pending_starts sv' = sv_pending_starts sv \<Longrightarrow>
     starts_answered own sv replies sv'"
  by (simp add: starts_answered_def exI [of _ "[]"])

lemma starts_answered_trans:
  assumes "starts_answered own s as t" "starts_answered own t bs u"
  shows "starts_answered own s (as @ bs) u"
proof -
  obtain rs ts where "sv_pending_starts t = sv_pending_starts s @ map (\<lambda>x. ra_start (snd x)) rs"
    "\<forall>x \<in> set rs. own (fst x) (snd x) \<and> receipt (fst x) (snd x) \<in> set as"
    "sv_pending_starts u = sv_pending_starts t @ map (\<lambda>x. ra_start (snd x)) ts"
    "\<forall>x \<in> set ts. own (fst x) (snd x) \<and> receipt (fst x) (snd x) \<in> set bs"
    using assms unfolding starts_answered_def by blast
  then have "sv_pending_starts u = sv_pending_starts s @ map (\<lambda>x. ra_start (snd x)) (rs @ ts)"
    "\<forall>x \<in> set (rs @ ts). own (fst x) (snd x) \<and> receipt (fst x) (snd x) \<in> set (as @ bs)" by auto
  with assms show ?thesis unfolding starts_answered_def by (auto intro!: exI [of _ "rs @ ts"])
qed

lemma starts_answered_one:
  "offers own sv' \<Longrightarrow> own rid r \<Longrightarrow> sv_pending_starts sv' = sv_pending_starts sv @ [ra_start r] \<Longrightarrow>
     starts_answered own sv [receipt rid r] sv'"
  unfolding starts_answered_def by (auto intro!: exI [of _ "[(rid, r)]"])

lemma starts_answered_from:
  "starts_answered own t as u \<Longrightarrow> sv_pending_starts t = sv_pending_starts s \<Longrightarrow> starts_answered own s as u"
  by (simp add: starts_answered_def)

lemma admit_answered:
  assumes "offers own sv" "index < length (sv_pending_admissions sv)" "own (pa_id pending) ready"
  shows "starts_answered own sv [receipt (pa_id pending) ready] (snd (admit mo index pending ready sv))"
proof -
  have "offers own (snd (admit mo index pending ready sv))"
    using assms(1) _ assms(2) by (rule offers_remove) (simp add: admit_def Let_def split: option.splits)
  then show ?thesis using starts_answered_one assms(3) by simp
qed

lemma receive_admission_answered:
  assumes "receive_admission env mo index (sv_pending_admissions sv ! index) sv = outcome" "offers own sv"
    and index: "index < length (sv_pending_admissions sv)"
  shows "case outcome of
      Inl x \<Rightarrow> starts_answered own sv (fst x) (snd x)
    | Inr sv' \<Rightarrow> sv_pending_starts sv' = sv_pending_starts sv \<and> offers own sv' \<and>
        length (sv_pending_admissions sv') = length (sv_pending_admissions sv)"
proof -
  let ?pending = "sv_pending_admissions sv ! index"
  have kept: "offers own (set_pending index p s)"
    if "sv_pending_admissions s = sv_pending_admissions sv" "pa_id p = pa_id ?pending" "set (pa_messages p) \<subseteq> set (pa_messages ?pending)" for p s
    using assms(2) _ index that(2,3) by (rule offers_update) (simp add: set_pending_def that(1))
  show ?thesis
  proof (cases "pa_messages ?pending")
    case Nil
    with assms show ?thesis by (auto simp: receive_admission_def Let_def intro!: kept split: if_splits)
  next
    case (Cons m rest)
    show ?thesis
    proof (cases m)
      case (Ready ready)
      have own: "own (pa_id ?pending) ready" using assms(2) index Cons Ready by (auto simp: offers_def)
      have admitted: "starts_answered own sv [receipt (pa_id ?pending) ready] (snd (admit mo index p ready s))"
        if "pa_id p = pa_id ?pending" "sv_pending_admissions s = sv_pending_admissions sv"
          "sv_pending_starts s = sv_pending_starts sv" for p s
        using admit_answered [of own s index p ready mo] that own index assms(2) offers_same [OF that(2)]
        by (intro starts_answered_from [OF _ that(3)]) simp
      have refused: "starts_answered own sv [] (set_pending index p s)"
        if "sv_pending_admissions s = sv_pending_admissions sv" "sv_pending_starts s = sv_pending_starts sv"
          "pa_id p = pa_id ?pending" "set (pa_messages p) \<subseteq> set (pa_messages ?pending)" for p s
        using kept [OF that(1,3,4)] that(2) by (intro starts_answered_quiet) (simp_all add: set_pending_def)
      show ?thesis
        using assms(1) Cons Ready
        by (auto simp: receive_admission_def Let_def intro!: kept refused admitted split: if_splits)
    next
      case (Rejected err)
      with assms Cons show ?thesis by (auto simp: receive_admission_def Let_def intro!: kept)
    qed
  qed
qed

lemma check_admission_answered:
  assumes "check_admission mo index sv = (replies, index', sv')" "offers own sv" "index < length (sv_pending_admissions sv)"
  shows "starts_answered own sv replies sv'"
proof -
  have removed: "offers own s" if "sv_pending_admissions s = swap_remove index (sv_pending_admissions sv)" for s
    using assms(2) that assms(3) by (rule offers_remove)
  show ?thesis
    using assms(1,2)
    by (auto simp: check_admission_def Let_def intro!: starts_answered_quiet removed split: option.splits if_splits bool.splits)
qed

lemma admission_turn_answered:
  assumes "admission_turn env mo index sv = (replies, index', sv')" "offers own sv" "index < length (sv_pending_admissions sv)"
  shows "starts_answered own sv replies sv'"
proof (cases "pa_rejection (sv_pending_admissions sv ! index) = None")
  case True
  show ?thesis
  proof (cases "receive_admission env mo index (sv_pending_admissions sv ! index) sv")
    case (Inl p)
    with receive_admission_answered [OF Inl assms(2,3)] assms True show ?thesis
      by (cases p) (simp add: admission_turn_def Let_def)
  next
    case (Inr sv1)
    with assms True have "check_admission mo index sv1 = (replies, index', sv')" by (simp add: admission_turn_def Let_def)
    moreover have "offers own sv1" "index < length (sv_pending_admissions sv1)" "sv_pending_starts sv1 = sv_pending_starts sv"
      using receive_admission_answered [OF Inr assms(2,3)] assms(3) by simp_all
    ultimately show ?thesis using check_admission_answered starts_answered_from by blast
  qed
next
  case False
  with check_admission_answered assms show ?thesis by (simp add: admission_turn_def Let_def)
qed

lemma poll_pending_answered:
  "poll_pending env mo index responses sv = (replies, sv') \<Longrightarrow> offers own sv \<Longrightarrow>
     \<exists>new. replies = responses @ new \<and> starts_answered own sv new sv'"
proof (induction env mo index responses sv rule: poll_pending.induct)
  case (1 env mo index responses sv)
  show ?case
  proof (cases "index < length (sv_pending_admissions sv)")
    case True
    obtain as i sv1 where turn: "admission_turn env mo index sv = (as, i, sv1)" by (metis prod_cases3)
    have rest: "poll_pending env mo i (responses @ as) sv1 = (replies, sv')"
      using 1(2) True turn by (simp add: poll_pending.simps [of _ _ index])
    note first = admission_turn_answered [OF turn 1(3) True]
    then have "offers own sv1" by (simp add: starts_answered_def)
    from 1(1) [OF True turn [symmetric] refl refl rest this] starts_answered_trans [OF first]
    show ?thesis by auto
  next
    case False
    with 1(2,3) show ?thesis by (simp add: poll_pending.simps [of _ _ index] starts_answered_quiet)
  qed
qed

lemma poll_admissions_answered:
  assumes "poll_admissions env mo sv = (replies, sv')" "offers own sv"
  shows "starts_answered own sv replies sv'"
proof -
  have "sv_pending_starts (poll_workers mo 0 sv) = sv_pending_starts sv" "offers own (poll_workers mo 0 sv) = offers own sv"
    using poll_workers_reaped [of sv mo 0] by (simp_all add: workers_reaped_def offers_def)
  with poll_pending_answered [of env mo 0 "[]" "poll_workers mo 0 sv" replies sv' own] assms show ?thesis
    by (simp add: poll_admissions_def starts_answered_def)
qed


section \<open>The invariant of the loop\<close>

definition frame_text :: "loop_env \<Rightarrow> json \<Rightarrow> byte list" where
  "frame_text env message = concat (fst (le_to_writer env message)) @ [newline]"

definition encodes :: "loop_env \<Rightarrow> json \<Rightarrow> frame \<Rightarrow> bool" where
  "encodes env message f \<longleftrightarrow>
     fr_bytes f = frame_text env message \<and> fr_data f = is_event message \<and> (is_event message \<or> fr_guard f = None) \<and>
     FRAME_OVERHEAD \<le> fr_resident f"

text \<open>
  A line of frames is sound when its control frames have no guard and every permit rides on a control
  frame, with the receipt of its execution in that frame or before it.
\<close>

definition receipt_in :: "(json \<Rightarrow> ready_admission \<Rightarrow> bool) \<Rightarrow> loop_env \<Rightarrow> nat \<Rightarrow> frame list \<Rightarrow> bool" where
  "receipt_in own env g fs \<longleftrightarrow> (\<exists>ready rid f. own rid ready \<and> ra_start ready = g \<and> f \<in> set fs \<and> encodes env (receipt rid ready) f)"

definition sound_line :: "(json \<Rightarrow> ready_admission \<Rightarrow> bool) \<Rightarrow> loop_env \<Rightarrow> frame list \<Rightarrow> bool" where
  "sound_line own env fs \<longleftrightarrow>
     (\<forall>f \<in> set fs. (fr_data f \<or> fr_guard f = None) \<and> FRAME_OVERHEAD \<le> fr_resident f) \<and>
     (\<forall>i < length fs. \<forall>g \<in> set (fr_starts (fs ! i)). \<not> fr_data (fs ! i) \<and> receipt_in own env g (take (Suc i) fs))"

definition starts_due :: "(json \<Rightarrow> ready_admission \<Rightarrow> bool) \<Rightarrow> loop_phase \<Rightarrow> service \<Rightarrow> bool" where
  "starts_due own phase sv \<longleftrightarrow>
     (let due = (\<lambda>messages. sv_pending_starts sv = [] \<or>
            messages \<noteq> [] \<and> \<not> is_event (last messages) \<and>
            (\<forall>g \<in> set (sv_pending_starts sv). \<exists>ready rid. own rid ready \<and> ra_start ready = g \<and> receipt rid ready \<in> set messages)) in
      case phase of Disposing messages \<Rightarrow> due messages | Queueing messages \<Rightarrow> due messages | _ \<Rightarrow> sv_pending_starts sv = [])"

definition early :: "loop_phase \<Rightarrow> bool" where
  "early phase \<longleftrightarrow> phase \<noteq> Lifecycle \<and> phase \<noteq> Deciding"

definition loop_inv :: "(json \<Rightarrow> ready_admission \<Rightarrow> bool) \<Rightarrow> loop_env \<Rightarrow> protocol_loop \<Rightarrow> bool" where
  "loop_inv own env lp \<longleftrightarrow>
     pl_pending_bytes lp = weight fr_resident (pl_pending lp) \<and>
     sound_line own env (sy_accepted (pl_writer lp)) \<and>
     (pl_aborted lp = None \<longrightarrow> sound_line own env (sy_accepted (pl_writer lp) @ pl_pending lp)) \<and>
     (early (pl_phase lp) \<and> pl_aborted lp \<noteq> None \<longrightarrow> pl_pending lp = []) \<and>
     starts_due own (pl_phase lp) (pl_service lp)"

lemma sound_line_prefix:
  assumes "sound_line own env (xs @ ys)"
  shows "sound_line own env xs"
proof -
  have "\<not> fr_data (xs ! i) \<and> receipt_in own env g (take (Suc i) xs)" if "i < length xs" "g \<in> set (fr_starts (xs ! i))" for i g
  proof -
    have "(xs @ ys) ! i = xs ! i" "take (Suc i) (xs @ ys) = take (Suc i) xs" "i < length (xs @ ys)"
      using that(1) by (simp_all add: nth_append)
    with assms that(2) show ?thesis unfolding sound_line_def by metis
  qed
  with assms show ?thesis by (simp add: sound_line_def)
qed

lemma receipt_in_mono: "receipt_in own env g xs \<Longrightarrow> set xs \<subseteq> set ys \<Longrightarrow> receipt_in own env g ys"
  unfolding receipt_in_def by blast

lemma sound_line_append:
  assumes "sound_line own env xs" "\<forall>f \<in> set ys. (fr_data f \<or> fr_guard f = None) \<and> FRAME_OVERHEAD \<le> fr_resident f"
    and "\<forall>i < length ys. \<forall>g \<in> set (fr_starts (ys ! i)). \<not> fr_data (ys ! i) \<and> receipt_in own env g (take (Suc i) ys)"
  shows "sound_line own env (xs @ ys)"
  unfolding sound_line_def
proof (intro conjI allI impI ballI)
  fix f assume "f \<in> set (xs @ ys)"
  with assms(1,2) show "fr_data f \<or> fr_guard f = None" "FRAME_OVERHEAD \<le> fr_resident f" by (auto simp: sound_line_def)
next
  fix i g assume i: "i < length (xs @ ys)" and g: "g \<in> set (fr_starts ((xs @ ys) ! i))"
  show "\<not> fr_data ((xs @ ys) ! i)" "receipt_in own env g (take (Suc i) (xs @ ys))"
  proof -
    have "\<not> fr_data ((xs @ ys) ! i) \<and> receipt_in own env g (take (Suc i) (xs @ ys))"
    proof (cases "i < length xs")
      case True
      with g assms(1) have "\<not> fr_data (xs ! i)" "receipt_in own env g (take (Suc i) xs)"
        by (auto simp: sound_line_def nth_append)
      with True show ?thesis by (auto simp: nth_append elim: receipt_in_mono)
    next
      case False
      with i g assms(3) have "\<not> fr_data (ys ! (i - length xs))" "receipt_in own env g (take (Suc (i - length xs)) ys)"
        by (auto simp: nth_append)
      with False show ?thesis by (auto simp: nth_append Suc_diff_le elim!: receipt_in_mono)
    qed
    then show "\<not> fr_data ((xs @ ys) ! i)" "receipt_in own env g (take (Suc i) (xs @ ys))" by simp_all
  qed
qed

lemma frame_encode_encodes:
  assumes "frame_encode limits (le_to_writer env) cap message (delivery_guard mo sv message) starts = Inr f"
  shows "encodes env message f" "fr_starts f = starts"
proof -
  obtain n where "fold_result (count_piece limits) (fst (le_to_writer env message)) 0 = Inr n"
    using assms unfolding frame_encode_def by (elim rbind_InrE)
  with assms show "encodes env message f" "fr_starts f = starts"
    by (auto simp: frame_encode_def encodes_def frame_text_def is_event_def delivery_guard_def
        split: option.splits if_splits)
qed

text \<open>Queueing keeps the count; when nothing failed it appends one frame per message, the last with the permits.\<close>

lemma queue_message_frame [simp]:
  "pl_service (queue_message env mo starts m lp) = pl_service lp"
  "pl_writer (queue_message env mo starts m lp) = pl_writer lp"
  "pl_phase (queue_message env mo starts m lp) = pl_phase lp"
  "pl_input_closed (queue_message env mo starts m lp) = pl_input_closed lp"
  by (simp_all add: queue_message_def split: sum.splits)

lemma queue_message_bytes:
  "pl_pending_bytes lp = weight fr_resident (pl_pending lp) \<Longrightarrow>
     pl_pending_bytes (queue_message env mo starts m lp) = weight fr_resident (pl_pending (queue_message env mo starts m lp))"
  by (simp add: queue_message_def split: sum.splits)

lemma queue_message_alive:
  assumes "pl_aborted (queue_message env mo starts m lp) = None"
  shows "pl_aborted lp = None \<and> (\<exists>f. pl_pending (queue_message env mo starts m lp) = pl_pending lp @ [f] \<and>
    encodes env m f \<and> fr_starts f = starts)"
  using assms frame_encode_encodes [of "le_limits env" env "le_with_capacity env" m mo "pl_service lp" starts]
  by (auto simp: queue_message_def split: sum.splits)

lemma queue_messages_frame [simp]:
  "pl_service (queue_messages env mo starts ms lp) = pl_service lp"
  "pl_writer (queue_messages env mo starts ms lp) = pl_writer lp"
  "pl_phase (queue_messages env mo starts ms lp) = pl_phase lp"
  "pl_input_closed (queue_messages env mo starts ms lp) = pl_input_closed lp"
  by (induction ms arbitrary: lp) simp_all

lemma queue_messages_bytes:
  "pl_pending_bytes lp = weight fr_resident (pl_pending lp) \<Longrightarrow>
     pl_pending_bytes (queue_messages env mo starts ms lp) = weight fr_resident (pl_pending (queue_messages env mo starts ms lp))"
  by (induction ms arbitrary: lp) (simp_all add: queue_message_bytes)

lemma queue_messages_alive:
  assumes "pl_aborted (queue_messages env mo starts ms lp) = None"
  shows "pl_aborted lp = None \<and> (\<exists>fs. pl_pending (queue_messages env mo starts ms lp) = pl_pending lp @ fs \<and>
    list_all2 (encodes env) ms fs \<and> (\<forall>i < length fs. fr_starts (fs ! i) = (if Suc i = length fs then starts else [])))"
  using assms
proof (induction ms arbitrary: lp)
  case (Cons m ms)
  let ?lp = "queue_message env mo (if ms = [] then starts else []) m lp"
  from Cons obtain fs where fs: "pl_aborted ?lp = None" "list_all2 (encodes env) ms fs"
    "pl_pending (queue_messages env mo starts ms ?lp) = pl_pending ?lp @ fs"
    "\<forall>i < length fs. fr_starts (fs ! i) = (if Suc i = length fs then starts else [])" by auto
  then obtain f where f: "pl_aborted lp = None" "pl_pending ?lp = pl_pending lp @ [f]" "encodes env m f"
    "fr_starts f = (if ms = [] then starts else [])" using queue_message_alive by blast
  have "\<forall>i < length (f # fs). fr_starts ((f # fs) ! i) = (if Suc i = length (f # fs) then starts else [])"
    using f(4) fs(2,4) by (auto simp: nth_Cons' dest: list_all2_lengthD)
  with f fs show ?case by (intro conjI exI [of _ "f # fs"]) simp_all
qed simp

lemma queue_messages_sound:
  assumes "sound_line own env (xs @ pl_pending lp)" "pl_aborted (queue_messages env mo starts ms lp) = None"
    and "starts = [] \<or> ms \<noteq> [] \<and> \<not> is_event (last ms) \<and>
      (\<forall>g \<in> set starts. \<exists>ready rid. own rid ready \<and> ra_start ready = g \<and> receipt rid ready \<in> set ms)"
  shows "sound_line own env (xs @ pl_pending (queue_messages env mo starts ms lp))"
proof -
  obtain fs where fs: "pl_pending (queue_messages env mo starts ms lp) = pl_pending lp @ fs"
    "list_all2 (encodes env) ms fs" "\<forall>i < length fs. fr_starts (fs ! i) = (if Suc i = length fs then starts else [])"
    using queue_messages_alive [OF assms(2)] by blast
  have len: "length ms = length fs" using fs(2) by (rule list_all2_lengthD)
  have enc: "encodes env (ms ! i) (fs ! i)" if "i < length fs" for i using fs(2) that by (simp add: list_all2_conv_all_nth)
  have "sound_line own env ((xs @ pl_pending lp) @ fs)"
  proof (rule sound_line_append [OF assms(1)])
    show "\<forall>f \<in> set fs. (fr_data f \<or> fr_guard f = None) \<and> FRAME_OVERHEAD \<le> fr_resident f" using enc by (metis encodes_def in_set_conv_nth)
    show "\<forall>i < length fs. \<forall>g \<in> set (fr_starts (fs ! i)). \<not> fr_data (fs ! i) \<and> receipt_in own env g (take (Suc i) fs)"
    proof (intro allI impI ballI)
      fix i g assume i: "i < length fs" and g: "g \<in> set (fr_starts (fs ! i))"
      then have last: "Suc i = length fs" "g \<in> set starts" using fs(3) by (auto split: if_splits)
      then obtain ready rid where r: "own rid ready" "ra_start ready = g" "receipt rid ready \<in> set ms" and ev: "\<not> is_event (last ms)"
        using assms(3) by auto
      then obtain k where "k < length fs" "ms ! k = receipt rid ready" using len by (auto simp: in_set_conv_nth)
      then have "fs ! k \<in> set (take (Suc i) fs)" "encodes env (receipt rid ready) (fs ! k)"
        using enc [of k] last(1) by simp_all
      with r have "receipt_in own env g (take (Suc i) fs)" unfolding receipt_in_def by blast
      moreover have "last ms = ms ! i" using last(1) len by (metis diff_Suc_1 last_conv_nth length_0_conv nat.distinct(1))
      ultimately show "\<not> fr_data (fs ! i) \<and> receipt_in own env g (take (Suc i) fs)" using ev enc [OF i] by (simp add: encodes_def)
    qed
  qed
  with fs(1) show ?thesis by simp
qed


lemma starts_due_same:
  "starts_due own phase sv \<Longrightarrow> sv_pending_starts sv' = sv_pending_starts sv \<Longrightarrow> starts_due own phase sv'"
  unfolding starts_due_def by (simp only:)

lemma starts_due_none:
  "(\<forall>ms. phase \<noteq> Disposing ms \<and> phase \<noteq> Queueing ms) \<Longrightarrow> starts_due own phase sv \<longleftrightarrow> sv_pending_starts sv = []"
  by (auto simp: starts_due_def Let_def split: loop_phase.splits)

lemmas starts_due_cases = starts_due_none [of Top] starts_due_none [of Draining] starts_due_none [of Receiving]
  starts_due_none [of "Polling ms" for ms] starts_due_none [of Lifecycle] starts_due_none [of Deciding]
  starts_due_none [of Left]

lemma handle_rpc_request_starts [simp]:
  "sv_pending_starts (snd (handle_rpc_request env mo request sv)) = sv_pending_starts sv"
  using request_effect [of sv env mo request] by (auto simp: keeps_def execute_queues_def)

lemma cancel_owned_starts [simp]:
  "sv_pending_starts (cancel_owned_for env mo cause sv) = sv_pending_starts sv"
  "sv_pending_starts (cancel_owned env mo sv) = sv_pending_starts sv"
  using keeps_cancel_owned [of sv env mo] by (simp_all add: keeps_def cancel_owned_def)

lemma poll_lifecycle_starts [simp]:
  "sv_pending_starts (snd (poll_lifecycle env mo sv)) = sv_pending_starts sv"
  using poll_lifecycle_without [of sv env mo] by (auto simp: keeps_def without_def)

lemma outside_starts: "outside_op x \<Longrightarrow> sv_pending_starts (service_step env sv (mo, x)) = sv_pending_starts sv"
  by (cases x) (simp_all add: outside_op_def service_step_def)

lemma worker_step_accepted: "worker_step s t \<Longrightarrow> sy_accepted t = sy_accepted s"
  by (erule worker_step.cases) simp_all

lemma receive_input_frame:
  assumes "receive_input env mo input lp = (messages, lp')"
  shows "pl_pending lp' = pl_pending lp" "pl_pending_bytes lp' = pl_pending_bytes lp" "pl_writer lp' = pl_writer lp"
    "pl_aborted lp' = pl_aborted lp" "sv_pending_starts (pl_service lp') = sv_pending_starts (pl_service lp)"
proof -
  have "pl_pending lp' = pl_pending lp \<and> pl_pending_bytes lp' = pl_pending_bytes lp \<and> pl_writer lp' = pl_writer lp \<and>
    pl_aborted lp' = pl_aborted lp \<and> sv_pending_starts (pl_service lp') = sv_pending_starts (pl_service lp)"
    using assms handle_rpc_request_starts
    by (auto simp: receive_input_def Let_def case_prod_beta
        split: if_splits input_message.splits sum.splits option.splits io_error.splits)
  then show "pl_pending lp' = pl_pending lp" "pl_pending_bytes lp' = pl_pending_bytes lp" "pl_writer lp' = pl_writer lp"
    "pl_aborted lp' = pl_aborted lp" "sv_pending_starts (pl_service lp') = sv_pending_starts (pl_service lp)" by simp_all
qed

lemma queue_live_frame [simp]:
  "pl_service (fold (queue_live env mo) ms lp) = pl_service lp"
  "pl_writer (fold (queue_live env mo) ms lp) = pl_writer lp"
  "pl_input_closed (fold (queue_live env mo) ms lp) = pl_input_closed lp"
  by (induction ms arbitrary: lp) (simp_all add: queue_live_def)

lemma queue_live_bytes:
  "pl_pending_bytes lp = weight fr_resident (pl_pending lp) \<Longrightarrow>
     pl_pending_bytes (fold (queue_live env mo) ms lp) = weight fr_resident (pl_pending (fold (queue_live env mo) ms lp))"
  by (induction ms arbitrary: lp) (simp_all add: queue_live_def queue_message_bytes)

lemma queue_live_sound:
  "sound_line own env (xs @ pl_pending lp) \<Longrightarrow> pl_aborted (fold (queue_live env mo) ms lp) = None \<Longrightarrow>
     sound_line own env (xs @ pl_pending (fold (queue_live env mo) ms lp)) \<and> pl_aborted lp = None"
proof (induction ms arbitrary: lp)
  case (Cons m ms)
  have sticky: "pl_aborted (fold (queue_live env mo) xs lp) \<noteq> None" if "pl_aborted lp \<noteq> None" for xs lp
    using that by (induction xs arbitrary: lp) (auto simp: queue_live_def)
  have alive: "pl_aborted (queue_live env mo m lp) = None"
  proof (rule ccontr)
    assume "pl_aborted (queue_live env mo m lp) \<noteq> None"
    from sticky [OF this, of ms] Cons.prems(2) show False by simp
  qed
  then have live: "pl_aborted lp = None" "queue_live env mo m lp = queue_messages env mo [] [m] lp"
    by (auto simp: queue_live_def split: if_splits)
  have "sound_line own env (xs @ pl_pending (queue_live env mo m lp))"
    using queue_messages_sound [OF Cons.prems(1), of mo "[]" "[m]"] alive live(2) by simp
  with Cons live(1) show ?case by simp
qed simp

lemma writer_client:
  assumes "(writer_step limits)\<^sup>*\<^sup>* w0 w" "client_step limits w w'"
  shows "(writer_step limits)\<^sup>*\<^sup>* w0 w'"
  using assms by (simp add: writer_step_def rtranclp.rtrancl_into_rtrancl)

lemma close_connection_frame [simp]:
  "pl_pending (close_connection env mo cause lp) = []" "pl_pending_bytes (close_connection env mo cause lp) = 0"
  "pl_writer (close_connection env mo cause lp) = (pl_writer lp)\<lparr>sy_state := writer_stop (writer_now lp)\<rparr>"
  "pl_aborted (close_connection env mo cause lp) = pl_aborted lp"
  "sv_pending_starts (pl_service (close_connection env mo cause lp)) = sv_pending_starts (pl_service lp)"
  by (simp_all add: close_connection_def)

lemma queue_batch_frame [simp]:
  "pl_writer (queue_batch env mo ms lp) = pl_writer lp"
  "sv_pending_starts (pl_service (queue_batch env mo ms lp)) = []"
  by (simp_all add: queue_batch_def take_admitted_starts_def Let_def)

lemma lifecycle_turn_frame [simp]:
  "pl_writer (lifecycle_turn env mo lp) = pl_writer lp"
  "sv_pending_starts (pl_service (lifecycle_turn env mo lp)) = sv_pending_starts (pl_service lp)"
  by (simp_all add: lifecycle_turn_def case_prod_beta)

text \<open>The writer under the loop is a writer with some client, so its own invariants hold.\<close>

lemma loop_step_writer:
  assumes "loop_step env lp lp'" "(writer_step (le_limits env))\<^sup>*\<^sup>* w (pl_writer lp)"
  shows "(writer_step (le_limits env))\<^sup>*\<^sup>* w (pl_writer lp')"
proof -
  note stopped = writer_client [OF assms(2) client_step.stop]
  show ?thesis
    using assms(1)
  proof (cases rule: loop_step.cases)
    case (top mo)
    with stopped assms(2) show ?thesis by (simp add: check_writer_def Let_def)
  next
    case (drain now again lp1)
    show ?thesis
    proof (cases "pl_pending lp")
      case Nil
      with drain assms(2) show ?thesis by (simp add: drain_pending_def)
    next
      case (Cons f fs)
      obtain answer st where e: "enqueue (le_limits env) now f (writer_now lp) = (answer, st)" by fastforce
      from writer_client [OF assms(2) client_step.enqueue [OF e]] drain Cons e show ?thesis
        by (cases answer) (auto simp: drain_pending_def Let_def)
    qed
  next
    case (decide mo leave lp1)
    with stopped assms(2) show ?thesis by (auto simp: decide_def Let_def split: option.splits)
  next
    case (writer w')
    with assms(2) show ?thesis by (auto simp: writer_step_def intro: rtranclp.rtrancl_into_rtrancl)
  qed (use assms(2) in \<open>auto dest: receive_input_frame(3)\<close>)
qed


lemma loop_inv_drain:
  assumes "loop_inv own env lp" "pl_phase lp = Draining" "drain_pending env now lp = (again, lp')"
  shows "loop_inv own env (lp'\<lparr>pl_phase := (if again then Draining else Receiving)\<rparr>)"
proof (cases "pl_pending lp")
  case Nil
  with assms show ?thesis by (auto simp: drain_pending_def loop_inv_def starts_due_cases early_def)
next
  case (Cons f fs)
  obtain answer st where e: "enqueue (le_limits env) now f (writer_now lp) = (answer, st)" by fastforce
  have alive: "pl_aborted lp = None" using assms(1,2) Cons by (auto simp: loop_inv_def early_def)
  have line: "sound_line own env (sy_accepted (pl_writer lp) @ [f] @ fs)"
    using assms(1) alive Cons by (simp add: loop_inv_def)
  then have one: "sound_line own env (sy_accepted (pl_writer lp) @ [f])" using sound_line_prefix by (metis append.assoc)
  show ?thesis
  proof (cases answer)
    case (Inl f')
    then have "f' = f" using e by (auto simp: enqueue_def Let_def split: if_splits)
    with Inl e assms Cons alive show ?thesis
      by (auto simp: drain_pending_def Let_def loop_inv_def starts_due_cases)
  next
    case (Inr u)
    with e assms Cons alive line one show ?thesis
      by (auto simp: drain_pending_def Let_def loop_inv_def starts_due_cases)
  qed
qed

lemma loop_inv_admissions:
  assumes "loop_inv own env lp" "pl_phase lp = Polling messages"
    and "poll_admissions (le_service env) mo (pl_service lp) = (replies, sv)" "offers own (pl_service lp)"
  shows "loop_inv own env (lp\<lparr>pl_service := sv, pl_phase := Disposing (messages @ replies)\<rparr>)"
proof -
  have "sv_pending_starts (pl_service lp) = []" using assms(1,2) by (simp add: loop_inv_def starts_due_cases)
  then obtain rs where rs: "sv_pending_starts sv = map (\<lambda>x. ra_start (snd x)) rs"
      "\<forall>x \<in> set rs. own (fst x) (snd x) \<and> receipt (fst x) (snd x) \<in> set replies"
    and plain: "\<forall>m \<in> set replies. \<not> is_event m"
    using poll_admissions_answered [OF assms(3,4)] by (auto simp: starts_answered_def)
  have "starts_due own (Disposing (messages @ replies)) sv"
  proof (cases rs)
    case (Cons r rest)
    then have "replies \<noteq> []" using rs(2) by auto
    then have "\<not> is_event (last (messages @ replies))" "messages @ replies \<noteq> []" using plain by simp_all
    moreover have "\<forall>g \<in> set (sv_pending_starts sv). \<exists>ready rid. own rid ready \<and> ra_start ready = g \<and> receipt rid ready \<in> set (messages @ replies)"
      unfolding rs(1) set_map set_append using rs(2) by blast
    ultimately show ?thesis unfolding starts_due_def Let_def by simp
  qed (simp add: starts_due_def rs(1))
  with assms(1,2) show ?thesis by (auto simp: loop_inv_def early_def)
qed

lemma expire_disposals_plain:
  "\<forall>m \<in> set (fst acc). \<not> is_event m \<Longrightarrow> \<forall>m \<in> set (fst (fold (expire_disposal env mo) ss acc)). \<not> is_event m"
proof (induction ss arbitrary: acc)
  case (Cons s ss)
  have "\<forall>m \<in> set (fst (finish_disposal env mo s sv)). \<not> is_event m" for sv
    by (simp add: finish_disposal_def Let_def split: option.splits)
  with Cons(2) have "\<forall>m \<in> set (fst (expire_disposal env mo s acc)). \<not> is_event m"
    by (auto simp: expire_disposal_def Let_def case_prod_beta)
  from Cons(1) [OF this] show ?case by simp
qed simp

lemma poll_disposals_plain: "\<forall>m \<in> set (fst (poll_disposal_deadlines env mo sv)). \<not> is_event m"
  unfolding poll_disposal_deadlines_def Let_def by (rule expire_disposals_plain) simp

lemma loop_inv_disposals:
  assumes "loop_inv own env lp" "pl_phase lp = Disposing messages"
    and "poll_disposal_deadlines (le_service env) mo (pl_service lp) = (replies, sv)"
  shows "loop_inv own env (lp\<lparr>pl_service := sv, pl_phase := Queueing (messages @ replies)\<rparr>)"
proof -
  have plain: "\<forall>m \<in> set replies. \<not> is_event m"
    using poll_disposals_plain [of "le_service env" mo "pl_service lp"] unfolding assms(3) fst_conv .
  have same: "sv_pending_starts sv = sv_pending_starts (pl_service lp)"
    using keeps_poll_disposal_deadlines [of "pl_service lp" "le_service env" mo] assms(3) by (simp add: keeps_def)
  have "starts_due own (Disposing messages) (pl_service lp)" using assms(1,2) by (simp add: loop_inv_def)
  then have "starts_due own (Queueing (messages @ replies)) sv"
    using plain unfolding starts_due_def Let_def same by (simp add: last_append) blast
  with assms(1,2) show ?thesis by (auto simp: loop_inv_def early_def)
qed

lemma loop_inv_queue:
  assumes "loop_inv own env lp" "pl_phase lp = Queueing messages"
  shows "loop_inv own env ((queue_batch env mo messages lp)\<lparr>pl_phase := Lifecycle\<rparr>)"
proof -
  let ?starts = "sv_pending_starts (pl_service lp)"
  let ?lp = "queue_messages env mo ?starts messages (lp\<lparr>pl_service := (pl_service lp)\<lparr>sv_pending_starts := []\<rparr>\<rparr>)"
  have batch: "queue_batch env mo messages lp =
      (if pending_protocol_bytes (le_limits env) < pl_pending_bytes ?lp then ?lp\<lparr>pl_aborted := Some Backpressure\<rparr> else ?lp)"
    by (simp add: queue_batch_def take_admitted_starts_def Let_def)
  have bytes: "pl_pending_bytes ?lp = weight fr_resident (pl_pending ?lp)"
    using assms(1) by (intro queue_messages_bytes) (simp add: loop_inv_def)
  have "sound_line own env (sy_accepted (pl_writer lp) @ pl_pending ?lp)" if alive: "pl_aborted ?lp = None"
  proof (rule queue_messages_sound)
    have "pl_aborted lp = None" using queue_messages_alive [OF alive] by simp
    with assms(1) show "sound_line own env (sy_accepted (pl_writer lp) @
        pl_pending (lp\<lparr>pl_service := (pl_service lp)\<lparr>sv_pending_starts := []\<rparr>\<rparr>))" by (simp add: loop_inv_def)
    show "?starts = [] \<or> messages \<noteq> [] \<and> \<not> is_event (last messages) \<and>
        (\<forall>g \<in> set ?starts. \<exists>ready rid. own rid ready \<and> ra_start ready = g \<and> receipt rid ready \<in> set messages)"
      using assms by (simp add: loop_inv_def starts_due_def Let_def)
  qed (rule alive)
  then show ?thesis
    using assms(1) bytes unfolding loop_inv_def batch by (simp add: starts_due_cases early_def)
qed

lemma loop_inv_lifecycle:
  assumes "loop_inv own env lp" "pl_phase lp = Lifecycle"
  shows "loop_inv own env ((lifecycle_turn env mo lp)\<lparr>pl_phase := Deciding\<rparr>)"
proof -
  let ?lp = "lp\<lparr>pl_service := snd (poll_lifecycle (le_service env) mo (pl_service lp))\<rparr>"
  let ?ms = "fst (poll_lifecycle (le_service env) mo (pl_service lp))"
  have bytes: "pl_pending_bytes (fold (queue_live env mo) ?ms ?lp) = weight fr_resident (pl_pending (fold (queue_live env mo) ?ms ?lp))"
    using assms(1) by (intro queue_live_bytes) (simp add: loop_inv_def)
  have sticky: "pl_aborted (fold (queue_live env mo) xs l) = None \<Longrightarrow> pl_aborted l = None" for xs l
    by (induction xs arbitrary: l) (auto simp: queue_live_def split: if_splits dest: queue_message_alive)
  have "sound_line own env (sy_accepted (pl_writer lp) @ pl_pending (fold (queue_live env mo) ?ms ?lp))"
    if alive: "pl_aborted (fold (queue_live env mo) ?ms ?lp) = None"
    using queue_live_sound [OF _ alive, of own "sy_accepted (pl_writer lp)"] sticky [OF alive] assms(1) by (simp add: loop_inv_def)
  then show ?thesis
    using assms bytes unfolding lifecycle_turn_def loop_inv_def by (simp add: starts_due_cases early_def case_prod_beta)
qed

lemma loop_inv_step:
  assumes "loop_step env lp lp'" "loop_inv own env lp" "offers own (pl_service lp)"
  shows "loop_inv own env lp'"
  using assms(1)
proof (cases rule: loop_step.cases)
  case (top mo)
  with assms(2) show ?thesis
    by (simp add: check_writer_def loop_inv_def starts_due_cases early_def Let_def)
next
  case (drain now again lp1)
  then show ?thesis using loop_inv_drain [OF assms(2)] by simp
next
  case (receive mo input messages lp1)
  with assms(2) receive_input_frame [OF receive(3)] show ?thesis
    by (simp add: loop_inv_def starts_due_cases early_def)
next
  case (admissions messages mo replies sv)
  then show ?thesis using loop_inv_admissions [OF assms(2) _ _ assms(3)] by simp
next
  case (disposals messages mo replies sv)
  then show ?thesis using loop_inv_disposals [OF assms(2)] by simp
next
  case (queue messages mo)
  then show ?thesis using loop_inv_queue [OF assms(2)] by simp
next
  case (lifecycle mo)
  then show ?thesis using loop_inv_lifecycle [OF assms(2)] by simp
next
  case (decide mo leave lp1)
  with assms(2) show ?thesis
    by (auto simp: decide_def loop_inv_def starts_due_cases early_def Let_def split: option.splits)
next
  case (writer w)
  with assms(2) show ?thesis by (simp add: loop_inv_def worker_step_accepted)
next
  case (outside x mo)
  with assms(2) starts_due_same [OF _ outside_starts [OF outside(2)]] show ?thesis by (simp add: loop_inv_def)
qed

text \<open>
  A run of a connection is the list of its states. An admission is offered in a run when it is on
  offer in one of them.
\<close>

definition connection_run :: "loop_env \<Rightarrow> service_mode \<Rightarrow> instant \<Rightarrow> protocol_loop list \<Rightarrow> bool" where
  "connection_run env mode now lps \<longleftrightarrow>
     lps \<noteq> [] \<and> hd lps = loop_init mode now \<and> successively (loop_step env) lps"

definition offered_in :: "protocol_loop list \<Rightarrow> json \<Rightarrow> ready_admission \<Rightarrow> bool" where
  "offered_in lps rid ready \<longleftrightarrow> (\<exists>lp \<in> set lps. offered (sv_pending_admissions (pl_service lp)) rid ready)"

lemma connection_run_reaches:
  assumes "connection_run env mode now lps"
  shows "(loop_step env)\<^sup>*\<^sup>* (loop_init mode now) (last lps)"
proof -
  have "(loop_step env)\<^sup>*\<^sup>* (hd xs) (last xs)" if "successively (loop_step env) xs" "xs \<noteq> []" for xs
    using that by (induction xs rule: induct_list012) (auto intro: converse_rtranclp_into_rtranclp)
  with assms show ?thesis unfolding connection_run_def by metis
qed

lemma connection_run_exists:
  assumes "(\<lambda>l l'. loop_step env l l' \<and> P l')\<^sup>*\<^sup>* (loop_init mode now) lp" "P (loop_init mode now)"
  shows "\<exists>lps. connection_run env mode now lps \<and> last lps = lp \<and> (\<forall>l \<in> set lps. P l)"
  using assms(1)
proof induction
  case base
  show ?case using assms(2) by (intro exI [of _ "[loop_init mode now]"]) (simp add: connection_run_def)
next
  case (step l l')
  then obtain lps where "connection_run env mode now lps" "last lps = l" "\<forall>l \<in> set lps. P l" by blast
  with step(2) show ?case
    by (intro exI [of _ "lps @ [l']"]) (auto simp: connection_run_def successively_append_iff)
qed

lemma loop_init_inv: "loop_inv own env (loop_init mode now)"
  by (simp add: loop_inv_def loop_init_def writer_system_init_def sound_line_def starts_due_cases service_new_def)

lemma connection_run_inv:
  assumes "connection_run env mode now lps"
  shows "loop_inv (offered_in lps) env (last lps)"
proof -
  have "loop_inv own env (last xs)"
    if "successively (loop_step env) xs" "xs \<noteq> []" "loop_inv own env (hd xs)" "\<forall>lp \<in> set xs. offers own (pl_service lp)" for own xs
    using that by (induction xs rule: induct_list012) (auto dest: loop_inv_step)
  moreover have "\<forall>lp \<in> set lps. offers (offered_in lps) (pl_service lp)"
    by (auto simp: offers_iff offered_in_def)
  ultimately show ?thesis using assms loop_init_inv unfolding connection_run_def by metis
qed

lemma offers_any: "offers (\<lambda>_ _. True) sv"
  by (simp add: offers_def)

lemma loop_reachable:
  assumes "(loop_step env)\<^sup>*\<^sup>* (loop_init mode now) lp"
  shows "loop_inv (\<lambda>_ _. True) env lp" "(writer_step (le_limits env))\<^sup>*\<^sup>* (writer_system_init now) (pl_writer lp)"
proof -
  have "loop_inv (\<lambda>_ _. True) env lp \<and> (writer_step (le_limits env))\<^sup>*\<^sup>* (writer_system_init now) (pl_writer lp)"
    using assms
  proof induction
    case base
    show ?case using loop_init_inv by (simp add: loop_init_def)
  next
    case (step l l')
    then show ?case using loop_inv_step [OF _ _ offers_any] loop_step_writer by blast
  qed
  then show "loop_inv (\<lambda>_ _. True) env lp" "(writer_step (le_limits env))\<^sup>*\<^sup>* (writer_system_init now) (pl_writer lp)" by simp_all
qed

end
