(* ===== verification/Protocol_Guarantees.thy ===== *)
theory Protocol_Guarantees
  imports Protocol_Loop
begin

text \<open>
  What a client of the stdio protocol can rely on, over every interleaving of the loop with the writer
  and the threads of executions: an execution starts after its own receipt, memory is bounded, and
  how a connection ends.
\<close>

section \<open>An execution starts after its receipt\<close>

lemma prefix_filter_position:
  "prefix ds (filter P xs) \<Longrightarrow> f \<in> set ds \<Longrightarrow> \<exists>i < length xs. xs ! i = f \<and> set (filter P (take (Suc i) xs)) \<subseteq> set ds"
proof (induction xs arbitrary: ds)
  case (Cons x xs)
  show ?case
  proof (cases "P x")
    case True
    with Cons.prems obtain ds' where ds: "ds = x # ds'" "prefix ds' (filter P xs)"
      by (cases ds) auto
    show ?thesis
    proof (cases "f = x")
      case True
      with ds \<open>P x\<close> show ?thesis by (intro exI [of _ 0]) simp
    next
      case False
      with ds Cons.prems(2) Cons.IH [OF ds(2)] obtain i where
        "i < length xs" "xs ! i = f" "set (filter P (take (Suc i) xs)) \<subseteq> set ds'" by auto
      with ds True show ?thesis by (intro exI [of _ "Suc i"]) auto
    qed
  next
    case False
    with Cons obtain i where "i < length xs" "xs ! i = f" "set (filter P (take (Suc i) xs)) \<subseteq> set ds" by auto
    with False show ?thesis by (intro exI [of _ "Suc i"]) auto
  qed
qed simp

lemma delivered_control_prefix:
  assumes "(writer_step limits)\<^sup>*\<^sup>* (writer_system_init now) w" "sound_line own env (sy_accepted w)"
  shows "prefix (lane False (sy_delivered w)) (lane False (sy_accepted w))"
proof -
  have "\<forall>f \<in> set (lane False (sy_accepted w)). fr_guard f = None" using assms(2) by (auto simp: sound_line_def lane_def)
  with control_prefix_reachable [OF assms(1)] show ?thesis by (auto simp: control_prefix_def dest: append_prefixD)
qed

text \<open>
  The receipt of an admission is on the wire: the writer has written in full and flushed a frame with
  the response to the request of that identifier, and the output is the frames it delivered and part
  of one more.
\<close>

definition receipt_delivered :: "loop_env \<Rightarrow> json \<Rightarrow> ready_admission \<Rightarrow> writer_system \<Rightarrow> bool" where
  "receipt_delivered env rid ready w \<longleftrightarrow>
     (\<exists>f \<in> set (sy_delivered w).
        fr_bytes f = concat (fst (le_to_writer env (rpc_result rid (ac_result (ra_active ready))))) @ [newline]) \<and>
     (\<exists>part. sy_stdout w = concat (map fr_bytes (sy_delivered w)) @ part)"

text \<open>No two admissions of a run have the same gate: a gate is an object its admission made.\<close>

definition gates_owned :: "protocol_loop list \<Rightarrow> bool" where
  "gates_owned lps \<longleftrightarrow>
     (\<forall>rid ready rid' ready'. offered_in lps rid ready \<longrightarrow> offered_in lps rid' ready' \<longrightarrow>
        ra_start ready = ra_start ready' \<longrightarrow> rid = rid' \<and> ready = ready')"

lemma permit_has_receipt:
  assumes run: "connection_run env mode now lps" and permit: "g \<in> set (sy_permits (pl_writer (last lps)))"
  shows "\<exists>rid ready. offered_in lps rid ready \<and> ra_start ready = g \<and> receipt_delivered env rid ready (pl_writer (last lps))"
proof -
  let ?w = "pl_writer (last lps)"
  note reach = loop_reachable(2) [OF connection_run_reaches [OF run]]
  note out = output_inv_reachable [OF reach]
  have sound: "sound_line (offered_in lps) env (sy_accepted ?w)"
    using connection_run_inv [OF run] by (simp add: loop_inv_def)
  obtain f where f: "f \<in> set (sy_delivered ?w)" "g \<in> set (fr_starts f)" using out permit by (auto simp: output_inv_def)
  have "subseq (lane (fr_data f) (sy_delivered ?w)) (lane (fr_data f) (sy_accepted ?w))"
    using order_invD(1) [OF order_inv_reachable [OF reach], of "fr_data f"]
      subseq_drop_middle [of "lane (fr_data f) (sy_delivered ?w)" _ "[]"] by simp
  from list_emb_set [OF this, of f] f have "f \<in> set (sy_accepted ?w)" by (auto simp: lane_def)
  then have "\<not> fr_data f" using sound f(2) unfolding sound_line_def by (metis in_set_conv_nth)
  then have "f \<in> set (lane False (sy_delivered ?w))" using f(1) by (simp add: lane_def)
  then obtain i where i: "i < length (sy_accepted ?w)" "sy_accepted ?w ! i = f"
    "set (lane False (take (Suc i) (sy_accepted ?w))) \<subseteq> set (lane False (sy_delivered ?w))"
    using prefix_filter_position [OF delivered_control_prefix [OF reach sound, unfolded lane_def], of f]
    unfolding lane_def by blast
  then have "receipt_in (offered_in lps) env g (take (Suc i) (sy_accepted ?w))" using sound f(2) by (auto simp: sound_line_def)
  then obtain ready rid r where r: "offered_in lps rid ready" "ra_start ready = g" "r \<in> set (take (Suc i) (sy_accepted ?w))"
    "encodes env (receipt rid ready) r" unfolding receipt_in_def by blast
  then have "r \<in> set (sy_delivered ?w)" using i(3) by (auto simp: lane_def encodes_def)
  moreover have "\<exists>part. sy_stdout ?w = concat (map fr_bytes (sy_delivered ?w)) @ part"
    using out unfolding output_inv_def by blast
  moreover have "fr_bytes r = concat (fst (le_to_writer env (receipt rid ready))) @ [newline]"
    using r(4) by (simp add: encodes_def frame_text_def)
  ultimately have "receipt_delivered env rid ready ?w" unfolding receipt_delivered_def by blast
  with r(1,2) show ?thesis by blast
qed

text \<open>
  C2: An execution starts only after its own receipt is on the wire. In every state of every run of a
  connection, under any interleaving with the writer and the threads of executions, a start gate that
  the writer has opened is the gate of an admission that was offered in the run, and the receipt of
  that very admission, the result with its execution under the identifier of its request, is a frame
  the writer has written in full and flushed. When no two admissions share a gate this holds for the
  one admission the gate belongs to. A transport failure in between opens no gate.
\<close>

theorem gates_open_after_receipts:
  assumes "connection_run env mode now lps" "g \<in> set (sy_permits (pl_writer (last lps)))"
  shows "(gates_owned lps \<longrightarrow> (\<forall>rid ready. offered_in lps rid ready \<and> ra_start ready = g \<longrightarrow>
       receipt_delivered env rid ready (pl_writer (last lps)))) \<and>
    (\<exists>rid ready. offered_in lps rid ready \<and> ra_start ready = g \<and> receipt_delivered env rid ready (pl_writer (last lps)))"
proof -
  obtain rid ready where r: "offered_in lps rid ready" "ra_start ready = g"
      "receipt_delivered env rid ready (pl_writer (last lps))"
    using permit_has_receipt [OF assms] by blast
  have "receipt_delivered env rid' ready' (pl_writer (last lps))"
    if "gates_owned lps" "offered_in lps rid' ready'" "ra_start ready' = g" for rid' ready'
  proof -
    have "rid' = rid" "ready' = ready" using that r(1,2) unfolding gates_owned_def by blast+
    with r(3) show ?thesis by simp
  qed
  with r show ?thesis by blast
qed

section \<open>A sample connection\<close>

definition sample_loop_env :: loop_env where
  "sample_loop_env = \<lparr>le_service = sample_env, le_from_slice = (\<lambda>_. Some sample_execute),
     le_to_writer = (\<lambda>m. (if m = receipt (json_nat 1) sample_ready then [[82]] else [], None)), le_with_capacity = (\<lambda>n. n)\<rparr>"

definition sample_pending :: pending_admission where
  "sample_pending = \<lparr>pa_id = json_nat 1, pa_control = 0, pa_worker = Some 1, pa_messages = [],
     pa_sender_gone = False, pa_accept = None, pa_accept_gone = False, pa_rejection = None\<rparr>"

definition sample_requested :: service where
  "sample_requested = (service_new Stateful)\<lparr>sv_pending_admissions := [sample_pending],
     sv_heap := heap_default\<lparr>hp_controls := (\<lambda>_. control_default)(0 := control_default), hp_next := 2\<rparr>\<rparr>"

lemma sample_request_handled:
  "handle_rpc_request sample_env (sample_moment 1) sample_execute (service_new Stateful) = ([], sample_requested)"
proof -
  have parts: "case rpc_request_parts sample_execute of Inr (Some rid, m, p) \<Rightarrow> rid = json_nat 1 \<and> m = ''execute'' | _ \<Rightarrow> False"
    by code_simp
  then obtain p where "rpc_request_parts sample_execute = Inr (Some (json_nat 1), ''execute'', p)"
    by (auto split: sum.splits option.splits)
  then show ?thesis
    by (simp add: handle_rpc_request_def dispatch_def execute_def admission_spawn_def sample_moment_def sample_env_def
        service_new_def default_limits_def fresh_def set_control_def heap_default_def Let_def sample_requested_def sample_pending_def)
qed

definition sample_admitting :: service where
  "sample_admitting = service_step sample_env sample_requested (sample_moment 2, AdmissionSend 0 (Ready sample_ready))"

lemma sample_admitted:
  "fst (poll_admissions sample_env (sample_moment 3) sample_admitting) = [receipt (json_nat 1) sample_ready] \<and>
   sv_pending_starts (snd (poll_admissions sample_env (sample_moment 3) sample_admitting)) = [7] \<and>
   sv_disposals (snd (poll_admissions sample_env (sample_moment 3) sample_admitting)) = [] \<and>
   sv_pending_admissions (snd (poll_admissions sample_env (sample_moment 3) sample_admitting)) = []"
proof -
  have new: "sv_pending_admissions sample_admitting = [sample_pending\<lparr>pa_messages := [Ready sample_ready]\<rparr>]"
    "sv_workers sample_admitting = []" "sv_admission_cleanup_failed sample_admitting = False"
    "sv_unclean_sessions sample_admitting = []" "sv_pending_starts sample_admitting = []" "sv_disposals sample_admitting = []"
    "is_cancelled (control_of sample_admitting 0) = False"
    by (simp_all add: sample_admitting_def service_step_def change_pending_def set_pending_def sample_requested_def
        sample_pending_def service_new_def is_cancelled_def control_of_def control_default_def)
  have workers: "poll_workers mo 0 sample_admitting = sample_admitting" for mo
    by (subst poll_workers.simps) (simp add: new(2))
  have turn: "\<exists>sv. admission_turn sample_env (sample_moment 3) 0 sample_admitting = ([receipt (json_nat 1) sample_ready], 0, sv) \<and>
     sv_pending_admissions sv = [] \<and> sv_pending_starts sv = [7] \<and> sv_disposals sv = []"
    by (simp add: admission_turn_def receive_admission_def new sample_pending_def Let_def accept_ready_def case_prod_beta
        prod_eq_iff swap_remove_def sample_ready_def)
  then obtain sv where sv: "admission_turn sample_env (sample_moment 3) 0 sample_admitting = ([receipt (json_nat 1) sample_ready], 0, sv)"
    "sv_pending_admissions sv = []" "sv_pending_starts sv = [7]" "sv_disposals sv = []" by blast
  have "poll_admissions sample_env (sample_moment 3) sample_admitting = ([receipt (json_nat 1) sample_ready], sv)"
    unfolding poll_admissions_def workers
    by (subst poll_pending.simps) (simp add: new sv, subst poll_pending.simps, simp add: sv)
  with sv show ?thesis by simp
qed

definition sample_loop :: "service \<Rightarrow> writer_system \<Rightarrow> frame list \<Rightarrow> loop_phase \<Rightarrow> protocol_loop" where
  "sample_loop sv w frames phase =
     \<lparr>pl_service = sv, pl_writer = w, pl_pending = frames, pl_pending_bytes = weight fr_resident frames,
      pl_input_closed = False, pl_aborted = None, pl_reader_stop = False, pl_phase = phase\<rparr>"

definition sample_receipt_frame :: frame where
  "sample_receipt_frame = \<lparr>fr_bytes = [82, newline], fr_resident = 514, fr_data = False, fr_guard = None, fr_starts = [7]\<rparr>"

lemma sample_top:
  "ws_bytes (sy_state w) = 0 \<Longrightarrow> \<not> ws_failed (sy_state w) \<Longrightarrow>
     loop_step env (sample_loop sv w frames Top) (sample_loop sv w frames Draining)"
  using loop_step.top [of "sample_loop sv w frames Top" env "sample_moment 0"]
  by (simp add: check_writer_def sample_loop_def stalled_def)

text \<open>The steps of the sample connection, in which only the sample admission is on offer.\<close>

definition sample_own :: "json \<Rightarrow> ready_admission \<Rightarrow> bool" where
  "sample_own rid ready \<longleftrightarrow> rid = json_nat 1 \<and> ready = sample_ready"

definition sample_step :: "protocol_loop \<Rightarrow> protocol_loop \<Rightarrow> bool" where
  "sample_step l l' \<longleftrightarrow> loop_step sample_loop_env l l' \<and> offers sample_own (pl_service l')"

lemma sample_stepI:
  "loop_step sample_loop_env l (sample_loop sv w fs phase) \<Longrightarrow> offers sample_own sv \<Longrightarrow> sample_step l (sample_loop sv w fs phase)"
  by (simp add: sample_step_def sample_loop_def)

lemma sample_offers:
  "sv_pending_admissions sv = [] \<Longrightarrow> offers sample_own sv" "offers sample_own (service_new mode)"
  "offers sample_own sample_requested" "offers sample_own sample_admitting"
  by (simp_all add: offers_def service_new_def sample_requested_def sample_pending_def sample_admitting_def sample_own_def
      service_step_def change_pending_def set_pending_def)

lemma sample_batch:
  assumes "sv_pending_starts sv = [7]"
  shows "loop_step sample_loop_env (sample_loop sv w [] (Queueing [receipt (json_nat 1) sample_ready]))
    (sample_loop (sv\<lparr>sv_pending_starts := []\<rparr>) w [sample_receipt_frame] Lifecycle)"
proof -
  have "queue_batch sample_loop_env (sample_moment 0) [receipt (json_nat 1) sample_ready] (sample_loop sv w [] (Queueing [receipt (json_nat 1) sample_ready])) =
      sample_loop (sv\<lparr>sv_pending_starts := []\<rparr>) w [sample_receipt_frame] (Queueing [receipt (json_nat 1) sample_ready])"
    using is_event_response(1) [of "json_nat 1" "ac_result (ra_active sample_ready)"] assms
    by (simp add: queue_batch_def take_admitted_starts_def queue_message_def frame_encode_def sample_loop_env_def
        sample_loop_def delivery_guard_def is_event_def sample_receipt_frame_def FRAME_OVERHEAD_def sample_env_def count_piece_def checked_add_def usize_max_def option_filter_def
        pending_protocol_bytes_def queued_protocol_bytes_def default_limits_def Let_def)
  with loop_step.queue [of "sample_loop sv w [] (Queueing [receipt (json_nat 1) sample_ready])" _ sample_loop_env "sample_moment 0"]
  show ?thesis by (simp add: sample_loop_def)
qed

lemma sample_admission_run:
  "\<exists>sv. offers sample_own sv \<and> sample_step\<^sup>*\<^sup>* (sample_loop (service_new Stateful) w [] Receiving)
     (sample_loop sv w [sample_receipt_frame] Deciding)"
proof -
  let ?s = "\<lambda>sv phase. sample_loop sv w [] phase"
  obtain sv where poll: "poll_admissions sample_env (sample_moment 3) sample_admitting = ([receipt (json_nat 1) sample_ready], sv)"
    and sv: "sv_pending_starts sv = [7]" "sv_disposals sv = []" "sv_pending_admissions sv = []"
    using sample_admitted by (metis prod.collapse)
  have s1: "loop_step sample_loop_env (?s (service_new Stateful) Receiving) (?s sample_requested (Polling []))"
    using loop_step.receive [of "?s (service_new Stateful) Receiving" sample_loop_env "sample_moment 1"
        "Received (Inr (Some [1]))" "[]" "?s sample_requested Receiving"] sample_request_handled
    by (simp add: sample_loop_def receive_input_def sample_loop_env_def is_ascii_whitespace_def sample_env_def
        pending_input_pause_bytes_def pending_protocol_bytes_def queued_protocol_bytes_def default_limits_def Let_def)
  have s2: "loop_step sample_loop_env (?s sample_requested (Polling [])) (?s sample_admitting (Polling []))"
    using loop_step.outside [of "AdmissionSend 0 (Ready sample_ready)" sample_loop_env "?s sample_requested (Polling [])" "sample_moment 2"]
    by (simp add: sample_loop_def sample_admitting_def outside_op_def sample_loop_env_def)
  have s3: "loop_step sample_loop_env (?s sample_admitting (Polling [])) (?s sv (Disposing [receipt (json_nat 1) sample_ready]))"
    using loop_step.admissions [of "?s sample_admitting (Polling [])" "[]" sample_loop_env "sample_moment 3"] poll
    by (simp add: sample_loop_def sample_loop_env_def)
  have s4: "loop_step sample_loop_env (?s sv (Disposing [receipt (json_nat 1) sample_ready])) (?s sv (Queueing [receipt (json_nat 1) sample_ready]))"
    using loop_step.disposals [of "?s sv (Disposing [receipt (json_nat 1) sample_ready])" _ sample_loop_env "sample_moment 3" "[]" sv] sv(2)
    by (simp add: sample_loop_def sample_loop_env_def poll_disposal_deadlines_def)
  have s6: "loop_step sample_loop_env (sample_loop sv' w [sample_receipt_frame] Lifecycle)
      (sample_loop sv' w [sample_receipt_frame] Deciding)" for sv'
    using loop_step.lifecycle [of "sample_loop sv' w [sample_receipt_frame] Lifecycle" sample_loop_env "sample_moment 3"]
    by (simp add: sample_loop_def lifecycle_turn_def)
  let ?done = "sv\<lparr>sv_pending_starts := []\<rparr>"
  have offers: "offers sample_own sv" "offers sample_own ?done" by (simp_all add: sample_offers(1) sv(3))
  note steps = sample_stepI [OF s1 sample_offers(3)] sample_stepI [OF s2 sample_offers(4)]
    sample_stepI [OF s3 offers(1)] sample_stepI [OF s4 offers(1)]
    sample_stepI [OF sample_batch [OF sv(1)] offers(2)] sample_stepI [OF s6 offers(2)]
  have "sample_step\<^sup>*\<^sup>* (?s (service_new Stateful) Receiving) (sample_loop ?done w [sample_receipt_frame] Deciding)"
    by (rule converse_rtranclp_into_rtranclp [of sample_step, OF steps(1)], rule converse_rtranclp_into_rtranclp [of sample_step, OF steps(2)],
        rule converse_rtranclp_into_rtranclp [of sample_step, OF steps(3)], rule converse_rtranclp_into_rtranclp [of sample_step, OF steps(4)],
        rule converse_rtranclp_into_rtranclp [of sample_step, OF steps(5)], rule r_into_rtranclp [of sample_step, OF steps(6)])
  with offers(2) show ?thesis by blast
qed

lemma sample_delivery:
  "\<exists>w. (worker_step)\<^sup>*\<^sup>* (s\<lparr>sy_worker := Offering f 0\<rparr>) w \<and> sy_permits w = sy_permits s @ fr_starts f" if "fr_bytes f = [b, c]" "\<not> ws_stopping (sy_state s)"
proof -
  let ?w = "\<lambda>st out k. s\<lparr>sy_state := st, sy_stdout := out, sy_worker := k\<rparr>"
  have s1: "worker_step (s\<lparr>sy_worker := Offering f 0\<rparr>) (s\<lparr>sy_worker := Sending f 0\<rparr>)"
    using worker_step.check [of "s\<lparr>sy_worker := Offering f 0\<rparr>" f 0] that by simp
  have s2: "worker_step (s\<lparr>sy_worker := Sending f 0\<rparr>) (s\<lparr>sy_stdout := sy_stdout s @ [b, c], sy_worker := Sent f 2\<rparr>)"
    using worker_step.wrote [of "s\<lparr>sy_worker := Sending f 0\<rparr>" f 0 2] that by (simp add: next_chunk_def numeral_2_eq_2)
  let ?d = "s\<lparr>sy_stdout := sy_stdout s @ [b, c], sy_worker := Sent f 2\<rparr>"
  let ?e = "?d\<lparr>sy_state := (sy_state ?d)\<lparr>ws_progress := 0\<rparr>, sy_worker := Offering f 2\<rparr>"
  have s3: "worker_step ?d ?e" by (rule worker_step.progress) simp
  have s4: "worker_step ?e (?e\<lparr>sy_permits := sy_permits ?e @ fr_starts f, sy_delivered := sy_delivered ?e @ [f], sy_worker := Finishing f True\<rparr>)"
    by (rule worker_step.flushed [where offset = 2]) (simp_all add: that)
  show ?thesis
    by (rule exI, rule conjI, rule converse_rtranclp_into_rtranclp [of worker_step, OF s1], rule converse_rtranclp_into_rtranclp [of worker_step, OF s2],
        rule converse_rtranclp_into_rtranclp [of worker_step, OF s3], rule r_into_rtranclp [of worker_step, OF s4]) simp
qed

lemma loop_writer_steps:
  assumes "worker_step\<^sup>*\<^sup>* w w'" "offers sample_own sv"
  shows "sample_step\<^sup>*\<^sup>* (sample_loop sv w fs phase) (sample_loop sv w' fs phase)"
  using assms(1)
proof (induction rule: rtranclp_induct)
  case (step w1 w2)
  have "loop_step sample_loop_env (sample_loop sv w1 fs phase) (sample_loop sv w2 fs phase)"
    using loop_step.writer [of "sample_loop sv w1 fs phase" w2 sample_loop_env] step(2) by (simp add: sample_loop_def)
  from sample_stepI [OF this assms(2)] step(3) show ?case by simp
qed simp

lemma sample_connection:
  "\<exists>lp. sample_step\<^sup>*\<^sup>* (loop_init Stateful 0) lp \<and> sy_permits (pl_writer lp) = [7] \<and> pl_aborted lp = None"
proof -
  let ?w = "(writer_system_init 0)\<lparr>sy_worker := Looking\<rparr>" and ?f = sample_receipt_frame and ?r = sample_step
  let ?st = "\<lparr>ws_control = [?f], ws_data = [], ws_bytes = 514, ws_data_bytes = 0, ws_progress = 0,
      ws_writing = False, ws_failed = False, ws_stopping = False\<rparr>"
  let ?q = "?w\<lparr>sy_state := ?st, sy_accepted := [?f]\<rparr>"
  obtain sv where sv: "offers sample_own sv" and mid: "?r\<^sup>*\<^sup>* (sample_loop (service_new Stateful) ?w [] Receiving) (sample_loop sv ?w [?f] Deciding)"
    using sample_admission_run by blast
  have a: "?r (loop_init Stateful 0) (sample_loop (service_new Stateful) ?w [] Top)"
    using loop_step.writer [OF worker_step.opened, of "loop_init Stateful 0" sample_loop_env]
    by (intro sample_stepI sample_offers) (simp add: loop_init_def sample_loop_def writer_system_init_def)
  have b: "?r (sample_loop s ?w fs Top) (sample_loop s ?w fs Draining)" if "offers sample_own s" for s fs
    using that by (intro sample_stepI sample_top) (simp_all add: writer_system_init_def writer_init_def)
  have c: "?r (sample_loop s ?w [] Draining) (sample_loop s ?w [] Receiving)" if "offers sample_own s" for s
    using loop_step.drain [of "sample_loop s ?w [] Draining" sample_loop_env 0 False "sample_loop s ?w [] Draining"]
    by (intro sample_stepI that) (simp add: sample_loop_def drain_pending_def)
  have d: "?r (sample_loop sv ?w [?f] Deciding) (sample_loop sv ?w [?f] Top)"
    using loop_step.decide [of "sample_loop sv ?w [?f] Deciding" sample_loop_env "sample_moment 0" False "sample_loop sv ?w [?f] Deciding"]
    by (intro sample_stepI sv) (simp add: sample_loop_def decide_def)
  have e: "?r (sample_loop sv ?w [?f] Draining) (sample_loop sv ?q [] Draining)"
    using loop_step.drain [of "sample_loop sv ?w [?f] Draining" sample_loop_env 0 True "sample_loop sv ?q [] Draining"]
    by (intro sample_stepI sv) (simp add: sample_loop_def drain_pending_def enqueue_def writer_system_init_def writer_init_def sample_receipt_frame_def
        sample_loop_env_def sample_env_def queued_protocol_bytes_def default_limits_def Let_def)
  have take: "worker_take (\<lambda>_. True) ?st = (Took ?f, ?st\<lparr>ws_control := [], ws_writing := True\<rparr>)"
    by (simp add: worker_take.simps pop_frame_def frame_valid_def sample_receipt_frame_def)
  let ?t = "?q\<lparr>sy_state := ?st\<lparr>ws_control := [], ws_writing := True\<rparr>\<rparr>"
  have g: "worker_step ?q (?t\<lparr>sy_worker := Offering ?f 0\<rparr>)"
    using worker_step.look [of ?q "\<lambda>_. True" "Took ?f"] take by (simp add: writer_system_init_def)
  obtain w where w: "worker_step\<^sup>*\<^sup>* (?t\<lparr>sy_worker := Offering ?f 0\<rparr>) w" "sy_permits w = [7]"
    using sample_delivery [of ?f 82 newline ?t] by (auto simp: sample_receipt_frame_def writer_system_init_def)
  have "?r\<^sup>*\<^sup>* (sample_loop sv ?q [] Draining) (sample_loop sv w [] Draining)"
    by (rule loop_writer_steps [OF converse_rtranclp_into_rtranclp [of worker_step, OF g w(1)] sv])
  then have "?r\<^sup>*\<^sup>* (sample_loop sv ?w [?f] Deciding) (sample_loop sv w [] Draining)"
    using d b [OF sv] e by (meson converse_rtranclp_into_rtranclp)
  with mid have "?r\<^sup>*\<^sup>* (sample_loop (service_new Stateful) ?w [] Receiving) (sample_loop sv w [] Draining)" by simp
  then have "?r\<^sup>*\<^sup>* (loop_init Stateful 0) (sample_loop sv w [] Draining)"
    using a b [OF sample_offers(2)] c [OF sample_offers(2)] by (meson converse_rtranclp_into_rtranclp)
  with w(2) show ?thesis by (auto simp: sample_loop_def)
qed

theorem gates_open_after_receipts_witness:
  "\<exists>lps. connection_run sample_loop_env Stateful 0 lps \<and> gates_owned lps \<and> sy_permits (pl_writer (last lps)) = [7] \<and>
     offered_in lps (json_nat 1) sample_ready \<and>
     receipt_delivered sample_loop_env (json_nat 1) sample_ready (pl_writer (last lps))"
proof -
  obtain lp where lp: "sample_step\<^sup>*\<^sup>* (loop_init Stateful 0) lp" "sy_permits (pl_writer lp) = [7]"
    using sample_connection by blast
  have "offers sample_own (pl_service (loop_init Stateful 0))" by (simp add: loop_init_def sample_offers)
  with lp(1) obtain lps where lps: "connection_run sample_loop_env Stateful 0 lps" "last lps = lp"
      and own: "\<forall>l \<in> set lps. offers sample_own (pl_service l)"
    using connection_run_exists [of sample_loop_env "\<lambda>l. offers sample_own (pl_service l)" Stateful 0 lp]
    unfolding sample_step_def by blast
  have only: "rid = json_nat 1 \<and> ready = sample_ready" if "offered_in lps rid ready" for rid ready
    using that own by (auto simp: offered_in_def offers_iff sample_own_def)
  then have owned: "gates_owned lps" unfolding gates_owned_def by blast
  from gates_open_after_receipts [OF lps(1), of 7] lp(2) lps(2) obtain rid ready
    where "offered_in lps rid ready" "receipt_delivered sample_loop_env rid ready (pl_writer (last lps))" by auto
  with only lps lp(2) owned show ?thesis by blast
qed

text \<open>The sample connection as the end of a sequence of steps.\<close>

lemma sample_connection_reached:
  "\<exists>lp. (loop_step sample_loop_env)\<^sup>*\<^sup>* (loop_init Stateful 0) lp \<and> sy_permits (pl_writer lp) = [7] \<and>
     pl_aborted lp = None"
proof -
  obtain lp where lp: "sample_step\<^sup>*\<^sup>* (loop_init Stateful 0) lp" "sy_permits (pl_writer lp) = [7]" "pl_aborted lp = None"
    using sample_connection by blast
  have "sample_step \<le> loop_step sample_loop_env" by (auto simp: sample_step_def)
  from rtranclp_mono [OF this] lp show ?thesis by blast
qed


section \<open>Memory held for a client\<close>

lemma poll_lifecycle_short: "length (fst (poll_lifecycle env mo sv)) \<le> 2"
proof -
  have event: "length (fst (deliver_event e s)) \<le> 1" for e s
    by (simp add: deliver_event_def Let_def split: option.splits)
  have finish: "length (fst (finish_disposal env mo session s)) \<le> 1" for session s
    by (simp add: finish_disposal_def Let_def split: option.splits)
  have terminal: "length (fst (accept_terminal env mo a eid session r t s)) \<le> 2" for a eid session r t s
    unfolding accept_terminal_def Let_def case_prod_beta fst_conv length_append
    by (rule order_trans [OF add_mono [OF event, of _ 1]]) (simp_all add: finish [unfolded One_nat_def] split: option.split)
  have "length (fst (on_event env e s)) \<le> 2" for e s
    using le_trans [OF event] by (simp add: on_event_def Let_def split: option.splits)
  moreover have "length (fst (on_complete env mo eid x s)) \<le> 2" for eid x s
    using terminal by (simp add: on_complete_def Let_def split: option.splits)
  ultimately show ?thesis by (simp add: poll_lifecycle_def Let_def split: list.splits lifecycle_message.splits)
qed

lemma queue_message_weight:
  assumes "\<forall>n \<le> rpc_frame_bytes (le_limits env). le_with_capacity env n \<le> cap" "0 < rpc_frame_bytes (le_limits env)"
  shows "pl_pending_bytes (queue_message env mo starts m lp) \<le> pl_pending_bytes lp + (cap + FRAME_OVERHEAD)"
proof (cases "frame_encode (le_limits env) (le_to_writer env) (le_with_capacity env) m (delivery_guard mo (pl_service lp) m) starts")
  case (Inr f)
  from frame_encode_ok(2,3) [OF Inr assms(2)] assms(1) Inr show ?thesis by (simp add: queue_message_def)
qed (simp add: queue_message_def)

lemma queue_live_weight:
  assumes "\<forall>n \<le> rpc_frame_bytes (le_limits env). le_with_capacity env n \<le> cap" "0 < rpc_frame_bytes (le_limits env)"
  shows "pl_pending_bytes (fold (queue_live env mo) ms lp) \<le> pl_pending_bytes lp + length ms * (cap + FRAME_OVERHEAD)"
proof (induction ms arbitrary: lp)
  case (Cons m ms)
  have "pl_pending_bytes (queue_live env mo m lp) \<le> pl_pending_bytes lp + (cap + FRAME_OVERHEAD)"
    using queue_message_weight [OF assms, of mo "[]" m lp] by (simp add: queue_live_def)
  with Cons.IH [of "queue_live env mo m lp"] show ?case by simp
qed simp

definition pending_bound :: "loop_env \<Rightarrow> nat \<Rightarrow> nat" where
  "pending_bound env cap = max (pending_protocol_bytes (le_limits env)) (2 * (cap + FRAME_OVERHEAD))"

lemma pending_bound_step:
  assumes "loop_step env lp lp'" "loop_inv (\<lambda>_ _. True) env lp"
    and "\<forall>n \<le> rpc_frame_bytes (le_limits env). le_with_capacity env n \<le> cap" "0 < rpc_frame_bytes (le_limits env)"
    and "pl_aborted lp = None \<or> early (pl_phase lp) \<longrightarrow> pl_pending_bytes lp \<le> pending_bound env cap"
  shows "pl_aborted lp' = None \<or> early (pl_phase lp') \<longrightarrow> pl_pending_bytes lp' \<le> pending_bound env cap"
  using assms(1)
proof (cases rule: loop_step.cases)
  case (top mo)
  with assms(5) show ?thesis by (simp add: check_writer_def early_def Let_def)
next
  case (drain now again lp1)
  with assms(5) show ?thesis by (auto simp: drain_pending_def early_def Let_def split: list.splits sum.splits prod.splits)
next
  case (receive mo input messages lp1)
  with assms(5) receive_input_frame [OF receive(3)] show ?thesis by (simp add: early_def)
next
  case (queue messages mo)
  then show ?thesis by (auto simp: queue_batch_def early_def pending_bound_def Let_def case_prod_beta split: if_splits)
next
  case (lifecycle mo)
  let ?p = "poll_lifecycle (le_service env) mo (pl_service lp)"
  show ?thesis
  proof (cases "pl_pending lp = []")
    case True
    have "pl_pending_bytes (fold (queue_live env mo) (fst ?p) (lp\<lparr>pl_service := snd ?p\<rparr>)) \<le>
        pl_pending_bytes lp + length (fst ?p) * (cap + FRAME_OVERHEAD)"
      using queue_live_weight [OF assms(3,4), of mo "fst ?p" "lp\<lparr>pl_service := snd ?p\<rparr>"] by simp
    moreover have "pl_pending_bytes lp = 0" using assms(2) True by (simp add: loop_inv_def)
    moreover have "length (fst ?p) * (cap + FRAME_OVERHEAD) \<le> 2 * (cap + FRAME_OVERHEAD)"
      using poll_lifecycle_short by (rule mult_le_mono1)
    ultimately have "pl_pending_bytes (fold (queue_live env mo) (fst ?p) (lp\<lparr>pl_service := snd ?p\<rparr>)) \<le> pending_bound env cap"
      and "pl_pending_bytes lp \<le> pending_bound env cap" unfolding pending_bound_def by linarith+
    with lifecycle show ?thesis by (simp add: lifecycle_turn_def case_prod_beta)
  next
    case False
    have sticky: "pl_aborted (fold (queue_live env mo) xs l) \<noteq> None" if "pl_aborted l \<noteq> None" for xs l
      using that by (induction xs arbitrary: l) (auto simp: queue_live_def)
    show ?thesis
      using False lifecycle assms(5) sticky [of "lp\<lparr>pl_service := snd ?p\<rparr>" "fst ?p"] unfolding lifecycle_turn_def
      by (auto simp: case_prod_beta early_def split: if_splits)
  qed
next
  case (decide mo leave lp1)
  with assms(5) show ?thesis by (auto simp: decide_def early_def Let_def split: option.splits)
qed (use assms(5) in \<open>auto simp: early_def\<close>)

text \<open>
  A client that does not read costs a bounded amount of memory. Whatever the client sends and
  however slowly it reads, the pending bytes are exactly those of the pending frames, the queue of the
  writer stays within its budget, and the bytes of both together stay within the queue of the writer
  and the larger of the pending budget and two largest frames; the one exception is the rest of a turn
  whose answers overflowed the budget: the connection is then aborted and its pending frames are
  dropped at the end of that turn.
\<close>

theorem connection_memory_is_bounded:
  assumes "(loop_step env)\<^sup>*\<^sup>* (loop_init mode now) lp" "wf_limits (le_limits env)"
    and "\<forall>n \<le> rpc_frame_bytes (le_limits env). le_with_capacity env n \<le> cap"
  shows "pl_pending_bytes lp = weight fr_resident (pl_pending lp) \<and>
    ws_bytes (sy_state (pl_writer lp)) \<le> queued_protocol_bytes (le_limits env) \<and>
    (pl_aborted lp = None \<or> pl_phase lp \<notin> {Lifecycle, Deciding} \<longrightarrow>
       ws_bytes (sy_state (pl_writer lp)) + pl_pending_bytes lp \<le> queued_protocol_bytes (le_limits env) +
         max (pending_protocol_bytes (le_limits env)) (2 * (cap + FRAME_OVERHEAD))) \<and>
    (pl_aborted lp \<noteq> None \<longrightarrow> pl_pending (snd (decide env mo lp)) = [])"
proof -
  have frame: "0 < rpc_frame_bytes (le_limits env)" using assms(2) by (auto simp: wf_limits_def)
  have bound: "pl_aborted lp = None \<or> early (pl_phase lp) \<longrightarrow> pl_pending_bytes lp \<le> pending_bound env cap"
    using assms(1)
  proof induction
    case (step l l')
    then show ?case using pending_bound_step [OF step(2) loop_reachable(1) [OF step(1)] assms(3) frame] by blast
  qed (simp add: loop_init_def)
  moreover have "ws_bytes (sy_state (pl_writer lp)) \<le> queued_protocol_bytes (le_limits env)"
    using budget_inv_reachable [OF loop_reachable(2) [OF assms(1)]] by (simp add: budget_inv_def)
  moreover have "pl_aborted lp \<noteq> None \<longrightarrow> pl_pending (snd (decide env mo lp)) = []"
    by (auto simp: decide_def close_connection_def Let_def)
  ultimately show ?thesis
    using loop_reachable(1) [OF assms(1)] by (auto simp: loop_inv_def pending_bound_def early_def intro: add_mono)
qed

theorem connection_memory_is_bounded_witness:
  "\<exists>lp. (loop_step sample_loop_env)\<^sup>*\<^sup>* (loop_init Stateful 0) lp \<and> sy_permits (pl_writer lp) = [7] \<and>
     ws_bytes (sy_state (pl_writer lp)) + pl_pending_bytes lp \<le> queued_protocol_bytes default_limits +
       max (pending_protocol_bytes default_limits) (2 * (rpc_frame_bytes default_limits + FRAME_OVERHEAD))"
proof -
  obtain lp where lp: "(loop_step sample_loop_env)\<^sup>*\<^sup>* (loop_init Stateful 0) lp" "sy_permits (pl_writer lp) = [7]"
      "pl_aborted lp = None"
    using sample_connection_reached by blast
  have env: "le_limits sample_loop_env = default_limits" "le_with_capacity sample_loop_env = (\<lambda>n. n)"
    by (simp_all add: sample_loop_env_def sample_env_def)
  from connection_memory_is_bounded [OF lp(1), of "rpc_frame_bytes default_limits"] wf_default_limits lp show ?thesis
    unfolding env by auto
qed

section \<open>The end of a connection\<close>

















definition gathered :: "loop_phase \<Rightarrow> json list" where
  "gathered phase = (case phase of Polling ms \<Rightarrow> ms | Disposing ms \<Rightarrow> ms | Queueing ms \<Rightarrow> ms | _ \<Rightarrow> [])"

lemma gathered_simps [simp]:
  "gathered (Polling ms) = ms" "gathered (Disposing ms) = ms" "gathered (Queueing ms) = ms" "gathered Top = []"
  "gathered Draining = []" "gathered Receiving = []" "gathered Lifecycle = []" "gathered Deciding = []" "gathered Left = []"
  by (simp_all add: gathered_def)










end
