(* ===== verification/Service_Guarantees.thy ===== *)
theory Service_Guarantees
  imports Service_Admission
begin

text \<open>
  What a client of the service can rely on: an execution is only forgotten after a verified
  cleanup, a session is only disposed when every member was verified, a subscription resumes
  without gap or duplicate, and every request is answered once under its identifier.
\<close>

section \<open>Unverified cleanups\<close>

definition unclean :: "service \<Rightarrow> string \<Rightarrow> string \<Rightarrow> bool" where
  "unclean sv session eid \<longleftrightarrow> eid \<in> set (bs_entry session (sv_unclean_sessions sv))"

lemma set_bs_extend [simp]: "set (bs_extend xs ys) = set xs \<union> set ys"
  unfolding bs_extend_def by (induction ys arbitrary: xs) (simp_all add: set_insort_insert)

lemma unclean_mark [simp]:
  "unclean (mark_unclean session eids sv) s e \<longleftrightarrow> s = session \<and> e \<in> set eids \<or> unclean sv s e"
  by (auto simp: unclean_def mark_unclean_def bs_entry_def)

lemma unclean_same: "sv_unclean_sessions sv' = sv_unclean_sessions sv \<Longrightarrow> unclean sv' = unclean sv"
  by (simp add: unclean_def fun_eq_iff)

lemma unclean_active [simp]: "unclean (sv\<lparr>sv_active := m\<rparr>) = unclean sv"
  by (rule unclean_same) simp

lemma unclean_nonempty: "unclean sv session eid \<Longrightarrow> sv_unclean_sessions sv \<noteq> []"
  by (auto simp: unclean_def bs_entry_def)

lemma unclean_settle:
  assumes "unclean sv session eid"
  shows "unclean (settle_cleanup session eid result terminal sv) s e \<longleftrightarrow>
    (if s = session \<and> e = eid
     then json_index result ''cleanup_complete'' \<noteq> JBool True
       \<or> json_index (json_index terminal ''result'') ''cleanup_complete'' \<noteq> JBool True
     else unclean sv s e)"
proof -
  obtain es where es: "map_of (sv_unclean_sessions sv) session = Some es" "eid \<in> set es"
    using assms by (cases "map_of (sv_unclean_sessions sv) session") (auto simp: unclean_def bs_entry_def)
  show ?thesis
  proof (cases "json_index result ''cleanup_complete'' \<noteq> JBool True
       \<or> json_index (json_index terminal ''result'') ''cleanup_complete'' \<noteq> JBool True")
    case True
    then show ?thesis using assms by (auto simp: settle_cleanup_def)
  next
    case False
    have "set (removeAll eid es) = set es - {eid}" by simp
    with False es show ?thesis
      by (cases "removeAll eid es = []")
        (auto simp: settle_cleanup_def unclean_def bs_entry_def Let_def split: option.splits)
  qed
qed

lemma finish_disposal_unclean [simp]:
  "sv_unclean_sessions (snd (finish_disposal env mo session sv)) = sv_unclean_sessions sv"
proof -
  have "sv_unclean_sessions (fold (release_execution env mo) eids s) = sv_unclean_sessions s" for eids s
    by (induction eids arbitrary: s) simp_all
  then show ?thesis by (simp add: finish_disposal_def Let_def split: option.splits)
qed

lemma strip_output_index [simp]: "json_index (strip_output result) ''cleanup_complete'' = json_index result ''cleanup_complete''"
  by (cases result) (simp_all add: strip_output_def json_index_def)

lemma settle_cleanup_unclean:
  "sv_unclean_sessions sv = sv_unclean_sessions s \<Longrightarrow>
     sv_unclean_sessions (settle_cleanup session eid result terminal sv) =
     sv_unclean_sessions (settle_cleanup session eid result terminal s)"
  by (simp add: settle_cleanup_def mark_unclean_def Let_def split: option.splits)

lemma accept_terminal_unclean:
  "sv_unclean_sessions (snd (accept_terminal env mo active eid session result terminal sv)) =
     sv_unclean_sessions (settle_cleanup session eid (strip_output result) terminal sv)"
proof -
  have tail: "sv_unclean_sessions (snd (case map_of ds session of
        None \<Rightarrow> ([], s)
      | Some disposal \<Rightarrow> if pd_remaining disposal = [] then finish_disposal env mo session s else ([], s)))
    = sv_unclean_sessions s" for ds s
    by (simp split: option.splits)
  show ?thesis
    by (simp add: accept_terminal_def Let_def case_prod_beta tail)
      (auto intro: settle_cleanup_unclean)
qed

section \<open>How executions end\<close>

text \<open>
  The evidence the service asks of a completion: the final event and the result name the execution,
  its session and its policy, the event is newer than every event seen, its type fits the status,
  and both report a complete cleanup.
\<close>

definition verified_end :: "active_execution \<Rightarrow> string \<Rightarrow> string \<Rightarrow> (json list \<times> json) rs_result \<Rightarrow> bool" where
  "verified_end active eid session outcome =
     (case completion_of outcome of
        None \<Rightarrow> False
      | Some (result, terminal) \<Rightarrow>
          (let inner = json_index terminal ''result'' in
           list_all (\<lambda>v. json_index v ''execution_id'' = JStr eid) [terminal, inner, result] \<and>
           list_all (\<lambda>v. json_index v ''session_id'' = JStr session) [inner, result] \<and>
           list_all (\<lambda>v. json_index v ''cleanup_complete'' = JBool True) [inner, result] \<and>
           list_all (\<lambda>key. json_index terminal key = json_index (ac_result active) key \<and>
             json_index result key = json_index (ac_result active) key) [''policy_id'', ''policy_hash'', ''policy_epoch''] \<and>
           json_index inner ''status'' = json_index result ''status'' \<and>
           (json_index terminal ''type'' = JStr ''execution.finished'' \<and> json_index result ''status'' = JStr ''finished'' \<or>
            json_index terminal ''type'' = JStr ''execution.failed'' \<and> json_index result ''status'' = JStr ''failed'') \<and>
           (case as_u64 (json_index terminal ''event_seq'') of None \<Rightarrow> False | Some n \<Rightarrow> ac_sequence active < n)))"

lemma verified_end_iff:
  "verified_end active eid session outcome \<longleftrightarrow>
     (case completion_of outcome of None \<Rightarrow> False | Some (result, terminal) \<Rightarrow>
        \<not> terminal_rejected active eid session result terminal \<and>
        json_index result ''cleanup_complete'' = JBool True \<and>
        json_index (json_index terminal ''result'') ''cleanup_complete'' = JBool True)"
proof (cases "completion_of outcome")
  case (Some p)
  obtain result terminal where p: "completion_of outcome = Some (result, terminal)"
    using Some by (cases p) simp
  show ?thesis
  proof (cases "as_u64 (json_index terminal ''event_seq'')")
    case None
    then show ?thesis by (simp add: p verified_end_def terminal_rejected_def Let_def)
  next
    case (Some n)
    show ?thesis
      unfolding verified_end_def terminal_rejected_def is_terminal_type_def p option.case prod.case Let_def Some
      by (simp add: result_simps not_le) (rule iffI; elim conjE disjE; simp)
  qed
qed (simp add: verified_end_def)

definition session_of :: "active_execution \<Rightarrow> string" where
  "session_of active = (case as_str (json_index (ac_result active) ''session_id'') of Some s \<Rightarrow> s | None \<Rightarrow> [])"

lemma on_complete_unclean:
  assumes "map_of (sv_active sv) eid = Some active"
  shows "unclean (snd (on_complete env mo eid outcome sv)) s e \<longleftrightarrow>
    (if s = session_of active \<and> e = eid then \<not> verified_end active eid (session_of active) outcome
     else unclean sv s e)"
proof -
  let ?s = "mark_unclean (session_of active) [eid] (sv\<lparr>sv_active := bt_remove eid (sv_active sv)\<rparr>)"
  have base: "unclean ?s s e \<longleftrightarrow> s = session_of active \<and> e = eid \<or> unclean sv s e" for s e
    by simp
  show ?thesis
  proof (cases "\<exists>result terminal. completion_of outcome = Some (result, terminal) \<and>
      \<not> terminal_rejected active eid (session_of active) result terminal")
    case True
    then obtain result terminal where ok: "completion_of outcome = Some (result, terminal)"
      "\<not> terminal_rejected active eid (session_of active) result terminal" by blast
    have "unclean (snd (on_complete env mo eid outcome sv)) =
        unclean (settle_cleanup (session_of active) eid (strip_output result) terminal ?s)"
      by (rule unclean_same) (simp add: on_complete_def assms ok session_of_def [symmetric] Let_def accept_terminal_unclean)
    with ok show ?thesis by (auto simp: unclean_settle base verified_end_iff)
  next
    case False
    then have "snd (on_complete env mo eid outcome sv) = ?s"
      by (auto simp: on_complete_def assms session_of_def [symmetric] Let_def split: option.splits prod.splits)
    with False show ?thesis by (auto simp: base verified_end_iff split: option.splits)
  qed
qed

lemma poll_admissions_ends:
  assumes "eid \<in> dom (map_of (sv_active sv))"
  shows "eid \<in> dom (map_of (sv_active (snd (poll_admissions env mo sv)))) \<or>
    sv_admission_cleanup_failed (snd (poll_admissions env mo sv))"
proof -
  let ?P = "\<lambda>s. eid \<in> dom (map_of (sv_active s)) \<or> sv_admission_cleanup_failed s"
  have start: "?P (poll_workers mo 0 sv)"
    using poll_workers_reaped [of sv mo 0] assms by (auto simp: workers_reaped_def)
  have turn: "?P s'" if "?P s" "turn_quiet s s' \<or> turn_admits s s'" for s s'
    using that by (auto simp: turn_quiet_def turn_admits_def)
  show ?thesis
    unfolding poll_admissions_def
    by (rule poll_pending_keeps [where P = ?P]) (rule turn, assumption+, rule start)
qed

text \<open>
  C1: An execution ends verified or leaves a mark. If one step of the service takes an execution
  out of the active ones, either the step treated its completion message, and then its cleanup is
  held unverified exactly when the message does not carry the evidence of \<open>verified_end\<close>; or the step
  was the poll of the workers, and then the flag that stops every admission is set. No other
  operation ends an execution.
\<close>

theorem executions_end_verified_or_marked:
  assumes "map_of (sv_active sv) eid = Some active"
    and "map_of (sv_active (service_step env sv x)) eid = None"
  shows "(\<exists>outcome rest. snd x = PollLifecycle \<and> sv_lifecycle sv = Complete eid outcome # rest \<and>
      (unclean (service_step env sv x) (session_of active) eid \<longleftrightarrow>
         \<not> verified_end active eid (session_of active) outcome))
    \<or> snd x = PollAdmissions \<and> sv_admission_cleanup_failed (service_step env sv x)"
proof -
  have kept: "\<not> keeps sv (service_step env sv x)"
    using assms by (auto simp: keeps_def)
  have request: "snd x \<noteq> Request r" for r
    using request_effect [of sv env "fst x" r] assms kept
    by (cases x) (auto simp: service_step_def execute_queues_def)
  have quiet: "sv_active (service_step env sv x) \<noteq> sv_active sv" using assms by auto
  consider mo where "x = (mo, PollLifecycle)" | mo where "x = (mo, PollAdmissions)"
    using kept request quiet
    by (cases "(env, sv, x)" rule: service_run.cases)
      (auto simp: service_step_def take_admitted_starts_def keeps_poll_disposal_deadlines keeps_cancel_owned)
  then show ?thesis
  proof cases
    case 1
    with kept poll_lifecycle_effect [of sv env mo] obtain eid' outcome rest where
      msg: "sv_lifecycle sv = Complete eid' outcome # rest"
        "service_step env sv x = snd (on_complete env mo eid' outcome (message_state mo sv))"
      by (auto simp: service_step_def)
    have "eid' = eid"
      using keeps_on_complete [of eid' "message_state mo sv" env mo outcome] assms msg(2)
      by (auto simp: keeps_def without_def split: if_splits)
    with msg 1 on_complete_unclean [of "message_state mo sv" eid active env mo outcome] assms(1) show ?thesis by simp
  next
    case 2
    with poll_admissions_ends [of eid sv env mo] assms show ?thesis by (auto simp: service_step_def)
  qed
qed

definition sample_running :: service where
  "sample_running = (service_new Stateful)\<lparr>sv_active := [(''e'', ra_active sample_ready)],
     sv_lifecycle := [Complete ''e'' (Inl (error_new ''X'' ''lost''))]\<rparr>"

theorem executions_end_verified_or_marked_witness:
  "unclean (service_step sample_env sample_running (sample_moment 1, PollLifecycle)) ''s'' ''e''"
proof -
  have active: "map_of (sv_active sample_running) ''e'' = Some (ra_active sample_ready)"
    by (simp add: sample_running_def)
  have gone: "map_of (sv_active (service_step sample_env sample_running (sample_moment 1, PollLifecycle))) ''e'' = None"
    using keeps_on_complete [of "''e''" "message_state (sample_moment 1) sample_running" sample_env "sample_moment 1"
        "Inl (error_new ''X'' ''lost'')"]
    by (auto simp: service_step_def poll_lifecycle_cases(4) [of _ "''e''" "Inl (error_new ''X'' ''lost'')" "[]"]
        sample_running_def keeps_def without_def dest!: equalityD1)
  have "session_of (ra_active sample_ready) = ''s''"
    by (simp add: session_of_def sample_ready_def json_index_def json_get_def obj_get_def)
  moreover have "\<not> verified_end a e s (Inl (error_new ''X'' ''lost''))" for a e s
    by (simp add: verified_end_def completion_of_def error_new_def)
  ultimately show ?thesis
    using executions_end_verified_or_marked [OF active gone] by (auto simp: sample_running_def)
qed

section \<open>Every request is answered once\<close>

text \<open>One response under the identifier, then only events.\<close>

definition answers :: "json \<Rightarrow> json list \<Rightarrow> bool" where
  "answers rid messages \<longleftrightarrow>
     (\<exists>response events. messages = response # map event_message events \<and> json_index response ''id'' = rid)"

lemma answers_single [simp]: "answers rid [response] \<longleftrightarrow> response_id response = rid"
  by (auto simp: answers_def response_id_def)

lemma answers_events: "response_id response = rid \<Longrightarrow> answers rid (response # map event_message events)"
  by (auto simp: answers_def response_id_def)

lemma response_id_snapshot [simp]:
  "response_id (snapshot_response limits len rid field items result truncated) = rid"
  by (simp add: snapshot_response_def Let_def case_prod_beta)

lemma response_id_method [simp]: "response_id (method_not_found rid method) = rid"
  by (simp add: method_not_found_def)

lemma handlers_answer:
  "answers rid (answer_result rid r)"
  "answers rid (get_execution rid params sv)"
  "answers rid (fst (signal_execution rid params sv))"
  "answers rid (fst (resize_execution rid params sv))"
  "answers rid (fst (execution_input env rid params is_write sv))"
  "answers rid (fst (cancel_execution env mo rid params sv))"
  "answers rid (fst (subscribe_events mo rid params sv))"
  "answers rid (fst (unsubscribe_events mo rid params sv))"
  "answers rid (get_audit_events env rid params sv)"
  "answers rid (tail_audit env rid params sv)"
  by (simp_all add: answer_result_def get_execution_def signal_execution_def resize_execution_def
      execution_input_def cancel_execution_def subscribe_events_def unsubscribe_events_def
      get_audit_events_def tail_audit_def Let_def case_prod_beta answers_events
      split: sum.splits option.splits prod.splits)

lemma execute_answers:
  "answers rid (fst (execute env mo rid params sv)) \<or>
   fst (execute env mo rid params sv) = [] \<and>
   map pa_id (sv_pending_admissions (snd (execute env mo rid params sv))) = map pa_id (sv_pending_admissions sv) @ [rid]"
  by (auto simp: execute_def admission_spawn_def Let_def case_prod_beta)

lemma dispose_session_answers:
  "answers rid (fst (dispose_session env mo rid params sv)) \<or>
   fst (dispose_session env mo rid params sv) = [] \<and>
   (\<exists>session disposal. map_of (sv_disposals (snd (dispose_session env mo rid params sv))) session = Some disposal \<and>
      pd_id disposal = rid \<and> pd_remaining disposal \<noteq> [])"
proof (cases "session_id_from_params params")
  case (Inr session)
  show ?thesis
  proof (cases "filter (\<lambda>kv. json_index (ac_result (snd kv)) ''session_id'' = JStr session) (sv_active sv) = []")
    case True
    then show ?thesis by (simp add: dispose_session_def Inr Let_def finish_disposal_def)
  next
    case False
    then show ?thesis by (auto simp: dispose_session_def Inr Let_def)
  qed
qed (simp add: dispose_session_def)

text \<open>
  C27: The envelope of the service. A malformed request is answered with the error for it and
  changes nothing, whether or not it carries an identifier; a well-formed notification is silent and
  changes nothing; a request with an identifier gets exactly one response under that identifier,
  followed only by event messages, unless it is a request to execute, which is then pending under
  the identifier, or to dispose a session, which is then recorded under it with executions to wait for.
\<close>

theorem requests_are_answered_once:
  "case rpc_request_parts request of
     Inl err \<Rightarrow> handle_rpc_request env mo request sv = ([invalid_request (request_id_for_error request) err], sv)
   | Inr (None, _, _) \<Rightarrow> handle_rpc_request env mo request sv = ([], sv)
   | Inr (Some rid, method, params) \<Rightarrow>
       let (messages, sv') = handle_rpc_request env mo request sv in
         answers rid messages
         \<or> messages = [] \<and> method = ''execute'' \<and>
             map pa_id (sv_pending_admissions sv') = map pa_id (sv_pending_admissions sv) @ [rid]
         \<or> messages = [] \<and> method = ''disposeSession'' \<and>
             (\<exists>session disposal. map_of (sv_disposals sv') session = Some disposal \<and>
                pd_id disposal = rid \<and> pd_remaining disposal \<noteq> [])"
proof -
  have "answers rid (fst (dispatch env mo rid name params sv))
      \<or> fst (dispatch env mo rid name params sv) = [] \<and> name = ''execute'' \<and>
          map pa_id (sv_pending_admissions (snd (dispatch env mo rid name params sv))) =
          map pa_id (sv_pending_admissions sv) @ [rid]
      \<or> fst (dispatch env mo rid name params sv) = [] \<and> name = ''disposeSession'' \<and>
          (\<exists>session disposal. map_of (sv_disposals (snd (dispatch env mo rid name params sv))) session =
             Some disposal \<and> pd_id disposal = rid \<and> pd_remaining disposal \<noteq> [])" for name rid params
  proof -
    have "answers rid (fst (dispatch env mo rid name params sv))"
      if "name \<noteq> ''execute''" "name \<noteq> ''disposeSession''"
      using that by (simp add: dispatch_def Let_def handlers_answer list_executions_def split: sum.splits)
    moreover have "dispatch env mo rid ''execute'' params sv = execute env mo rid params sv"
      "dispatch env mo rid ''disposeSession'' params sv = dispose_session env mo rid params sv"
      by (simp_all add: dispatch_def)
    ultimately show ?thesis
      using execute_answers [of rid env mo params sv] dispose_session_answers [of rid env mo params sv] by metis
  qed
  then show ?thesis
    by (simp add: handle_rpc_request_def case_prod_beta Let_def split: sum.splits option.splits prod.splits)
qed

section \<open>Sessions are disposed verified\<close>

definition disposal_failed :: "string \<Rightarrow> pending_disposal \<Rightarrow> json" where
  "disposal_failed session disposal =
     rpc_error (pd_id disposal)
       (error_with_details ''EXECUTION_CLEANUP_FAILED'' ''session cleanup could not be verified''
         (json_object [(''session_id'', JStr session), (''cleanup_complete'', JBool False),
            (''execution_ids'', json_strs (pd_failed disposal @ pd_remaining disposal))]))"

definition overdue :: "moment \<Rightarrow> pending_disposal \<Rightarrow> bool" where
  "overdue mo disposal \<longleftrightarrow> pd_remaining disposal \<noteq> [] \<and> pd_deadline disposal \<le> mo_now mo"

lemma expire_disposal_overdue:
  assumes "map_of (sv_disposals sv) session = Some disposal" "pd_remaining disposal \<noteq> []"
  shows "fst (expire_disposal env mo session (messages, sv)) = messages @ [disposal_failed session disposal]"
    "map_of (sv_disposals (snd (expire_disposal env mo session (messages, sv)))) =
       (map_of (sv_disposals sv))(session := None)"
    "unclean (snd (expire_disposal env mo session (messages, sv))) s e \<longleftrightarrow>
       s = session \<and> e \<in> set (pd_remaining disposal) \<or> unclean sv s e"
proof -
  have "pd_failed disposal @ pd_remaining disposal \<noteq> []" using assms(2) by simp
  then show "fst (expire_disposal env mo session (messages, sv)) = messages @ [disposal_failed session disposal]"
    "map_of (sv_disposals (snd (expire_disposal env mo session (messages, sv)))) =
       (map_of (sv_disposals sv))(session := None)"
    using assms(1) by (simp_all add: expire_disposal_def finish_disposal_def disposal_failed_def Let_def del: append_is_Nil_conv)
  have "unclean (sv\<lparr>sv_disposals := ds\<rparr>) = unclean sv" for ds by (rule unclean_same) simp
  then show "unclean (snd (expire_disposal env mo session (messages, sv))) s e \<longleftrightarrow>
       s = session \<and> e \<in> set (pd_remaining disposal) \<or> unclean sv s e"
    using assms(1) by (simp add: expire_disposal_def Let_def case_prod_beta unclean_same [OF finish_disposal_unclean])
qed

lemma expire_disposals:
  assumes "distinct sessions"
    and "\<forall>session \<in> set sessions. \<exists>d. map_of (sv_disposals sv) session = Some d \<and> pd_remaining d \<noteq> []"
  shows "fst (fold (expire_disposal env mo) sessions (messages, sv)) =
      messages @ map (\<lambda>s. disposal_failed s (the (map_of (sv_disposals sv) s))) sessions \<and>
    map_of (sv_disposals (snd (fold (expire_disposal env mo) sessions (messages, sv)))) =
      (\<lambda>s. if s \<in> set sessions then None else map_of (sv_disposals sv) s) \<and>
    (\<forall>s e. unclean (snd (fold (expire_disposal env mo) sessions (messages, sv))) s e \<longleftrightarrow>
      s \<in> set sessions \<and> e \<in> set (pd_remaining (the (map_of (sv_disposals sv) s))) \<or> unclean sv s e)"
  using assms
proof (induction sessions arbitrary: messages sv)
  case (Cons session sessions)
  obtain d where d: "map_of (sv_disposals sv) session = Some d" "pd_remaining d \<noteq> []" using Cons.prems by auto
  obtain messages' sv' where step: "expire_disposal env mo session (messages, sv) = (messages', sv')"
    by (metis prod.exhaust)
  note facts = expire_disposal_overdue [OF d, of env mo messages, unfolded step fst_conv snd_conv]
  have other: "map_of (sv_disposals sv') s = map_of (sv_disposals sv) s" if "s \<in> set sessions" for s
    using Cons.prems(1) that by (auto simp: facts)
  have "\<forall>session \<in> set sessions. \<exists>d. map_of (sv_disposals sv') session = Some d \<and> pd_remaining d \<noteq> []"
    using Cons.prems(2) other by auto
  from Cons.IH [OF _ this, of messages'] Cons.prems(1) show ?case
    by (auto simp: step facts d other fun_eq_iff)
qed simp

text \<open>
  C36: A disposal that runs out of time fails closed. Polling the deadlines answers every disposal
  whose time is over while executions remain with one cleanup error, under its identifier, that
  lists the failed and the remaining executions; it removes exactly those disposals and holds
  exactly their remaining executions as unverified in addition.
\<close>

theorem overdue_disposals_fail_closed:
  assumes "distinct (map fst (sv_disposals sv))"
  shows "fst (poll_disposal_deadlines env mo sv) = map (\<lambda>(session, disposal). disposal_failed session disposal)
      (filter (overdue mo \<circ> snd) (sv_disposals sv)) \<and>
    (\<forall>session. map_of (sv_disposals (snd (poll_disposal_deadlines env mo sv))) session =
      option_filter (\<lambda>disposal. \<not> overdue mo disposal) (map_of (sv_disposals sv) session)) \<and>
    (\<forall>session eid. unclean (snd (poll_disposal_deadlines env mo sv)) session eid \<longleftrightarrow>
      unclean sv session eid \<or>
      (\<exists>disposal. map_of (sv_disposals sv) session = Some disposal \<and> overdue mo disposal \<and>
         eid \<in> set (pd_remaining disposal)))"
proof -
  let ?late = "filter (overdue mo \<circ> snd) (sv_disposals sv)"
  have poll: "poll_disposal_deadlines env mo sv = fold (expire_disposal env mo) (map fst ?late) ([], sv)"
    by (simp add: poll_disposal_deadlines_def overdue_def comp_def)
  have entry: "map_of (sv_disposals sv) (fst kv) = Some (snd kv)" if "kv \<in> set (sv_disposals sv)" for kv
    using assms that by (cases kv) (simp add: map_of_is_SomeI)
  have late: "s \<in> set (map fst ?late) \<longleftrightarrow> (\<exists>d. map_of (sv_disposals sv) s = Some d \<and> overdue mo d)" for s
    using entry by (force dest: map_of_SomeD)
  have "distinct (map fst ?late)" using assms by (simp add: distinct_map_filter)
  moreover have "\<forall>session \<in> set (map fst ?late). \<exists>d. map_of (sv_disposals sv) session = Some d \<and> pd_remaining d \<noteq> []"
    using late by (metis overdue_def)
  moreover have "map (\<lambda>s. disposal_failed s (the (map_of (sv_disposals sv) s))) (map fst ?late) =
      map (\<lambda>(session, disposal). disposal_failed session disposal) ?late"
    by (auto simp: entry case_prod_beta)
  ultimately show ?thesis
    using expire_disposals [of "map fst ?late" sv env mo "[]"] unfolding poll late
    by (auto simp: option_filter_def split: option.splits)
qed

definition sample_disposal :: pending_disposal where
  "sample_disposal = \<lparr>pd_id = json_nat 4, pd_remaining = [''e''], pd_execution_ids = [''e''], pd_deadline = 5,
     pd_failed = [], pd_released = 0\<rparr>"

theorem overdue_disposals_fail_closed_witness:
  "let sv = (service_new Stateful)\<lparr>sv_disposals := [(''s'', sample_disposal)]\<rparr>;
       (messages, sv') = poll_disposal_deadlines sample_env (sample_moment 5) sv in
   messages = [disposal_failed ''s'' sample_disposal] \<and> map_of (sv_disposals sv') ''s'' = None \<and> unclean sv' ''s'' ''e''"
  using overdue_disposals_fail_closed [of "(service_new Stateful)\<lparr>sv_disposals := [(''s'', sample_disposal)]\<rparr>"
      sample_env "sample_moment 5"]
  by (simp add: Let_def case_prod_beta overdue_def sample_disposal_def sample_moment_def option_filter_def)

lemma cancel_members_frame [simp]:
  "sv_state (fold (cancel_member env mo) members sv) = sv_state sv"
  "sv_unclean_sessions (fold (cancel_member env mo) members sv) = sv_unclean_sessions sv"
  "sv_disposals (fold (cancel_member env mo) members sv) = sv_disposals sv"
  by (induction members arbitrary: sv) (simp_all add: cancel_member_def)

lemma cancel_member_cause:
  "control_cause (control_of (cancel_member env mo kv sv) c) = None \<longleftrightarrow>
     c \<noteq> ac_control (snd kv) \<and> control_cause (control_of sv c) = None"
  by (auto simp: cancel_member_def control_of_def set_active_def request_cause_def set_control_def
      control_request_def control_cause_def begin_cleanup_def Let_def split: option.splits)

lemma cancel_members_cause:
  "control_cause (control_of (fold (cancel_member env mo) members sv) c) = None \<longleftrightarrow>
     c \<notin> ac_control ` snd ` set members \<and> control_cause (control_of sv c) = None"
  by (induction members arbitrary: sv) (simp_all add: cancel_member_cause conj_ac)

text \<open>The executions of a session whose cleanup is not known to be complete.\<close>

definition unverified :: "service \<Rightarrow> string \<Rightarrow> string set" where
  "unverified sv session =
     {eid. unclean sv session eid} \<union>
     {eid \<in> set (execution_ids_for_session (sv_state sv) session).
        \<exists>result. execution_result (sv_state sv) eid = Some result \<and>
          json_index result ''cleanup_complete'' \<noteq> JBool True}"

definition failed_ids :: "service \<Rightarrow> string \<Rightarrow> string list" where
  "failed_ids sv session =
     bs_extend (bs_entry session (sv_unclean_sessions sv))
       (filter (\<lambda>eid. case execution_result (sv_state sv) eid of
          Some result \<Rightarrow> json_index result ''cleanup_complete'' \<noteq> JBool True | None \<Rightarrow> False)
         (execution_ids_for_session (sv_state sv) session))"

lemma set_failed_ids: "set (failed_ids sv session) = unverified sv session"
  by (auto simp: failed_ids_def unverified_def unclean_def split: option.splits)

lemma failed_ids_empty: "failed_ids sv session = [] \<longleftrightarrow> unverified sv session = {}"
  by (simp flip: set_failed_ids)

text \<open>
  Disposing a session verifies its executions. Without a running member the request is
  answered at once: with success, forgetting the session, exactly when no execution of the session
  is unverified, and otherwise with the cleanup error, forgetting nothing. With running members it
  is not answered yet: each is asked to stop, and the disposal waits for them under the identifier of
  the request until a deadline of one cleanup timeout, with the unverified ones already failed.
\<close>

theorem dispose_session_verifies:
  assumes "session_id_from_params params = Inr session" "map_of (sv_disposals sv) session = None"
    and "members = filter (\<lambda>kv. json_index (ac_result (snd kv)) ''session_id'' = JStr session) (sv_active sv)"
    and "dispose_session env mo rid params sv = (messages, sv')"
  shows "if members = [] then
      map_of (sv_disposals sv') session = None \<and>
      (if unverified sv session = {}
       then messages = [rpc_result rid (json_object [(''session_id'', JStr session), (''status'', JStr ''disposed''),
              (''released_executions'', json_nat 0), (''cleanup_complete'', JBool True)])] \<and>
            sv_state sv' = state_dispose_session session (sv_state sv)
       else (\<exists>err. messages = [rpc_error rid err] \<and> err_code err = ''EXECUTION_CLEANUP_FAILED'') \<and>
            sv_state sv' = sv_state sv)
    else
      messages = [] \<and> sv_state sv' = sv_state sv \<and>
      (\<forall>kv \<in> set members. control_cause (control_of sv' (ac_control (snd kv))) \<noteq> None) \<and>
      (\<exists>disposal. map_of (sv_disposals sv') session = Some disposal \<and> pd_id disposal = rid \<and>
         pd_remaining disposal = map fst members \<and> set (pd_failed disposal) = unverified sv session \<and>
         pd_deadline disposal = mo_now mo + cleanup_timeout (en_limits env))"
proof (cases "members = []")
  case True
  have released: "sv_disposals (fold (release_execution env mo) eids s) = sv_disposals s"
    "sv_state (fold (release_execution env mo) eids s) = sv_state s" for eids s
    by (induction eids arbitrary: s) simp_all
  have no_members: "filter (\<lambda>kv. json_index (ac_result (snd kv)) ''session_id'' = JStr session) (sv_active sv) = []"
    using assms(3) True by simp
  show ?thesis
    using assms(4)
    by (cases "failed_ids sv session = []")
      (auto simp: dispose_session_def finish_disposal_def released error_with_details_def error_new_def Let_def
        True no_members assms(1,2) failed_ids_empty [symmetric] failed_ids_def [symmetric])
next
  case False
  have heap: "control_of (s\<lparr>sv_disposals := ds\<rparr>) = control_of s" for s ds
    by (simp add: control_of_def fun_eq_iff)
  have sv': "sv' = fold (cancel_member env mo) members sv\<lparr>sv_disposals := sv_disposals sv'\<rparr>" "messages = []"
    and "\<exists>disposal. map_of (sv_disposals sv') session = Some disposal \<and> pd_id disposal = rid \<and>
         pd_remaining disposal = map fst members \<and> set (pd_failed disposal) = unverified sv session \<and>
         pd_deadline disposal = mo_now mo + cleanup_timeout (en_limits env)"
    using False assms by (auto simp: dispose_session_def Let_def failed_ids_def [symmetric] set_failed_ids)
  moreover have "\<forall>kv \<in> set members. control_cause (control_of sv' (ac_control (snd kv))) \<noteq> None"
    by (subst sv') (auto simp: heap cancel_members_cause simp del: not_None_eq)
  moreover have "sv_state sv' = sv_state sv" by (subst sv') simp
  ultimately show ?thesis using False by simp
qed

theorem dispose_session_verifies_witness:
  "fst (dispose_session sample_env (sample_moment 1) (json_nat 1) (JObj [(''session_id'', JStr ''sess_1'')])
     (service_new Stateful)) =
   [rpc_result (json_nat 1) (json_object [(''session_id'', JStr ''sess_1''), (''status'', JStr ''disposed''),
      (''released_executions'', json_nat 0), (''cleanup_complete'', JBool True)])]"
proof -
  have params: "session_id_from_params (JObj [(''session_id'', JStr ''sess_1'')]) = Inr ''sess_1''"
    by code_simp
  have "unverified (service_new Stateful) ''sess_1'' = {}"
    by (simp add: unverified_def unclean_def bs_entry_def service_new_def service_state_default_def
        execution_ids_for_session_def ids_for_session_def execution_store_default_def)
  with dispose_session_verifies [OF params _ refl prod.collapse [symmetric], of "service_new Stateful" sample_env
      "sample_moment 1" "json_nat 1"]
  show ?thesis by (simp add: service_new_def)
qed

section \<open>Subscriptions resume without gap or duplicate\<close>

definition numbered :: "nat \<Rightarrow> json list \<Rightarrow> bool" where
  "numbered k events \<longleftrightarrow> (\<forall>i < length events. as_u64 (json_index (events ! i) ''event_seq'') = Some (of_nat (k + 1 + i)))"

lemma numbered_Cons:
  "numbered k (e # events) \<longleftrightarrow>
     as_u64 (json_index e ''event_seq'') = Some (of_nat (k + 1)) \<and> numbered (k + 1) events"
  by (auto simp: numbered_def nth_Cons less_Suc_eq_0_disj)

lemma earliest_replay:
  "earliest c eid latest =
     (case replay_events c eid of
        [] \<Rightarrow> latest + 1
      | e # _ \<Rightarrow> (case as_u64 (json_index e ''event_seq'') of Some seq \<Rightarrow> seq | None \<Rightarrow> latest + 1))"
  by (auto simp: earliest_def replay_events_def split: option.splits list.splits)

lemma of_nat_word_less:
  assumes "m < 2 ^ 64" "n < 2 ^ 64"
  shows "(of_nat m :: 64 word) < of_nat n \<longleftrightarrow> m < n"
  using assms by (simp add: word_less_nat_alt unsigned_of_nat take_bit_nat_eq_self)

text \<open>What is newer than \<open>a\<close> among consecutively numbered events.\<close>

lemma numbered_filter:
  assumes "numbered k events" "k + length events < 2 ^ 64" "k \<le> a" "a < 2 ^ 64"
  shows "filter (\<lambda>event. (case as_u64 (json_index event ''event_seq'') of
      Some seq \<Rightarrow> (of_nat a :: 64 word) < seq | None \<Rightarrow> False) \<and> P event) events =
    filter P (drop (a - k) events)"
  using assms
proof (induction events arbitrary: k)
  case (Cons e events)
  have less: "(of_nat a :: 64 word) < of_nat (k + 1) \<longleftrightarrow> a < k + 1"
    using Cons.prems by (intro of_nat_word_less) auto
  show ?case
  proof (cases "a = k")
    case True
    have "filter (\<lambda>event. (case as_u64 (json_index event ''event_seq'') of
        Some seq \<Rightarrow> (of_nat a :: 64 word) < seq | None \<Rightarrow> False) \<and> P event) events = filter P events"
    proof (rule filter_cong [OF refl])
      fix event
      assume "event \<in> set events"
      then obtain i where i: "i < length events" "event = events ! i" by (auto simp: in_set_conv_nth)
      have "as_u64 (json_index event ''event_seq'') = Some (of_nat (k + 1 + 1 + i))"
        using Cons.prems(1) i by (auto simp: numbered_def nth_Cons')
      moreover have "(of_nat a :: 64 word) < of_nat (k + 1 + 1 + i)"
        using Cons.prems(2) i True by (subst of_nat_word_less) auto
      ultimately show "((case as_u64 (json_index event ''event_seq'') of
        Some seq \<Rightarrow> (of_nat a :: 64 word) < seq | None \<Rightarrow> False) \<and> P event) = P event" by simp
    qed
    with True less Cons.prems(1) show ?thesis by (simp add: numbered_Cons)
  next
    case False
    with Cons.prems have "drop (a - k) (e # events) = drop (a - (k + 1)) events"
      by (simp add: drop_Cons' )
    with False Cons.IH [of "k + 1"] Cons.prems less show ?thesis by (simp add: numbered_Cons)
  qed
qed simp

text \<open>Live events to a subscriber that has seen everything so far.\<close>

definition follows :: "string \<Rightarrow> string list \<Rightarrow> nat \<Rightarrow> service \<Rightarrow> bool" where
  "follows eid types m sv \<longleftrightarrow> map_of (sv_active sv) eid \<noteq> None \<and>
     (\<exists>subscription. map_of (sv_subscriptions sv) eid = Some subscription \<and>
        sb_types subscription = types \<and> sb_after_seq subscription = of_nat m)"

lemma on_event_follows:
  assumes "follows eid types m sv" "m + 1 < 2 ^ 64"
    and "as_str (json_index event ''execution_id'') = Some eid"
    and "as_u64 (json_index event ''event_seq'') = Some (of_nat (m + 1))"
  shows "fst (on_event env event sv) = (if event_matches_types event types then [event_message event] else [])"
    "follows eid types (m + 1) (snd (on_event env event sv))"
proof -
  obtain active subscription where a: "map_of (sv_active sv) eid = Some active"
    and sub: "map_of (sv_subscriptions sv) eid = Some subscription" "sb_types subscription = types"
      "sb_after_seq subscription = of_nat m"
    using assms(1) by (auto simp: follows_def)
  have newer: "\<not> (of_nat (m + 1) :: 64 word) \<le> of_nat m"
    using assms(2) of_nat_word_less [of m "m + 1"] by (simp add: not_le)
  have deliver: "fst (deliver_event event s) = (if event_matches_types event types then [event_message event] else [])"
    "follows eid types (m + 1) (snd (deliver_event event s))"
    if "sv_subscriptions s = sv_subscriptions sv" "map_of (sv_active s) eid \<noteq> None" for s
    using that sub newer assms(3,4) by (auto simp: deliver_event_def follows_def Let_def)
  obtain act e where ev: "on_event env event sv =
      deliver_event event (set_active eid act (record_replay env event (record_audit env e sv)))"
    unfolding on_event_def Let_def by (simp add: a assms(3))
  show "fst (on_event env event sv) = (if event_matches_types event types then [event_message event] else [])"
    "follows eid types (m + 1) (snd (on_event env event sv))"
    unfolding ev by (rule deliver; simp add: set_active_def)+
qed

lemma live_events:
  assumes "follows eid types m sv" "m + length live < 2 ^ 64" "numbered m live"
    and "\<forall>event \<in> set live. as_str (json_index event ''execution_id'') = Some eid"
  shows "emitted (\<lambda>s event. snd (on_event env event s)) (\<lambda>s event. fst (on_event env event s)) sv live =
    map event_message (filter (\<lambda>event. event_matches_types event types) live)"
  using assms
proof (induction live arbitrary: m sv)
  case (Cons event live)
  from Cons.prems have "m + 1 < 2 ^ 64" "as_str (json_index event ''execution_id'') = Some eid"
    "as_u64 (json_index event ''event_seq'') = Some (of_nat (m + 1))"
    by (auto simp: numbered_Cons)
  note one = on_event_follows [OF Cons.prems(1) this, of env]
  from Cons.IH [OF one(2)] Cons.prems one(1) show ?case by (simp add: numbered_Cons)
qed simp

text \<open>
  C17: A subscription resumes without gap or duplicate. Let the replay cache of a running execution
  hold its events \<open>k + 1\<close> to \<open>n\<close>, the latest, and let a client subscribe after its event \<open>a\<close>. If \<open>a\<close> lies
  beyond the latest event the request is invalid, and if event \<open>a + 1\<close> was evicted the client is told
  so; nothing changes then. Otherwise the replayed messages, followed by what the next events
  \<open>n + 1, n + 2, \<dots>\<close> of the execution send, are exactly the events after \<open>a\<close> of the requested types, each
  once and in order.
\<close>

theorem subscription_resumes_exactly:
  assumes "map_of (sv_active sv) eid = Some active" "ac_sequence active = of_nat (k + length cached)"
    and "replay_events (sv_replay_cache sv) eid = cached" "numbered k cached"
    and "numbered (k + length cached) live"
    and "\<forall>event \<in> set live. as_str (json_index event ''execution_id'') = Some eid"
    and "k + length cached + length live + 1 < 2 ^ 64" "a < 2 ^ 64"
    and "subscribe_events_params params =
      Inr \<lparr>esr_execution_id = eid, esr_types = types, esr_after_seq = Some (of_nat a)\<rparr>"
    and "subscribe_events mo rid params sv = (messages, sv')"
  shows "if k + length cached < a
      then (\<exists>err. messages = [rpc_error rid err] \<and> err_code err = ''INVALID_REQUEST'') \<and> sv' = sv
    else if a < k
      then (\<exists>err. messages = [rpc_error rid err] \<and> err_code err = ''EVENT_HISTORY_UNAVAILABLE'') \<and> sv' = sv
    else json_index (hd messages) ''id'' = rid \<and>
      tl messages @ emitted (\<lambda>s event. snd (on_event env event s)) (\<lambda>s event. fst (on_event env event s)) sv' live =
      map event_message (filter (\<lambda>event. event_matches_types event types) (drop (a - k) (cached @ live)))"
proof -
  let ?n = "k + length cached"
  have latest: "(of_nat ?n :: 64 word) < of_nat a \<longleftrightarrow> ?n < a"
    using assms(7,8) by (intro of_nat_word_less) auto
  have early: "earliest (sv_replay_cache sv) eid (of_nat ?n) = of_nat (k + 1)"
    using assms(3,4) by (cases cached) (auto simp: earliest_replay numbered_Cons)
  have history: "service_history sv eid =
      Some \<lparr>eh_events = cached, eh_earliest_seq = of_nat (k + 1), eh_latest_seq = of_nat ?n\<rparr>"
    using assms(1-3) early by (simp add: service_history_def)
  have evicted: "u64_saturating_add (of_nat a) 1 < of_nat (k + 1) \<longleftrightarrow> a < k" if "a \<le> ?n"
  proof -
    have "u64_saturating_add (of_nat a) 1 = of_nat (a + 1)"
      using that assms(7) by (simp add: u64_saturating_add_def unsigned_of_nat take_bit_nat_eq_self)
    then show ?thesis using that assms(7) of_nat_word_less [of "a + 1" "k + 1"] by simp
  qed
  show ?thesis
  proof (cases "k \<le> a \<and> a \<le> ?n")
    case True
    let ?replay = "filter (\<lambda>event. event_matches_types event types) (drop (a - k) cached)"
    have "filter (\<lambda>event. (case as_u64 (json_index event ''event_seq'') of
        Some seq \<Rightarrow> (of_nat a :: 64 word) < seq | None \<Rightarrow> False) \<and> event_matches_types event types) cached = ?replay"
      using assms(4,7,8) True by (intro numbered_filter) auto
    then have result: "tl messages = map event_message ?replay" "json_index (hd messages) ''id'' = rid"
      "sv' = install_subscription mo eid types (of_nat ?n) sv"
      using assms(9,10) True latest evicted history
      by (auto simp: subscribe_events_def Let_def response_id_def [symmetric])
    have "follows eid types ?n sv'"
      using assms(1) unfolding result(3) by (simp add: follows_def) (simp add: install_subscription_def Let_def case_prod_beta)
    from live_events [OF this _ assms(5,6)] assms(7) True result(1,2) show ?thesis
      by (simp flip: append_assoc)
  next
    case False
    with assms(9,10) latest evicted history show ?thesis
      by (auto simp: subscribe_events_def Let_def error_with_details_def error_new_def)
  qed
qed

definition numbered_event :: "64 word \<Rightarrow> json" where
  "numbered_event n = JObj [(''event_seq'', JNum (PosInt n)), (''execution_id'', JStr ''exec_1''), (''type'', JStr ''x'')]"

definition sample_subscribe :: json where
  "sample_subscribe = JObj [(''after_seq'', JNum (PosInt 1)), (''execution_id'', JStr ''exec_1'')]"

definition sample_followed :: service where
  "sample_followed = (service_new Stateful)\<lparr>sv_active := [(''exec_1'', (ra_active sample_ready)\<lparr>ac_sequence := 2\<rparr>)],
     sv_replay_cache := \<lparr>rc_histories = [(''exec_1'', \<lparr>hi_events = [\<lparr>ce_order = 2, ce_bytes = 9, ce_value = numbered_event 2\<rparr>],
        hi_bytes = 9\<rparr>)], rc_order = [(2, ''exec_1'')], rc_next_order = 2, rc_bytes = 9\<rparr>\<rparr>"

theorem subscription_resumes_exactly_witness:
  "let (messages, sv') = subscribe_events (sample_moment 1) (json_nat 3) sample_subscribe sample_followed in
   tl messages @ emitted (\<lambda>s event. snd (on_event sample_env event s)) (\<lambda>s event. fst (on_event sample_env event s)) sv'
     [numbered_event 3] = map event_message [numbered_event 2, numbered_event 3]"
proof -
  have params: "subscribe_events_params sample_subscribe =
      Inr \<lparr>esr_execution_id = ''exec_1'', esr_types = [], esr_after_seq = Some (of_nat 1)\<rparr>"
    unfolding sample_subscribe_def by code_simp
  obtain messages sv' where run: "subscribe_events (sample_moment 1) (json_nat 3) sample_subscribe sample_followed = (messages, sv')"
    by (metis prod.exhaust)
  have active: "map_of (sv_active sample_followed) ''exec_1'' = Some ((ra_active sample_ready)\<lparr>ac_sequence := 2\<rparr>)"
    "replay_events (sv_replay_cache sample_followed) ''exec_1'' = [numbered_event 2]"
    by (simp_all add: sample_followed_def replay_events_def)
  have all_types: "event_matches_types e []" for e by (simp add: event_matches_types_def)
  show ?thesis
    using subscription_resumes_exactly [OF active(1) _ active(2) _ _ _ _ _ params run, of 1 "[numbered_event 3]" sample_env]
    unfolding run by (simp add: numbered_def numbered_event_def json_index_def json_get_def obj_get_def all_types)
qed

end
