(* ===== verification/Audit_Log.thy ===== *)
theory Audit_Log
  imports Rpc_Messages Retention_Stores
begin

text \<open>
  The audit file of a session and what is written to it, from \<open>src/audit.rs\<close>: the check of session
  identifiers that become file names, the redaction of values, and the writer, whose file is the
  lines that are durable in it. Whether the file system creates a file or takes a line is an argument
  of each call. The URL parser is a third-party crate: it is the parameter \<open>parse\<close>, and a parsed URL
  is what the sources read of it.
\<close>

section \<open>Session files\<close>

definition MAX_AUDIT_SESSION_ID_BYTES :: nat where
  "MAX_AUDIT_SESSION_ID_BYTES = 128"

definition REDACTED :: string where
  "REDACTED = ''[REDACTED]''"

definition validate_audit_session_id :: "string \<Rightarrow> bool" where
  "validate_audit_session_id session_id \<longleftrightarrow>
     starts_with session_id ''sess_'' \<and> length ''sess_'' < length session_id
     \<and> length session_id \<le> MAX_AUDIT_SESSION_ID_BYTES
     \<and> list_all (\<lambda>c. c = CHR ''_'' \<or> is_ascii_alphanumeric c) session_id"

text \<open>Joining keeps the components apart by the separator of the platform, which becomes a slash.\<close>

definition audit_path :: "string \<Rightarrow> string" where
  "audit_path session_id =
     ''.runseal/audit/'' @ map (\<lambda>c. if c = CHR 0x5C then CHR ''/'' else c) session_id @ ''.jsonl''"

record audit_writer =
  aw_relative_path :: string
  aw_lines :: "json list"

definition audit_create :: "bool \<Rightarrow> string \<Rightarrow> audit_writer option" where
  "audit_create fs_ok session_id =
     (if validate_audit_session_id session_id \<and> fs_ok
      then Some \<lparr>aw_relative_path = audit_path session_id, aw_lines = []\<rparr> else None)"

definition create_audit_writer :: "bool \<Rightarrow> string \<Rightarrow> audit_writer rs_result" where
  "create_audit_writer fs_ok session_id =
     ok_or (audit_create fs_ok session_id)
       (error_with_details ''INTERNAL_ERROR'' ''failed to establish required audit record''
         (json_object [(''durable_record_missing'', JBool True), (''cleanup_complete'', JBool True)]))"

definition write_event :: "bool \<Rightarrow> json \<Rightarrow> audit_writer \<Rightarrow> audit_writer option" where
  [simp]: "write_event ok event audit = (if ok then Some (audit\<lparr>aw_lines := aw_lines audit @ [event]\<rparr>) else None)"

definition write_audit_event :: "bool \<Rightarrow> json \<Rightarrow> audit_writer \<Rightarrow> unit rs_result \<times> audit_writer" where
  "write_audit_event ok event audit =
     (case write_event ok event audit of
        Some audit \<Rightarrow> (Inr (), audit)
      | None \<Rightarrow> (Inl (error_with_details ''INTERNAL_ERROR'' ''required audit write failed''
              (json_object [(''durable_record_missing'', JBool True)])), audit))"

section \<open>Redaction\<close>

text \<open>\<open>str::trim\<close> on UTF-8 bytes: the encodings of the characters with the white space property.\<close>

definition utf8 :: "nat list \<Rightarrow> string" where
  "utf8 bytes = map char_of bytes"

definition white_space :: "string list" where
  "white_space = map utf8
     ([[9], [10], [11], [12], [13], [32], [0xC2, 0x85], [0xC2, 0xA0], [0xE1, 0x9A, 0x80]]
      @ map (\<lambda>b. [0xE2, 0x80, b]) ([0x80..<0x8B] @ [0xA8, 0xA9, 0xAF])
      @ [[0xE2, 0x81, 0x9F], [0xE3, 0x80, 0x80]])"

function trim_prefixes :: "string list \<Rightarrow> string \<Rightarrow> string" where
  "trim_prefixes ws s =
     (case find (\<lambda>w. w \<noteq> [] \<and> starts_with s w) ws of
        None \<Rightarrow> s
      | Some w \<Rightarrow> trim_prefixes ws (drop (length w) s))"
  by pat_completeness auto
termination
  by (relation "measure (\<lambda>(ws, s). length s)")
    (auto simp: find_Some_iff starts_with_iff)

declare trim_prefixes.simps [simp del]

definition trim :: "string \<Rightarrow> string" where
  "trim s = rev (trim_prefixes (map rev white_space) (rev (trim_prefixes white_space s)))"

fun contains_str :: "string \<Rightarrow> string \<Rightarrow> bool" where
  "contains_str [] pat = (pat = [])"
| "contains_str (c # s) pat = (starts_with (c # s) pat \<or> contains_str s pat)"

datatype url_host = Domain string | Ipv4 string | Ipv6 string

record url =
  url_scheme :: string
  url_username :: string
  url_password :: "string option"
  url_query :: "string option"
  url_fragment :: "string option"
  url_host_part :: "url_host option"
  url_port :: "nat option"

definition has_userinfo :: "url \<Rightarrow> bool" where
  "has_userinfo u \<longleftrightarrow> url_username u \<noteq> [] \<or> url_password u \<noteq> None"

definition url_carriers :: "url \<Rightarrow> bool" where
  "url_carriers u \<longleftrightarrow>
     has_userinfo u \<or> url_query u \<noteq> None \<or> url_fragment u \<noteq> None"

definition redact_url_value :: "(string \<Rightarrow> url option) \<Rightarrow> string \<Rightarrow> string" where
  "redact_url_value parse value =
     (let trimmed = trim value in
      if trimmed = [] then value
      else case parse trimmed of
        None \<Rightarrow> if contains_str trimmed ''://'' then REDACTED else value
      | Some url \<Rightarrow>
          let has_userinfo = has_userinfo url;
              has_query = (url_query url \<noteq> None);
              has_fragment = (url_fragment url \<noteq> None) in
          if \<not> has_userinfo \<and> \<not> has_query \<and> \<not> has_fragment then value
          else
            let host = (case url_host_part url of
                          Some (Domain domain) \<Rightarrow> domain
                        | Some (Ipv4 address) \<Rightarrow> address
                        | Some (Ipv6 address) \<Rightarrow> ''['' @ address @ '']''
                        | None \<Rightarrow> ''<none>'');
                port = (case url_port url of None \<Rightarrow> [] | Some port \<Rightarrow> '':'' @ dec port) in
            url_scheme url @ ''://'' @ (if has_userinfo then REDACTED @ ''@'' else []) @ host @ port)"

definition is_sensitive_audit_key :: "string \<Rightarrow> bool" where
  "is_sensitive_audit_key key =
     (let key = to_ascii_lowercase key in
      key \<in> set [''authorization'', ''proxy-authorization'', ''cookie'', ''set-cookie'', ''x-api-key'', ''api-key'',
        ''api_key'', ''access_token'', ''refresh_token'', ''token'', ''password'', ''secret'']
      \<or> ends_with key ''_token'' \<or> ends_with key ''_key'' \<or> ends_with key ''_secret''
      \<or> ends_with key ''_password'' \<or> ends_with key ''_authorization'' \<or> ends_with key ''_cookie''
      \<or> starts_with key ''aws_'')"

fun redact_audit_value :: "(string \<Rightarrow> url option) \<Rightarrow> json \<Rightarrow> json" where
  "redact_audit_value parse (JObj object) =
     JObj (map (\<lambda>kv. (fst kv, if is_sensitive_audit_key (fst kv) then JStr REDACTED
                              else redact_audit_value parse (snd kv))) object)"
| "redact_audit_value parse (JArr items) = JArr (map (redact_audit_value parse) items)"
| "redact_audit_value parse (JStr value) = JStr (redact_url_value parse value)"
| "redact_audit_value parse value = value"

definition write_audit_event_with_metadata ::
  "(string \<Rightarrow> url option) \<Rightarrow> bool \<Rightarrow> json \<Rightarrow> json option \<Rightarrow> audit_writer \<Rightarrow> unit rs_result \<times> audit_writer" where
  "write_audit_event_with_metadata parse ok event metadata audit =
     (case metadata of
        None \<Rightarrow> write_audit_event ok event audit
      | Some metadata \<Rightarrow>
          write_audit_event ok
            (case event of
               JObj object \<Rightarrow> JObj (obj_insert ''metadata'' (redact_audit_value parse metadata) object)
             | _ \<Rightarrow> event) audit)"

section \<open>What redaction guarantees\<close>

text \<open>
  What a text has to hide. \<open>secret_url\<close> is the URL it is read as, when that has user information, a
  query or a fragment; \<open>opaque_url\<close> says that it looks like a URL but cannot be read. What may be
  shown of a URL with a secret is its scheme, host and port, and that it has user information.
\<close>

definition secret_url :: "(string \<Rightarrow> url option) \<Rightarrow> string \<Rightarrow> url option" where
  "secret_url parse s =
     (if trim s = [] then None
      else case parse (trim s) of
        Some u \<Rightarrow> if url_username u \<noteq> [] \<or> url_password u \<noteq> None \<or> url_query u \<noteq> None \<or> url_fragment u \<noteq> None
                  then Some u else None
      | None \<Rightarrow> None)"

definition opaque_url :: "(string \<Rightarrow> url option) \<Rightarrow> string \<Rightarrow> bool" where
  "opaque_url parse s \<longleftrightarrow> trim s \<noteq> [] \<and> parse (trim s) = None \<and> contains_str (trim s) ''://''"

definition public_part :: "url \<Rightarrow> string \<times> url_host option \<times> nat option \<times> bool" where
  "public_part u = (url_scheme u, url_host_part u, url_port u, url_username u \<noteq> [] \<or> url_password u \<noteq> None)"

definition authority_text :: "string \<Rightarrow> bool \<Rightarrow> url_host option \<Rightarrow> nat option \<Rightarrow> string" where
  "authority_text scheme userinfo host port =
     scheme @ ''://'' @ (if userinfo then REDACTED @ ''@'' else [])
       @ (case host of
            None \<Rightarrow> ''<none>''
          | Some (Domain d) \<Rightarrow> d
          | Some (Ipv4 a) \<Rightarrow> a
          | Some (Ipv6 a) \<Rightarrow> ''['' @ a @ '']'')
       @ (case port of None \<Rightarrow> [] | Some n \<Rightarrow> '':'' @ dec n)"

text \<open>
  Two texts differ only in their secrets when they are the same, both unreadable URLs, or URLs with a
  secret that show the same. Two values differ only in their secrets when they differ only there and
  under sensitive keys.
\<close>

definition text_agrees :: "(string \<Rightarrow> url option) \<Rightarrow> string \<Rightarrow> string \<Rightarrow> bool" where
  "text_agrees parse s t \<longleftrightarrow>
     s = t \<or> opaque_url parse s \<and> opaque_url parse t \<or>
     (case (secret_url parse s, secret_url parse t) of
        (Some u, Some v) \<Rightarrow> public_part u = public_part v
      | _ \<Rightarrow> False)"

fun agrees_but_for_secrets :: "(string \<Rightarrow> url option) \<Rightarrow> json \<Rightarrow> json \<Rightarrow> bool" where
  "agrees_but_for_secrets parse (JObj a) (JObj b) =
     list_all2 (\<lambda>x y. fst x = fst y \<and>
       (is_sensitive_audit_key (fst x) \<or> agrees_but_for_secrets parse (snd x) (snd y))) a b"
| "agrees_but_for_secrets parse (JArr a) (JArr b) = list_all2 (agrees_but_for_secrets parse) a b"
| "agrees_but_for_secrets parse (JStr a) (JStr b) = text_agrees parse a b"
| "agrees_but_for_secrets parse a b = (a = b)"

text \<open>
  What is kept: everything but the texts with a secret and what is under a sensitive key.
\<close>

definition text_kept :: "(string \<Rightarrow> url option) \<Rightarrow> string \<Rightarrow> string \<Rightarrow> bool" where
  "text_kept parse s t \<longleftrightarrow>
     (case secret_url parse s of
        Some u \<Rightarrow> t = authority_text (url_scheme u) (has_userinfo u) (url_host_part u) (url_port u)
      | None \<Rightarrow> t = (if opaque_url parse s then ''[REDACTED]'' else s))"

fun kept_but_for_secrets :: "(string \<Rightarrow> url option) \<Rightarrow> json \<Rightarrow> json \<Rightarrow> bool" where
  "kept_but_for_secrets parse (JObj a) (JObj b) =
     list_all2 (\<lambda>x y. fst x = fst y \<and>
       (if is_sensitive_audit_key (fst x) then snd y = JStr ''[REDACTED]''
        else kept_but_for_secrets parse (snd x) (snd y))) a b"
| "kept_but_for_secrets parse (JArr a) (JArr b) = list_all2 (kept_but_for_secrets parse) a b"
| "kept_but_for_secrets parse (JStr a) (JStr b) = text_kept parse a b"
| "kept_but_for_secrets parse a b = (a = b)"

lemma redact_url_value_authority:
  assumes "trim value \<noteq> []" "parse (trim value) = Some u" "url_carriers u"
  shows "redact_url_value parse value =
    authority_text (url_scheme u) (has_userinfo u) (url_host_part u) (url_port u)"
  using assms
  by (auto simp: redact_url_value_def authority_text_def url_carriers_def Let_def split: option.splits url_host.splits)

lemma secret_url_Some:
  "secret_url parse s = Some u \<longleftrightarrow> trim s \<noteq> [] \<and> parse (trim s) = Some u \<and> url_carriers u"
  by (auto simp: secret_url_def url_carriers_def has_userinfo_def split: option.splits)

lemma redact_url_value_kept: "text_kept parse s (redact_url_value parse s)"
proof (cases "secret_url parse s")
  case (Some u)
  then have "trim s \<noteq> []" "parse (trim s) = Some u" "url_carriers u" by (simp_all add: secret_url_Some)
  then show ?thesis using Some redact_url_value_authority by (simp add: text_kept_def)
next
  case None
  then have "redact_url_value parse s = (if opaque_url parse s then ''[REDACTED]'' else s)"
    by (auto simp: secret_url_def opaque_url_def redact_url_value_def has_userinfo_def REDACTED_def Let_def
        split: option.splits if_splits)
  with None show ?thesis by (simp add: text_kept_def)
qed

lemma opaque_has_no_url: "opaque_url parse s \<Longrightarrow> secret_url parse s = None"
  by (auto simp: opaque_url_def secret_url_def)

lemma public_part_userinfo: "public_part u = (url_scheme u, url_host_part u, url_port u, has_userinfo u)"
  by (simp add: public_part_def has_userinfo_def)

text \<open>What is kept of a text does not depend on its secrets.\<close>

lemma text_kept_agrees:
  assumes "text_agrees parse s t" "text_kept parse s s'" "text_kept parse t t'"
  shows "s' = t'"
  using assms
  by (auto simp: text_agrees_def text_kept_def public_part_userinfo opaque_has_no_url
      split: option.splits)

lemma redact_url_value_agrees:
  "text_agrees parse s t \<Longrightarrow> redact_url_value parse s = redact_url_value parse t"
  by (rule text_kept_agrees [OF _ redact_url_value_kept redact_url_value_kept])

lemma redact_audit_value_kept: "kept_but_for_secrets parse v (redact_audit_value parse v)"
  by (induction parse v rule: redact_audit_value.induct)
    (auto simp: list_all2_map2 list_all2_same redact_url_value_kept REDACTED_def)

lemma list_all2_map_cong:
  "list_all2 R xs ys \<Longrightarrow> (\<And>x y. x \<in> set xs \<Longrightarrow> y \<in> set ys \<Longrightarrow> R x y \<Longrightarrow> f x = f y) \<Longrightarrow> map f xs = map f ys"
  by (induction rule: list_all2_induct) auto

lemma redact_audit_value_agrees:
  "agrees_but_for_secrets parse v w \<Longrightarrow> redact_audit_value parse v = redact_audit_value parse w"
proof (induction parse v w rule: agrees_but_for_secrets.induct)
  case (1 parse a b)
  have "map (\<lambda>kv. (fst kv, if is_sensitive_audit_key (fst kv) then JStr REDACTED else redact_audit_value parse (snd kv))) a =
      map (\<lambda>kv. (fst kv, if is_sensitive_audit_key (fst kv) then JStr REDACTED else redact_audit_value parse (snd kv))) b"
    using 1(2) unfolding agrees_but_for_secrets.simps
    by (rule list_all2_map_cong) (use 1(1) in auto)
  then show ?case by simp
next
  case (2 parse a b)
  have "map (redact_audit_value parse) a = map (redact_audit_value parse) b"
    using 2(2) unfolding agrees_but_for_secrets.simps
    by (rule list_all2_map_cong) (use 2(1) in auto)
  then show ?case by simp
qed (simp_all add: redact_url_value_agrees)

text \<open>
  C29: What is written under \<open>metadata\<close> does not depend on secrets. Two values that differ only under
  sensitive keys, in the user information, path, query and fragment of URLs that have user
  information, a query or a fragment, and in texts with \<open>://\<close> that are no URL, leave the same line in
  the file: the event with the redacted value. That value keeps everything else: at any depth an
  entry with a sensitive key is the marker, a URL with a secret is its scheme, host and port with the
  marker for its user information, an unreadable URL is the marker, and every other text, number,
  key and array is as it was.
\<close>

theorem audit_metadata_is_redacted:
  assumes "agrees_but_for_secrets parse metadata other"
  shows "snd (write_audit_event_with_metadata parse ok (JObj event) (Some metadata) audit) =
       snd (write_audit_event_with_metadata parse ok (JObj event) (Some other) audit) \<and>
     (\<exists>shown. kept_but_for_secrets parse metadata shown \<and>
       aw_lines (snd (write_audit_event_with_metadata parse ok (JObj event) (Some metadata) audit)) =
         aw_lines audit @ (if ok then [JObj (obj_insert ''metadata'' shown event)] else []))"
proof -
  have "redact_audit_value parse metadata = redact_audit_value parse other"
    using assms by (rule redact_audit_value_agrees)
  moreover have "kept_but_for_secrets parse metadata (redact_audit_value parse metadata)"
    by (rule redact_audit_value_kept)
  ultimately show ?thesis
    by (auto simp: write_audit_event_with_metadata_def write_audit_event_def)
qed

text \<open>A text that begins and ends with a visible ASCII character is not trimmed.\<close>

definition visible :: "char \<Rightarrow> bool" where
  "visible c \<longleftrightarrow> 32 < byte_of c \<and> byte_of c < 128"

lemma white_space_invisible:
  "list_all (\<lambda>w. w \<noteq> [] \<and> \<not> visible (hd w) \<and> \<not> visible (last w)) white_space"
  by code_simp

lemma trim_prefixes_visible:
  assumes "list_all (\<lambda>w. w \<noteq> [] \<and> \<not> visible (hd w)) ws" "s \<noteq> []" "visible (hd s)"
  shows "trim_prefixes ws s = s"
proof -
  have "find (\<lambda>w. w \<noteq> [] \<and> starts_with s w) ws = None"
    using assms by (auto simp: find_None_iff list_all_iff starts_with_iff)
  then show ?thesis by (simp add: trim_prefixes.simps)
qed

lemma trim_visible:
  assumes "s \<noteq> []" "visible (hd s)" "visible (last s)"
  shows "trim s = s"
proof -
  have "trim_prefixes white_space s = s"
    using white_space_invisible assms by (intro trim_prefixes_visible) (auto simp: list_all_iff)
  moreover have "trim_prefixes (map rev white_space) (rev s) = rev s"
    using white_space_invisible assms by (intro trim_prefixes_visible) (auto simp: list_all_iff hd_rev)
  ultimately show ?thesis by (simp add: trim_def)
qed

text \<open>
  A value with a token and a URL with a password and a query, beside one with other secrets, under a
  parser that knows these two URLs.
\<close>

definition sample_parser :: "string \<Rightarrow> url option" where
  "sample_parser s =
     (let url = \<lparr>url_scheme = ''http'', url_username = ''u'', url_password = Some ''p'', url_query = None,
                  url_fragment = None, url_host_part = Some (Domain ''h''), url_port = Some 81\<rparr> in
      if s = ''http://u:p@h:81/'' then Some url
      else if s = ''http://w:z@h:81/?q'' then Some (url\<lparr>url_username := ''w'', url_password := Some ''z'', url_query := Some ''q''\<rparr>)
      else None)"

definition sample_metadata :: "string \<Rightarrow> string \<Rightarrow> json" where
  "sample_metadata token url = JObj [(''auth_token'', JStr token), (''urls'', JArr [JStr url, JStr ''plain''])]"

lemma sample_texts:
  "trim ''http://u:p@h:81/'' = ''http://u:p@h:81/''" "trim ''http://w:z@h:81/?q'' = ''http://w:z@h:81/?q''"
  "trim ''plain'' = ''plain''"
  by (simp_all add: trim_visible visible_def byte_of_def)

lemma sample_keys: "is_sensitive_audit_key ''auth_token''" "\<not> is_sensitive_audit_key ''urls''"
  by code_simp+

lemma sample_values:
  "sample_parser ''plain'' = None" "\<not> contains_str ''plain'' ''://''" "dec 81 = ''81''"
  by code_simp+

lemma sample_agrees:
  "agrees_but_for_secrets sample_parser (sample_metadata ''t1'' ''http://u:p@h:81/'') (sample_metadata ''t2'' ''http://w:z@h:81/?q'')"
  by (simp add: sample_metadata_def sample_keys text_agrees_def secret_url_def sample_texts)
    (simp add: sample_parser_def public_part_def)

lemma sample_line:
  "redact_audit_value sample_parser (sample_metadata ''t1'' ''http://u:p@h:81/'') =
     sample_metadata ''[REDACTED]'' ''http://[REDACTED]@h:81''"
proof -
  have "redact_url_value sample_parser ''plain'' = ''plain''"
    using redact_url_value_kept [of sample_parser "''plain''"] sample_values(2)
    by (simp add: text_kept_def secret_url_def opaque_url_def sample_texts sample_values(1) del: contains_str.simps)
  moreover have "redact_url_value sample_parser ''http://u:p@h:81/'' = ''http://[REDACTED]@h:81''"
    by (simp add: redact_url_value_def sample_texts) (simp add: sample_parser_def has_userinfo_def sample_values REDACTED_def)
  ultimately show ?thesis by (simp add: sample_metadata_def sample_keys REDACTED_def)
qed

theorem audit_metadata_is_redacted_witness:
  "aw_lines (snd (write_audit_event_with_metadata sample_parser True (JObj []) (Some (sample_metadata ''t1'' ''http://u:p@h:81/''))
     \<lparr>aw_relative_path = [], aw_lines = []\<rparr>)) =
     [JObj [(''metadata'', sample_metadata ''[REDACTED]'' ''http://[REDACTED]@h:81'')]] \<and>
   snd (write_audit_event_with_metadata sample_parser True (JObj []) (Some (sample_metadata ''t1'' ''http://u:p@h:81/''))
     \<lparr>aw_relative_path = [], aw_lines = []\<rparr>) =
   snd (write_audit_event_with_metadata sample_parser True (JObj []) (Some (sample_metadata ''t2'' ''http://w:z@h:81/?q''))
     \<lparr>aw_relative_path = [], aw_lines = []\<rparr>)"
proof (rule conjI)
  show "aw_lines (snd (write_audit_event_with_metadata sample_parser True (JObj []) (Some (sample_metadata ''t1'' ''http://u:p@h:81/''))
     \<lparr>aw_relative_path = [], aw_lines = []\<rparr>)) =
     [JObj [(''metadata'', sample_metadata ''[REDACTED]'' ''http://[REDACTED]@h:81'')]]"
    by (simp add: write_audit_event_with_metadata_def write_audit_event_def sample_line)
  show "snd (write_audit_event_with_metadata sample_parser True (JObj []) (Some (sample_metadata ''t1'' ''http://u:p@h:81/''))
     \<lparr>aw_relative_path = [], aw_lines = []\<rparr>) =
   snd (write_audit_event_with_metadata sample_parser True (JObj []) (Some (sample_metadata ''t2'' ''http://w:z@h:81/?q''))
     \<lparr>aw_relative_path = [], aw_lines = []\<rparr>)"
    by (rule audit_metadata_is_redacted [OF sample_agrees, THEN conjunct1])
qed

lemma prefixed_text_iff:
  assumes "list_all P pre"
  shows "starts_with s pre \<and> length pre < length s \<and> length s \<le> n \<and> list_all P s \<longleftrightarrow>
    (\<exists>rest. s = pre @ rest \<and> rest \<noteq> [] \<and> length rest + length pre \<le> n \<and> list_all P rest)"
  using assms by (auto simp: starts_with_iff add.commute)

text \<open>
  A session becomes a file of its own. An audit file is created exactly when the file system
  allows it and the session identifier is \<open>sess_\<close> followed by at least one and at most 123 letters,
  digits and underscores; its path then has no component but the two directories and the file,
  whatever the identifier.
\<close>

theorem audit_files_stay_in_place:
  "is_ok (create_audit_writer fs_ok session_id) \<longleftrightarrow>
     fs_ok \<and> (\<exists>rest. session_id = ''sess_'' @ rest \<and> rest \<noteq> [] \<and> length rest + length ''sess_'' \<le> 128 \<and>
       list_all (\<lambda>c. c = CHR ''_'' \<or> is_ascii_alphanumeric c) rest \<and>
       create_audit_writer fs_ok session_id =
         Inr \<lparr>aw_relative_path = ''.runseal/audit/'' @ session_id @ ''.jsonl'', aw_lines = []\<rparr>)"
proof -
  have no_sep: "c \<noteq> CHR 0x5C" if "c = CHR ''_'' \<or> is_ascii_alphanumeric c" for c
  proof
    assume "c = CHR 0x5C"
    moreover have "\<not> is_ascii_alphanumeric (CHR 0x5C)" by code_simp
    ultimately show False using that by auto
  qed
  have path: "audit_path session_id = ''.runseal/audit/'' @ session_id @ ''.jsonl''"
    if "list_all (\<lambda>c. c = CHR ''_'' \<or> is_ascii_alphanumeric c) session_id"
    unfolding audit_path_def using that no_sep by (simp add: list_all_iff map_idI)
  have ok: "is_ok (create_audit_writer fs_ok session_id) \<longleftrightarrow> fs_ok \<and> validate_audit_session_id session_id"
    and made: "fs_ok \<Longrightarrow> validate_audit_session_id session_id \<Longrightarrow>
      create_audit_writer fs_ok session_id = Inr \<lparr>aw_relative_path = audit_path session_id, aw_lines = []\<rparr>"
    by (auto simp: is_ok_iff create_audit_writer_def audit_create_def)
  have valid: "validate_audit_session_id session_id \<longleftrightarrow>
      (\<exists>rest. session_id = ''sess_'' @ rest \<and> rest \<noteq> [] \<and> length rest + length ''sess_'' \<le> 128 \<and>
        list_all (\<lambda>c. c = CHR ''_'' \<or> is_ascii_alphanumeric c) rest)"
  proof -
    have "list_all (\<lambda>c. c = CHR ''_'' \<or> is_ascii_alphanumeric c) ''sess_''" by code_simp
    then show ?thesis
      unfolding validate_audit_session_id_def MAX_AUDIT_SESSION_ID_BYTES_def by (rule prefixed_text_iff)
  qed
  show ?thesis
  proof (cases "fs_ok \<and> validate_audit_session_id session_id")
    case True
    then have "create_audit_writer fs_ok session_id =
        Inr \<lparr>aw_relative_path = ''.runseal/audit/'' @ session_id @ ''.jsonl'', aw_lines = []\<rparr>"
      using made path by (simp add: validate_audit_session_id_def)
    with True ok valid show ?thesis by blast
  next
    case False
    with ok valid show ?thesis by blast
  qed
qed

end
