(* ===== verification/Execution_Journal.thy ===== *)
theory Execution_Journal
  imports Audit_Log Request_Validation Component_Interfaces
begin

text \<open>
  The journal of an execution, from \<open>src/execution/journal.rs\<close>: its worker numbers the events, writes
  each to the audit file before it is observed, and commits one terminal record. The clock, the file
  system and the observer take part as arguments of each call: the time it reads, whether the file is
  created or the line written, and what the observer answers to an event. A call returns its result,
  the journal and the events it handed to the observer.
\<close>

section \<open>Data\<close>

record execution_journal =
  jr_audit :: "audit_writer option"
  jr_cwd :: string
  jr_session_id :: string
  jr_audit_path :: string
  jr_metadata :: "json option"
  jr_binding :: json
  jr_sequence :: "64 word"
  jr_prepared_requested :: "json option"
  jr_admitted :: bool
  jr_durable_record_missing :: bool
  jr_started_at :: "json option"
  jr_pty :: bool
  jr_terminal_range :: "(json \<Rightarrow> 64 word rs_result) option"

text \<open>What is fixed for a process: the URL parser, the version, the backend and the policy hash.\<close>

record journal_env =
  je_parse :: "string \<Rightarrow> url option"
  je_version :: string
  je_backend :: json
  je_hash :: "sandbox_policy \<Rightarrow> string"

type_synonym observer = "json \<Rightarrow> unit rs_result"

definition journal_prepare :: "journal_env \<Rightarrow> execution_request \<Rightarrow> execution_journal" where
  "journal_prepare env request =
     (let hash = je_hash env (req_policy request);
          path = audit_path (ids_session_id (req_ids request)) in
      \<lparr>jr_audit = None, jr_cwd = req_cwd request, jr_session_id = ids_session_id (req_ids request),
       jr_audit_path = path,
       jr_metadata = map_option (redact_audit_value (je_parse env)) (req_metadata request),
       jr_binding = json_object
         [(''execution_id'', JStr (ids_execution_id (req_ids request))),
          (''session_id'', JStr (ids_session_id (req_ids request))),
          (''seal_id'', JStr (ids_seal_id (req_ids request))),
          (''policy_id'', JStr (pol_id (req_policy request))),
          (''policy_hash'', JStr hash), (''policy_epoch'', JStr hash), (''backend'', je_backend env),
          (''audit_path'', JStr path), (''runseal_version'', JStr (je_version env))],
       jr_sequence = 0, jr_prepared_requested = None, jr_admitted = False,
       jr_durable_record_missing = False, jr_started_at = None, jr_pty = is_pty (req_io request),
       jr_terminal_range = None\<rparr>)"

definition set_terminal_range :: "(json \<Rightarrow> 64 word rs_result) \<Rightarrow> execution_journal \<Rightarrow> execution_journal" where
  "set_terminal_range sample j = j\<lparr>jr_terminal_range := Some sample\<rparr>"

definition value_extend :: "json \<Rightarrow> json \<Rightarrow> json" where
  "value_extend event payload =
     (case (event, payload) of (JObj object, JObj new) \<Rightarrow> JObj (obj_extend object new) | _ \<Rightarrow> event)"

definition envelope :: "string \<Rightarrow> json \<Rightarrow> execution_journal \<Rightarrow> json" where
  "envelope now payload j =
     (let event = value_extend (jr_binding j) payload;
          event = json_set event ''event_seq'' (json_u64 (jr_sequence j)) in
      if json_get event ''time'' = None then json_set event ''time'' (JStr now) else event)"

definition internal_error :: "string \<Rightarrow> runseal_error" where
  "internal_error reason = error_new ''INTERNAL_ERROR'' reason"

text \<open>Writing through the optional writer of the journal.\<close>

definition journal_write :: "journal_env \<Rightarrow> bool \<Rightarrow> json \<Rightarrow> execution_journal \<Rightarrow> unit rs_result \<times> execution_journal" where
  "journal_write env ok event j =
     (case jr_audit j of
        None \<Rightarrow> (Inl (internal_error ''admitted journal has no audit writer''), j)
      | Some audit \<Rightarrow>
          (case write_audit_event_with_metadata (je_parse env) ok event (jr_metadata j) audit of
             (r, audit) \<Rightarrow> (r, j\<lparr>jr_audit := Some audit\<rparr>)))"

section \<open>Before admission\<close>

definition journal_admit ::
  "journal_env \<Rightarrow> bool \<Rightarrow> bool \<Rightarrow> string \<Rightarrow> nat \<Rightarrow> execution_journal \<Rightarrow> unit rs_result \<times> execution_journal" where
  "journal_admit env fs_ok write_ok now command_args j =
     (if jr_admitted j then (Inr (), j)
      else
        (case create_audit_writer fs_ok (jr_session_id j) of
           Inl error \<Rightarrow> (Inl error, j)
         | Inr audit \<Rightarrow>
             let j = j\<lparr>jr_audit_path := aw_relative_path audit,
                       jr_binding := json_set (jr_binding j) ''audit_path'' (JStr (aw_relative_path audit)),
                       jr_sequence := 1\<rparr>;
                 requested = envelope now
                   (json_object [(''type'', JStr ''execution.requested''), (''decision'', JStr ''requested''),
                      (''command_args'', json_nat command_args)]) j in
             (case write_audit_event_with_metadata (je_parse env) write_ok
                     (audit_stream_event_metadata requested) (jr_metadata j) audit of
                (Inl error, _) \<Rightarrow> (Inl error, j\<lparr>jr_durable_record_missing := True\<rparr>)
              | (Inr _, audit) \<Rightarrow>
                  (Inr (), j\<lparr>jr_audit := Some audit, jr_prepared_requested := Some requested, jr_admitted := True\<rparr>))))"

definition write_pre_admission_event ::
  "journal_env \<Rightarrow> bool \<Rightarrow> bool \<Rightarrow> string \<Rightarrow> json \<Rightarrow> execution_journal \<Rightarrow> audit_writer rs_result" where
  "write_pre_admission_event env fs_ok write_ok now payload j =
     rbind (create_audit_writer fs_ok (jr_session_id j)) (\<lambda>audit.
       let event = value_extend
             (json_object [(''policy_id'', json_index (jr_binding j) ''policy_id''),
                (''policy_hash'', json_index (jr_binding j) ''policy_hash''),
                (''backend'', json_index (jr_binding j) ''backend''),
                (''audit_path'', JStr (aw_relative_path audit)), (''time'', JStr now)]) payload in
       case write_audit_event_with_metadata (je_parse env) write_ok
              (audit_stream_event_metadata event) (jr_metadata j) audit of
         (r, audit) \<Rightarrow> rbind r (\<lambda>_. Inr audit))"

definition journal_reject ::
  "journal_env \<Rightarrow> bool \<Rightarrow> bool \<Rightarrow> string \<Rightarrow> string \<Rightarrow> string \<Rightarrow> execution_journal \<Rightarrow> runseal_error" where
  "journal_reject env fs_ok write_ok now code reason j =
     (let approval = (code = ''APPROVAL_REQUIRED'');
          payload = json_object
            [(''type'', JStr (if approval then ''policy.requires_approval'' else ''policy.denied'')),
             (''decision'', JStr (if approval then ''requires_approval'' else ''denied'')), (''reason'', JStr reason)] in
      case write_pre_admission_event env fs_ok write_ok now payload j of
        Inl error \<Rightarrow> error
      | Inr _ \<Rightarrow> error_with_details code reason
          (json_object [(''audit_path'', JStr (jr_audit_path j)), (''cleanup_complete'', JBool True)]))"

definition audit_pre_admission_failure ::
  "journal_env \<Rightarrow> bool \<Rightarrow> bool \<Rightarrow> string \<Rightarrow> runseal_error \<Rightarrow> json \<Rightarrow> execution_journal \<Rightarrow> runseal_error" where
  "audit_pre_admission_failure env fs_ok write_ok now error payload j =
     (case write_pre_admission_event env fs_ok write_ok now payload j of
        Inl audit_error \<Rightarrow> audit_error
      | Inr _ \<Rightarrow>
          let details = (case err_details error of Some details \<Rightarrow> details | None \<Rightarrow> JObj []) in
          error\<lparr>err_details := Some (case details of
             JObj object \<Rightarrow> JObj (obj_insert ''cleanup_complete'' (JBool True)
                              (obj_insert ''audit_path'' (JStr (jr_audit_path j)) object))
           | _ \<Rightarrow> details)\<rparr>)"

section \<open>Events\<close>

definition notify_requested_if_pending ::
  "observer \<Rightarrow> execution_journal \<Rightarrow> unit rs_result \<times> execution_journal \<times> json list" where
  "notify_requested_if_pending observer j =
     (case jr_prepared_requested j of
        None \<Rightarrow> (Inr (), j, [])
      | Some requested \<Rightarrow> (observer requested, j\<lparr>jr_prepared_requested := None\<rparr>, [requested]))"

definition journal_emit ::
  "journal_env \<Rightarrow> bool \<Rightarrow> string \<Rightarrow> observer \<Rightarrow> json \<Rightarrow> execution_journal \<Rightarrow>
     json rs_result \<times> execution_journal \<times> json list" where
  "journal_emit env write_ok now observer payload j =
     (if \<not> jr_admitted j then (Inl (internal_error ''execution event emitted before admission''), j, [])
      else if json_index payload ''type'' = JStr ''execution.requested'' \<and> jr_prepared_requested j \<noteq> None
      then let requested = the (jr_prepared_requested j) in
        (rbind (observer requested) (\<lambda>_. Inr requested), j\<lparr>jr_prepared_requested := None\<rparr>, [requested])
      else
        let j = j\<lparr>jr_sequence := jr_sequence j + 1\<rparr>;
            event = envelope now payload j;
            j = (if json_index event ''type'' = JStr ''execution.started''
                 then j\<lparr>jr_started_at := Some (json_index event ''time'')\<rparr> else j) in
        (case journal_write env write_ok (audit_stream_event_metadata event) j of
           (Inl err, j) \<Rightarrow>
             (Inl err, if jr_audit j = None then j else j\<lparr>jr_durable_record_missing := True\<rparr>, [])
         | (Inr _, j) \<Rightarrow> (rbind (observer event) (\<lambda>_. Inr event), j, [event])))"

section \<open>The terminal record\<close>

definition outcome_result :: "execution_journal \<Rightarrow> json rs_result \<Rightarrow> json \<times> runseal_error option" where
  "outcome_result j outcome =
     (case outcome of
        Inr result \<Rightarrow> (result, None)
      | Inl err \<Rightarrow>
          let result = (case err_details err of Some details \<Rightarrow> value_extend (jr_binding j) details | None \<Rightarrow> jr_binding j);
              result = json_set result ''status'' (JStr ''failed'');
              result = json_set result ''error''
                (json_object [(''code'', JStr (err_code err)), (''reason'', JStr (err_reason err))]) in
          (result, Some err))"

abbreviation error_code_of :: "json \<Rightarrow> json" where
  "error_code_of v \<equiv> json_index (json_index v ''error'') ''code''"

definition set_default :: "string \<Rightarrow> json \<Rightarrow> json \<Rightarrow> json" where
  "set_default key v result = (if json_get result key = None then json_set result key v else result)"

definition completed_fields :: "execution_journal \<Rightarrow> termination_cause option \<Rightarrow> string \<Rightarrow> json \<Rightarrow> json" where
  "completed_fields j cause now result =
     (let result = json_set result ''termination_reason''
            (JStr (if error_code_of result = JStr ''EXECUTION_CLEANUP_FAILED'' then ''cleanup_failed''
                   else case cause of None \<Rightarrow> ''failed_to_start'' | Some c \<Rightarrow> cause_as_str c));
          result = (if error_code_of result = JStr ''EXECUTION_CLEANUP_FAILED''
                    then json_set result ''requested_termination_reason''
                           (case cause of None \<Rightarrow> JNull | Some c \<Rightarrow> JStr (cause_as_str c))
                    else result);
          result = json_set result ''stderr_merged'' (JBool (jr_pty j));
          result = set_default ''terminal_bytes'' (json_nat 0) result;
          result = json_set result ''finished_at'' (JStr now);
          result = set_default ''started_at''
            (case jr_started_at j of Some t \<Rightarrow> t | None \<Rightarrow> JNull) result in
      fold (\<lambda>(key, v). set_default key v)
        [(''exit_code'', JNull), (''signal'', JNull), (''stdout_bytes'', json_nat 0), (''stderr_bytes'', json_nat 0),
         (''output_truncated'', JBool False)] result)"

text \<open>The last of the defaults is the one that matters: a cleanup nobody reported is not complete.\<close>

definition complete_result :: "execution_journal \<Rightarrow> termination_cause option \<Rightarrow> string \<Rightarrow> json \<Rightarrow> json" where
  "complete_result j cause now result =
     (let result = set_default ''cleanup_complete'' (JBool False) (completed_fields j cause now result) in
      if error_code_of result = JStr ''OUTPUT_LIMIT_EXCEEDED''
      then json_set result ''output_truncated'' (JBool True) else result)"

definition without_output :: "json \<Rightarrow> json" where
  "without_output v = (case v of JObj object \<Rightarrow> JObj (obj_remove ''stderr'' (obj_remove ''stdout'' object)) | _ \<Rightarrow> v)"

definition copy_key :: "string \<Rightarrow> json \<Rightarrow> json \<Rightarrow> json" where
  "copy_key key from to = (case json_get from key of Some v \<Rightarrow> json_set to key v | None \<Rightarrow> to)"

definition terminal_event :: "string \<Rightarrow> json \<Rightarrow> execution_journal \<Rightarrow> json" where
  "terminal_event now summary j =
     (let terminal = envelope now
            (json_object [(''type'', JStr (if json_index summary ''status'' = JStr ''finished''
                                          then ''execution.finished'' else ''execution.failed'')),
                          (''result'', summary)]) j;
          terminal = copy_key ''error'' summary terminal in
      copy_key ''setup_status'' summary terminal)"

definition terminal_earliest :: "json \<Rightarrow> execution_journal \<Rightarrow> 64 word" where
  "terminal_earliest terminal j =
     (case jr_terminal_range j of
        None \<Rightarrow> jr_sequence j + 1
      | Some sample \<Rightarrow>
          (case sample (json_set terminal ''result''
                  (json_set (json_index terminal ''result'') ''earliest_available_seq'' (json_nat 0))) of
             Inr earliest \<Rightarrow> earliest
           | Inl _ \<Rightarrow> jr_sequence j + 1))"

text \<open>The result, its summary without output, and the event that carries it.\<close>

definition terminal_record ::
  "termination_cause option \<Rightarrow> string \<Rightarrow> string \<Rightarrow> json \<Rightarrow> execution_journal \<Rightarrow> json \<times> json \<times> json" where
  "terminal_record cause finished_at now result j =
     (let result = complete_result j cause finished_at result;
          result = json_set result ''latest_seq'' (json_u64 (jr_sequence j));
          summary = without_output result;
          summary = json_set summary ''durable_record_missing'' (JBool (jr_durable_record_missing j));
          terminal = terminal_event now summary j;
          earliest = terminal_earliest terminal j;
          summary = json_set summary ''earliest_available_seq'' (json_u64 earliest);
          result = json_set result ''earliest_available_seq'' (json_u64 earliest);
          terminal = json_set terminal ''result'' summary in
      (result, summary, terminal))"

text \<open>The terminal record that is delivered when the durable one could not be written.\<close>

definition unwritten_terminal ::
  "runseal_error \<Rightarrow> json \<Rightarrow> runseal_error option \<Rightarrow> json \<Rightarrow> json \<times> runseal_error option \<times> json" where
  "unwritten_terminal audit_error summary error terminal =
     (let summary = json_set summary ''durable_record_missing'' (JBool True);
          summary = json_set summary ''status'' (JStr ''failed'');
          (summary, error) =
            (if error_code_of summary \<noteq> JStr ''EXECUTION_CLEANUP_FAILED''
             then (json_set summary ''error''
                     (json_object [(''code'', JStr (err_code audit_error)), (''reason'', JStr (err_reason audit_error))]),
                   Some audit_error)
             else (summary, error));
          terminal = json_set terminal ''type'' (JStr ''execution.failed'');
          terminal = json_set terminal ''result'' summary;
          terminal = json_set terminal ''error'' (json_index summary ''error'') in
      (summary, error, terminal))"

text \<open>What is returned: an error, of the execution or of the observer, carries the terminal record.\<close>

definition finish_value ::
  "observer \<Rightarrow> runseal_error option \<Rightarrow> json \<Rightarrow> json \<Rightarrow> json \<Rightarrow> (json list \<times> json) rs_result" where
  "finish_value observer error summary terminal result =
     (let failed = (\<lambda>err. Inl (err\<lparr>err_details := Some summary, err_terminal_event := Some terminal\<rparr>)) in
      case error of
        Some err \<Rightarrow> failed err
      | None \<Rightarrow> (case observer terminal of Inl err \<Rightarrow> failed err | Inr _ \<Rightarrow> Inr ([terminal], result)))"

definition journal_finish ::
  "journal_env \<Rightarrow> bool \<Rightarrow> string \<Rightarrow> string \<Rightarrow> observer \<Rightarrow> json rs_result \<Rightarrow> execution_control \<Rightarrow>
     execution_journal \<Rightarrow> (json list \<times> json) rs_result \<times> execution_journal \<times> json list" where
  "journal_finish env write_ok finished_at now observer outcome control j =
     (if \<not> jr_admitted j
      then (Inl (case outcome of Inl error \<Rightarrow> error | Inr _ \<Rightarrow> internal_error ''execution completed without admission''),
            j, [])
      else
        let (result, error) = outcome_result j outcome;
            j = j\<lparr>jr_sequence := jr_sequence j + 1\<rparr>;
            (result, summary, terminal) = terminal_record (control_cause control) finished_at now result j;
            (written, j) = journal_write env write_ok terminal j;
            j = (case written of Inr _ \<Rightarrow> j | Inl _ \<Rightarrow> j\<lparr>jr_durable_record_missing := True\<rparr>);
            (summary, error, terminal) =
              (case written of
                 Inr _ \<Rightarrow> (summary, error, terminal)
               | Inl audit_error \<Rightarrow> unwritten_terminal audit_error summary error terminal);
            result = json_set result ''durable_record_missing'' (JBool (jr_durable_record_missing j)) in
        (finish_value observer error summary terminal result, j, [terminal]))"

section \<open>Fields of the records\<close>

lemma json_index_set [simp]:
  "json_index (json_set (JObj m) k x) k' = (if k' = k then x else json_index (JObj m) k')"
  by (simp add: json_index_def)

definition is_object :: "json \<Rightarrow> bool" where
  "is_object v \<longleftrightarrow> (\<exists>m. v = JObj m)"

lemma index_json_set: "is_object v \<Longrightarrow> json_index (json_set v k x) k' = (if k' = k then x else json_index v k')"
  by (auto simp: is_object_def)

lemma is_object_set [simp]: "is_object v \<Longrightarrow> is_object (json_set v k x)"
  by (auto simp: is_object_def json_set_def)

lemma is_object_object [simp]: "is_object (JObj m)" "is_object (json_object kvs)"
  by (simp_all add: is_object_def json_object_def)

lemma is_object_extend [simp]: "is_object v \<Longrightarrow> is_object (value_extend v w)"
  by (auto simp: is_object_def value_extend_def split: json.splits)

lemma is_object_default [simp]: "is_object v \<Longrightarrow> is_object (set_default k x v)"
  by (simp add: set_default_def)

lemma is_object_copy [simp]: "is_object v \<Longrightarrow> is_object (copy_key k w v)"
  by (simp add: copy_key_def split: option.splits)

lemma is_object_envelope [simp]: "is_object (jr_binding j) \<Longrightarrow> is_object (envelope now payload j)"
  by (simp add: envelope_def Let_def)

lemma is_object_without [simp]: "is_object v \<Longrightarrow> is_object (without_output v)"
  by (auto simp: is_object_def without_output_def)

lemma is_object_terminal [simp]: "is_object (jr_binding j) \<Longrightarrow> is_object (terminal_event now summary j)"
  by (simp add: terminal_event_def Let_def)

lemma get_json_set: "is_object v \<Longrightarrow> json_get (json_set v k x) k' = (if k' = k then Some x else json_get v k')"
  by (auto simp: is_object_def)

lemma get_default:
  "is_object v \<Longrightarrow> json_get (set_default k x v) k' = (if k' = k \<and> json_get v k = None then Some x else json_get v k')"
  by (auto simp: set_default_def is_object_def)

lemma index_default:
  "is_object v \<Longrightarrow> json_index (set_default k x v) k' = (if k' = k \<and> json_get v k = None then x else json_index v k')"
  by (auto simp: set_default_def is_object_def)

lemma index_copy: "is_object v \<Longrightarrow> k' \<noteq> k \<Longrightarrow> json_index (copy_key k w v) k' = json_index v k'"
  by (simp add: copy_key_def index_json_set split: option.splits)

lemma index_without: "k \<noteq> ''stdout'' \<Longrightarrow> k \<noteq> ''stderr'' \<Longrightarrow> json_index (without_output v) k = json_index v k"
  by (cases v) (simp_all add: without_output_def json_index_def)

lemma index_extend:
  assumes "wf_map new"
  shows "json_index (value_extend (JObj m) (JObj new)) k =
    (case obj_get new k of Some x \<Rightarrow> x | None \<Rightarrow> json_index (JObj m) k)"
  using map_of_rev_distinct [OF wf_map_distinct [OF assms]]
  by (simp add: value_extend_def json_index_def obj_get_extend)
    (simp add: obj_get_def json_index_def split: option.splits)

lemma index_extend_object:
  "is_object v \<Longrightarrow> json_index (value_extend v (json_object kvs)) k =
     (case map_of (rev kvs) k of Some x \<Rightarrow> x | None \<Rightarrow> json_index v k)"
  by (auto simp: is_object_def json_object_def index_extend split: option.splits)

lemma envelope_seq [simp]:
  "is_object (jr_binding j) \<Longrightarrow> json_index (envelope now payload j) ''event_seq'' = json_u64 (jr_sequence j)"
  by (simp add: envelope_def Let_def index_json_set)

lemma envelope_index:
  "is_object (jr_binding j) \<Longrightarrow> k \<noteq> ''event_seq'' \<Longrightarrow> k \<noteq> ''time'' \<Longrightarrow>
     json_index (envelope now payload j) k = json_index (value_extend (jr_binding j) payload) k"
  by (simp add: envelope_def Let_def index_json_set)

lemma terminal_event_index:
  assumes "is_object (jr_binding j)"
  shows "json_index (terminal_event now summary j) ''event_seq'' = json_u64 (jr_sequence j)"
    "json_index (terminal_event now summary j) ''result'' = summary"
    "json_index (terminal_event now summary j) ''type'' =
       JStr (if json_index summary ''status'' = JStr ''finished'' then ''execution.finished'' else ''execution.failed'')"
    "k \<notin> {''event_seq'', ''result'', ''type'', ''time'', ''error'', ''setup_status''} \<Longrightarrow>
       json_index (terminal_event now summary j) k = json_index (jr_binding j) k"
  using assms by (simp_all add: terminal_event_def Let_def index_copy envelope_index index_extend_object)

definition completed_keys :: "string list" where
  "completed_keys = [''termination_reason'', ''requested_termination_reason'', ''stderr_merged'', ''terminal_bytes'',
     ''finished_at'', ''started_at'', ''exit_code'', ''signal'', ''stdout_bytes'', ''stderr_bytes'', ''output_truncated'']"

text \<open>Steps that write only keys of a set keep every other key.\<close>

definition preserves :: "string set \<Rightarrow> json \<Rightarrow> json \<Rightarrow> bool" where
  "preserves K v w \<longleftrightarrow> is_object w \<and> (\<forall>k. k \<notin> K \<longrightarrow> json_get w k = json_get v k)"

lemma preserves_refl: "is_object v \<Longrightarrow> preserves K v v"
  by (simp add: preserves_def)

lemma preserves_set: "preserves K v w \<Longrightarrow> k \<in> K \<Longrightarrow> preserves K v (json_set w k x)"
  by (auto simp: preserves_def get_json_set)

lemma preserves_default: "preserves K v w \<Longrightarrow> k \<in> K \<Longrightarrow> preserves K v (set_default k x w)"
  by (simp add: set_default_def preserves_set)

lemma preserves_if: "preserves K v a \<Longrightarrow> preserves K v b \<Longrightarrow> preserves K v (if c then a else b)"
  by simp

lemma completed_fields_preserve:
  assumes "is_object r"
  shows "preserves (set completed_keys) r (completed_fields j cause now r)"
proof -
  have keys: "k \<in> set completed_keys" if "k \<in> {''termination_reason'', ''requested_termination_reason'',
      ''stderr_merged'', ''terminal_bytes'', ''finished_at'', ''started_at'', ''exit_code'', ''signal'',
      ''stdout_bytes'', ''stderr_bytes'', ''output_truncated''}" for k
    using that by (simp add: completed_keys_def)
  show ?thesis
    unfolding completed_fields_def Let_def fold.simps comp_def prod.case id_apply
    by (intro preserves_set preserves_default preserves_if preserves_refl assms keys) simp_all
qed

lemma is_object_complete [simp]: "is_object r \<Longrightarrow> is_object (complete_result j cause now r)"
  using completed_fields_preserve [of r j cause now] by (simp add: complete_result_def Let_def preserves_def)

lemma complete_result_index:
  assumes "is_object r" "k \<notin> set completed_keys"
  shows "json_index (complete_result j cause now r) k =
    (if k = ''cleanup_complete'' \<and> json_get r k = None then JBool False else json_index r k)"
proof -
  let ?f = "completed_fields j cause now r"
  have get: "json_get ?f k = json_get r k" and obj: "is_object ?f"
    using completed_fields_preserve [OF assms(1), of j cause now] assms(2) by (simp_all add: preserves_def)
  then have index: "json_index ?f k = json_index r k" by (simp add: json_index_def)
  have "k \<noteq> ''output_truncated''" using assms(2) by (auto simp: completed_keys_def)
  then have "json_index (complete_result j cause now r) k =
      json_index (set_default ''cleanup_complete'' (JBool False) ?f) k"
    using obj by (simp add: complete_result_def Let_def index_json_set)
  also have "\<dots> = (if k = ''cleanup_complete'' \<and> json_get r k = None then JBool False else json_index r k)"
    using obj get index by (cases "k = ''cleanup_complete''") (simp_all add: index_default)
  finally show ?thesis .
qed

lemma terminal_record_fields:
  assumes "is_object (jr_binding j)" "is_object r"
    and "terminal_record cause finished_at now r j = (result, summary, terminal)"
  shows "is_object result" "is_object summary" "is_object terminal"
    and "k \<notin> set completed_keys \<Longrightarrow> k \<notin> {''latest_seq'', ''earliest_available_seq''} \<Longrightarrow>
      json_index result k = (if k = ''cleanup_complete'' \<and> json_get r k = None then JBool False else json_index r k)"
    and "k \<notin> {''stdout'', ''stderr'', ''durable_record_missing''} \<Longrightarrow> json_index summary k = json_index result k"
    and "json_index summary ''durable_record_missing'' = JBool (jr_durable_record_missing j)"
    and "json_index result ''latest_seq'' = json_u64 (jr_sequence j)"
    and "json_index terminal ''result'' = summary" "json_index terminal ''event_seq'' = json_u64 (jr_sequence j)"
    and "json_index terminal ''type'' =
      JStr (if json_index summary ''status'' = JStr ''finished'' then ''execution.finished'' else ''execution.failed'')"
    and "k \<notin> {''event_seq'', ''result'', ''type'', ''time'', ''error'', ''setup_status''} \<Longrightarrow>
      json_index terminal k = json_index (jr_binding j) k"
proof -
  define c where "c = complete_result j cause finished_at r"
  define s0 where "s0 = json_set (without_output (json_set c ''latest_seq'' (json_u64 (jr_sequence j))))
    ''durable_record_missing'' (JBool (jr_durable_record_missing j))"
  have c: "is_object c" using assms(2) by (simp add: c_def)
  have s0: "is_object s0" using c by (simp add: s0_def)
  define e where "e = json_u64 (terminal_earliest (terminal_event now s0 j) j)"
  have result: "result = json_set (json_set c ''latest_seq'' (json_u64 (jr_sequence j))) ''earliest_available_seq'' e"
    and summary: "summary = json_set s0 ''earliest_available_seq'' e"
    and terminal: "terminal = json_set (terminal_event now s0 j) ''result'' summary"
    using assms(3) by (auto simp: terminal_record_def Let_def c_def s0_def e_def)
  show "is_object result" "is_object summary" "is_object terminal"
    using assms(1) c s0 by (simp_all add: result summary terminal)
  have "k \<notin> {''latest_seq'', ''earliest_available_seq''} \<Longrightarrow> json_index result k = json_index c k"
    using c by (simp add: result index_json_set)
  then show "k \<notin> set completed_keys \<Longrightarrow> k \<notin> {''latest_seq'', ''earliest_available_seq''} \<Longrightarrow>
      json_index result k = (if k = ''cleanup_complete'' \<and> json_get r k = None then JBool False else json_index r k)"
    using complete_result_index [OF assms(2), of k j cause finished_at] unfolding c_def by (rule trans)
  show "k \<notin> {''stdout'', ''stderr'', ''durable_record_missing''} \<Longrightarrow> json_index summary k = json_index result k"
    using c s0 by (simp add: result summary index_json_set) (simp add: s0_def index_json_set index_without)
  show "json_index summary ''durable_record_missing'' = JBool (jr_durable_record_missing j)"
    using c s0 by (simp add: summary index_json_set) (simp add: s0_def index_json_set)
  show "json_index result ''latest_seq'' = json_u64 (jr_sequence j)"
    using c by (simp add: result index_json_set)
  have type: "json_index summary ''status'' = json_index s0 ''status''"
    using s0 by (simp add: summary index_json_set)
  show "json_index terminal ''result'' = summary" "json_index terminal ''event_seq'' = json_u64 (jr_sequence j)"
    "json_index terminal ''type'' =
      JStr (if json_index summary ''status'' = JStr ''finished'' then ''execution.finished'' else ''execution.failed'')"
    "k \<notin> {''event_seq'', ''result'', ''type'', ''time'', ''error'', ''setup_status''} \<Longrightarrow>
      json_index terminal k = json_index (jr_binding j) k"
    using assms(1) by (simp_all add: terminal type index_json_set terminal_event_index)
qed

section \<open>What finishing returns\<close>

text \<open>The line a terminal event becomes in the audit file.\<close>

definition audit_line :: "journal_env \<Rightarrow> execution_journal \<Rightarrow> json \<Rightarrow> json" where
  "audit_line env j event =
     (case (jr_metadata j, event) of
        (Some metadata, JObj object) \<Rightarrow> JObj (obj_insert ''metadata'' (redact_audit_value (je_parse env) metadata) object)
      | _ \<Rightarrow> event)"

lemma journal_write_cases:
  assumes "jr_audit j = Some audit"
  shows "journal_write env True event j = (Inr (), j\<lparr>jr_audit := Some (audit\<lparr>aw_lines := aw_lines audit @ [audit_line env j event]\<rparr>)\<rparr>)"
    "\<exists>err. journal_write env False event j = (Inl err, j) \<and> err_code err = ''INTERNAL_ERROR'' \<and> err_terminal_event err = None"
  using assms
  by (simp_all add: journal_write_def write_audit_event_with_metadata_def write_audit_event_def audit_line_def
      error_with_details_def split: option.splits json.splits)

lemma unwritten_terminal_fields:
  assumes "is_object summary" "is_object terminal"
    and "unwritten_terminal err summary error terminal = (summary', error', terminal')"
  shows "json_index terminal' ''result'' = summary'" "json_index terminal' ''type'' = JStr ''execution.failed''"
    "json_index summary' ''status'' = JStr ''failed''" "json_index summary' ''durable_record_missing'' = JBool True"
    "k \<notin> {''result'', ''type'', ''error''} \<Longrightarrow> json_index terminal' k = json_index terminal k"
    "k \<notin> {''status'', ''durable_record_missing'', ''error''} \<Longrightarrow> json_index summary' k = json_index summary k"
    "error' \<noteq> None \<or> error_code_of summary = JStr ''EXECUTION_CLEANUP_FAILED''"
  using assms by (auto simp: unwritten_terminal_def Let_def index_json_set split: if_splits)

lemma journal_finish_cases:
  assumes "jr_admitted j" "jr_audit j = Some audit" "outcome_result j outcome = (r, error)"
    and "terminal_record (control_cause control) finished_at now r (j\<lparr>jr_sequence := jr_sequence j + 1\<rparr>) =
      (result, summary, terminal)"
    and "journal_finish env write_ok finished_at now observer outcome control j = (returned, j', delivered)"
  shows "if write_ok then
      delivered = [terminal] \<and> jr_durable_record_missing j' = jr_durable_record_missing j \<and>
      jr_audit j' = Some (audit\<lparr>aw_lines := aw_lines audit @ [audit_line env j terminal]\<rparr>) \<and>
      returned = finish_value observer error summary terminal
        (json_set result ''durable_record_missing'' (JBool (jr_durable_record_missing j)))
    else \<exists>audit_error summary' error' terminal'.
      unwritten_terminal audit_error summary error terminal = (summary', error', terminal') \<and>
      delivered = [terminal'] \<and> jr_durable_record_missing j' \<and> jr_audit j' = Some audit \<and>
      returned = finish_value observer error' summary' terminal'
        (json_set result ''durable_record_missing'' (JBool True))"
proof (cases write_ok)
  case True
  with assms(1,3,4,5) journal_write_cases(1) [of "j\<lparr>jr_sequence := jr_sequence j + 1\<rparr>" audit env terminal] assms(2)
  show ?thesis by (auto simp: journal_finish_def audit_line_def Let_def)
next
  case False
  obtain err where w: "journal_write env False terminal (j\<lparr>jr_sequence := jr_sequence j + 1\<rparr>) =
      (Inl err, j\<lparr>jr_sequence := jr_sequence j + 1\<rparr>)"
    using journal_write_cases(2) [of "j\<lparr>jr_sequence := jr_sequence j + 1\<rparr>" audit env terminal] assms(2) by auto
  obtain summary' error' terminal' where u: "unwritten_terminal err summary error terminal = (summary', error', terminal')"
    by (metis prod_cases3)
  have "returned = finish_value observer error' summary' terminal'
        (json_set result ''durable_record_missing'' (JBool True))" "delivered = [terminal']"
      "jr_durable_record_missing j'" "jr_audit j' = Some audit"
    using assms(1,2,3,4,5) w u False by (auto simp: journal_finish_def Let_def)
  with u False show ?thesis by auto
qed

section \<open>Events are written ahead\<close>

text \<open>A history of the journal up to its terminal record, with the events observed so far.\<close>

datatype journal_op =
    AdmitOp bool bool string nat | NotifyOp observer | EmitOp bool string observer json

fun journal_step :: "journal_env \<Rightarrow> execution_journal \<times> json list \<Rightarrow> journal_op \<Rightarrow> execution_journal \<times> json list" where
  "journal_step env (j, seen) (AdmitOp fs_ok write_ok now n) = (snd (journal_admit env fs_ok write_ok now n j), seen)"
| "journal_step env (j, seen) (NotifyOp observer) =
     (case notify_requested_if_pending observer j of (_, j, events) \<Rightarrow> (j, seen @ events))"
| "journal_step env (j, seen) (EmitOp write_ok now observer payload) =
     (case journal_emit env write_ok now observer payload j of (_, j, events) \<Rightarrow> (j, seen @ events))"

definition seq_of :: "json \<Rightarrow> 64 word option" where
  "seq_of v = as_u64 (json_index v ''event_seq'')"

abbreviation event_line :: "journal_env \<Rightarrow> execution_journal \<Rightarrow> json \<Rightarrow> json" where
  "event_line env j event \<equiv> audit_line env j (audit_stream_event_metadata event)"

lemma seq_of_line: "is_object event \<Longrightarrow> seq_of (event_line env j event) = seq_of event"
  by (auto simp: seq_of_def audit_line_def audit_stream_event_metadata_def is_object_def json_index_def
      split: option.splits)

definition numbers :: "json list \<Rightarrow> nat list \<Rightarrow> bool" where
  "numbers lines ns \<longleftrightarrow> map seq_of lines = map (\<lambda>n. Some (of_nat n)) ns \<and> sorted_wrt (<) ns"

definition lines_ok :: "journal_env \<Rightarrow> execution_journal \<Rightarrow> json list \<Rightarrow> json list \<Rightarrow> bool" where
  "lines_ok env j seen lines \<longleftrightarrow>
     (\<exists>ns. numbers lines ns \<and> set ns \<subseteq> {1..unat (jr_sequence j)} \<and>
        (\<not> jr_durable_record_missing j \<longrightarrow> ns = [1..<Suc (unat (jr_sequence j))])) \<and>
     (\<forall>e \<in> set seen \<union> set_option (jr_prepared_requested j). event_line env j e \<in> set lines)"

definition journal_inv :: "journal_env \<Rightarrow> nat \<Rightarrow> execution_journal \<times> json list \<Rightarrow> bool" where
  "journal_inv env k s \<longleftrightarrow> (case s of (j, seen) \<Rightarrow>
     is_object (jr_binding j) \<and> unat (jr_sequence j) \<le> k \<and>
     (case jr_audit j of
        None \<Rightarrow> \<not> jr_admitted j \<and> seen = [] \<and> jr_prepared_requested j = None
      | Some audit \<Rightarrow> jr_admitted j \<and> lines_ok env j seen (aw_lines audit)))"

lemma journal_inv_prepare: "journal_inv env 0 (journal_prepare env request, [])"
  by (simp add: journal_inv_def journal_prepare_def Let_def)

lemma journal_inv_admit:
  assumes "journal_inv env k (j, seen)"
  shows "journal_inv env (Suc k) (snd (journal_admit env fs_ok write_ok now n j), seen)"
proof (cases "jr_admitted j")
  case True
  with assms show ?thesis by (auto simp: journal_inv_def journal_admit_def split: option.splits)
next
  case False
  then have none: "jr_audit j = None" "seen = []" "jr_prepared_requested j = None" "is_object (jr_binding j)"
    "unat (jr_sequence j) \<le> k"
    using assms by (auto simp: journal_inv_def split: option.splits)
  show ?thesis
  proof (cases "create_audit_writer fs_ok (jr_session_id j)")
    case (Inl err)
    with False none show ?thesis by (simp add: journal_inv_def journal_admit_def)
  next
    case (Inr audit)
    then have lines: "aw_lines audit = []"
      by (auto simp: create_audit_writer_def audit_create_def ok_or_def split: option.splits if_splits)
    define j1 where "j1 = j\<lparr>jr_audit_path := aw_relative_path audit,
        jr_binding := json_set (jr_binding j) ''audit_path'' (JStr (aw_relative_path audit)), jr_sequence := 1\<rparr>"
    define requested where "requested = envelope now (json_object [(''type'', JStr ''execution.requested''),
        (''decision'', JStr ''requested''), (''command_args'', json_nat n)]) j1"
    have obj: "is_object (jr_binding j1)" using none by (simp add: j1_def)
    have seq: "seq_of (event_line env j1 requested) = Some 1"
      using obj by (simp add: seq_of_line requested_def) (simp add: seq_of_def j1_def json_u64_def)
    have "numbers [event_line env j1 requested] [1]" using seq by (simp add: numbers_def)
    then have ok: "lines_ok env (j1\<lparr>jr_audit := a, jr_prepared_requested := Some requested, jr_admitted := True\<rparr>) []
        [event_line env j1 requested]" for a
      unfolding lines_ok_def audit_line_def by (auto simp: j1_def)
    show ?thesis
      using False none Inr ok obj lines
      by (cases write_ok)
        (auto simp: journal_inv_def journal_admit_def write_audit_event_with_metadata_def write_audit_event_def
          j1_def requested_def audit_line_def Let_def split: option.splits json.splits)
  qed
qed

lemma journal_inv_requested:
  assumes "journal_inv env k (j, seen)" "jr_prepared_requested j = Some requested"
  shows "journal_inv env (Suc k) (j\<lparr>jr_prepared_requested := None\<rparr>, seen @ [requested])"
  using assms by (auto simp: journal_inv_def lines_ok_def audit_line_def split: option.splits)

lemma journal_inv_notify:
  assumes "journal_inv env k (j, seen)"
  shows "journal_inv env (Suc k) (journal_step env (j, seen) (NotifyOp observer))"
proof (cases "jr_prepared_requested j")
  case None
  with assms show ?thesis by (auto simp: notify_requested_if_pending_def journal_inv_def split: option.splits)
next
  case (Some requested)
  with journal_inv_requested [OF assms] show ?thesis by (simp add: notify_requested_if_pending_def)
qed

lemma unat_Suc:
  fixes n :: "64 word"
  assumes "unat n \<le> k" "Suc k < 2 ^ 64"
  shows "unat (n + 1) = Suc (unat n)"
  using assms by (simp add: unat_word_ariths)

text \<open>A new number at the end.\<close>

lemma lines_ok_snoc:
  assumes "lines_ok env j seen lines" "unat (jr_sequence j') = Suc (unat (jr_sequence j))"
    and "jr_metadata j' = jr_metadata j" "jr_prepared_requested j' = jr_prepared_requested j"
  shows "seq_of line = Some (jr_sequence j') \<Longrightarrow> jr_durable_record_missing j' = jr_durable_record_missing j \<Longrightarrow>
      event_line env j event = line \<Longrightarrow> lines_ok env j' (seen @ [event]) (lines @ [line])"
    "jr_durable_record_missing j' \<Longrightarrow> lines_ok env j' seen lines"
proof -
  have line: "audit_line env j' = audit_line env j" using assms(3) by (simp add: audit_line_def fun_eq_iff)
  obtain ns where ns: "numbers lines ns" "set ns \<subseteq> {1..unat (jr_sequence j)}"
    "\<not> jr_durable_record_missing j \<longrightarrow> ns = [1..<Suc (unat (jr_sequence j))]"
    using assms(1) by (auto simp: lines_ok_def)
  show "jr_durable_record_missing j' \<Longrightarrow> lines_ok env j' seen lines"
    using assms ns line by (auto simp: lines_ok_def intro!: exI [of _ ns])
  assume "seq_of line = Some (jr_sequence j')" and missing: "jr_durable_record_missing j' = jr_durable_record_missing j"
    and event: "event_line env j event = line"
  moreover have "jr_sequence j' = of_nat (Suc (unat (jr_sequence j)))"
    by (simp flip: assms(2))
  ultimately have "numbers (lines @ [line]) (ns @ [Suc (unat (jr_sequence j))])"
    using ns(1,2) by (fastforce simp: numbers_def sorted_wrt_append)
  moreover have "set (ns @ [Suc (unat (jr_sequence j))]) \<subseteq> {1..unat (jr_sequence j')}"
    using ns(2) assms(2) by auto
  moreover have "\<not> jr_durable_record_missing j' \<longrightarrow> ns @ [Suc (unat (jr_sequence j))] = [1..<Suc (unat (jr_sequence j'))]"
    using ns(3) missing assms(2) by simp
  moreover have "\<forall>e \<in> set (seen @ [event]) \<union> set_option (jr_prepared_requested j').
      event_line env j' e \<in> set (lines @ [line])"
    using assms(1,4) event line unfolding lines_ok_def by auto
  ultimately show "lines_ok env j' (seen @ [event]) (lines @ [line])"
    unfolding lines_ok_def by blast
qed

lemma journal_inv_emit:
  assumes "journal_inv env k (j, seen)" "Suc k < 2 ^ 64"
  shows "journal_inv env (Suc k) (journal_step env (j, seen) (EmitOp write_ok now observer payload))"
proof (cases "jr_admitted j")
  case False
  with assms show ?thesis by (auto simp: journal_emit_def journal_inv_def split: option.splits)
next
  case True
  show ?thesis
  proof (cases "json_index payload ''type'' = JStr ''execution.requested'' \<and> jr_prepared_requested j \<noteq> None")
    case requested: True
    then obtain requested where "jr_prepared_requested j = Some requested" by blast
    with requested True journal_inv_requested [OF assms(1)] show ?thesis by (simp add: journal_emit_def Let_def)
  next
    case requested: False
    obtain audit where audit: "jr_audit j = Some audit" and lines: "lines_ok env j seen (aw_lines audit)"
      and obj: "is_object (jr_binding j)" and k: "unat (jr_sequence j) \<le> k"
      using assms True by (auto simp: journal_inv_def split: option.splits)
    note seq = unat_Suc [OF k assms(2)]
    define j1 where "j1 = j\<lparr>jr_sequence := jr_sequence j + 1\<rparr>"
    define event where "event = envelope now payload j1"
    define j2 where "j2 = (if json_index event ''type'' = JStr ''execution.started''
        then j1\<lparr>jr_started_at := Some (json_index event ''time'')\<rparr> else j1)"
    have j2: "jr_audit j2 = Some audit" "jr_sequence j2 = jr_sequence j + 1" "jr_metadata j2 = jr_metadata j"
      "jr_prepared_requested j2 = jr_prepared_requested j" "jr_durable_record_missing j2 = jr_durable_record_missing j"
      "is_object (jr_binding j2)" "jr_admitted j2"
      using audit obj True by (simp_all add: j2_def j1_def)
    have line: "event_line env j event = event_line env j2 event" using j2(3) by (simp add: audit_line_def)
    have number: "seq_of (event_line env j2 event) = Some (jr_sequence j + 1)"
      using obj by (simp add: seq_of_line event_def j1_def) (simp add: seq_of_def json_u64_def)
    have emit: "journal_emit env write_ok now observer payload j =
        (case journal_write env write_ok (audit_stream_event_metadata event) j2 of
           (Inl err, j) \<Rightarrow> (Inl err, if jr_audit j = None then j else j\<lparr>jr_durable_record_missing := True\<rparr>, [])
         | (Inr _, j) \<Rightarrow> (rbind (observer event) (\<lambda>_. Inr event), j, [event]))"
    proof -
      have pending: "(json_index payload ''type'' = JStr ''execution.requested'' \<and> jr_prepared_requested j \<noteq> None) = False"
        using requested by blast
      show ?thesis
        unfolding journal_emit_def Let_def j2_def event_def j1_def pending if_False by (simp only: True not_True_eq_False if_False)
    qed
    show ?thesis
    proof (cases write_ok)
      case written: True
      have "lines_ok env (j2\<lparr>jr_audit := a\<rparr>) (seen @ [event]) (aw_lines audit @ [event_line env j2 event])" for a
        by (rule lines_ok_snoc(1) [OF lines]) (simp_all add: j2 seq number line)
      with j2 seq k journal_write_cases(1) [OF j2(1), of env "audit_stream_event_metadata event"]
      show ?thesis using emit written by (simp add: journal_inv_def)
    next
      case False
      obtain err where w: "journal_write env False (audit_stream_event_metadata event) j2 = (Inl err, j2)"
        using journal_write_cases(2) [OF j2(1)] by blast
      have "lines_ok env (j2\<lparr>jr_durable_record_missing := True\<rparr>) seen (aw_lines audit)"
        by (rule lines_ok_snoc(2) [OF lines]) (simp_all add: j2 seq)
      with False w j2 seq k emit show ?thesis by (simp add: journal_inv_def)
    qed
  qed
qed

lemma journal_inv_run:
  "length ops < 2 ^ 64 \<Longrightarrow>
     journal_inv env (length ops) (run_ops (journal_step env) (journal_prepare env request, []) ops)"
proof (induction ops rule: rev_induct)
  case Nil
  then show ?case by (simp add: journal_inv_prepare)
next
  case (snoc op ops)
  then have inv: "journal_inv env (length ops) (run_ops (journal_step env) (journal_prepare env request, []) ops)" by simp
  obtain j seen where "run_ops (journal_step env) (journal_prepare env request, []) ops = (j, seen)" by (metis prod.exhaust)
  with inv snoc.prems journal_inv_emit journal_inv_notify journal_inv_admit show ?case
    by (cases op) simp_all
qed

text \<open>
  C15: The journal writes ahead and numbers without repetition. In every history of a journal before
  its terminal record, whichever writes fail and whatever the observer answers, the lines of the audit
  file carry strictly increasing sequence numbers up to the current one, every number from 1 to the
  current one unless a missing record was noted, and every event the observer has seen has its line,
  with the redacted metadata, in the file. Nothing is observed before admission.
\<close>

theorem journal_is_write_ahead:
  assumes "run_ops (journal_step env) (journal_prepare env request, []) ops = (j, seen)" "length ops < 2 ^ 64"
  shows "case jr_audit j of
      None \<Rightarrow> \<not> jr_admitted j \<and> seen = []
    | Some audit \<Rightarrow>
        (\<exists>ns. map seq_of (aw_lines audit) = map (\<lambda>n. Some (of_nat n)) ns \<and> sorted_wrt (<) ns \<and>
           set ns \<subseteq> {1..unat (jr_sequence j)} \<and>
           (jr_durable_record_missing j \<or> ns = [1..<Suc (unat (jr_sequence j))])) \<and>
        (\<forall>event \<in> set seen. event_line env j event \<in> set (aw_lines audit))"
  using journal_inv_run [OF assms(2), of env request] assms(1)
  by (auto simp: journal_inv_def lines_ok_def numbers_def split: option.splits)

section \<open>A sample journal\<close>

definition sample_journal_env :: journal_env where
  "sample_journal_env = \<lparr>je_parse = (\<lambda>_. None), je_version = ''1'', je_backend = JNull, je_hash = (\<lambda>_. ''h'')\<rparr>"

definition sample_execution :: execution_request where
  "sample_execution =
     (fst (projr (execution_request_from_params default_limits sample_host (1, 2) 3 sample_request)))
       \<lparr>req_ids := \<lparr>ids_execution_id = ''exec_1'', ids_session_id = ''sess_1'', ids_seal_id = ''seal_1''\<rparr>\<rparr>"

lemma admit_sample:
  "snd (journal_admit sample_journal_env True True ''t'' 1 (journal_prepare sample_journal_env sample_execution)) = j \<Longrightarrow>
     jr_admitted j \<and> (\<exists>audit. jr_audit j = Some audit)"
proof -
  have "validate_audit_session_id ''sess_1''" by code_simp
  then show "snd (journal_admit sample_journal_env True True ''t'' 1 (journal_prepare sample_journal_env sample_execution)) = j \<Longrightarrow>
     jr_admitted j \<and> (\<exists>audit. jr_audit j = Some audit)"
    by (auto simp: journal_admit_def journal_prepare_def sample_execution_def create_audit_writer_def audit_create_def
        write_audit_event_with_metadata_def write_audit_event_def Let_def split: option.splits)
qed

theorem journal_is_write_ahead_witness:
  "let (j, seen) = run_ops (journal_step sample_journal_env) (journal_prepare sample_journal_env sample_execution, [])
         [AdmitOp True True ''t'' 1, NotifyOp (\<lambda>_. Inr ())] in
   \<exists>audit. jr_audit j = Some audit \<and> (\<forall>event \<in> set seen. event_line sample_journal_env j event \<in> set (aw_lines audit))"
proof -
  let ?j = "snd (journal_admit sample_journal_env True True ''t'' 1 (journal_prepare sample_journal_env sample_execution))"
  obtain audit where audit: "jr_audit ?j = Some audit" using admit_sample [OF refl] by blast
  obtain j seen where run: "run_ops (journal_step sample_journal_env) (journal_prepare sample_journal_env sample_execution, [])
      [AdmitOp True True ''t'' 1, NotifyOp (\<lambda>_. Inr ())] = (j, seen)" by (metis prod.exhaust)
  then have "jr_audit j = Some audit"
    using audit by (auto simp: notify_requested_if_pending_def split: option.splits)
  with journal_is_write_ahead [OF run] show ?thesis unfolding run by simp
qed

text \<open>
  C28: The terminal record is honest about itself. Finishing an admitted execution hands exactly one
  event to the observer, with the next sequence number; an error that is returned carries that event.
  If the audit file took it, its last line is that event and the event does not claim a missing record
  that was not noted; if not, the event is a failure that says the durable record is missing. A cleanup
  that the outcome does not report is never reported as complete.
\<close>

theorem terminal_record_is_honest:
  assumes "run_ops (journal_step env) (journal_prepare env request, []) ops = (j, seen)" "length ops < 2 ^ 64"
    and "jr_admitted j" "outcome_result j outcome = (r, error)" "is_object r"
    and "journal_finish env write_ok finished_at now observer outcome control j = (returned, j', delivered)"
  shows "\<exists>terminal audit. delivered = [terminal] \<and> seq_of terminal = Some (jr_sequence j + 1) \<and> jr_audit j = Some audit \<and>
    (case returned of
       Inr (events, result) \<Rightarrow> events = [terminal]
     | Inl err \<Rightarrow> err_terminal_event err = Some terminal \<and> err_details err = Some (json_index terminal ''result'')) \<and>
    (if write_ok
     then jr_audit j' = Some (audit\<lparr>aw_lines := aw_lines audit @ [audit_line env j terminal]\<rparr>) \<and>
       json_index (json_index terminal ''result'') ''durable_record_missing'' = JBool (jr_durable_record_missing j)
     else jr_audit j' = Some audit \<and> json_index terminal ''type'' = JStr ''execution.failed'' \<and>
       json_index (json_index terminal ''result'') ''status'' = JStr ''failed'' \<and>
       json_index (json_index terminal ''result'') ''durable_record_missing'' = JBool True) \<and>
    json_index (json_index terminal ''result'') ''cleanup_complete'' =
      (if json_get r ''cleanup_complete'' = None then JBool False else json_index r ''cleanup_complete'')"
proof -
  obtain audit where audit: "jr_audit j = Some audit" and obj: "is_object (jr_binding j)"
    using journal_inv_run [OF assms(2), of env request] assms(1,3) by (auto simp: journal_inv_def split: option.splits)
  let ?j1 = "j\<lparr>jr_sequence := jr_sequence j + 1\<rparr>"
  obtain result summary terminal where
    rec: "terminal_record (control_cause control) finished_at now r ?j1 = (result, summary, terminal)"
    by (metis prod_cases3)
  have obj1: "is_object (jr_binding ?j1)" using obj by simp
  note fields = terminal_record_fields [OF obj1 assms(5) rec]
  note finish = journal_finish_cases [OF assms(3) audit assms(4) rec assms(6)]
  have cleanup: "json_index summary ''cleanup_complete'' =
      (if json_get r ''cleanup_complete'' = None then JBool False else json_index r ''cleanup_complete'')"
    using fields(4,5) [of "''cleanup_complete''"] by (simp add: completed_keys_def)
  show ?thesis
  proof (cases write_ok)
    case True
    with finish fields(6,8,9) cleanup audit show ?thesis
      by (auto simp: seq_of_def json_u64_def finish_value_def Let_def split: option.splits sum.splits)
  next
    case False
    then obtain audit_error summary' error' terminal' where
      u: "unwritten_terminal audit_error summary error terminal = (summary', error', terminal')"
      and d: "delivered = [terminal']" "jr_audit j' = Some audit"
      and v: "returned = finish_value observer error' summary' terminal' (json_set result ''durable_record_missing'' (JBool True))"
      using finish by auto
    note un = unwritten_terminal_fields [OF fields(2,3) u]
    have "seq_of terminal' = Some (jr_sequence j + 1)"
      using un(5) [of "''event_seq''"] fields(9) by (simp add: seq_of_def json_u64_def)
    moreover have "json_index summary' ''cleanup_complete'' = json_index summary ''cleanup_complete''"
      using un(6) by simp
    ultimately show ?thesis
      using False u d v un(1-4) cleanup audit
      by (auto simp: finish_value_def Let_def split: option.splits sum.splits)
  qed
qed

theorem terminal_record_is_honest_witness:
  "let j = snd (journal_admit sample_journal_env True True ''t'' 1 (journal_prepare sample_journal_env sample_execution));
       delivered = snd (snd (journal_finish sample_journal_env False ''t'' ''t'' (\<lambda>_. Inr ())
         (Inr (JObj [(''status'', JStr ''finished'')])) control_default j)) in
   \<exists>terminal. delivered = [terminal] \<and> json_index terminal ''type'' = JStr ''execution.failed''"
proof -
  let ?j = "snd (journal_admit sample_journal_env True True ''t'' 1 (journal_prepare sample_journal_env sample_execution))"
  have run: "run_ops (journal_step sample_journal_env) (journal_prepare sample_journal_env sample_execution, [])
      [AdmitOp True True ''t'' 1] = (?j, [])" by simp
  have out: "outcome_result ?j (Inr (JObj [(''status'', JStr ''finished'')])) = (JObj [(''status'', JStr ''finished'')], None)"
    by (simp add: outcome_result_def)
  obtain returned j' delivered where fin: "journal_finish sample_journal_env False ''t'' ''t'' (\<lambda>_. Inr ())
      (Inr (JObj [(''status'', JStr ''finished'')])) control_default ?j = (returned, j', delivered)" by (metis prod_cases3)
  from terminal_record_is_honest [OF run _ _ out _ fin] admit_sample [OF refl] show ?thesis
    unfolding Let_def fin by auto
qed

end
