(* ===== verification/Execution_Gate.thy ===== *)
theory Execution_Gate
  imports Json_Values Component_Interfaces
begin

text \<open>
  The execution gate of the Windows backend, \<open>src/backend/policy_epoch.rs\<close> with \<open>ExecutionReservation\<close>
  of \<open>src/backend/mod.rs\<close>: at most one policy at a time runs sandboxed on a machine, across processes,
  and an execution whose cleanup is not verified closes the gate. The world is what the processes of
  one binding share (the state file, the marker of failed cleanups, the quarantine event) and what
  each keeps for itself. What the operating system answers to a call is an argument of the operation;
  an operation that holds the named mutex is one step. A file that holds valid JSON is represented by
  its value.
\<close>

section \<open>The state file\<close>

datatype gate_error = BackendCleanupError | PolicyTransitionBusy | GateIo string

type_synonym 'a gate_result = "(gate_error, 'a) result"

definition cleanup_failed :: "gate_error \<Rightarrow> bool" where
  "cleanup_failed err \<longleftrightarrow> err = BackendCleanupError"

record gate_entry =
  ge_pid :: "32 word"
  ge_creation :: "64 word"
  ge_token :: string
  ge_policy_hash :: string
  ge_roots :: "string list option"

datatype state_file = NoFile | NotRegular | Document "json option"

definition entry_json :: "gate_entry \<Rightarrow> json" where
  "entry_json e = json_object
     [(''pid'', json_u64 (ucast (ge_pid e))), (''process_creation_time'', json_u64 (ge_creation e)),
      (''token'', JStr (ge_token e)), (''policy_hash'', JStr (ge_policy_hash e)),
      (''runtime_roots'', case ge_roots e of None \<Rightarrow> JNull | Some roots \<Rightarrow> json_strs roots)]"

definition state_json :: "gate_entry list \<Rightarrow> json" where
  "state_json es = json_object [(''active'', JArr (map entry_json es))]"

definition u32_try_from :: "64 word \<Rightarrow> 32 word option" where
  "u32_try_from n = (if n < 2 ^ 32 then Some (ucast n) else None)"

definition filter_map :: "('a \<Rightarrow> 'b option) \<Rightarrow> 'a list \<Rightarrow> 'b list" where
  "filter_map f xs = map (the \<circ> f) (filter (\<lambda>x. f x \<noteq> None) xs)"

definition parse_entry :: "json \<Rightarrow> gate_entry gate_result" where
  "parse_entry entry =
     rbind (ok_or (Option.bind (Option.bind (json_get entry ''pid'') as_u64) u32_try_from)
       (GateIo ''execution gate entry pid must be u32'')) (\<lambda>pid.
     rbind (ok_or (Option.bind (json_get entry ''token'') as_str)
       (GateIo ''execution gate entry token must be a string'')) (\<lambda>token.
     rbind (ok_or (Option.bind (json_get entry ''process_creation_time'') as_u64)
       (GateIo ''execution gate entry process_creation_time must be u64'')) (\<lambda>creation.
     rbind (ok_or (Option.bind (json_get entry ''policy_hash'') as_str)
       (GateIo ''execution gate entry policy_hash must be a string'')) (\<lambda>hash.
     Inr \<lparr>ge_pid = pid, ge_creation = creation, ge_token = token, ge_policy_hash = hash,
          ge_roots = map_option (filter_map as_str) (Option.bind (json_get entry ''runtime_roots'') as_array)\<rparr>))))"

definition parse_cross_process_gate_state :: "json option \<Rightarrow> gate_entry list gate_result" where
  "parse_cross_process_gate_state contents =
     rbind (ok_or contents (GateIo ''invalid JSON'')) (\<lambda>value.
     rbind (ok_or (Option.bind (json_get value ''active'') as_array)
       (GateIo ''execution gate state active must be an array'')) (collect parse_entry))"

text \<open>\<open>io\<close> says whether the calls to the file system succeed.\<close>

definition read_cross_process_gate_state :: "bool \<Rightarrow> state_file \<Rightarrow> gate_entry list gate_result" where
  "read_cross_process_gate_state io file =
     (if \<not> io then Inl (GateIo ''gate state unavailable'')
      else case file of
        NoFile \<Rightarrow> Inr []
      | NotRegular \<Rightarrow> Inl BackendCleanupError
      | Document contents \<Rightarrow> parse_cross_process_gate_state contents)"

text \<open>\<open>fs::write\<close> truncates the file first, so a failure leaves it as it was or without a valid document.\<close>

datatype write_outcome = Written | Unwritten | Torn

definition write_cross_process_gate_state ::
  "write_outcome \<Rightarrow> gate_entry list \<Rightarrow> state_file \<Rightarrow> unit gate_result \<times> state_file" where
  "write_cross_process_gate_state outcome es file =
     (case outcome of
        Written \<Rightarrow> (Inr (), Document (Some (state_json es)))
      | Unwritten \<Rightarrow> (Inl (GateIo ''gate state not written''), file)
      | Torn \<Rightarrow> (Inl (GateIo ''gate state not written''), Document None))"

section \<open>Processes and the world\<close>

text \<open>A process is its identifier with its creation time, which distinguishes reused identifiers.\<close>

type_synonym process_id = "32 word \<times> 64 word"

record in_process_state =
  ip_active_key :: "string option"
  ip_active_count :: nat
  ip_contaminated :: bool

record cross_gate =
  cg_owner :: process_id
  cg_token :: string
  cg_policy_hash :: string
  cg_quarantined :: bool
  cg_released :: bool
  cg_cleanup_deadline :: "nat option"

text \<open>
  \<open>gw_retained\<close> are the processes that keep the quarantine event open for their lifetime,
  \<open>gw_gates\<close> the gates held by running processes, \<open>gw_past\<close> every process there has been.
\<close>

record gate_world =
  gw_file :: state_file
  gw_marker :: bool
  gw_signal :: bool
  gw_retained :: "process_id list"
  gw_running :: "process_id list"
  gw_past :: "process_id list"
  gw_in_process :: "process_id \<Rightarrow> in_process_state"
  gw_counter :: "process_id \<Rightarrow> nat"
  gw_gates :: "cross_gate list"

definition in_process_default :: in_process_state where
  "in_process_default = \<lparr>ip_active_key = None, ip_active_count = 0, ip_contaminated = False\<rparr>"

definition gate_world_init :: gate_world where
  "gate_world_init =
     \<lparr>gw_file = NoFile, gw_marker = False, gw_signal = False, gw_retained = [], gw_running = [], gw_past = [],
      gw_in_process = (\<lambda>_. in_process_default), gw_counter = (\<lambda>_. 0), gw_gates = []\<rparr>"

text \<open>
  The answers of the operating system in one operation: \<open>ga_signal k\<close> says that the k-th check of the
  quarantine event fails or sees a signal another process is just setting, \<open>ga_inspect\<close> which processes
  can be inspected.
\<close>

record gate_answers =
  ga_now :: nat
  ga_path :: bool
  ga_event :: bool
  ga_signal :: "nat \<Rightarrow> bool"
  ga_set_event :: bool
  ga_mutex :: bool
  ga_wait :: bool
  ga_read :: bool
  ga_write :: write_outcome
  ga_marker_write :: bool
  ga_creation_time :: bool
  ga_inspect :: "32 word \<Rightarrow> bool"

definition quarantine_check :: "gate_answers \<Rightarrow> nat \<Rightarrow> gate_world \<Rightarrow> unit gate_result" where
  "quarantine_check an k w = reject_if (gw_signal w \<or> ga_signal an k) BackendCleanupError"

definition mutex_acquire_until :: "gate_answers \<Rightarrow> nat \<Rightarrow> unit gate_result" where
  "mutex_acquire_until an deadline =
     rbind (reject_if (\<not> ga_mutex an) (GateIo ''create windows sandbox execution gate mutex failed'')) (\<lambda>_.
     rbind (reject_if (deadline \<le> ga_now an) BackendCleanupError) (\<lambda>_.
     reject_if (\<not> ga_wait an) (GateIo ''wait for windows sandbox execution gate mutex failed'')))"

definition reservation_owner_is_live :: "gate_answers \<Rightarrow> gate_world \<Rightarrow> gate_entry \<Rightarrow> bool gate_result" where
  "reservation_owner_is_live an w e =
     (if \<not> ga_inspect an (ge_pid e) then Inl (GateIo ''execution gate owner status unavailable'')
      else Inr ((ge_pid e, ge_creation e) \<in> set (gw_running w)))"

definition owner_live_or_false :: "gate_answers \<Rightarrow> gate_world \<Rightarrow> gate_entry \<Rightarrow> bool" where
  "owner_live_or_false an w e = (case reservation_owner_is_live an w e of Inr live \<Rightarrow> live | Inl _ \<Rightarrow> False)"

definition cross_process_gate_token :: "process_id \<Rightarrow> nat \<Rightarrow> string" where
  "cross_process_gate_token p sequence = dec (unat (fst p)) @ ''-'' @ dec sequence"

section \<open>Acquiring\<close>

definition set_in_process :: "process_id \<Rightarrow> in_process_state \<Rightarrow> gate_world \<Rightarrow> gate_world" where
  "set_in_process p st w = w\<lparr>gw_in_process := (gw_in_process w)(p := st)\<rparr>"

definition execution_gate_for_key :: "process_id \<Rightarrow> string \<Rightarrow> gate_world \<Rightarrow> unit gate_result \<times> gate_world" where
  "execution_gate_for_key p key w =
     (let st = gw_in_process w p in
      if ip_contaminated st then (Inl BackendCleanupError, w)
      else if ip_active_key st \<noteq> None \<and> ip_active_key st \<noteq> Some key then (Inl PolicyTransitionBusy, w)
      else (Inr (), set_in_process p
              (st\<lparr>ip_active_key := Some (case ip_active_key st of Some k \<Rightarrow> k | None \<Rightarrow> key),
                  ip_active_count := ip_active_count st + 1\<rparr>) w))"

definition in_process_drop :: "process_id \<Rightarrow> gate_world \<Rightarrow> gate_world" where
  "in_process_drop p w =
     (let st = gw_in_process w p;
          st = st\<lparr>ip_active_count := ip_active_count st - 1\<rparr> in
      set_in_process p (if ip_active_count st = 0 then st\<lparr>ip_active_key := None\<rparr> else st) w)"

text \<open>Up to the entry that is added: the checks before it, under the mutex.\<close>

definition admissible ::
  "gate_answers \<Rightarrow> string \<Rightarrow> gate_world \<Rightarrow> gate_entry list gate_result" where
  "admissible an hash w =
     rbind (reject_if (\<not> ga_path an) (GateIo ''gate state path unavailable'')) (\<lambda>_.
     rbind (reject_if (\<not> ga_event an) (GateIo ''execution quarantine signal unavailable'')) (\<lambda>_.
     rbind (quarantine_check an 0 w) (\<lambda>_.
     rbind (mutex_acquire_until an (ga_now an + 1000)) (\<lambda>_.
     rbind (quarantine_check an 1 w) (\<lambda>_.
     rbind (reject_if (gw_marker w) BackendCleanupError) (\<lambda>_.
     rbind (read_cross_process_gate_state (ga_read an) (gw_file w)) (\<lambda>active.
     rbind (reject_if (list_ex (\<lambda>e. \<not> owner_live_or_false an w e) active) BackendCleanupError) (\<lambda>_.
     rbind (reject_if (list_ex (\<lambda>e. ge_policy_hash e \<noteq> hash) active) PolicyTransitionBusy) (\<lambda>_.
     Inr active)))))))))"

definition acquire_with_runtime_roots ::
  "gate_answers \<Rightarrow> process_id \<Rightarrow> string \<Rightarrow> string list option \<Rightarrow> gate_world \<Rightarrow> cross_gate gate_result \<times> gate_world" where
  "acquire_with_runtime_roots an p hash roots w =
     (case admissible an hash w of
        Inl err \<Rightarrow> (Inl err, w)
      | Inr active \<Rightarrow>
          let token = cross_process_gate_token p (gw_counter w p);
              w = w\<lparr>gw_counter := (gw_counter w)(p := gw_counter w p + 1)\<rparr> in
          if \<not> ga_creation_time an then (Inl (GateIo ''process creation time unavailable''), w)
          else
            let entry = \<lparr>ge_pid = fst p, ge_creation = snd p, ge_token = token, ge_policy_hash = hash, ge_roots = roots\<rparr> in
            (case write_cross_process_gate_state (ga_write an) (active @ [entry]) (gw_file w) of
               (Inl err, file) \<Rightarrow> (Inl err, w\<lparr>gw_file := file\<rparr>)
             | (Inr _, file) \<Rightarrow>
                 (Inr \<lparr>cg_owner = p, cg_token = token, cg_policy_hash = hash, cg_quarantined = False,
                       cg_released = False, cg_cleanup_deadline = None\<rparr>, w\<lparr>gw_file := file\<rparr>)))"

text \<open>The gate of an execution: first within the process, then across processes.\<close>

definition execution_gate ::
  "gate_answers \<Rightarrow> process_id \<Rightarrow> string \<Rightarrow> string list \<Rightarrow> gate_world \<Rightarrow> unit gate_result \<times> gate_world" where
  "execution_gate an p hash roots w =
     (case execution_gate_for_key p hash w of
        (Inl err, w) \<Rightarrow> (Inl err, w)
      | (Inr _, w) \<Rightarrow>
          (case acquire_with_runtime_roots an p hash (Some roots) w of
             (Inl err, w) \<Rightarrow> (Inl err, in_process_drop p w)
           | (Inr gate, w) \<Rightarrow> (Inr (), w\<lparr>gw_gates := gw_gates w @ [gate]\<rparr>)))"

section \<open>Releasing\<close>

definition mark_quarantined ::
  "gate_answers \<Rightarrow> cross_gate \<Rightarrow> gate_world \<Rightarrow> unit gate_result \<times> cross_gate \<times> gate_world" where
  "mark_quarantined an gate w =
     (let gate = gate\<lparr>cg_quarantined := True\<rparr>;
          w = w\<lparr>gw_retained := (if cg_owner gate \<in> set (gw_retained w) then gw_retained w
                                 else gw_retained w @ [cg_owner gate])\<rparr> in
      if ga_set_event an then (Inr (), gate, w\<lparr>gw_signal := True\<rparr>)
      else (Inl (GateIo ''SetEvent failed''), gate, w))"

definition mine :: "cross_gate \<Rightarrow> gate_entry \<Rightarrow> bool" where
  "mine gate e \<longleftrightarrow> (ge_pid e, ge_creation e) = cg_owner gate \<and> ge_token e = cg_token gate
     \<and> ge_policy_hash e = cg_policy_hash gate"

definition release_entries :: "gate_answers \<Rightarrow> nat \<Rightarrow> cross_gate \<Rightarrow> gate_world \<Rightarrow> gate_entry list gate_result" where
  "release_entries an deadline gate w =
     rbind (reject_if (cg_quarantined gate) BackendCleanupError) (\<lambda>_.
     rbind (quarantine_check an 0 w) (\<lambda>_.
     rbind (mutex_acquire_until an deadline) (\<lambda>_.
     rbind (quarantine_check an 1 w) (\<lambda>_.
     rbind (reject_if (cg_quarantined gate) BackendCleanupError) (\<lambda>_.
     rbind (read_cross_process_gate_state (ga_read an) (gw_file w)) (\<lambda>active.
     let rest = filter (\<lambda>e. \<not> mine gate e) active in
     rbind (reject_if (length active - length rest \<noteq> 1) BackendCleanupError) (\<lambda>_.
     rbind (quarantine_check an 2 w) (\<lambda>_.
     rbind (reject_if (cg_quarantined gate) BackendCleanupError) (\<lambda>_.
     Inr rest)))))))))"

definition release ::
  "gate_answers \<Rightarrow> nat \<Rightarrow> cross_gate \<Rightarrow> gate_world \<Rightarrow> unit gate_result \<times> cross_gate \<times> gate_world" where
  "release an deadline gate w =
     (if cg_released gate then (Inr (), gate, w)
      else
        let deadline = (case cg_cleanup_deadline gate of None \<Rightarrow> deadline | Some previous \<Rightarrow> min previous deadline);
            gate = gate\<lparr>cg_cleanup_deadline := Some deadline\<rparr>;
            (result, gate, w) =
              (case release_entries an deadline gate w of
                 Inl err \<Rightarrow> (Inl err, gate, w)
               | Inr rest \<Rightarrow>
                   (case write_cross_process_gate_state (ga_write an) rest (gw_file w) of
                      (Inl err, file) \<Rightarrow> (Inl err, gate, w\<lparr>gw_file := file\<rparr>)
                    | (Inr _, file) \<Rightarrow> (Inr (), gate\<lparr>cg_released := True\<rparr>, w\<lparr>gw_file := file\<rparr>))) in
        case result of
          Inr _ \<Rightarrow> (Inr (), gate, w)
        | Inl err \<Rightarrow> (case mark_quarantined an gate w of (_, gate, w) \<Rightarrow> (Inl err, gate, w)))"

definition contaminate :: "process_id \<Rightarrow> gate_world \<Rightarrow> gate_world" where
  "contaminate p w = set_in_process p ((gw_in_process w p)\<lparr>ip_contaminated := True\<rparr>) w"

text \<open>Dropping the gate gives up the place in the process and releases once more if it is not released.\<close>

definition drop_gate :: "gate_answers \<Rightarrow> cross_gate \<Rightarrow> gate_world \<Rightarrow> gate_world" where
  "drop_gate an gate w =
     (let w = in_process_drop (cg_owner gate) w;
          deadline = (case cg_cleanup_deadline gate of None \<Rightarrow> ga_now an + 1000 | Some deadline \<Rightarrow> deadline) in
      snd (snd (release an deadline gate w)))"

definition finish_owned :: "gate_answers \<Rightarrow> cross_gate \<Rightarrow> gate_world \<Rightarrow> unit gate_result \<times> gate_world" where
  "finish_owned an gate w =
     (case release an (ga_now an + 1000) gate w of
        (result, gate, w) \<Rightarrow>
          (result, drop_gate an gate (case result of Inl _ \<Rightarrow> contaminate (cg_owner gate) w | Inr _ \<Rightarrow> w)))"

definition mark_cleanup_failed ::
  "gate_answers \<Rightarrow> cross_gate \<Rightarrow> gate_world \<Rightarrow> unit gate_result \<times> cross_gate \<times> gate_world" where
  "mark_cleanup_failed an gate w =
     (case mark_quarantined an gate w of
        (quarantined, gate, w) \<Rightarrow>
          let result = rbind quarantined (\<lambda>_. rbind (mutex_acquire_until an (ga_now an + 1000)) (\<lambda>_.
                 reject_if (\<not> ga_marker_write an) (GateIo ''cleanup marker not written'')));
              w = (if is_ok result then w\<lparr>gw_marker := True\<rparr> else w) in
          (result, gate, contaminate (cg_owner gate) w))"

section \<open>Reservations\<close>

text \<open>
  \<open>ExecutionReservation::finish\<close> on the i-th gate, which it takes when the cleanup is confirmed; then
  dropping the reservation, which drops a gate that is still there.
\<close>

definition remove_gate :: "nat \<Rightarrow> gate_world \<Rightarrow> gate_world" where
  "remove_gate i w = w\<lparr>gw_gates := take i (gw_gates w) @ drop (Suc i) (gw_gates w)\<rparr>"

definition reservation_finish :: "gate_answers \<Rightarrow> bool \<Rightarrow> nat \<Rightarrow> gate_world \<Rightarrow> unit gate_result \<times> gate_world" where
  "reservation_finish an confirmed i w =
     (let gate = gw_gates w ! i in
      if \<not> confirmed
      then (case mark_cleanup_failed an gate w of
              (_, gate, w) \<Rightarrow> (Inl BackendCleanupError, w\<lparr>gw_gates := (gw_gates w)[i := gate]\<rparr>))
      else finish_owned an gate (remove_gate i w))"

definition reservation_drop :: "gate_answers \<Rightarrow> nat \<Rightarrow> gate_world \<Rightarrow> gate_world" where
  "reservation_drop an i w = drop_gate an (gw_gates w ! i) (remove_gate i w)"


text \<open>
  Cleanup of a setup helper that could not be confirmed, by process \<open>p\<close>: the event, an entry for the
  helper and the marker.
\<close>

definition quarantine_setup_binding ::
  "gate_answers \<Rightarrow> process_id \<Rightarrow> process_id option \<Rightarrow> gate_world \<Rightarrow> unit gate_result \<times> gate_world" where
  "quarantine_setup_binding an p helper w =
     (if \<not> ga_event an then (Inl (GateIo ''execution quarantine signal unavailable''), w)
      else
        let w = w\<lparr>gw_retained := (if p \<in> set (gw_retained w) then gw_retained w else gw_retained w @ [p])\<rparr> in
        if \<not> ga_set_event an then (Inl (GateIo ''SetEvent failed''), w)
        else
          let w = w\<lparr>gw_signal := True\<rparr>;
              (recorded, w) =
                (case helper of
                   None \<Rightarrow> (Inr (), w)
                 | Some (pid, creation) \<Rightarrow>
                     (case rbind (mutex_acquire_until an (ga_now an + 1000)) (\<lambda>_.
                             rbind (reject_if (\<not> ga_path an) (GateIo ''gate state path unavailable'')) (\<lambda>_.
                             read_cross_process_gate_state (ga_read an) (gw_file w))) of
                        Inl err \<Rightarrow> (Inl err, w)
                      | Inr active \<Rightarrow>
                          if list_ex (\<lambda>e. ge_pid e = pid \<and> ge_creation e = creation) active then (Inr (), w)
                          else
                            (case write_cross_process_gate_state (ga_write an)
                                    (active @ [\<lparr>ge_pid = pid, ge_creation = creation,
                                        ge_token = ''setup-helper-'' @ dec (unat pid) @ ''-'' @ dec (unat creation),
                                        ge_policy_hash = ''setup-cleanup-unconfirmed'', ge_roots = Some []\<rparr>]) (gw_file w) of
                               (result, file) \<Rightarrow> (result, w\<lparr>gw_file := file\<rparr>)))) in
          case recorded of
            Inl err \<Rightarrow> (Inl err, w)
          | Inr _ \<Rightarrow>
              if ga_path an \<and> ga_marker_write an then (Inr (), w\<lparr>gw_marker := True\<rparr>)
              else (Inl (GateIo ''cleanup marker not written''), w))"

section \<open>Runtime roots\<close>

text \<open>A directory tree as the file system shows it without following links.\<close>

datatype fs_node = FsFile string | FsLink | FsDir "(string \<times> fs_node) list"

definition RUNTIME_ROOT_MARKER :: string where
  "RUNTIME_ROOT_MARKER = ''.runseal-runtime-root''"

text \<open>The scan of a runtime tree, with the directories still to be read on a stack; \<open>True\<close> is no link.\<close>

fun fs_size :: "fs_node \<Rightarrow> nat" where
  "fs_size (FsDir entries) = Suc (sum_list (map (fs_size \<circ> snd) entries))"
| "fs_size _ = 1"

definition scan_entries :: "(string \<times> fs_node) list \<Rightarrow> (string \<times> fs_node) list list \<Rightarrow> (string \<times> fs_node) list list option" where
  "scan_entries entries stack =
     (if list_ex (\<lambda>entry. snd entry = FsLink) entries then None
      else Some (rev (filter_map (\<lambda>entry. case snd entry of FsDir children \<Rightarrow> Some children | _ \<Rightarrow> None) entries) @ stack))"

lemma sum_list_filter_map_le:
  assumes "\<And>x y. x \<in> set xs \<Longrightarrow> f x = Some y \<Longrightarrow> (g y :: nat) \<le> h x"
  shows "sum_list (map g (filter_map f xs)) \<le> sum_list (map h xs)"
  using assms
proof (induction xs)
  case (Cons x xs)
  then have "sum_list (map g (filter_map f xs)) \<le> sum_list (map h xs)" by simp
  with Cons.prems show ?case by (cases "f x") (auto simp: filter_map_def intro: add_mono)
qed (simp add: filter_map_def)

definition stack_size :: "(string \<times> fs_node) list list \<Rightarrow> nat" where
  "stack_size stack = sum_list (map (fs_size \<circ> FsDir) stack)"

lemma scan_entries_smaller:
  assumes "scan_entries entries stack = Some stack'"
  shows "stack_size stack' < stack_size (entries # stack)"
proof -
  let ?dirs = "filter_map (\<lambda>entry. case snd entry of FsDir children \<Rightarrow> Some children | _ \<Rightarrow> None) entries"
  have "sum_list (map (fs_size \<circ> FsDir) ?dirs) \<le> sum_list (map (fs_size \<circ> snd) entries)"
    by (rule sum_list_filter_map_le) (auto split: fs_node.splits)
  moreover have "stack' = rev ?dirs @ stack" using assms by (simp add: scan_entries_def split: if_splits)
  ultimately show ?thesis by (simp add: stack_size_def rev_map [symmetric] sum_list_rev)
qed

function runtime_tree_has_no_symlinks :: "(string \<times> fs_node) list list \<Rightarrow> bool" where
  "runtime_tree_has_no_symlinks [] = True"
| "runtime_tree_has_no_symlinks (entries # stack) =
     (case scan_entries entries stack of
        None \<Rightarrow> False
      | Some stack' \<Rightarrow> runtime_tree_has_no_symlinks stack')"
  by pat_completeness auto
termination
  by (relation "measure stack_size") (auto dest: scan_entries_smaller)

text \<open>What the path functions and the file system say of one recorded root; \<open>rv_io k\<close> the k-th call.\<close>

record root_view =
  rv_absolute :: bool
  rv_in_runtime :: bool
  rv_name :: "string option"
  rv_exists :: bool
  rv_node :: fs_node
  rv_io :: "nat \<Rightarrow> bool"

definition refused :: "string \<Rightarrow> gate_error" where
  "refused reason = GateIo (''refusing to repair '' @ reason)"

definition root_marker :: "fs_node \<Rightarrow> string option" where
  "root_marker node =
     (case node of
        FsDir entries \<Rightarrow> (case map_of entries RUNTIME_ROOT_MARKER of Some (FsFile text) \<Rightarrow> Some text | _ \<Rightarrow> None)
      | _ \<Rightarrow> None)"

definition remove_recorded_runtime_root :: "root_view \<Rightarrow> bool gate_result" where
  "remove_recorded_runtime_root v =
     rbind (reject_if (\<not> rv_absolute v) (refused ''a runtime root that is not absolute'')) (\<lambda>_.
     rbind (reject_if (\<not> rv_in_runtime v) (refused ''a runtime root outside the workspace runtime directory'')) (\<lambda>_.
     rbind (ok_or (rv_name v) (refused ''a runtime root without a directory name'')) (\<lambda>name.
     if \<not> rv_exists v then Inr False
     else
       rbind (reject_if (\<not> rv_io v 0) (GateIo ''metadata'')) (\<lambda>_.
       rbind (reject_if (rv_node v = FsLink) (refused ''a symlinked runtime root'')) (\<lambda>_.
       rbind (reject_if (\<not> rv_io v 1) (GateIo ''metadata'')) (\<lambda>_.
       rbind (ok_or (root_marker (rv_node v)) (refused ''an unmarked runtime root'')) (\<lambda>marker.
       rbind (reject_if (\<not> rv_io v 2) (GateIo ''read'')) (\<lambda>_.
       rbind (reject_if (marker \<noteq> name) (refused ''a runtime root with a mismatched marker'')) (\<lambda>_.
       rbind (reject_if (\<not> rv_io v 3) (GateIo ''read_dir'')) (\<lambda>_.
       rbind (reject_if (case rv_node v of FsDir entries \<Rightarrow> \<not> runtime_tree_has_no_symlinks [entries] | _ \<Rightarrow> False)
         (refused ''runtime tree with symlink entry'')) (\<lambda>_.
       rbind (reject_if (\<not> rv_io v 4) (GateIo ''remove_dir_all'')) (\<lambda>_.
       Inr True))))))))))))"

section \<open>Repair\<close>

record gate_repair =
  gr_repaired :: bool
  gr_cleared_executions :: nat
  gr_removed_runtime_roots :: nat
  gr_cleared_marker :: bool
  gr_cleared_quarantine :: bool
  gr_unverified_roots :: bool
  gr_uninspectable :: nat

definition gate_repair_default :: gate_repair where
  "gate_repair_default =
     \<lparr>gr_repaired = False, gr_cleared_executions = 0, gr_removed_runtime_roots = 0, gr_cleared_marker = False,
      gr_cleared_quarantine = False, gr_unverified_roots = False, gr_uninspectable = 0\<rparr>"

definition clear_root :: "(string \<Rightarrow> root_view) \<Rightarrow> string \<Rightarrow> gate_repair \<Rightarrow> gate_repair gate_result" where
  "clear_root view root report =
     rbind (remove_recorded_runtime_root (view root)) (\<lambda>removed.
       Inr (if removed then report\<lparr>gr_removed_runtime_roots := gr_removed_runtime_roots report + 1\<rparr> else report))"

definition clear_entry ::
  "(string \<Rightarrow> root_view) \<Rightarrow> bool \<Rightarrow> gate_entry \<Rightarrow> gate_repair \<Rightarrow> gate_repair gate_result" where
  "clear_entry view accept_unverified e report =
     (let report = report\<lparr>gr_cleared_executions := gr_cleared_executions report + 1\<rparr> in
      case ge_roots e of
        Some roots \<Rightarrow> fold_result (clear_root view) roots report
      | None \<Rightarrow> rbind (reject_if (\<not> accept_unverified) BackendCleanupError) (\<lambda>_.
                  Inr (report\<lparr>gr_unverified_roots := True\<rparr>)))"

definition require_dead :: "gate_answers \<Rightarrow> gate_world \<Rightarrow> gate_entry \<Rightarrow> unit gate_result" where
  "require_dead an w e =
     rbind (reservation_owner_is_live an w e) (\<lambda>live. reject_if live BackendCleanupError)"

text \<open>
  The proofs a repair asks for: no live owner, no process of the sandbox identity, roots that are gone.
  \<open>Inr None\<close> is that there is nothing to repair.
\<close>

definition repair_proofs ::
  "gate_answers \<Rightarrow> (32 word list \<times> nat) gate_result \<Rightarrow> (string \<Rightarrow> root_view) \<Rightarrow> bool \<Rightarrow> nat \<Rightarrow> gate_world \<Rightarrow>
     gate_repair option gate_result" where
  "repair_proofs an probe view accept_unverified deadline w =
     rbind (reject_if (\<not> ga_path an) (GateIo ''gate state path unavailable'')) (\<lambda>_.
     rbind (reject_if (\<not> ga_event an) (GateIo ''execution quarantine signal unavailable'')) (\<lambda>_.
     rbind (mutex_acquire_until an deadline) (\<lambda>_.
     rbind (read_cross_process_gate_state (ga_read an) (gw_file w)) (\<lambda>active.
     if active = [] \<and> \<not> gw_marker w \<and> is_ok (quarantine_check an 0 w) then Inr None
     else
       rbind (for_each (require_dead an w) active) (\<lambda>_.
       rbind probe (\<lambda>(running, uninspectable).
       rbind (reject_if (running \<noteq> []) BackendCleanupError) (\<lambda>_.
       let report = gate_repair_default\<lparr>gr_uninspectable := uninspectable\<rparr> in
       rbind (reject_if (0 < uninspectable \<and> \<not> accept_unverified) BackendCleanupError) (\<lambda>_.
       rbind (fold_result (clear_entry view accept_unverified) active report) (\<lambda>report.
       Inr (Some report))))))))))"

text \<open>\<open>ga_marker_write\<close> and \<open>ga_set_event\<close> say here whether the marker is removed and the event reset.\<close>

definition repair_execution_gate ::
  "gate_answers \<Rightarrow> (32 word list \<times> nat) gate_result \<Rightarrow> (string \<Rightarrow> root_view) \<Rightarrow> bool \<Rightarrow> nat \<Rightarrow> gate_world \<Rightarrow>
     gate_repair gate_result \<times> gate_world" where
  "repair_execution_gate an probe view accept_unverified deadline w =
     (case repair_proofs an probe view accept_unverified deadline w of
        Inl err \<Rightarrow> (Inl err, w)
      | Inr None \<Rightarrow> (Inr gate_repair_default, w)
      | Inr (Some report) \<Rightarrow>
          (case write_cross_process_gate_state (ga_write an) [] (gw_file w) of
             (Inl err, file) \<Rightarrow> (Inl err, w\<lparr>gw_file := file\<rparr>)
           | (Inr _, file) \<Rightarrow>
               let w = w\<lparr>gw_file := file\<rparr> in
               if gw_marker w \<and> \<not> ga_marker_write an then (Inl (GateIo ''marker not removed''), w)
               else
                 let report = report\<lparr>gr_cleared_marker := gw_marker w\<rparr>; w = w\<lparr>gw_marker := False\<rparr>;
                     signaled = \<not> is_ok (quarantine_check an 0 w) in
                 if signaled \<and> \<not> ga_set_event an then (Inl (GateIo ''ResetEvent failed''), w)
                 else (Inr (report\<lparr>gr_cleared_quarantine := signaled, gr_repaired := True\<rparr>),
                       if signaled then w\<lparr>gw_signal := False\<rparr> else w)))"

section \<open>Histories\<close>

datatype gate_op =
    Spawn process_id | Exit process_id
  | Reserve gate_answers process_id string "string list"
  | Finish gate_answers bool nat | DropReservation gate_answers nat
  | QuarantineSetup gate_answers process_id "process_id option"
  | Repair gate_answers "(32 word list \<times> nat) gate_result" "string \<Rightarrow> root_view" bool nat

text \<open>
  A process that ends closes its handles; the event disappears with its last handle, of a process that
  retains it or of a gate.
  Its entries stay in the file. Operations of processes that do not run do nothing.
\<close>

definition process_exit :: "process_id \<Rightarrow> gate_world \<Rightarrow> gate_world" where
  "process_exit p w =
     (let retained = removeAll p (gw_retained w); gates = filter (\<lambda>g. cg_owner g \<noteq> p) (gw_gates w) in
      w\<lparr>gw_running := removeAll p (gw_running w), gw_gates := gates, gw_retained := retained,
         gw_signal := (gw_signal w \<and> (retained \<noteq> [] \<or> gates \<noteq> []))\<rparr>)"

fun gate_step :: "gate_world \<Rightarrow> gate_op \<Rightarrow> gate_world" where
  "gate_step w (Spawn p) =
     (if p \<in> set (gw_past w) \<or> fst p \<in> fst ` set (gw_running w) then w
      else w\<lparr>gw_running := gw_running w @ [p], gw_past := gw_past w @ [p]\<rparr>)"
| "gate_step w (Exit p) = process_exit p w"
| "gate_step w (Reserve an p hash roots) =
     (if p \<in> set (gw_running w) then snd (execution_gate an p hash roots w) else w)"
| "gate_step w (Finish an confirmed i) =
     (if i < length (gw_gates w) then snd (reservation_finish an confirmed i w) else w)"
| "gate_step w (DropReservation an i) = (if i < length (gw_gates w) then reservation_drop an i w else w)"
| "gate_step w (QuarantineSetup an p helper) =
     (if p \<in> set (gw_running w) then snd (quarantine_setup_binding an p helper w) else w)"
| "gate_step w (Repair an probe view accept_unverified deadline) =
     snd (repair_execution_gate an probe view accept_unverified deadline w)"


section \<open>The state file round trips\<close>

lemma filter_map_strings [simp]: "filter_map as_str (map JStr xs) = xs"
  by (induction xs) (simp_all add: filter_map_def)

lemma u32_of_ucast [simp]: "u32_try_from (ucast (n :: 32 word)) = Some n"
proof -
  have n: "unat n < 2 ^ 32" using unsigned_less [of n] by simp
  have "unat (ucast n :: 64 word) = take_bit 64 (unat n)" by (simp add: unsigned_ucast_eq)
  also have "\<dots> = unat n" using n by (intro take_bit_nat_eq_self) simp
  finally have "unat (ucast n :: 64 word) = unat n" .
  moreover have "take_bit 64 n = n" by (rule bit_word_eqI) (simp add: bit_take_bit_iff)
  then have "unat (ucast (ucast n :: 64 word) :: 32 word) = unat n"
    using n by (simp add: unsigned_ucast_eq take_bit_nat_eq_self)
  then have "ucast (ucast n :: 64 word) = n" by (rule unsigned_word_eqI)
  ultimately show ?thesis using n by (simp add: u32_try_from_def word_less_nat_alt)
qed

lemma parse_entry_json [simp]: "parse_entry (entry_json e) = Inr e"
  by (cases e) (simp add: parse_entry_def entry_json_def json_u64_def json_strs_def as_array_def split: option.splits)

lemma collect_entries [simp]: "collect parse_entry (map entry_json es) = Inr es"
  by (induction es) simp_all

lemma parse_state_json [simp]: "parse_cross_process_gate_state (Some (state_json es)) = Inr es"
  by (simp add: parse_cross_process_gate_state_def state_json_def)

text \<open>The reservations recorded in a file, if it can be read.\<close>

definition entries_of :: "state_file \<Rightarrow> gate_entry list option" where
  "entries_of file = (case read_cross_process_gate_state True file of Inr es \<Rightarrow> Some es | Inl _ \<Rightarrow> None)"

lemma entries_of_simps [simp]:
  "entries_of (Document (Some (state_json es))) = Some es" "entries_of (Document None) = None" "entries_of NoFile = Some []"
  by (simp_all add: entries_of_def read_cross_process_gate_state_def)
    (simp add: parse_cross_process_gate_state_def)

lemma read_entries:
  "read_cross_process_gate_state io file = Inr es \<longleftrightarrow> io \<and> entries_of file = Some es"
  by (auto simp: entries_of_def read_cross_process_gate_state_def split: sum.splits)

section \<open>What releasing does\<close>

lemma release_entries_ok:
  assumes "release_entries an deadline gate w = Inr rest"
  shows "\<not> gw_signal w" "\<not> cg_quarantined gate" "\<exists>es. entries_of (gw_file w) = Some es \<and> rest = filter (\<lambda>e. \<not> mine gate e) es"
  using assms by (auto simp: release_entries_def Let_def result_simps quarantine_check_def read_entries)

definition same_processes :: "gate_world \<Rightarrow> gate_world \<Rightarrow> bool" where
  "same_processes w w' \<longleftrightarrow> gw_running w' = gw_running w \<and> gw_past w' = gw_past w \<and> gw_counter w' = gw_counter w \<and>
     gw_gates w' = gw_gates w \<and> gw_marker w' = gw_marker w"

text \<open>A failed operation keeps the file or destroys it, and retains and sets the event as far as it can.\<close>

definition quarantined_by :: "gate_answers \<Rightarrow> process_id \<Rightarrow> gate_world \<Rightarrow> gate_world \<Rightarrow> bool" where
  "quarantined_by an p w w' \<longleftrightarrow>
     set (gw_retained w') = insert p (set (gw_retained w)) \<and> gw_signal w' = (gw_signal w \<or> ga_set_event an) \<and>
     (gw_file w' = gw_file w \<or> entries_of (gw_file w') = None)"

lemma mark_quarantined_effect:
  assumes "mark_quarantined an gate w = (r, gate', w')"
  shows "gate' = gate\<lparr>cg_quarantined := True\<rparr>" "same_processes w w'" "gw_in_process w' = gw_in_process w"
    "gw_file w' = gw_file w" "set (gw_retained w') = insert (cg_owner gate) (set (gw_retained w))"
    "gw_signal w' = (gw_signal w \<or> ga_set_event an)"
  using assms by (auto simp: mark_quarantined_def same_processes_def Let_def split: if_splits)

definition released_by :: "cross_gate \<Rightarrow> gate_world \<Rightarrow> gate_world \<Rightarrow> bool" where
  "released_by gate w w' \<longleftrightarrow>
     \<not> gw_signal w \<and> gw_signal w' = gw_signal w \<and> gw_retained w' = gw_retained w \<and>
     (\<exists>es. entries_of (gw_file w) = Some es \<and> entries_of (gw_file w') = Some (filter (\<lambda>e. \<not> mine gate e) es))"

lemma release_effect:
  assumes "release an deadline gate w = (r, gate', w')" "\<not> cg_released gate"
  shows "same_processes w w' \<and> gw_in_process w' = gw_in_process w \<and> cg_owner gate' = cg_owner gate \<and>
    (case r of
       Inr _ \<Rightarrow> cg_released gate' \<and> released_by gate w w'
     | Inl _ \<Rightarrow> \<not> cg_released gate' \<and> cg_quarantined gate' \<and> quarantined_by an (cg_owner gate) w w')"
proof -
  define d where "d = (case cg_cleanup_deadline gate of None \<Rightarrow> deadline | Some previous \<Rightarrow> min previous deadline)"
  define g where "g = gate\<lparr>cg_cleanup_deadline := Some d\<rparr>"
  have g: "cg_owner g = cg_owner gate" "cg_released g = cg_released gate" "mine g = mine gate"
    by (simp_all add: g_def mine_def fun_eq_iff)
  have failed: ?thesis
    if bad: "r = Inl err" "mark_quarantined an g v = (q, gate', w')" "same_processes w v" "gw_in_process v = gw_in_process w"
      "gw_retained v = gw_retained w" "gw_signal v = gw_signal w" "gw_file v = gw_file w \<or> entries_of (gw_file v) = None" for err v q
    using mark_quarantined_effect [OF bad(2)] bad g assms(2) by (auto simp: same_processes_def quarantined_by_def)
  show ?thesis
  proof (cases "release_entries an d g w")
    case (Inl err)
    obtain q where "mark_quarantined an g w = (q, gate', w')" "r = Inl err"
      using assms Inl by (auto simp: release_def d_def [symmetric] g_def [symmetric] Let_def split: prod.splits)
    from failed [OF this(2,1)] show ?thesis by (simp add: same_processes_def)
  next
    case (Inr rest)
    note ok = release_entries_ok [OF Inr]
    show ?thesis
    proof (cases "ga_write an")
      case Written
      then have "r = Inr ()" "gate' = g\<lparr>cg_released := True\<rparr>" "w' = w\<lparr>gw_file := Document (Some (state_json rest))\<rparr>"
        using assms Inr by (auto simp: release_def d_def [symmetric] g_def [symmetric] write_cross_process_gate_state_def Let_def)
      with ok g show ?thesis by (auto simp: same_processes_def released_by_def)
    next
      case Unwritten
      obtain q err where "mark_quarantined an g w = (q, gate', w')" "r = Inl err"
        using assms Inr Unwritten
        by (auto simp: release_def d_def [symmetric] g_def [symmetric] write_cross_process_gate_state_def Let_def split: prod.splits)
      from failed [OF this(2,1)] show ?thesis by (simp add: same_processes_def)
    next
      case Torn
      obtain q err where "mark_quarantined an g (w\<lparr>gw_file := Document None\<rparr>) = (q, gate', w')" "r = Inl err"
        using assms Inr Torn
        by (auto simp: release_def d_def [symmetric] g_def [symmetric] write_cross_process_gate_state_def Let_def split: prod.splits)
      from failed [OF this(2,1)] show ?thesis by (simp add: same_processes_def)
    qed
  qed
qed

end
