(* ===== verification/Gate_Guarantees.thy ===== *)
theory Gate_Guarantees
  imports Execution_Gate
begin

text \<open>
  What the execution gate guarantees, over every history of processes that start, end, reserve, finish
  and repair, whatever the operating system answers: one policy at a time, a gate that stays closed
  after an unverified cleanup, and repairs that rest on proofs.
\<close>

section \<open>Acquiring\<close>

abbreviation entry_owner :: "gate_entry \<Rightarrow> process_id" where
  "entry_owner e \<equiv> (ge_pid e, ge_creation e)"

lemma admissible_ok:
  assumes "admissible an hash w = Inr active"
  shows "entries_of (gw_file w) = Some active" "\<not> gw_signal w" "\<not> gw_marker w"
    "\<forall>e \<in> set active. entry_owner e \<in> set (gw_running w) \<and> ge_policy_hash e = hash"
proof -
  have "entries_of (gw_file w) = Some active \<and> \<not> gw_signal w \<and> \<not> gw_marker w \<and>
      (\<forall>e \<in> set active. owner_live_or_false an w e \<and> ge_policy_hash e = hash)"
    using assms by (auto simp: admissible_def result_simps quarantine_check_def read_entries list_ex_iff)
  moreover have "owner_live_or_false an w e \<Longrightarrow> entry_owner e \<in> set (gw_running w)" for e
    by (auto simp: owner_live_or_false_def reservation_owner_is_live_def split: if_splits)
  ultimately show "entries_of (gw_file w) = Some active" "\<not> gw_signal w" "\<not> gw_marker w"
    "\<forall>e \<in> set active. entry_owner e \<in> set (gw_running w) \<and> ge_policy_hash e = hash" by simp_all
qed

text \<open>A reservation that fails adds no gate; at worst it destroys the file.\<close>

definition gate_refused :: "gate_world \<Rightarrow> gate_world \<Rightarrow> bool" where
  "gate_refused w w' \<longleftrightarrow>
     gw_running w' = gw_running w \<and> gw_past w' = gw_past w \<and> gw_gates w' = gw_gates w \<and> gw_signal w' = gw_signal w \<and>
     gw_retained w' = gw_retained w \<and> gw_marker w' = gw_marker w \<and> (\<forall>p. gw_counter w p \<le> gw_counter w' p) \<and>
     (gw_file w' = gw_file w \<or> entries_of (gw_file w') = None)"

definition gate_granted :: "process_id \<Rightarrow> string \<Rightarrow> gate_world \<Rightarrow> gate_world \<Rightarrow> bool" where
  "gate_granted p hash w w' \<longleftrightarrow>
     gw_running w' = gw_running w \<and> gw_past w' = gw_past w \<and> gw_signal w' = gw_signal w \<and> \<not> gw_signal w \<and>
     gw_retained w' = gw_retained w \<and> gw_marker w' = gw_marker w \<and>
     gw_counter w' = (gw_counter w)(p := gw_counter w p + 1) \<and>
     (\<exists>gate es e. gw_gates w' = gw_gates w @ [gate] \<and> cg_owner gate = p \<and> cg_policy_hash gate = hash \<and>
        \<not> cg_released gate \<and> cg_token gate = cross_process_gate_token p (gw_counter w p) \<and> mine gate e \<and>
        entries_of (gw_file w) = Some es \<and> entries_of (gw_file w') = Some (es @ [e]) \<and>
        (\<forall>e \<in> set es. entry_owner e \<in> set (gw_running w) \<and> ge_policy_hash e = hash))"

lemma execution_gate_effect:
  assumes "execution_gate an p hash roots w = (r, w')"
  shows "case r of Inl _ \<Rightarrow> gate_refused w w' | Inr _ \<Rightarrow> gate_granted p hash w w'"
proof -
  have same: "gw_file (set_in_process q st v) = gw_file v" "gw_running (set_in_process q st v) = gw_running v"
    "gw_past (set_in_process q st v) = gw_past v" "gw_gates (set_in_process q st v) = gw_gates v"
    "gw_signal (set_in_process q st v) = gw_signal v" "gw_retained (set_in_process q st v) = gw_retained v"
    "gw_counter (set_in_process q st v) = gw_counter v" "gw_marker (set_in_process q st v) = gw_marker v" for q st v
    by (simp_all add: set_in_process_def)
  obtain key v where key: "execution_gate_for_key p hash w = (key, v)" by fastforce
  then have v: "gw_file v = gw_file w" "gw_running v = gw_running w" "gw_past v = gw_past w" "gw_gates v = gw_gates w"
    "gw_signal v = gw_signal w" "gw_retained v = gw_retained w" "gw_counter v = gw_counter w" "gw_marker v = gw_marker w"
    by (auto simp: execution_gate_for_key_def Let_def same split: if_splits)
  show ?thesis
  proof (cases key)
    case (Inl err)
    with assms key v show ?thesis by (auto simp: execution_gate_def gate_refused_def)
  next
    case key_ok: (Inr u)
    show ?thesis
    proof (cases "admissible an hash v")
      case (Inl err)
      with assms key key_ok v show ?thesis
        by (auto simp: execution_gate_def acquire_with_runtime_roots_def in_process_drop_def gate_refused_def Let_def same)
    next
      case (Inr active)
      note ok = admissible_ok [OF Inr]
      show ?thesis
      proof (cases "ga_creation_time an \<and> ga_write an = Written")
        case True
        with assms key key_ok v Inr ok show ?thesis
          by (auto simp: execution_gate_def acquire_with_runtime_roots_def gate_granted_def Let_def mine_def
              write_cross_process_gate_state_def)
      next
        case False
        with assms key key_ok v Inr show ?thesis
          by (auto simp: execution_gate_def acquire_with_runtime_roots_def in_process_drop_def gate_refused_def Let_def same
              write_cross_process_gate_state_def split: write_outcome.splits if_splits)
      qed
    qed
  qed
qed

section \<open>The invariant\<close>

definition gate_inv :: "gate_world \<Rightarrow> bool" where
  "gate_inv w \<longleftrightarrow>
     (\<forall>g \<in> set (gw_gates w). cg_owner g \<in> set (gw_running w) \<and> \<not> cg_released g \<and>
        (\<exists>k < gw_counter w (cg_owner g). cg_token g = cross_process_gate_token (cg_owner g) k)) \<and>
     distinct (map (\<lambda>g. (cg_owner g, cg_token g)) (gw_gates w)) \<and>
     (\<forall>es. entries_of (gw_file w) = Some es \<longrightarrow> (\<forall>g \<in> set (gw_gates w). \<exists>e \<in> set es. mine g e)) \<and>
     (\<forall>g \<in> set (gw_gates w). \<forall>h \<in> set (gw_gates w). cg_policy_hash g = cg_policy_hash h) \<and>
     set (gw_retained w) \<subseteq> set (gw_running w) \<and> set (gw_running w) \<subseteq> set (gw_past w)"

lemma gate_invD:
  assumes "gate_inv w"
  shows "g \<in> set (gw_gates w) \<Longrightarrow> cg_owner g \<in> set (gw_running w)" "g \<in> set (gw_gates w) \<Longrightarrow> \<not> cg_released g"
    "entries_of (gw_file w) = Some es \<Longrightarrow> g \<in> set (gw_gates w) \<Longrightarrow> \<exists>e \<in> set es. mine g e"
    "set (gw_retained w) \<subseteq> set (gw_running w)" "set (gw_running w) \<subseteq> set (gw_past w)"
    "g \<in> set (gw_gates w) \<Longrightarrow> \<exists>k < gw_counter w (cg_owner g). cg_token g = cross_process_gate_token (cg_owner g) k"
    "g \<in> set (gw_gates w) \<Longrightarrow> h \<in> set (gw_gates w) \<Longrightarrow> cg_policy_hash g = cg_policy_hash h"
    "distinct (map (\<lambda>g. (cg_owner g, cg_token g)) (gw_gates w))"
  using assms unfolding gate_inv_def by blast+

lemma gate_invI:
  assumes "\<And>g. g \<in> set (gw_gates w) \<Longrightarrow> cg_owner g \<in> set (gw_running w) \<and> \<not> cg_released g"
    "\<And>g. g \<in> set (gw_gates w) \<Longrightarrow> \<exists>k < gw_counter w (cg_owner g). cg_token g = cross_process_gate_token (cg_owner g) k"
    "distinct (map (\<lambda>g. (cg_owner g, cg_token g)) (gw_gates w))"
    "\<And>es g. entries_of (gw_file w) = Some es \<Longrightarrow> g \<in> set (gw_gates w) \<Longrightarrow> \<exists>e \<in> set es. mine g e"
    "\<And>g h. g \<in> set (gw_gates w) \<Longrightarrow> h \<in> set (gw_gates w) \<Longrightarrow> cg_policy_hash g = cg_policy_hash h"
    "set (gw_retained w) \<subseteq> set (gw_running w)" "set (gw_running w) \<subseteq> set (gw_past w)"
  shows "gate_inv w"
  using assms unfolding gate_inv_def by blast

lemma token_inj: "cross_process_gate_token p k = cross_process_gate_token p k' \<Longrightarrow> k = k'"
  unfolding cross_process_gate_token_def by (metis parse_digits_dec same_append_eq)

text \<open>The invariant only needs that the file is kept or destroyed and that no process comes to retain the event without running.\<close>

lemma gate_inv_frame:
  assumes "gate_inv w" "gw_running w' = gw_running w" "gw_past w' = gw_past w" "gw_gates w' = gw_gates w"
    "\<And>p. gw_counter w p \<le> gw_counter w' p" "set (gw_retained w') \<subseteq> set (gw_running w)"
    "gw_file w' = gw_file w \<or> entries_of (gw_file w') = None"
  shows "gate_inv w'"
proof (rule gate_invI, unfold assms(2-4))
  show "\<exists>k < gw_counter w' (cg_owner g). cg_token g = cross_process_gate_token (cg_owner g) k" if "g \<in> set (gw_gates w)" for g
    using gate_invD(6) [OF assms(1) that] assms(5) order_less_le_trans by blast
  show "\<exists>e \<in> set es. mine g e" if "entries_of (gw_file w') = Some es" "g \<in> set (gw_gates w)" for es g
    using that assms(7) gate_invD(3) [OF assms(1)] by (metis option.distinct(1))
qed (use gate_invD [OF assms(1)] assms(6) in blast)+

lemma gate_inv_refused: "gate_inv w \<Longrightarrow> gate_refused w w' \<Longrightarrow> gate_inv w'"
  unfolding gate_refused_def by (elim conjE, rule gate_inv_frame) (simp_all add: gate_invD(4) del: split_paired_All)

lemma gate_inv_granted:
  assumes "gate_inv w" "gate_granted p hash w w'" "p \<in> set (gw_running w)"
  shows "gate_inv w'"
proof -
  obtain gate es e where same: "gw_running w' = gw_running w" "gw_past w' = gw_past w" "gw_signal w' = gw_signal w"
    "gw_retained w' = gw_retained w" "gw_counter w' = (gw_counter w)(p := gw_counter w p + 1)"
    and g: "gw_gates w' = gw_gates w @ [gate]" "cg_owner gate = p" "cg_policy_hash gate = hash" "\<not> cg_released gate"
      "cg_token gate = cross_process_gate_token p (gw_counter w p)" "mine gate e"
    and es: "entries_of (gw_file w) = Some es" "entries_of (gw_file w') = Some (es @ [e])"
      "\<forall>e \<in> set es. entry_owner e \<in> set (gw_running w) \<and> ge_policy_hash e = hash"
    using assms(2) unfolding gate_granted_def by blast
  have hash: "cg_policy_hash h = hash" if "h \<in> set (gw_gates w)" for h
    using gate_invD(3) [OF assms(1) es(1) that] es(3) by (auto simp: mine_def)
  have token: "\<exists>k < gw_counter w' (cg_owner h). cg_token h = cross_process_gate_token (cg_owner h) k"
    if "h \<in> set (gw_gates w)" for h
    using gate_invD(6) [OF assms(1) that] by (metis same(5) Suc_eq_plus1 fun_upd_apply less_SucI)
  have fresh: "(cg_owner gate, cg_token gate) \<notin> (\<lambda>g. (cg_owner g, cg_token g)) ` set (gw_gates w)"
  proof
    assume "(cg_owner gate, cg_token gate) \<in> (\<lambda>g. (cg_owner g, cg_token g)) ` set (gw_gates w)"
    then obtain h where h: "h \<in> set (gw_gates w)" "cg_owner h = p" "cg_token h = cg_token gate" using g(2) by auto
    with gate_invD(6) [OF assms(1) h(1)] g(5) token_inj show False by (metis nat_neq_iff)
  qed
  have "\<exists>x \<in> set (es @ [e]). mine h x" if "h \<in> set (gw_gates w)" for h
    using gate_invD(3) [OF assms(1) es(1) that] by auto
  note kept = this
  show ?thesis
  proof (rule gate_invI)
    show "\<exists>k < gw_counter w' (cg_owner h). cg_token h = cross_process_gate_token (cg_owner h) k" if "h \<in> set (gw_gates w')" for h
      using that token g same(5) by (cases "h = gate") auto
    show "\<exists>x \<in> set xs. mine h x" if "entries_of (gw_file w') = Some xs" "h \<in> set (gw_gates w')" for xs h
      using that kept g es by (cases "h = gate") auto
  qed (use gate_invD [OF assms(1)] assms(3) hash fresh g same in auto)
qed


section \<open>Releasing\<close>

text \<open>A gate that is quarantined is never released.\<close>

lemma release_quarantined:
  assumes "release an deadline gate w = (r, gate', w')" "cg_quarantined gate" "\<not> cg_released gate"
  shows "\<exists>err. r = Inl err"
proof -
  have "release_entries an d g w = Inl BackendCleanupError" if "cg_quarantined g" for d g
    using that by (simp add: release_entries_def result_simps)
  with assms show ?thesis by (auto simp: release_def Let_def split: prod.splits)
qed

lemma quarantined_by_trans:
  assumes "quarantined_by an p w v" "quarantined_by an p v w'"
  shows "quarantined_by an p w w'"
  using assms by (auto simp: quarantined_by_def)

lemma set_in_process_fields [simp]:
  "gw_file (set_in_process q st v) = gw_file v" "gw_running (set_in_process q st v) = gw_running v"
  "gw_past (set_in_process q st v) = gw_past v" "gw_gates (set_in_process q st v) = gw_gates v"
  "gw_signal (set_in_process q st v) = gw_signal v" "gw_retained (set_in_process q st v) = gw_retained v"
  "gw_counter (set_in_process q st v) = gw_counter v" "gw_marker (set_in_process q st v) = gw_marker v"
  by (simp_all add: set_in_process_def)

lemmas release_relations = same_processes_def quarantined_by_def released_by_def

lemma set_in_process_relations [simp]:
  "same_processes (set_in_process q st w) w' = same_processes w w'"
  "same_processes w (set_in_process q st w') = same_processes w w'"
  "quarantined_by an p (set_in_process q st w) w' = quarantined_by an p w w'"
  "quarantined_by an p w (set_in_process q st w') = quarantined_by an p w w'"
  "released_by gate (set_in_process q st w) w' = released_by gate w w'"
  "released_by gate w (set_in_process q st w') = released_by gate w w'"
  by (simp_all add: release_relations)

lemma drop_gate_effect:
  assumes "\<not> cg_released gate"
  shows "same_processes w (drop_gate an gate w) \<and>
    (quarantined_by an (cg_owner gate) w (drop_gate an gate w) \<or>
     \<not> cg_quarantined gate \<and> released_by gate w (drop_gate an gate w))"
proof -
  define v where "v = in_process_drop (cg_owner gate) w"
  define d where "d = (case cg_cleanup_deadline gate of None \<Rightarrow> ga_now an + 1000 | Some deadline \<Rightarrow> deadline)"
  obtain r g w' where rel: "release an d gate v = (r, g, w')" by (metis prod.exhaust)
  have w': "drop_gate an gate w = w'" using rel by (simp add: drop_gate_def v_def d_def Let_def)
  have "same_processes v w' \<and> (quarantined_by an (cg_owner gate) v w' \<or> \<not> cg_quarantined gate \<and> released_by gate v w')"
    using release_effect [OF rel assms] release_quarantined [OF rel _ assms] by (cases r) auto
  then show ?thesis unfolding w' by (simp add: v_def in_process_drop_def Let_def)
qed

lemma drop_released_gate:
  assumes "cg_released gate"
  shows "\<exists>st. drop_gate an gate w = set_in_process (cg_owner gate) st w"
  using assms by (auto simp: drop_gate_def release_def in_process_drop_def Let_def)

lemma finish_owned_effect:
  assumes "finish_owned an gate w = (r, w')" "\<not> cg_released gate"
  shows "same_processes w w' \<and>
    (case r of Inl _ \<Rightarrow> quarantined_by an (cg_owner gate) w w' | Inr _ \<Rightarrow> released_by gate w w')"
proof -
  obtain r0 g v where rel: "release an (ga_now an + 1000) gate w = (r0, g, v)" by (metis prod.exhaust)
  note eff = release_effect [OF rel assms(2)]
  have r: "r0 = r" using assms(1) rel by (simp add: finish_owned_def)
  show ?thesis
  proof (cases r)
    case (Inr u)
    with eff r obtain st where "drop_gate an g v = set_in_process (cg_owner g) st v"
      using drop_released_gate [of g an v] by auto
    with assms(1) rel eff r Inr show ?thesis by (auto simp: finish_owned_def)
  next
    case (Inl err)
    define u where "u = contaminate (cg_owner g) v"
    have w': "w' = drop_gate an g u" using assms(1) rel r Inl by (simp add: finish_owned_def u_def)
    have "same_processes w u" "quarantined_by an (cg_owner gate) w u" "cg_owner g = cg_owner gate" "\<not> cg_released g" "cg_quarantined g"
      using eff r Inl by (simp_all add: u_def contaminate_def)
    with drop_gate_effect [of g u an] Inl show ?thesis unfolding w'
      by (auto intro: quarantined_by_trans simp: same_processes_def)
  qed
qed

lemma mark_cleanup_failed_effect:
  assumes "mark_cleanup_failed an gate w = (r, gate', w')"
  shows "gate' = gate\<lparr>cg_quarantined := True\<rparr>" "gw_running w' = gw_running w" "gw_past w' = gw_past w"
    "gw_counter w' = gw_counter w" "gw_gates w' = gw_gates w" "quarantined_by an (cg_owner gate) w w'"
proof -
  obtain q g v where m: "mark_quarantined an gate w = (q, g, v)" by (metis prod.exhaust)
  note eff = mark_quarantined_effect [OF m]
  obtain b where "w' = contaminate (cg_owner g) (if b then v\<lparr>gw_marker := True\<rparr> else v)" and g: "gate' = g"
    using assms unfolding mark_cleanup_failed_def m prod.case Let_def prod.inject by blast
  then have w': "gw_running w' = gw_running v" "gw_past w' = gw_past v" "gw_counter w' = gw_counter v" "gw_gates w' = gw_gates v"
    "gw_file w' = gw_file v" "gw_retained w' = gw_retained v" "gw_signal w' = gw_signal v"
    by (simp_all add: contaminate_def)
  from eff g show "gate' = gate\<lparr>cg_quarantined := True\<rparr>" by simp
  from eff w' show "gw_running w' = gw_running w" "gw_past w' = gw_past w" "gw_counter w' = gw_counter w"
    "gw_gates w' = gw_gates w" "quarantined_by an (cg_owner gate) w w'" by (simp_all add: release_relations)
qed


section \<open>The invariant holds\<close>

lemma gate_inv_quarantined:
  assumes "gate_inv w" "quarantined_by an p w w'" "p \<in> set (gw_running w)" "gw_running w' = gw_running w"
    "gw_past w' = gw_past w" "gw_gates w' = gw_gates w" "gw_counter w' = gw_counter w"
  shows "gate_inv w'"
  by (rule gate_inv_frame [OF assms(1)]) (use assms gate_invD(4) [OF assms(1)] in \<open>auto simp: quarantined_by_def\<close>)

lemma gate_inv_released:
  assumes "gate_inv w" "released_by gate w w'" "same_processes w w'"
    and fresh: "(cg_owner gate, cg_token gate) \<notin> (\<lambda>g. (cg_owner g, cg_token g)) ` set (gw_gates w)"
  shows "gate_inv w'"
proof -
  have same: "gw_running w' = gw_running w" "gw_past w' = gw_past w" "gw_gates w' = gw_gates w" "gw_counter w' = gw_counter w"
    "gw_retained w' = gw_retained w" using assms(2,3) by (simp_all add: same_processes_def released_by_def)
  obtain es where es: "entries_of (gw_file w) = Some es" "entries_of (gw_file w') = Some (filter (\<lambda>e. \<not> mine gate e) es)"
    using assms(2) by (auto simp: released_by_def)
  show ?thesis
  proof (rule gate_invI, unfold same)
    show "\<exists>e \<in> set xs. mine h e" if xs: "entries_of (gw_file w') = Some xs" "h \<in> set (gw_gates w)" for xs h
    proof -
      obtain e where e: "e \<in> set es" "mine h e" using gate_invD(3) [OF assms(1) es(1) xs(2)] by blast
      have "\<not> mine gate e" using e(2) fresh xs(2) unfolding mine_def image_iff by metis
      with e es(2) xs(1) show ?thesis by auto
    qed
  qed (use gate_invD [OF assms(1)] in blast)+
qed

lemma gates_update_fields:
  "gw_running (w\<lparr>gw_gates := gates\<rparr>) = gw_running w" "gw_past (w\<lparr>gw_gates := gates\<rparr>) = gw_past w"
  "gw_file (w\<lparr>gw_gates := gates\<rparr>) = gw_file w" "gw_counter (w\<lparr>gw_gates := gates\<rparr>) = gw_counter w"
  "gw_retained (w\<lparr>gw_gates := gates\<rparr>) = gw_retained w" "gw_gates (w\<lparr>gw_gates := gates\<rparr>) = gates"
  by simp_all

lemma gate_inv_fewer_gates:
  assumes "gate_inv w" "set gates \<subseteq> set (gw_gates w)" "distinct (map (\<lambda>g. (cg_owner g, cg_token g)) gates)"
  shows "gate_inv (w\<lparr>gw_gates := gates\<rparr>)"
proof (rule gate_invI, unfold gates_update_fields)
  show "\<exists>e \<in> set es. mine g e" if "entries_of (gw_file w) = Some es" "g \<in> set gates" for es g
    using gate_invD(3) [OF assms(1)] that assms(2) by blast
qed (use gate_invD [OF assms(1)] assms(2,3) in blast)+

lemma remove_gate_fields [simp]:
  "gw_running (remove_gate i w) = gw_running w" "gw_past (remove_gate i w) = gw_past w" "gw_file (remove_gate i w) = gw_file w"
  "gw_counter (remove_gate i w) = gw_counter w" "gw_retained (remove_gate i w) = gw_retained w"
  "gw_signal (remove_gate i w) = gw_signal w" "gw_marker (remove_gate i w) = gw_marker w"
  by (simp_all add: remove_gate_def)

lemma gate_inv_remove:
  assumes "gate_inv w" "i < length (gw_gates w)"
  shows "gate_inv (remove_gate i w)" "(cg_owner (gw_gates w ! i), cg_token (gw_gates w ! i)) \<notin>
    (\<lambda>g. (cg_owner g, cg_token g)) ` set (gw_gates (remove_gate i w))"
proof -
  let ?f = "\<lambda>g. (cg_owner g, cg_token g)"
  have "gw_gates w = take i (gw_gates w) @ gw_gates w ! i # drop (Suc i) (gw_gates w)" using assms(2) by (rule id_take_nth_drop)
  then have "distinct (map ?f (take i (gw_gates w) @ gw_gates w ! i # drop (Suc i) (gw_gates w)))"
    using gate_invD(8) [OF assms(1)] by metis
  then have d: "distinct (map ?f (take i (gw_gates w) @ drop (Suc i) (gw_gates w)))"
    "?f (gw_gates w ! i) \<notin> ?f ` set (take i (gw_gates w) @ drop (Suc i) (gw_gates w))" by auto
  show "?f (gw_gates w ! i) \<notin> ?f ` set (gw_gates (remove_gate i w))" using d(2) by (simp add: remove_gate_def)
  show "gate_inv (remove_gate i w)" unfolding remove_gate_def
    using set_take_subset [of i "gw_gates w"] set_drop_subset [of "Suc i" "gw_gates w"] d(1)
    by (intro gate_inv_fewer_gates [OF assms(1)]) auto
qed

text \<open>What ends one reservation: its gate is gone or quarantined, and the file says so.\<close>

lemma reservation_finish_effect:
  assumes inv: "gate_inv w" and i: "i < length (gw_gates w)" and run: "reservation_finish an confirmed i w = (r, w')"
  defines "gate \<equiv> gw_gates w ! i"
  shows "gate_inv w' \<and> gw_running w' = gw_running w \<and> gw_past w' = gw_past w \<and>
    (case r of Inl _ \<Rightarrow> quarantined_by an (cg_owner gate) w w' | Inr _ \<Rightarrow> confirmed \<and> released_by gate w w')"
proof -
  have gate: "gate \<in> set (gw_gates w)" "\<not> cg_released gate" "cg_owner gate \<in> set (gw_running w)"
    using gate_invD(1,2) [OF inv] i by (simp_all add: gate_def)
  show ?thesis
  proof (cases confirmed)
    case True
    define v where "v = remove_gate i w"
    note v = gate_inv_remove [OF inv i, folded v_def gate_def]
    have "finish_owned an gate v = (r, w')" using run True by (simp add: reservation_finish_def gate_def v_def Let_def)
    note eff = finish_owned_effect [OF this gate(2)]
    have "gate_inv w'"
    proof (cases r)
      case (Inl err)
      then show ?thesis
        by (intro gate_inv_quarantined [OF v(1), of an "cg_owner gate"]) (use eff gate(3) in \<open>simp_all add: same_processes_def v_def\<close>)
    next
      case (Inr u)
      with eff show ?thesis by (intro gate_inv_released [OF v(1) _ _ v(2)]) simp_all
    qed
    with eff True show ?thesis by (cases r) (auto simp: same_processes_def v_def quarantined_by_def released_by_def)
  next
    case False
    obtain q g v where m: "mark_cleanup_failed an gate w = (q, g, v)" by (metis prod.exhaust)
    note eff = mark_cleanup_failed_effect [OF m]
    have rw: "r = Inl BackendCleanupError" "w' = v\<lparr>gw_gates := (gw_gates v)[i := g]\<rparr>"
      using run False m by (auto simp: reservation_finish_def gate_def Let_def)
    have "gate_inv v" by (rule gate_inv_quarantined [OF inv eff(6) gate(3)]) (use eff in simp_all)
    have g: "cg_owner g = cg_owner gate" "cg_token g = cg_token gate" "cg_policy_hash g = cg_policy_hash gate" "\<not> cg_released g"
      "mine g = mine gate" using eff(1) gate(2) by (simp_all add: mine_def fun_eq_iff)
    have mem: "\<exists>h' \<in> set (gw_gates w). cg_owner h' = cg_owner h \<and> cg_token h' = cg_token h \<and>
        cg_policy_hash h' = cg_policy_hash h \<and> cg_released h' = cg_released h \<and> mine h' = mine h"
      if "h \<in> set ((gw_gates w)[i := g])" for h
      using that set_update_subset_insert [of "gw_gates w" i g] gate g by (cases "h = g") auto
    have "map (\<lambda>g. (cg_owner g, cg_token g)) ((gw_gates w)[i := g]) = map (\<lambda>g. (cg_owner g, cg_token g)) (gw_gates w)"
      using g i by (simp add: map_update gate_def list_update_same_conv)
    then have "gate_inv w'" unfolding rw eff(5)
      using gate_invD [OF \<open>gate_inv v\<close>, unfolded eff(5)] mem
      by (intro gate_invI, unfold gates_update_fields) metis+
    with eff rw show ?thesis by (simp add: quarantined_by_def)
  qed
qed

lemma reservation_drop_effect:
  assumes inv: "gate_inv w" and i: "i < length (gw_gates w)" and run: "w' = reservation_drop an i w"
  defines "gate \<equiv> gw_gates w ! i"
  shows "gate_inv w' \<and> gw_running w' = gw_running w \<and> gw_past w' = gw_past w \<and>
    (quarantined_by an (cg_owner gate) w w' \<or> released_by gate w w')"
proof -
  have gate: "\<not> cg_released gate" "cg_owner gate \<in> set (gw_running w)"
    using gate_invD(1,2) [OF inv] i by (simp_all add: gate_def)
  define v where "v = remove_gate i w"
  note v = gate_inv_remove [OF inv i, folded v_def gate_def]
  have w': "w' = drop_gate an gate v" by (simp add: run reservation_drop_def gate_def v_def)
  have eff: "same_processes v w'" "quarantined_by an (cg_owner gate) v w' \<or> released_by gate v w'"
    using drop_gate_effect [OF gate(1), of v an] unfolding w' by blast+
  from eff(2) have "gate_inv w'"
  proof
    assume "quarantined_by an (cg_owner gate) v w'"
    then show ?thesis
      by (rule gate_inv_quarantined [OF v(1)]) (use eff(1) gate(2) in \<open>simp_all add: same_processes_def v_def\<close>)
  next
    assume "released_by gate v w'"
    with eff(1) show ?thesis by (intro gate_inv_released [OF v(1) _ _ v(2)])
  qed
  with eff show ?thesis by (simp add: same_processes_def v_def quarantined_by_def released_by_def)
qed

text \<open>The setup path only adds to the file, the event and those who retain it.\<close>

lemma quarantine_setup_effect:
  assumes "quarantine_setup_binding an p helper w = (r, w')"
  shows "gw_running w' = gw_running w" "gw_past w' = gw_past w" "gw_gates w' = gw_gates w" "gw_counter w' = gw_counter w"
    "set (gw_retained w) \<subseteq> set (gw_retained w')" "set (gw_retained w') \<subseteq> insert p (set (gw_retained w))"
    "gw_signal w \<Longrightarrow> gw_signal w'"
    "entries_of (gw_file w') = None \<or> (\<exists>es more_es. entries_of (gw_file w) = Some es \<and> entries_of (gw_file w') = Some (es @ more_es))
      \<or> gw_file w' = gw_file w"
  using assms
  by (auto simp: quarantine_setup_binding_def Let_def write_cross_process_gate_state_def result_simps read_entries
      split: if_splits option.splits sum.splits write_outcome.splits prod.splits)

lemma gate_inv_setup:
  assumes inv: "gate_inv w" and "p \<in> set (gw_running w)" and run: "quarantine_setup_binding an p helper w = (r, w')"
  shows "gate_inv w'"
proof (rule gate_invI, unfold quarantine_setup_effect(1-4) [OF run])
  note eff = quarantine_setup_effect [OF run]
  show "\<exists>e \<in> set es. mine g e" if "entries_of (gw_file w') = Some es" "g \<in> set (gw_gates w)" for es g
    using eff(8) that gate_invD(3) [OF inv _ that(2)] by auto
  show "set (gw_retained w') \<subseteq> set (gw_running w)"
    using eff(6) assms(2) gate_invD(4) [OF inv] by blast
qed (use gate_invD [OF inv] in blast)+

text \<open>A repair that changes anything has found every recorded owner dead.\<close>

lemma repair_proofs_owners:
  assumes "repair_proofs an probe view accept_unverified deadline w = Inr (Some report)"
  shows "\<exists>es. entries_of (gw_file w) = Some es \<and> (\<forall>e \<in> set es. entry_owner e \<notin> set (gw_running w))"
  using assms
  by (auto simp: repair_proofs_def result_simps read_entries require_dead_def reservation_owner_is_live_def split: if_splits)

lemma repair_effect:
  assumes "repair_execution_gate an probe view accept_unverified deadline w = (r, w')"
  shows "w' = w \<or>
    (gw_running w' = gw_running w \<and> gw_past w' = gw_past w \<and> gw_gates w' = gw_gates w \<and> gw_counter w' = gw_counter w \<and>
     gw_retained w' = gw_retained w \<and> (\<exists>report. repair_proofs an probe view accept_unverified deadline w = Inr (Some report)))"
  using assms
  by (auto simp: repair_execution_gate_def write_cross_process_gate_state_def Let_def
      split: if_splits option.splits sum.splits write_outcome.splits)

lemma gate_inv_repair:
  assumes inv: "gate_inv w" and run: "repair_execution_gate an probe view accept_unverified deadline w = (r, w')"
  shows "gate_inv w'"
proof (cases "w' = w")
  case True
  with inv show ?thesis by simp
next
  case False
  with repair_effect [OF run] obtain report where same: "gw_running w' = gw_running w" "gw_past w' = gw_past w"
    "gw_gates w' = gw_gates w" "gw_counter w' = gw_counter w" "gw_retained w' = gw_retained w"
    and ok: "repair_proofs an probe view accept_unverified deadline w = Inr (Some report)" by blast
  obtain es where es: "entries_of (gw_file w) = Some es" "\<forall>e \<in> set es. entry_owner e \<notin> set (gw_running w)"
    using repair_proofs_owners [OF ok] by blast
  have none: "gw_gates w = []"
  proof (rule ccontr)
    assume "gw_gates w \<noteq> []"
    then have g: "hd (gw_gates w) \<in> set (gw_gates w)" by simp
    from gate_invD(3) [OF inv es(1) g] gate_invD(1) [OF inv g] es(2) show False by (auto simp: mine_def)
  qed
  show ?thesis
    by (rule gate_invI) (use same none gate_invD(4,5) [OF inv] in simp_all)
qed

lemma gate_inv_exit: "gate_inv w \<Longrightarrow> gate_inv (process_exit p w)"
proof (rule gate_invI)
  assume inv: "gate_inv w"
  have exit: "gw_running (process_exit p w) = removeAll p (gw_running w)" "gw_past (process_exit p w) = gw_past w"
    "gw_gates (process_exit p w) = filter (\<lambda>g. cg_owner g \<noteq> p) (gw_gates w)" "gw_counter (process_exit p w) = gw_counter w"
    "gw_retained (process_exit p w) = removeAll p (gw_retained w)" "gw_file (process_exit p w) = gw_file w"
    by (simp_all add: process_exit_def Let_def)
  show "\<And>g. g \<in> set (gw_gates (process_exit p w)) \<Longrightarrow>
      cg_owner g \<in> set (gw_running (process_exit p w)) \<and> \<not> cg_released g"
    using gate_invD(1,2) [OF inv] by (simp add: exit)
  show "\<And>g. g \<in> set (gw_gates (process_exit p w)) \<Longrightarrow>
      \<exists>k < gw_counter (process_exit p w) (cg_owner g). cg_token g = cross_process_gate_token (cg_owner g) k"
    using gate_invD(6) [OF inv] by (simp add: exit)
  show "distinct (map (\<lambda>g. (cg_owner g, cg_token g)) (gw_gates (process_exit p w)))"
    using gate_invD(8) [OF inv] by (simp add: exit distinct_map_filter)
  show "\<And>es g. entries_of (gw_file (process_exit p w)) = Some es \<Longrightarrow> g \<in> set (gw_gates (process_exit p w)) \<Longrightarrow>
      \<exists>e \<in> set es. mine g e" using gate_invD(3) [OF inv] by (simp add: exit)
  show "\<And>g h. g \<in> set (gw_gates (process_exit p w)) \<Longrightarrow> h \<in> set (gw_gates (process_exit p w)) \<Longrightarrow>
      cg_policy_hash g = cg_policy_hash h" using gate_invD(7) [OF inv] by (simp add: exit)
  show "set (gw_retained (process_exit p w)) \<subseteq> set (gw_running (process_exit p w))"
    using gate_invD(4) [OF inv] by (auto simp: exit)
  show "set (gw_running (process_exit p w)) \<subseteq> set (gw_past (process_exit p w))"
    using gate_invD(5) [OF inv] by (auto simp: exit)
qed

lemma gate_inv_spawn: "gate_inv w \<Longrightarrow> gate_inv (gate_step w (Spawn p))"
proof -
  assume inv: "gate_inv w"
  define v where "v = w\<lparr>gw_running := gw_running w @ [p], gw_past := gw_past w @ [p]\<rparr>"
  have v: "gw_running v = gw_running w @ [p]" "gw_past v = gw_past w @ [p]" "gw_gates v = gw_gates w"
    "gw_counter v = gw_counter w" "gw_retained v = gw_retained w" "gw_file v = gw_file w" by (simp_all add: v_def)
  have run: "g \<in> set (gw_gates w) \<Longrightarrow> cg_owner g \<in> set (gw_running w @ [p]) \<and> \<not> cg_released g"
    "set (gw_retained w) \<subseteq> set (gw_running w @ [p])" "set (gw_running w @ [p]) \<subseteq> set (gw_past w @ [p])" for g
    using gate_invD(1,2,4,5) [OF inv] by auto
  have "gate_inv v"
    by (rule gate_invI; unfold v) (use run gate_invD(3,6,7,8) [OF inv] in blast)+
  with inv show ?thesis by (simp add: v_def)
qed

interpretation gate: state_machine gate_world_init gate_step gate_inv
proof
  show "gate_inv gate_world_init" by (simp add: gate_inv_def gate_world_init_def)
next
  fix w op
  assume inv: "gate_inv w"
  show "gate_inv (gate_step w op)"
  proof (cases op)
    case (Spawn p)
    with gate_inv_spawn [OF inv] show ?thesis by simp
  next
    case (Exit p)
    with gate_inv_exit [OF inv] show ?thesis by simp
  next
    case (Reserve an p hash roots)
    with execution_gate_effect [of an p hash roots w] gate_inv_refused [OF inv] gate_inv_granted [OF inv, of p] inv
    show ?thesis by (cases "execution_gate an p hash roots w") (auto split: sum.splits)
  next
    case (Finish an confirmed i)
    obtain r w' where run: "reservation_finish an confirmed i w = (r, w')" by fastforce
    have "gate_inv w'" if "i < length (gw_gates w)" using reservation_finish_effect [OF inv that run] by blast
    with Finish run inv show ?thesis by simp
  next
    case (DropReservation an i)
    have "gate_inv (reservation_drop an i w)" if "i < length (gw_gates w)"
      using reservation_drop_effect [OF inv that refl] by blast
    with DropReservation inv show ?thesis by simp
  next
    case (QuarantineSetup an p helper)
    with gate_inv_setup [OF inv, of p an helper] inv show ?thesis by (cases "quarantine_setup_binding an p helper w") auto
  next
    case (Repair an probe view accept_unverified deadline)
    with gate_inv_repair [OF inv] show ?thesis
      by (cases "repair_execution_gate an probe view accept_unverified deadline w") auto
  qed
qed


section \<open>A closed gate\<close>

text \<open>
  The gate is closed when its file cannot be read, or records a reservation whose owner has ended, or
  one whose owner has set the event and keeps it.
\<close>

definition lost :: "gate_world \<Rightarrow> gate_entry \<Rightarrow> bool" where
  "lost w e \<longleftrightarrow> entry_owner e \<in> set (gw_past w) \<and> entry_owner e \<notin> set (gw_running w) \<or>
     gw_signal w \<and> entry_owner e \<in> set (gw_retained w)"

definition gate_closed :: "gate_world \<Rightarrow> bool" where
  "gate_closed w \<longleftrightarrow> (case entries_of (gw_file w) of None \<Rightarrow> True | Some es \<Rightarrow> list_ex (lost w) es)"

lemma gate_closed_iff:
  "gate_closed w \<longleftrightarrow> (\<forall>es. entries_of (gw_file w) = Some es \<longrightarrow> (\<exists>e \<in> set es. lost w e))"
  by (auto simp: gate_closed_def list_ex_iff split: option.splits)

lemma gate_closed_keeps:
  assumes "gate_closed w" "\<And>es e. entries_of (gw_file w) = Some es \<Longrightarrow> e \<in> set es \<Longrightarrow> lost w e \<Longrightarrow>
      entries_of (gw_file w') = None \<or> (\<exists>es'. entries_of (gw_file w') = Some es' \<and> e \<in> set es' \<and> lost w' e)"
    and "entries_of (gw_file w) = None \<Longrightarrow> entries_of (gw_file w') = None"
  shows "gate_closed w'"
  unfolding gate_closed_iff
proof (intro allI impI)
  fix es' assume es': "entries_of (gw_file w') = Some es'"
  with assms(3) obtain es where es: "entries_of (gw_file w) = Some es" by fastforce
  with assms(1) obtain e where "e \<in> set es" "lost w e" by (auto simp: gate_closed_iff)
  with assms(2) [OF es] es' show "\<exists>e \<in> set es'. lost w' e" by fastforce
qed

lemma closed_gate_refuses:
  assumes "gate_closed w"
  shows "\<exists>err w'. execution_gate an p hash roots w = (Inl err, w') \<and> gate_refused w w'"
proof -
  obtain r w' where run: "execution_gate an p hash roots w = (r, w')" by fastforce
  note eff = execution_gate_effect [OF run]
  have "\<not> gate_granted p hash w w'"
  proof
    assume "gate_granted p hash w w'"
    then obtain es where "entries_of (gw_file w) = Some es" "\<not> gw_signal w"
      "\<forall>e \<in> set es. entry_owner e \<in> set (gw_running w)" unfolding gate_granted_def by blast
    with assms show False by (auto simp: gate_closed_iff lost_def)
  qed
  with eff run show ?thesis by (cases r) auto
qed

lemma gate_closed_refused:
  assumes "gate_closed w" "gate_refused w w'"
  shows "gate_closed w'"
  using assms(1)
  by (rule gate_closed_keeps) (use assms(2) in \<open>auto simp: gate_refused_def lost_def\<close>)

lemma gate_closed_quarantined:
  assumes "gate_closed w" "quarantined_by an p w w'" "gw_running w' = gw_running w" "gw_past w' = gw_past w"
  shows "gate_closed w'"
  using assms(1)
  by (rule gate_closed_keeps) (use assms(2-4) in \<open>auto simp: quarantined_by_def lost_def\<close>)

lemma gate_closed_released:
  assumes "gate_closed w" "released_by gate w w'" "gw_running w' = gw_running w" "gw_past w' = gw_past w"
    and owner: "cg_owner gate \<in> set (gw_running w)"
  shows "gate_closed w'"
  using assms(1)
  by (rule gate_closed_keeps) (use assms(2-4) owner in \<open>auto simp: released_by_def lost_def mine_def\<close>)

lemma gate_closed_setup:
  assumes "gate_closed w" and run: "quarantine_setup_binding an p helper w = (r, w')"
  shows "gate_closed w'"
  using assms(1)
proof (rule gate_closed_keeps)
  note eff = quarantine_setup_effect [OF run]
  show "entries_of (gw_file w') = None" if "entries_of (gw_file w) = None" using eff(8) that by auto
  fix es e assume e: "entries_of (gw_file w) = Some es" "e \<in> set es" "lost w e"
  have "lost w' e" using e(3) eff(1,2,5,7) by (auto simp: lost_def)
  with e(1,2) eff(8) show "entries_of (gw_file w') = None \<or> (\<exists>es'. entries_of (gw_file w') = Some es' \<and> e \<in> set es' \<and> lost w' e)"
    by auto
qed

lemma gate_closed_exit:
  assumes inv: "gate_inv w" and "gate_closed w"
  shows "gate_closed (process_exit p w)"
  using assms(2)
proof (rule gate_closed_keeps)
  have same: "gw_file (process_exit p w) = gw_file w" by (simp add: process_exit_def Let_def)
  then show "entries_of (gw_file (process_exit p w)) = None" if "entries_of (gw_file w) = None" using that by simp
  fix es e assume e: "entries_of (gw_file w) = Some es" "e \<in> set es" "lost w e"
  have "lost (process_exit p w) e"
  proof (cases "entry_owner e = p")
    case True
    then have "p \<in> set (gw_past w)" using e(3) gate_invD(4,5) [OF inv] by (auto simp: lost_def)
    with True show ?thesis by (auto simp: lost_def process_exit_def Let_def)
  next
    case False
    then have "entry_owner e \<in> set (gw_retained w) \<Longrightarrow> removeAll p (gw_retained w) \<noteq> []"
      by (auto simp: filter_empty_conv removeAll_filter_not_eq)
    with False e(3) show ?thesis by (auto simp: lost_def process_exit_def Let_def)
  qed
  with e same show "entries_of (gw_file (process_exit p w)) = None \<or>
      (\<exists>es'. entries_of (gw_file (process_exit p w)) = Some es' \<and> e \<in> set es' \<and> lost (process_exit p w) e)" by simp
qed

text \<open>Only a repair opens it.\<close>

definition is_repair :: "gate_op \<Rightarrow> bool" where
  "is_repair op = (case op of Repair _ _ _ _ _ \<Rightarrow> True | _ \<Rightarrow> False)"

lemma gate_closed_step:
  assumes inv: "gate_inv w" and closed: "gate_closed w" and "\<not> is_repair op"
  shows "gate_closed (gate_step w op)"
proof (cases op)
  case (Spawn p)
  from closed have "gate_closed (w\<lparr>gw_running := gw_running w @ [p], gw_past := gw_past w @ [p]\<rparr>)" if "p \<notin> set (gw_past w)"
    by (rule gate_closed_keeps) (use that in \<open>auto simp: lost_def\<close>)
  with Spawn closed show ?thesis by simp
next
  case (Exit p)
  with gate_closed_exit [OF inv closed] show ?thesis by simp
next
  case (Reserve an p hash roots)
  obtain err w' where "execution_gate an p hash roots w = (Inl err, w')" "gate_refused w w'"
    using closed_gate_refuses [OF closed] by blast
  with gate_closed_refused [OF closed] closed Reserve show ?thesis by simp
next
  case (Finish an confirmed i)
  obtain r w' where run: "reservation_finish an confirmed i w = (r, w')" by fastforce
  have "gate_closed w'" if i: "i < length (gw_gates w)"
    using reservation_finish_effect [OF inv i run] gate_closed_quarantined [OF closed, of an "cg_owner (gw_gates w ! i)" w']
      gate_closed_released [OF closed, of "gw_gates w ! i" w'] gate_invD(1) [OF inv nth_mem [OF i]] by (cases r) simp_all
  with Finish run closed show ?thesis by simp
next
  case (DropReservation an i)
  have "gate_closed (reservation_drop an i w)" if i: "i < length (gw_gates w)"
    using reservation_drop_effect [OF inv i refl, of an] gate_closed_quarantined [OF closed] gate_closed_released [OF closed]
      gate_invD(1) [OF inv nth_mem [OF i]] by blast
  with DropReservation closed show ?thesis by simp
next
  case (QuarantineSetup an p helper)
  obtain r w' where run: "quarantine_setup_binding an p helper w = (r, w')" by fastforce
  with gate_closed_setup [OF closed run] QuarantineSetup closed show ?thesis by simp
next
  case (Repair an probe view accept_unverified deadline)
  with assms(3) show ?thesis by (simp add: is_repair_def)
qed

lemma gate_closed_run:
  assumes "gate_inv w" "gate_closed w" "\<not> list_ex is_repair ops"
  shows "gate_closed (run_ops gate_step w ops)"
  using assms
proof (induction ops arbitrary: w)
  case (Cons op ops)
  with gate_closed_step [of w op] gate.inv_step [of w op] show ?case by simp
qed simp


text \<open>What leaves a cleanup unverified: the end of a process that holds a gate, or a finish that fails and sets the event.\<close>

definition leaves_cleanup_unverified :: "gate_world \<Rightarrow> gate_op \<Rightarrow> bool" where
  "leaves_cleanup_unverified w op =
     (case op of
        Exit p \<Rightarrow> list_ex (\<lambda>g. cg_owner g = p) (gw_gates w)
      | Finish an confirmed i \<Rightarrow>
          i < length (gw_gates w) \<and> \<not> is_ok (fst (reservation_finish an confirmed i w)) \<and> ga_set_event an
      | _ \<Rightarrow> False)"

lemma unverified_closes:
  assumes inv: "gate_inv w" and "leaves_cleanup_unverified w op"
  shows "gate_closed (gate_step w op)"
proof (cases op)
  case (Exit p)
  with assms(2) obtain g where g: "g \<in> set (gw_gates w)" "cg_owner g = p"
    by (auto simp: leaves_cleanup_unverified_def list_ex_iff)
  have past: "p \<in> set (gw_past w)" using gate_invD(1) [OF inv g(1)] gate_invD(5) [OF inv] g(2) by auto
  show ?thesis unfolding gate_closed_iff
  proof (intro allI impI)
    fix es assume "entries_of (gw_file (gate_step w op)) = Some es"
    then have "entries_of (gw_file w) = Some es" using Exit by (simp add: process_exit_def Let_def)
    from gate_invD(3) [OF inv this g(1)] obtain e where "e \<in> set es" "entry_owner e = p" using g(2) by (auto simp: mine_def)
    with past Exit show "\<exists>e \<in> set es. lost (gate_step w op) e"
      by (intro bexI [of _ e]) (auto simp: lost_def process_exit_def Let_def)
  qed
next
  case (Finish an confirmed i)
  obtain r w' where run: "reservation_finish an confirmed i w = (r, w')" by fastforce
  with assms(2) Finish obtain err where i: "i < length (gw_gates w)" and r: "r = Inl err" and set_event: "ga_set_event an"
    by (cases r) (auto simp: leaves_cleanup_unverified_def is_ok_def)
  let ?g = "gw_gates w ! i"
  have q: "quarantined_by an (cg_owner ?g) w w'" using reservation_finish_effect [OF inv i run] r by simp
  have step: "gate_step w op = w'" using Finish i run by simp
  show ?thesis unfolding gate_closed_iff step
  proof (intro allI impI)
    fix es assume "entries_of (gw_file w') = Some es"
    then have "entries_of (gw_file w) = Some es" using q by (auto simp: quarantined_by_def)
    from gate_invD(3) [OF inv this nth_mem [OF i]] obtain e where "e \<in> set es" "entry_owner e = cg_owner ?g"
      by (auto simp: mine_def)
    with q set_event show "\<exists>e \<in> set es. lost w' e" by (intro bexI [of _ e]) (auto simp: lost_def quarantined_by_def)
  qed
qed (use assms(2) in \<open>simp_all add: leaves_cleanup_unverified_def\<close>)

section \<open>Links in runtime trees\<close>

fun has_link :: "fs_node \<Rightarrow> bool" where
  "has_link FsLink = True"
| "has_link (FsFile _) = False"
| "has_link (FsDir entries) = list_ex (has_link \<circ> snd) entries"

lemma scan_entries_links:
  "(case scan_entries entries stack of None \<Rightarrow> False | Some stack' \<Rightarrow> \<not> list_ex (has_link \<circ> FsDir) stack') \<longleftrightarrow>
     \<not> list_ex (has_link \<circ> FsDir) (entries # stack)"
proof (cases "list_ex (\<lambda>entry. snd entry = FsLink) entries")
  case True
  then show ?thesis by (force simp: scan_entries_def list_ex_iff)
next
  case False
  then have "list_ex (has_link \<circ> snd) entries \<longleftrightarrow>
      list_ex (has_link \<circ> FsDir) (filter_map (\<lambda>entry. case snd entry of FsDir children \<Rightarrow> Some children | _ \<Rightarrow> None) entries)"
  proof (induction entries)
    case (Cons x xs)
    then show ?case by (cases "snd x") (simp_all add: filter_map_def)
  qed (simp add: filter_map_def)
  with False show ?thesis by (simp add: scan_entries_def list_ex_append list_ex_rev)
qed

lemma scan_finds_links: "runtime_tree_has_no_symlinks stack \<longleftrightarrow> \<not> list_ex (has_link \<circ> FsDir) stack"
proof (induction stack rule: runtime_tree_has_no_symlinks.induct)
  case (2 entries stack)
  then have "runtime_tree_has_no_symlinks (entries # stack) \<longleftrightarrow>
      (case scan_entries entries stack of None \<Rightarrow> False | Some stack' \<Rightarrow> \<not> list_ex (has_link \<circ> FsDir) stack')"
    by (auto simp: comp_def split: option.splits)
  then show ?case by (simp only: scan_entries_links)
qed simp


section \<open>What holds\<close>

definition smooth :: gate_answers where
  "smooth =
     \<lparr>ga_now = 5, ga_path = True, ga_event = True, ga_signal = (\<lambda>_. False), ga_set_event = True, ga_mutex = True, ga_wait = True,
      ga_read = True, ga_write = Written, ga_marker_write = True, ga_creation_time = True, ga_inspect = (\<lambda>_. True)\<rparr>"

definition sample_gate_ops :: "gate_op list" where
  "sample_gate_ops =
     [Spawn (7, 70), Spawn (8, 80), Reserve smooth (7, 70) ''h'' [''r''], Reserve smooth (8, 80) ''h'' []]"

text \<open>
  C5: In every history of processes that start, end, reserve, finish, drop and repair, whatever the
  operating system answers to each call, all gates that are held carry one policy hash: sandboxed
  executions of two policies never overlap on the machine. Each is held by a running process, and its
  reservation is in the state file unless the file has been destroyed.
\<close>

theorem one_policy_at_a_time:
  assumes "w = run_ops gate_step gate_world_init ops" "g \<in> set (gw_gates w)" "h \<in> set (gw_gates w)"
  shows "cg_policy_hash g = cg_policy_hash h \<and> cg_owner g \<in> set (gw_running w) \<and>
    (case entries_of (gw_file w) of None \<Rightarrow> True | Some es \<Rightarrow> list_ex (mine g) es)"
proof -
  have inv: "gate_inv w" unfolding assms(1) by (rule gate.inv_reachable)
  from gate_invD(1) [OF inv assms(2)] gate_invD(7) [OF inv assms(2,3)] gate_invD(3) [OF inv _ assms(2)] show ?thesis
    by (cases "entries_of (gw_file w)") (simp_all add: list_ex_iff)
qed

theorem one_policy_at_a_time_witness:
  "let gates = gw_gates (run_ops gate_step gate_world_init sample_gate_ops)
   in length gates = 2 \<and> gates ! 0 \<noteq> gates ! 1 \<and> cg_policy_hash (gates ! 0) = cg_policy_hash (gates ! 1)"
proof -
  define gates where "gates = gw_gates (run_ops gate_step gate_world_init sample_gate_ops)"
  have owners: "map cg_owner gates = [(7, 70), (8, 80)]" unfolding gates_def by code_simp
  then have len: "length gates = 2" by (metis length_map list.size(3,4) One_nat_def Suc_1 add.right_neutral add_Suc_right)
  with owners have "cg_owner (gates ! 0) = (7, 70)" "cg_owner (gates ! 1) = (8, 80)"
    by (metis nth_map nth_Cons_0 zero_less_numeral, metis nth_map nth_Cons_0 nth_Cons_Suc One_nat_def one_less_numeral_iff semiring_norm(76))
  then have "gates ! 0 \<noteq> gates ! 1" by auto
  moreover have "cg_policy_hash (gates ! 0) = cg_policy_hash (gates ! 1)"
    using one_policy_at_a_time [OF refl, of "gates ! 0" sample_gate_ops "gates ! 1"] len unfolding gates_def by simp
  ultimately show ?thesis using len unfolding gates_def by (simp add: Let_def)
qed

text \<open>
  C6: When a process ends while it holds a gate, or a finish fails and the event is set, no reservation
  succeeds again, for any process and any policy and through any number of further operations and
  restarts, until an operator repairs the gate.
\<close>

theorem unverified_cleanup_closes_the_gate:
  assumes "leaves_cleanup_unverified w op" "w = run_ops gate_step gate_world_init ops" "\<not> list_ex is_repair later"
  shows "\<not> is_ok (fst (execution_gate an p hash roots (run_ops gate_step (gate_step w op) later)))"
proof -
  have inv: "gate_inv w" unfolding assms(2) by (rule gate.inv_reachable)
  have "gate_closed (run_ops gate_step (gate_step w op) later)"
    by (rule gate_closed_run [OF gate.inv_step [OF inv] unverified_closes [OF inv assms(1)] assms(3)])
  from closed_gate_refuses [OF this, of an p hash roots] show ?thesis by (auto simp: is_ok_def)
qed

theorem unverified_cleanup_closes_the_gate_witness:
  "let w = run_ops gate_step gate_world_init sample_gate_ops
   in leaves_cleanup_unverified w (Exit (7, 70)) \<and>
      \<not> is_ok (fst (execution_gate smooth (9, 90) ''h'' []
        (run_ops gate_step (gate_step w (Exit (7, 70))) [Spawn (9, 90), Finish smooth True 0])))"
proof -
  have left: "leaves_cleanup_unverified (run_ops gate_step gate_world_init sample_gate_ops) (Exit (7, 70))" by code_simp
  have "\<not> list_ex is_repair [Spawn (9, 90), Finish smooth True 0]" by (simp add: is_repair_def)
  from unverified_cleanup_closes_the_gate [OF left refl this] left show ?thesis unfolding Let_def by blast
qed

lemma fold_clear_root_ok:
  "fold_result (clear_root view) roots report = Inr report' \<Longrightarrow>
     (\<forall>root \<in> set roots. is_ok (remove_recorded_runtime_root (view root))) \<and>
     gr_cleared_executions report' = gr_cleared_executions report"
  by (induction roots arbitrary: report) (auto simp: clear_root_def result_simps is_ok_def split: if_splits)

lemma fold_clear_entry_ok:
  "fold_result (clear_entry view accept_unverified) es report = Inr report' \<Longrightarrow>
     (\<forall>e \<in> set es. case ge_roots e of None \<Rightarrow> accept_unverified
        | Some roots \<Rightarrow> list_all (\<lambda>root. is_ok (remove_recorded_runtime_root (view root))) roots) \<and>
     gr_cleared_executions report' = gr_cleared_executions report + length es"
proof (induction es arbitrary: report)
  case (Cons e es)
  obtain r where r: "clear_entry view accept_unverified e report = Inr r" "fold_result (clear_entry view accept_unverified) es r = Inr report'"
    using Cons.prems by (auto simp: result_simps)
  have "(case ge_roots e of None \<Rightarrow> accept_unverified
        | Some roots \<Rightarrow> list_all (\<lambda>root. is_ok (remove_recorded_runtime_root (view root))) roots) \<and>
      gr_cleared_executions r = gr_cleared_executions report + 1"
    using r(1) by (auto simp: clear_entry_def Let_def result_simps list_all_iff dest!: fold_clear_root_ok split: option.splits)
  with Cons.IH [OF r(2)] show ?case by simp
qed simp

text \<open>
  C25: A repair that reports the gate repaired rests on its proofs: every recorded owner has ended, no
  process of the sandbox identity runs, none escaped inspection or the operator accepted that, every
  recorded runtime root was removed or is gone, and an entry that recorded none was accepted. It
  counts every cleared reservation, and afterwards no reservation, marker or signal is left.
\<close>

theorem repair_rests_on_proofs:
  assumes "repair_execution_gate an probe view accept_unverified deadline w = (Inr report, w')" "gr_repaired report"
    "entries_of (gw_file w) = Some es"
  shows "list_all (\<lambda>e. entry_owner e \<notin> set (gw_running w)) es \<and>
    (\<exists>n. probe = Inr ([], n) \<and> (accept_unverified \<or> n = 0)) \<and>
    list_all (\<lambda>e. case ge_roots e of None \<Rightarrow> accept_unverified
        | Some roots \<Rightarrow> list_all (\<lambda>root. is_ok (remove_recorded_runtime_root (view root))) roots) es \<and>
    gr_cleared_executions report = length es \<and>
    entries_of (gw_file w') = Some [] \<and> \<not> gw_marker w' \<and> \<not> gw_signal w' \<and> gw_gates w' = gw_gates w"
proof -
  obtain rep where proofs: "repair_proofs an probe view accept_unverified deadline w = Inr (Some rep)"
    and after: "gr_cleared_executions report = gr_cleared_executions rep" "entries_of (gw_file w') = Some []"
      "\<not> gw_marker w'" "\<not> gw_signal w'" "gw_gates w' = gw_gates w"
    using assms(1,2)
    by (auto simp: repair_execution_gate_def write_cross_process_gate_state_def Let_def gate_repair_default_def
        quarantine_check_def is_ok_def reject_if_def
        split: if_splits option.splits sum.splits write_outcome.splits)
  obtain n where probe: "probe = Inr ([], n)" "accept_unverified \<or> n = 0"
    and fold: "fold_result (clear_entry view accept_unverified) es (gate_repair_default\<lparr>gr_uninspectable := n\<rparr>) = Inr rep"
    using proofs assms(3) by (auto simp: repair_proofs_def result_simps read_entries split: if_splits)
  have "list_all (\<lambda>e. entry_owner e \<notin> set (gw_running w)) es"
    using repair_proofs_owners [OF proofs] assms(3) by (simp add: list_all_iff)
  with probe fold_clear_entry_ok [OF fold] after show ?thesis by (simp add: list_all_iff gate_repair_default_def)
qed

definition sample_abandoned :: gate_world where
  "sample_abandoned = run_ops gate_step gate_world_init (sample_gate_ops @ [Exit (7, 70), Exit (8, 80)])"

definition sample_root :: "string \<Rightarrow> root_view" where
  "sample_root name =
     \<lparr>rv_absolute = True, rv_in_runtime = True, rv_name = Some name, rv_exists = True,
      rv_node = FsDir [(RUNTIME_ROOT_MARKER, FsFile name), (''tmp'', FsDir [(''log'', FsFile ''x'')])], rv_io = (\<lambda>_. True)\<rparr>"

theorem repair_rests_on_proofs_witness:
  "let repaired = repair_execution_gate smooth (Inr ([], 0)) sample_root False 1000 sample_abandoned
   in is_ok (fst repaired) \<and> gr_removed_runtime_roots (projr (fst repaired)) = 1 \<and>
      gr_cleared_executions (projr (fst repaired)) = 2 \<and> entries_of (gw_file (snd repaired)) = Some []"
proof -
  define repaired where "repaired = repair_execution_gate smooth (Inr ([], 0)) sample_root False 1000 sample_abandoned"
  define es where "es = the (entries_of (gw_file sample_abandoned))"
  have ok: "is_ok (fst repaired)" unfolding repaired_def by code_simp
  have roots: "gr_removed_runtime_roots (projr (fst repaired)) = 1" unfolding repaired_def by code_simp
  have rep: "gr_repaired (projr (fst repaired))" unfolding repaired_def by code_simp
  have "entries_of (gw_file sample_abandoned) \<noteq> None" by code_simp
  then have es: "entries_of (gw_file sample_abandoned) = Some es" by (auto simp: es_def)
  have len: "length es = 2" unfolding es_def by code_simp
  have "repair_execution_gate smooth (Inr ([], 0)) sample_root False 1000 sample_abandoned =
      (Inr (projr (fst repaired)), snd repaired)"
    using ok unfolding repaired_def [symmetric] by (cases repaired; cases "fst repaired") (auto simp: is_ok_def)
  from repair_rests_on_proofs [OF this rep es] len ok roots show ?thesis
    unfolding repaired_def [symmetric] by (simp add: Let_def)
qed

text \<open>
  The scan of a runtime tree before it is removed finds a symbolic link anywhere in it, however deep,
  and reads every directory once.
\<close>

theorem runtime_scan_finds_every_link:
  "runtime_tree_has_no_symlinks [entries] \<longleftrightarrow> \<not> has_link (FsDir entries)"
  by (simp add: scan_finds_links del: runtime_tree_has_no_symlinks.simps)

text \<open>
  What the gate writes it reads back: the reservations, their identifiers, creation times at full
  64-bit width and runtime roots.
\<close>

theorem gate_state_round_trips:
  "read_cross_process_gate_state True (snd (write_cross_process_gate_state Written es previous)) = Inr es"
  by (simp add: read_cross_process_gate_state_def write_cross_process_gate_state_def)

end
