(* ===== verification/Execution_Backend.thy ===== *)
theory Execution_Backend
  imports Execution_Journal
begin

text \<open>
  What an execution and its backend exchange: the errors of \<open>src/backend/error.rs\<close>, the output sink
  of \<open>src/backend/execution.rs\<close>, and how \<open>src/execution/errors.rs\<close> and \<open>src/execution/output.rs\<close> read
  them. The backend itself is a parameter, as the trait \<open>SandboxBackend\<close> is one of the engine.
\<close>

section \<open>Errors\<close>

text \<open>An \<open>io::Error\<close> by the type it carries; exit codes are 32-bit.\<close>

datatype backend_failure =
    CleanupFailure
  | CleanupFacts "32 word option" bool
  | CleanupUnconfirmed string
  | InputFacts "32 word" bool
  | UnavailableFailure string
  | TransitionBusy string
  | OtherFailure string

fun input_failed :: "backend_failure \<Rightarrow> bool" where
  "input_failed (InputFacts _ _) = True"
| "input_failed _ = False"

fun cleanup_exit_code :: "backend_failure \<Rightarrow> 32 word option" where
  "cleanup_exit_code (CleanupFacts code _) = code"
| "cleanup_exit_code _ = None"

fun failure_exit_code :: "backend_failure \<Rightarrow> 32 word option" where
  "failure_exit_code (InputFacts code _) = Some code"
| "failure_exit_code err = cleanup_exit_code err"

fun cleanup_timed_out :: "backend_failure \<Rightarrow> bool" where
  "cleanup_timed_out (CleanupFacts _ timed_out) = timed_out"
| "cleanup_timed_out _ = False"

fun failure_timed_out :: "backend_failure \<Rightarrow> bool" where
  "failure_timed_out (InputFacts _ timed_out) = timed_out"
| "failure_timed_out err = cleanup_timed_out err"

fun backend_cleanup_failed :: "backend_failure \<Rightarrow> bool" where
  "backend_cleanup_failed CleanupFailure = True"
| "backend_cleanup_failed (CleanupFacts _ _) = True"
| "backend_cleanup_failed (CleanupUnconfirmed _) = True"
| "backend_cleanup_failed _ = False"

fun backend_unavailable_reason :: "backend_failure \<Rightarrow> string option" where
  "backend_unavailable_reason (UnavailableFailure reason) = Some reason"
| "backend_unavailable_reason _ = None"

fun policy_transition_busy_reason :: "backend_failure \<Rightarrow> string option" where
  "policy_transition_busy_reason (TransitionBusy reason) = Some reason"
| "policy_transition_busy_reason _ = None"

text \<open>\<open>setup_status\<close> is what the setup command reports for a working directory on Windows.\<close>

definition backend_unavailable_setup_status :: "platform \<Rightarrow> json \<Rightarrow> string \<Rightarrow> json option" where
  "backend_unavailable_setup_status pf setup_status reason =
     (if pf = Windows \<and> starts_with reason ''windows sandbox'' then Some setup_status else None)"

definition backend_execution_error ::
  "platform \<Rightarrow> json \<Rightarrow> backend_failure \<Rightarrow> bool \<Rightarrow> (string \<times> string \<times> json option) option" where
  "backend_execution_error pf setup_status err sandbox_enforced =
     (case policy_transition_busy_reason err of
        Some reason \<Rightarrow> Some (''POLICY_TRANSITION_BUSY'', reason, None)
      | None \<Rightarrow>
          (case backend_unavailable_reason err of
             Some reason \<Rightarrow>
               if sandbox_enforced
               then Some (''BACKEND_UNAVAILABLE'', reason, backend_unavailable_setup_status pf setup_status reason)
               else None
           | None \<Rightarrow> None))"

text \<open>The error of a plan that could not be compiled.\<close>

record backend_error =
  be_code :: string
  be_reason :: string
  be_backend :: string
  be_backend_status :: string
  be_platform :: string
  be_support :: string
  be_missing_features :: "string list"
  be_plan :: "json option"

definition details_json :: "backend_error \<Rightarrow> json" where
  "details_json err =
     (let details = json_object
        [(''backend'', json_object [(''name'', JStr (be_backend err)), (''status'', JStr (be_backend_status err)),
           (''platform'', JStr (be_platform err))]),
         (''support'', JStr (be_support err)), (''missing_features'', json_strs (be_missing_features err))] in
      case be_plan err of None \<Rightarrow> details | Some plan \<Rightarrow> json_set details ''platform_plan'' plan)"

section \<open>Messages and results\<close>

datatype output_stream = Stdout | Stderr | Terminal | Control

datatype backend_message =
    Started string "32 word"
  | SignalDelivered "64 word" "32 word" "32 word option"
  | Output output_stream "byte list"

record backend_output =
  bo_code :: "32 word option"
  bo_signal :: "32 word option"
  bo_timed_out :: bool
  bo_cleanup_complete :: bool
  bo_events :: "json list"

type_synonym backend_result = "(backend_failure, backend_output) result"

section \<open>The output sink\<close>

fun chunks :: "nat \<Rightarrow> 'a list \<Rightarrow> 'a list list" where
  "chunks n xs = (if n = 0 \<or> xs = [] then [] else take n xs # chunks n (drop n xs))"

declare chunks.simps [simp del]

text \<open>One attempt of \<open>deliver\<close>: the time of it and what \<open>try_send\<close> answers.\<close>

datatype send_answer = Sent | SendFull | SendDisconnected

record send_attempt =
  sa_now :: instant
  sa_answer :: send_answer

datatype sink_error = SinkCleanup | SinkStopped | SinkClosed | SinkStalled

text \<open>No result is that the attempts given have not ended it; in between, others may use the control.\<close>

fun deliver ::
  "deployment_limits \<Rightarrow> instant \<Rightarrow> bool \<Rightarrow> (execution_control \<times> send_attempt) list \<Rightarrow>
     ((sink_error, unit) result \<times> termination_cause option) option" where
  "deliver limits start stop_on_cancel [] = None"
| "deliver limits start stop_on_cancel ((control, attempt) # rest) =
     (if cleanup_deadline_expired (sa_now attempt) control then Some (Inl SinkCleanup, None)
      else if stop_on_cancel \<and> is_cancelled control then Some (Inl SinkStopped, None)
      else
        (case sa_answer attempt of
           Sent \<Rightarrow> Some (Inr (), None)
         | SendDisconnected \<Rightarrow> Some (Inl SinkClosed, Some ClientDisconnected)
         | SendFull \<Rightarrow>
             if start + backpressure_timeout limits \<le> sa_now attempt then Some (Inl SinkStalled, Some Backpressure)
             else deliver limits start stop_on_cancel rest))"

definition send_chunks :: "deployment_limits \<Rightarrow> output_stream \<Rightarrow> byte list \<Rightarrow> backend_message list" where
  "send_chunks limits stream bytes = map (Output stream) (chunks (stream_chunk_bytes limits) bytes)"

text \<open>
  What the sink sends for a start and for a delivered signal, before \<open>deliver\<close>; the identity of the
  process is set once.
\<close>

definition sink_started :: "string \<Rightarrow> 32 word \<Rightarrow> execution_control \<Rightarrow> backend_message \<times> execution_control" where
  "sink_started time process_id c =
     (Started time process_id,
      (case ctl_process_id c of Some _ \<Rightarrow> c | None \<Rightarrow> c\<lparr>ctl_process_id := Some process_id\<rparr>))"

definition signal_delivered_with_group ::
  "64 word \<Rightarrow> 32 word option \<Rightarrow> execution_control \<Rightarrow> (backend_failure, backend_message) result" where
  "signal_delivered_with_group sequence process_group c =
     (case ctl_process_id c of
        None \<Rightarrow> Inl (OtherFailure ''missing terminal identity'')
      | Some process_id \<Rightarrow> Inr (SignalDelivered sequence process_id process_group))"

definition signal_delivered :: "execution_control \<Rightarrow> (backend_failure, backend_message) result \<times> execution_control" where
  "signal_delivered c =
     (case take_pending_signal_sequence c of
        (None, c) \<Rightarrow> (Inl (OtherFailure ''missing interrupt sequence''), c)
      | (Some sequence, c) \<Rightarrow> (signal_delivered_with_group sequence None c, c))"

section \<open>Truncation\<close>

definition truncate_output :: "nat option \<Rightarrow> byte list \<Rightarrow> byte list \<Rightarrow> bool \<times> byte list \<times> byte list" where
  "truncate_output max_output stdout stderr =
     (case max_output of
        None \<Rightarrow> (False, stdout, stderr)
      | Some n \<Rightarrow>
          let stdout' = take n stdout;
              stderr' = take (n - length stdout') stderr in
          (length stdout' \<noteq> length stdout \<or> length stderr' \<noteq> length stderr, stdout', stderr'))"

section \<open>Laws\<close>

lemma concat_chunks: "0 < n \<Longrightarrow> concat (chunks n xs) = xs"
  by (induction n xs rule: chunks.induct) (subst chunks.simps, auto)

lemma chunks_bounded: "c \<in> set (chunks n xs) \<Longrightarrow> c \<noteq> [] \<and> length c \<le> n"
  by (induction n xs rule: chunks.induct) (subst (asm) (2) chunks.simps, auto split: if_splits)

lemma truncate_noop:
  "length stdout + length stderr \<le> n \<Longrightarrow> truncate_output (Some n) stdout stderr = (False, stdout, stderr)"
  by (simp add: truncate_output_def Let_def)

text \<open>A delivery ends at the latest with the first attempt past the limit for a stalled consumer.\<close>

lemma deliver_is_timely:
  assumes "\<exists>(control, attempt) \<in> set attempts. start + backpressure_timeout limits \<le> sa_now attempt"
  shows "\<exists>r. deliver limits start stop_on_cancel attempts = Some r"
  using assms
proof (induction attempts)
  case (Cons x rest)
  obtain control attempt where x: "x = (control, attempt)" by fastforce
  show ?case
  proof (cases "start + backpressure_timeout limits \<le> sa_now attempt")
    case True
    then show ?thesis by (auto simp: x split: send_answer.splits)
  next
    case False
    with Cons x have "\<exists>r. deliver limits start stop_on_cancel rest = Some r" by auto
    then show ?thesis by (auto simp: x split: send_answer.splits)
  qed
qed simp

end
