(* ===== verification/Execution_Preparation.thy ===== *)
theory Execution_Preparation
  imports Execution_Backend
begin

text \<open>
  The first half of an execution, from \<open>src/execution/engine.rs\<close> and \<open>src/execution/preparation.rs\<close>:
  the wait for its admission, the checks of its policy, the compilation of its plan on a thread of its
  own, the reservation, the journal's first events, up to the start of the backend worker. Other
  threads use the control at any time; what they do before each point at which the engine looks, the
  clock, the file system and the observer are answers that the environment gives by the number of that
  point. The answers to polls are lists: no result means that the lists given did not end the wait.
\<close>

section \<open>The engine and its environment\<close>

record sandbox_plan =
  pl_backend :: string
  pl_backend_status :: string
  pl_platform :: string
  pl_enforcement :: string
  pl_json :: json

definition is_sandbox_enforced :: "sandbox_plan \<Rightarrow> bool" where
  "is_sandbox_enforced plan \<longleftrightarrow> pl_enforcement plan \<noteq> ''local-execution''"

text \<open>What the backend, the deadline thread and the service may do to the control meanwhile.\<close>

datatype control_act = OtherRequest termination_cause | OtherBegin | OtherAdopt instant

fun other_act :: "deployment_limits \<Rightarrow> instant \<Rightarrow> control_act \<Rightarrow> execution_control \<Rightarrow> execution_control" where
  "other_act limits now (OtherRequest cause) c = snd (control_request limits now cause c)"
| "other_act limits now OtherBegin c = snd (begin_cleanup limits now c)"
| "other_act limits now (OtherAdopt deadline) c = snd (adopt_cleanup_deadline limits now deadline c)"

record engine_env =
  ee_platform :: platform
  ee_limits :: deployment_limits
  ee_journal :: journal_env
  ee_host :: host
  ee_name :: string
  ee_status :: string
  ee_backend_platform :: string
  ee_base64 :: "byte list \<Rightarrow> string"
  ee_decode :: "string \<Rightarrow> byte list \<Rightarrow> string"
  ee_setup_status :: json
  ee_compile :: "string \<Rightarrow> string \<Rightarrow> sandbox_policy \<Rightarrow> (backend_error, sandbox_plan) result"
  ee_reserve :: "sandbox_plan \<Rightarrow> (backend_failure, unit) result"
  ee_now :: "nat \<Rightarrow> instant"
  ee_time :: "nat \<Rightarrow> string"
  ee_others :: "nat \<Rightarrow> control_act list"
  ee_create :: "nat \<Rightarrow> bool"
  ee_write :: "nat \<Rightarrow> bool"
  ee_observe :: "nat \<Rightarrow> observer"

text \<open>The calls that reach outside, in order: \<open>FinishReservation confirmed ok\<close>, \<open>CleanObserver confirmed ok\<close>.\<close>

datatype engine_call =
    Reserved | Launched | StopTimer bool | FinishReservation bool bool | CleanObserver bool bool

record engine =
  eg_tick :: nat
  eg_control :: execution_control
  eg_journal :: execution_journal
  eg_observed :: "json list"
  eg_calls :: "engine_call list"

type_synonym 'a eng = "engine \<Rightarrow> 'a rs_result \<times> engine"
type_synonym 'a erun = "engine \<Rightarrow> ('a rs_result \<times> engine) option"

definition eok :: "'a \<Rightarrow> 'a eng" where
  "eok x = (\<lambda>s. (Inr x, s))"

definition eerr :: "runseal_error \<Rightarrow> 'a eng" where
  "eerr err = (\<lambda>s. (Inl err, s))"

definition ebind :: "'a eng \<Rightarrow> ('a \<Rightarrow> 'b eng) \<Rightarrow> 'b eng" where
  "ebind m f = (\<lambda>s. case m s of (Inl err, s) \<Rightarrow> (Inl err, s) | (Inr x, s) \<Rightarrow> f x s)"

definition ewhen :: "bool \<Rightarrow> runseal_error \<Rightarrow> unit eng" where
  "ewhen bad err = (if bad then eerr err else eok ())"

definition advance :: "engine_env \<Rightarrow> engine \<Rightarrow> engine" where
  "advance env s =
     (let t = Suc (eg_tick s) in
      s\<lparr>eg_tick := t, eg_control := fold (other_act (ee_limits env) (ee_now env t)) (ee_others env t) (eg_control s)\<rparr>)"

abbreviation clock :: "engine_env \<Rightarrow> engine \<Rightarrow> instant" where
  "clock env s \<equiv> ee_now env (eg_tick s)"

definition call :: "engine_call \<Rightarrow> engine \<Rightarrow> engine" where
  "call c s = s\<lparr>eg_calls := eg_calls s @ [c]\<rparr>"

definition request_stop :: "engine_env \<Rightarrow> termination_cause \<Rightarrow> engine \<Rightarrow> engine" where
  "request_stop env cause s =
     (let s = advance env s in
      s\<lparr>eg_control := snd (control_request (ee_limits env) (clock env s) cause (eg_control s))\<rparr>)"

text \<open>\<open>journal.emit\<close> with an observer that may be wrapped, as the error path does.\<close>

definition emit_with :: "engine_env \<Rightarrow> (observer \<Rightarrow> observer) \<Rightarrow> json \<Rightarrow> json eng" where
  "emit_with env wrap payload s =
     (let s = advance env s; t = eg_tick s in
      case journal_emit (ee_journal env) (ee_write env t) (ee_time env t) (wrap (ee_observe env t)) payload (eg_journal s) of
        (r, j, events) \<Rightarrow> (r, s\<lparr>eg_journal := j, eg_observed := eg_observed s @ events\<rparr>))"

abbreviation emit :: "engine_env \<Rightarrow> json \<Rightarrow> json eng" where
  "emit env \<equiv> emit_with env (\<lambda>observer. observer)"

section \<open>Checks while preparing\<close>

definition stopped_error :: "termination_cause \<Rightarrow> 64 word option \<Rightarrow> runseal_error" where
  "stopped_error cause timeout =
     error_with_details (case cause_error_code cause of Some code \<Rightarrow> code | None \<Rightarrow> ''EXECUTION_CANCELLED'')
       (if cause = Timeout then ''execution timed out'' else ''execution stopped before spawn'')
       (json_object [(''cleanup_complete'', JBool True), (''timeout_ms'', json_opt_u64 timeout)])"

definition past_timeout :: "instant \<Rightarrow> 64 word option \<Rightarrow> instant \<Rightarrow> bool" where
  "past_timeout accepted_at timeout now = (case timeout of None \<Rightarrow> False | Some t \<Rightarrow> accepted_at + unat t \<le> now)"

definition check_preparing :: "engine_env \<Rightarrow> instant \<Rightarrow> 64 word option \<Rightarrow> unit eng" where
  "check_preparing env accepted_at timeout s =
     (let s = advance env s;
          s = (if past_timeout accepted_at timeout (clock env s) then request_stop env Timeout s else s);
          s = advance env s in
      case control_cause (eg_control s) of
        Some cause \<Rightarrow> if cause = Exited then (Inr (), s) else (Inl (stopped_error cause timeout), s)
      | None \<Rightarrow> (Inr (), s))"

datatype admission_answer = Admitted | NotYet | AdmissionGone

fun wait_for_admission ::
  "engine_env \<Rightarrow> instant \<Rightarrow> 64 word option \<Rightarrow> admission_answer list \<Rightarrow> unit erun" where
  "wait_for_admission env accepted_at timeout [] s = None"
| "wait_for_admission env accepted_at timeout (answer # rest) s =
     (case check_preparing env accepted_at timeout s of
        (Inl err, s) \<Rightarrow> Some (Inl err, s)
      | (Inr _, s) \<Rightarrow>
          (case answer of
             Admitted \<Rightarrow> Some (check_preparing env accepted_at timeout s)
           | NotYet \<Rightarrow> wait_for_admission env accepted_at timeout rest s
           | AdmissionGone \<Rightarrow>
               Some (check_preparing env accepted_at timeout (request_stop env ClientDisconnected s))))"

section \<open>Compiling the plan\<close>

text \<open>A poll of the channel from a worker; \<open>Gone\<close> is a worker that ended without a result.\<close>

datatype 'a try_recv = NothingYet | Got 'a | Gone

record prep_turn =
  pt_poll :: "unit try_recv"
  pt_finished :: bool
  pt_joined :: bool
  pt_late :: bool

type_synonym compiled = "(backend_error, sandbox_plan) result"

text \<open>What the preparation worker computes.\<close>

definition preparation_outcome :: "engine_env \<Rightarrow> execution_request \<Rightarrow> compiled rs_result" where
  "preparation_outcome env request =
     rbind (validate_execution_cwd (ee_host env) (req_cwd request)) (\<lambda>_.
       Inr (ee_compile env (ids_execution_id (req_ids request)) (req_cwd request) (req_policy request)))"

definition failed_to_start :: "string \<Rightarrow> runseal_error" where
  "failed_to_start reason =
     error_with_details ''EXECUTION_FAILED_TO_START'' reason (json_object [(''cleanup_complete'', JBool True)])"

definition preparation_unverified :: runseal_error where
  "preparation_unverified =
     error_with_details ''EXECUTION_CLEANUP_FAILED'' ''execution preparation cleanup could not be verified''
       (json_object [(''cleanup_complete'', JBool False)])"

definition adopt :: "engine_env \<Rightarrow> instant option \<Rightarrow> engine \<Rightarrow> engine" where
  "adopt env deadline s =
     (case deadline of
        None \<Rightarrow> s
      | Some d \<Rightarrow> s\<lparr>eg_control := snd (adopt_cleanup_deadline (ee_limits env) (clock env s) d (eg_control s))\<rparr>)"

fun compile_loop ::
  "engine_env \<Rightarrow> compiled rs_result \<Rightarrow> prep_turn list \<Rightarrow> compiled rs_result option \<Rightarrow> instant option \<Rightarrow> compiled erun" where
  "compile_loop env outcome [] result confirmation s = None"
| "compile_loop env outcome (turn # turns) result confirmation s =
     (let s = advance env s;
          (result, confirmation, s) =
            (if result \<noteq> None then (result, confirmation, s)
             else case pt_poll turn of
                    Got _ \<Rightarrow> (Some outcome, Some (clock env s + cleanup_timeout (ee_limits env)), s)
                  | Gone \<Rightarrow> (None, confirmation, request_stop env FailedToStart s)
                  | NothingYet \<Rightarrow> (None, confirmation, s));
          s = (if is_cancelled (eg_control s) then adopt env confirmation s else s);
          expired = (case confirmation of None \<Rightarrow> False | Some d \<Rightarrow> d \<le> clock env s) in
      if expired \<or> cleanup_deadline_expired (clock env s) (eg_control s)
      then Some (Inl preparation_unverified, request_stop env FailedToStart (adopt env confirmation s))
      else if pt_finished turn
      then
        let result = (if result = None \<and> pt_late turn then Some outcome else result) in
        Some (case result of
                Some r \<Rightarrow> if pt_joined turn then r else Inl (failed_to_start ''execution preparation worker failed'')
              | None \<Rightarrow> Inl (failed_to_start ''execution preparation worker failed''), s)
      else compile_loop env outcome turns result confirmation s)"

definition compile_plan :: "engine_env \<Rightarrow> execution_request \<Rightarrow> bool \<Rightarrow> prep_turn list \<Rightarrow> compiled erun" where
  "compile_plan env request spawned turns s =
     (if \<not> spawned then Some (Inl (failed_to_start ''execution preparation worker unavailable''), s)
      else compile_loop env (preparation_outcome env request) turns None None s)"

section \<open>Before the plan\<close>

definition output_limit_of :: "engine_env \<Rightarrow> sandbox_policy \<Rightarrow> nat option" where
  "output_limit_of env policy =
     (case res_max_output_bytes (pol_resources policy) of
        Some limit \<Rightarrow> if unat limit \<le> max_output_bytes (ee_limits env) then Some (unat limit) else None
      | None \<Rightarrow> None)"

definition reject_execution :: "engine_env \<Rightarrow> string \<Rightarrow> string \<Rightarrow> 'a eng" where
  "reject_execution env code reason s =
     (let s = advance env s; t = eg_tick s in
      (Inl (journal_reject (ee_journal env) (ee_create env t) (ee_write env t) (ee_time env t) code reason (eg_journal s)), s))"

definition check_policy :: "engine_env \<Rightarrow> sandbox_policy \<Rightarrow> unit eng" where
  "check_policy env policy =
     (if requires_broad_write_approval policy
      then reject_execution env ''APPROVAL_REQUIRED'' ''filesystem broad write requires approval''
      else if denies_execution_without_backend policy
      then reject_execution env
             (if app_on_violation (pol_approval policy) = ''request'' then ''APPROVAL_REQUIRED'' else ''POLICY_DENIED'')
             ''filesystem write denied by policy''
      else eok ())"

text \<open>Up to the compilation, with the limit of the output.\<close>

definition check_request :: "engine_env \<Rightarrow> instant \<Rightarrow> execution_request \<Rightarrow> nat eng" where
  "check_request env timer request =
     ebind (check_preparing env timer (req_timeout request)) (\<lambda>_.
     ebind (ewhen (has_control (req_io request) \<noteq> (req_control_input request \<noteq> None))
       (error_new ''INVALID_REQUEST'' ''control input does not match execution I/O'')) (\<lambda>_.
     ebind (case output_limit_of env (req_policy request) of
              Some limit \<Rightarrow> eok limit
            | None \<Rightarrow> eerr (error_new ''POLICY_INVALID''
                ''effective policy output limit is missing or exceeds the deployment limit'')) (\<lambda>limit.
     ebind (ewhen (req_command request = []) (error_new ''INVALID_REQUEST'' ''command is empty'')) (\<lambda>_.
     ebind (check_policy env (req_policy request)) (\<lambda>_.
     ebind (check_preparing env timer (req_timeout request)) (\<lambda>_.
     eok limit))))))"

section \<open>From the plan to the launch\<close>

definition plan_error :: "engine_env \<Rightarrow> backend_error \<Rightarrow> 'a eng" where
  "plan_error env err s =
     (let s = advance env s; t = eg_tick s;
          details = details_json err;
          details = (if ee_platform env = Windows \<and> be_code err = ''BACKEND_UNAVAILABLE''
                     then json_set details ''setup_status'' (ee_setup_status env) else details);
          details = json_set details ''cleanup_complete'' (JBool True);
          error = error_with_details (be_code err) (be_reason err) details in
      (Inl (if err_code error = ''BACKEND_UNAVAILABLE''
            then audit_pre_admission_failure (ee_journal env) (ee_create env t) (ee_write env t) (ee_time env t) error
                   (json_object [(''type'', JStr ''sandbox.backend_capability''), (''decision'', JStr ''unavailable''),
                      (''reason'', JStr ''sandbox backend unavailable'')]) (eg_journal s)
            else error), s))"

definition reservation_error :: "engine_env \<Rightarrow> bool \<Rightarrow> backend_failure \<Rightarrow> runseal_error" where
  "reservation_error env sandbox_enforced err =
     (let cleanup_complete = \<not> backend_cleanup_failed err;
          (code, reason, setup_status) =
            (if cleanup_complete
             then (case backend_execution_error (ee_platform env) (ee_setup_status env) err sandbox_enforced of
                     Some found \<Rightarrow> found
                   | None \<Rightarrow> (''EXECUTION_FAILED_TO_START'', ''execution admission rejected'', None))
             else (''EXECUTION_CLEANUP_FAILED'', ''execution cleanup could not be verified'', None));
          details = json_object [(''cleanup_complete'', JBool cleanup_complete)] in
      error_with_details code reason
        (case setup_status of None \<Rightarrow> details | Some status \<Rightarrow> json_set details ''setup_status'' status))"

definition reserve_execution :: "engine_env \<Rightarrow> sandbox_plan \<Rightarrow> unit eng" where
  "reserve_execution env plan s =
     (case ee_reserve env plan of
        Inl err \<Rightarrow> (Inl (reservation_error env (is_sandbox_enforced plan) err), s)
      | Inr _ \<Rightarrow> (Inr (), call Reserved s))"

definition admit_journal :: "engine_env \<Rightarrow> nat \<Rightarrow> unit eng" where
  "admit_journal env command_args s =
     (let s = advance env s; t = eg_tick s in
      case journal_admit (ee_journal env) (ee_create env t) (ee_write env t) (ee_time env t) command_args (eg_journal s) of
        (r, j) \<Rightarrow> (r, s\<lparr>eg_journal := j\<rparr>))"

definition event_context :: "engine_env \<Rightarrow> execution_request \<Rightarrow> string \<Rightarrow> execution_event_context" where
  "event_context env request path =
     (let hash = je_hash (ee_journal env) (req_policy request) in
      \<lparr>ctx_ids = req_ids request, ctx_policy_id = pol_id (req_policy request), ctx_policy_hash = hash,
       ctx_policy_epoch = hash, ctx_audit_path = path,
       ctx_backend = backend_event_json (ee_name env) (ee_status env) (ee_backend_platform env)\<rparr>)"

text \<open>\<open>execution_event_now\<close> reads the clock, then the journal writes the event.\<close>

definition emit_now :: "engine_env \<Rightarrow> execution_event_context \<Rightarrow> json \<Rightarrow> json eng" where
  "emit_now env ctx payload s =
     emit env (execution_event_at (je_version (ee_journal env)) payload (ee_time env (eg_tick s)) ctx) s"

definition network_audit_json :: "sandbox_policy \<Rightarrow> json" where
  "network_audit_json policy = json_object
     [(''mode'', JStr (mode_as_str (net_mode (pol_network policy)))),
      (''routes'', json_strs (net_routes (pol_network policy))),
      (''direct_allow_hosts'', json_strs (net_direct_allow_hosts (pol_network policy)))]"

definition requested_payload :: "execution_request \<Rightarrow> json" where
  "requested_payload request = json_object
     [(''type'', JStr ''execution.requested''), (''decision'', JStr ''requested''),
      (''command_args'', json_nat (length (req_command request)))]"

definition resolved_payload :: "sandbox_policy \<Rightarrow> json" where
  "resolved_payload policy = json_object
     [(''type'', JStr ''policy.resolved''), (''decision'', JStr ''resolved''),
      (''sandbox_level'', JStr (level_as_str (pol_sandbox_level policy))), (''network'', network_audit_json policy),
      (''backend_requirement'', JStr (if allows_local_execution policy then ''local-execution'' else ''sandbox-backend'')),
      (''required_backend_features'', json_strs (required_backend_feature_names policy))]"

definition sandbox_json :: "sandbox_policy \<Rightarrow> bool \<Rightarrow> json" where
  "sandbox_json policy enforced = json_object
     [(''level'', JStr (level_as_str (pol_sandbox_level policy))), (''enforced'', JBool enforced)]"

definition allowed_payload :: "sandbox_policy \<Rightarrow> bool \<Rightarrow> json" where
  "allowed_payload policy enforced = json_object
     [(''type'', JStr ''policy.allowed''), (''decision'', JStr ''allowed''), (''sandbox'', sandbox_json policy enforced),
      (''network'', network_audit_json policy)]"

text \<open>From the compiled plan to the start of the worker; \<open>spawned\<close> says whether its thread starts.\<close>

definition launch ::
  "engine_env \<Rightarrow> instant \<Rightarrow> execution_request \<Rightarrow> execution_event_context \<Rightarrow> bool \<Rightarrow> compiled \<Rightarrow> sandbox_plan eng" where
  "launch env timer request ctx spawned compiled =
     ebind (check_preparing env timer (req_timeout request)) (\<lambda>_.
     ebind (case compiled of Inl err \<Rightarrow> plan_error env err | Inr plan \<Rightarrow> eok plan) (\<lambda>plan.
     ebind (check_preparing env timer (req_timeout request)) (\<lambda>_.
     ebind (reserve_execution env plan) (\<lambda>_.
     ebind (admit_journal env (length (req_command request))) (\<lambda>_.
     ebind (emit_now env ctx (requested_payload request)) (\<lambda>_.
     ebind (emit_now env ctx (resolved_payload (req_policy request))) (\<lambda>_.
     ebind (emit_now env ctx (allowed_payload (req_policy request) (is_sandbox_enforced plan))) (\<lambda>_.
     ebind (check_preparing env timer (req_timeout request)) (\<lambda>_.
     ebind (ewhen (\<not> spawned) (failed_to_start ''execution backend worker unavailable'')) (\<lambda>_.
     (\<lambda>s. (Inr plan, call Launched s))))))))))))"

end
