(* ===== verification/Execution_Engine.thy ===== *)
theory Execution_Engine
  imports Execution_Preparation
begin

text \<open>
  The second half of an execution, from \<open>src/execution/engine.rs\<close>: the owner receives the messages of
  the backend, keeps output within the limit of the policy, takes the result of the worker or gives it
  up at the cleanup deadline, decides what the execution was, and releases timer, reservation and
  frontend before the journal commits the terminal record. Byte counters are natural numbers: they
  would need \<open>2 ^ 64\<close> bytes of output to wrap.
\<close>

section \<open>The output of the backend\<close>

record output_state =
  os_started :: "string option"
  os_retained :: "output_stream \<Rightarrow> byte list"
  os_bytes :: "output_stream \<Rightarrow> nat"
  os_owner_error :: "runseal_error option"
  os_result :: "backend_result option"

definition output_init :: output_state where
  "output_init =
     \<lparr>os_started = None, os_retained = (\<lambda>_. []), os_bytes = (\<lambda>_. 0), os_owner_error = None, os_result = None\<rparr>"

fun stream_type :: "output_stream \<Rightarrow> string" where
  "stream_type Control = ''execution.control''"
| "stream_type Stdout = ''execution.stdout''"
| "stream_type Stderr = ''execution.stderr''"
| "stream_type Terminal = ''execution.terminal''"

definition total_bytes :: "output_state \<Rightarrow> nat" where
  "total_bytes st =
     saturating_add (saturating_add (saturating_add (os_bytes st Stdout) (os_bytes st Stderr)) (os_bytes st Terminal))
       (os_bytes st Control)"

definition owner_error_or :: "runseal_error \<Rightarrow> output_state \<Rightarrow> output_state" where
  "owner_error_or err st = st\<lparr>os_owner_error := Some (case os_owner_error st of Some e \<Rightarrow> e | None \<Rightarrow> err)\<rparr>"

definition retain_bytes :: "output_stream \<Rightarrow> byte list \<Rightarrow> output_state \<Rightarrow> output_state" where
  "retain_bytes stream bytes st = st\<lparr>os_retained := (os_retained st)(stream := os_retained st stream @ bytes)\<rparr>"

text \<open>A failed emission stops the execution with the cause of its error.\<close>

definition emit_or_stop :: "engine_env \<Rightarrow> json \<Rightarrow> output_state \<times> engine \<Rightarrow> output_state \<times> engine" where
  "emit_or_stop env event = (\<lambda>(st, s).
     case emit env event s of
       (Inr _, s) \<Rightarrow> (st, s)
     | (Inl err, s) \<Rightarrow>
         (st\<lparr>os_owner_error := Some err\<rparr>, request_stop env (cause_from_started_error_code (err_code err)) s))"

definition json_u32 :: "32 word \<Rightarrow> json" where
  "json_u32 n = json_nat (unat n)"

definition plan_backend_json :: "sandbox_plan \<Rightarrow> json" where
  "plan_backend_json plan = backend_event_json (pl_backend plan) (pl_backend_status plan) (pl_platform plan)"

definition started_payload ::
  "execution_request \<Rightarrow> execution_event_context \<Rightarrow> sandbox_plan \<Rightarrow> 32 word \<Rightarrow> json" where
  "started_payload request ctx plan process_id = json_object
     [(''type'', JStr ''execution.started''), (''process_id'', json_u32 process_id),
      (''execution_id'', JStr (ids_execution_id (req_ids request))), (''policy_id'', JStr (ctx_policy_id ctx)),
      (''policy_hash'', JStr (ctx_policy_hash ctx)), (''audit_path'', JStr (ctx_audit_path ctx)),
      (''sandbox'', sandbox_json (req_policy request) (is_sandbox_enforced plan)),
      (''network'', network_audit_json (req_policy request)), (''backend'', plan_backend_json plan),
      (''platform_plan'', pl_json plan), (''stdin'', stdin_audit_json (req_stdin request)),
      (''environment'', json_object [(''requested_keys'', json_strs (map fst (req_env request)))])]"

definition signal_payload :: "execution_request \<Rightarrow> 64 word \<Rightarrow> 32 word \<Rightarrow> 32 word option \<Rightarrow> json" where
  "signal_payload request sequence process_id process_group =
     (let payload = json_object
        [(''type'', JStr ''execution.signal_delivered''), (''execution_id'', JStr (ids_execution_id (req_ids request))),
         (''signal'', JStr ''interrupt''), (''sequence'', json_u64 sequence), (''target_process_id'', json_u32 process_id)] in
      case process_group of
        None \<Rightarrow> payload
      | Some group_id \<Rightarrow> json_set payload ''target_process_group_id'' (json_u32 group_id))"

definition receive_started ::
  "engine_env \<Rightarrow> execution_request \<Rightarrow> execution_event_context \<Rightarrow> sandbox_plan \<Rightarrow> string \<Rightarrow> 32 word \<Rightarrow>
     output_state \<times> engine \<Rightarrow> output_state \<times> engine" where
  "receive_started env request ctx plan time process_id = (\<lambda>(st, s).
     if os_started st \<noteq> None
     then (st\<lparr>os_owner_error := Some (internal_error ''duplicate backend start confirmation'')\<rparr>,
           request_stop env ExecutionFailed s)
     else emit_or_stop env
            (execution_event_at (je_version (ee_journal env)) (started_payload request ctx plan process_id) time ctx)
            (st\<lparr>os_started := Some time\<rparr>, s))"

definition store_output ::
  "engine_env \<Rightarrow> execution_event_context \<Rightarrow> nat \<Rightarrow> output_stream \<Rightarrow> byte list \<Rightarrow>
     output_state \<times> engine \<Rightarrow> output_state \<times> engine" where
  "store_output env ctx limit stream bytes = (\<lambda>(st, s).
     let event = stream_event (je_version (ee_journal env)) (ee_base64 env) (ee_time env (eg_tick s)) (stream_type stream) ctx
                   bytes (of_nat (os_bytes st stream));
         st = st\<lparr>os_bytes := (os_bytes st)(stream := os_bytes st stream + length bytes)\<rparr> in
     if limit < total_bytes st
     then
       let st = (if os_owner_error st = None
                 then retain_bytes stream (take (limit - (total_bytes st - length bytes)) bytes) st else st);
           st = owner_error_or (error_new ''OUTPUT_LIMIT_EXCEEDED'' ''output limit exceeded'') st in
       (st, request_stop env OutputLimit s)
     else if os_owner_error st \<noteq> None then (st, s)
     else emit_or_stop env event (retain_bytes stream bytes st, s))"

definition receive_output ::
  "engine_env \<Rightarrow> execution_event_context \<Rightarrow> nat \<Rightarrow> output_stream \<Rightarrow> byte list \<Rightarrow>
     output_state \<times> engine \<Rightarrow> output_state \<times> engine" where
  "receive_output env ctx limit stream bytes = (\<lambda>(st, s).
     store_output env ctx limit stream bytes
       (if os_started st = None
        then (owner_error_or (internal_error ''backend output preceded start confirmation'') st,
              request_stop env ExecutionFailed s)
        else (st, s)))"

definition receive_message ::
  "engine_env \<Rightarrow> execution_request \<Rightarrow> execution_event_context \<Rightarrow> sandbox_plan \<Rightarrow> nat \<Rightarrow> backend_message \<Rightarrow>
     output_state \<times> engine \<Rightarrow> output_state \<times> engine" where
  "receive_message env request ctx plan limit message =
     (case message of
        Started time process_id \<Rightarrow> receive_started env request ctx plan time process_id
      | SignalDelivered sequence process_id process_group \<Rightarrow> (\<lambda>(st, s).
          emit_or_stop env (execution_event_at (je_version (ee_journal env))
            (signal_payload request sequence process_id process_group) (ee_time env (eg_tick s)) ctx) (st, s))
      | Output stream bytes \<Rightarrow> receive_output env ctx limit stream bytes)"

datatype recv_answer = Message backend_message | RecvTimeout | RecvDisconnected

record output_turn =
  ot_poll :: "backend_result try_recv"
  ot_recv :: recv_answer
  ot_finished :: bool

definition worker_failed :: backend_result where
  "worker_failed = Inl (OtherFailure ''execution backend worker failed'')"

definition poll_result :: "backend_result try_recv \<Rightarrow> backend_result option \<Rightarrow> backend_result option" where
  "poll_result poll result =
     (case result of
        Some _ \<Rightarrow> result
      | None \<Rightarrow> (case poll of Got r \<Rightarrow> Some r | Gone \<Rightarrow> Some worker_failed | NothingYet \<Rightarrow> None))"

text \<open>One turn of the loop; \<open>True\<close> is that it is left.\<close>

definition output_step ::
  "engine_env \<Rightarrow> execution_request \<Rightarrow> execution_event_context \<Rightarrow> sandbox_plan \<Rightarrow> nat \<Rightarrow> output_turn \<Rightarrow>
     output_state \<times> engine \<Rightarrow> bool \<times> output_state \<times> engine" where
  "output_step env request ctx plan limit turn = (\<lambda>(st, s).
     let s = advance env s;
         st = st\<lparr>os_result := poll_result (ot_poll turn) (os_result st)\<rparr> in
     if cleanup_deadline_expired (clock env s) (eg_control s) then (True, st, s)
     else
       (case ot_recv turn of
          RecvDisconnected \<Rightarrow> (True, st, s)
        | RecvTimeout \<Rightarrow> (os_result st \<noteq> None \<or> ot_finished turn, st, s)
        | Message message \<Rightarrow> (False, receive_message env request ctx plan limit message (st, s))))"

fun output_loop ::
  "engine_env \<Rightarrow> execution_request \<Rightarrow> execution_event_context \<Rightarrow> sandbox_plan \<Rightarrow> nat \<Rightarrow> output_turn list \<Rightarrow>
     output_state \<times> engine \<Rightarrow> (output_state \<times> engine) option" where
  "output_loop env request ctx plan limit [] x = None"
| "output_loop env request ctx plan limit (turn # turns) x =
     (case output_step env request ctx plan limit turn x of
        (True, x) \<Rightarrow> Some x
      | (False, x) \<Rightarrow> output_loop env request ctx plan limit turns x)"

section \<open>The result of the worker\<close>

record await_turn =
  at_poll :: "backend_result try_recv"
  at_finished :: bool

fun await_result ::
  "engine_env \<Rightarrow> await_turn list \<Rightarrow> backend_result option \<Rightarrow> engine \<Rightarrow> (backend_result option \<times> engine) option" where
  "await_result env turns (Some r) s = Some (Some r, s)"
| "await_result env [] None s = None"
| "await_result env (turn # turns) None s =
     (let s = advance env s in
      case poll_result (at_poll turn) None of
        Some r \<Rightarrow> Some (Some r, s)
      | None \<Rightarrow>
          if cleanup_deadline_expired (clock env s) (eg_control s) \<or> at_finished turn then Some (None, s)
          else await_result env turns None s)"

definition failure_of :: "backend_result \<Rightarrow> backend_failure option" where
  "failure_of r = (case r of Inl err \<Rightarrow> Some err | Inr _ \<Rightarrow> None)"

definition backend_cause :: "backend_result \<Rightarrow> bool \<Rightarrow> termination_cause" where
  "backend_cause r started =
     (case r of
        Inr out \<Rightarrow> if bo_timed_out out then Timeout else Exited
      | Inl err \<Rightarrow>
          if failure_timed_out err then Timeout
          else if input_failed err then InputFailed
          else if failure_exit_code err \<noteq> None then Exited
          else if started then ExecutionFailed else FailedToStart)"

definition accept_backend_cause :: "engine_env \<Rightarrow> backend_result \<Rightarrow> bool \<Rightarrow> engine \<Rightarrow> engine" where
  "accept_backend_cause env r started s = request_stop env (backend_cause r started) s"

text \<open>A worker that has not ended by the cleanup deadline is kept, and its cleanup counts as not complete.\<close>

record worker_end =
  we_finished :: bool
  we_joined :: bool
  we_late :: "backend_result option"

definition joined_result :: "worker_end \<Rightarrow> backend_result option \<Rightarrow> backend_result" where
  "joined_result w result =
     (let result = (case result of None \<Rightarrow> we_late w | Some _ \<Rightarrow> result) in
      if we_finished w
      then (case result of Some r \<Rightarrow> if we_joined w then r else worker_failed | None \<Rightarrow> worker_failed)
      else
        (case result of
           Some (Inr out) \<Rightarrow> Inr (out\<lparr>bo_cleanup_complete := False\<rparr>)
         | Some (Inl err) \<Rightarrow> Inl (CleanupFacts (failure_exit_code err) (failure_timed_out err))
         | None \<Rightarrow> Inl (CleanupFacts None False)))"

definition begin_cleanup_now :: "engine_env \<Rightarrow> engine \<Rightarrow> engine" where
  "begin_cleanup_now env s =
     (let s = advance env s in
      s\<lparr>eg_control := snd (begin_cleanup (ee_limits env) (clock env s) (eg_control s))\<rparr>)"

section \<open>What the execution was\<close>

definition result_cleanup_complete :: "backend_result \<Rightarrow> bool \<Rightarrow> bool" where
  "result_cleanup_complete r started =
     (case r of
        Inr out \<Rightarrow> bo_cleanup_complete out
      | Inl err \<Rightarrow> input_failed err \<or> \<not> started \<and> \<not> backend_cleanup_failed err)"

definition result_cleanup_failed :: "backend_result \<Rightarrow> bool \<Rightarrow> bool" where
  "result_cleanup_failed r started =
     (case r of
        Inr out \<Rightarrow> \<not> bo_cleanup_complete out
      | Inl err \<Rightarrow> backend_cleanup_failed err \<or> started \<and> \<not> input_failed err)"

definition cause_owner_error :: "termination_cause option \<Rightarrow> runseal_error option \<Rightarrow> runseal_error option" where
  "cause_owner_error cause err =
     (case cause of
        None \<Rightarrow> err
      | Some c \<Rightarrow>
          (case cause_error_code c of
             None \<Rightarrow> err
           | Some code \<Rightarrow> Some (error_new code
               (if c = Timeout then ''execution timed out'' else ''execution terminated: '' @ cause_as_str c))))"

text \<open>
  The error of the owner once the worker is settled: an omitted start, the cause of the control, a
  failed input, and above all a cleanup that could not be verified.
\<close>

definition decide_owner_error ::
  "engine_env \<Rightarrow> backend_result \<Rightarrow> output_state \<times> engine \<Rightarrow> runseal_error option \<times> engine" where
  "decide_owner_error env r = (\<lambda>(st, s).
     let started = os_started st \<noteq> None;
         (owner, s) =
           (if \<not> started \<and> (is_ok r \<or> Option.bind (failure_of r) failure_exit_code \<noteq> None)
            then (os_owner_error (owner_error_or (internal_error ''backend omitted start confirmation'') st),
                  request_stop env ExecutionFailed s)
            else (os_owner_error st, s));
         s = (if owner = None then accept_backend_cause env r started s else s);
         s = advance env s;
         owner = cause_owner_error (control_cause (eg_control s)) owner;
         owner = (if (case failure_of r of Some err \<Rightarrow> input_failed err | None \<Rightarrow> False) \<and> owner = None
                  then Some (error_new ''EXECUTION_INPUT_FAILED'' ''execution input failed'') else owner) in
     if result_cleanup_failed r started
     then (Some (error_new ''EXECUTION_CLEANUP_FAILED'' ''execution cleanup could not be verified''),
           case failure_of r of
             Some err \<Rightarrow>
               if failure_exit_code err \<noteq> None
               then request_stop env (if failure_timed_out err then Timeout else Exited) s else s
           | None \<Rightarrow> s)
     else (owner, s))"

definition json_i32 :: "32 word option \<Rightarrow> json" where
  "json_i32 code =
     (case code of
        None \<Rightarrow> JNull
      | Some w \<Rightarrow> if sint w < 0 then json_neg (nat (- sint w)) else json_nat (nat (sint w)))"

definition json_cause :: "termination_cause option \<Rightarrow> json" where
  "json_cause cause = (case cause of None \<Rightarrow> JNull | Some c \<Rightarrow> JStr (cause_as_str c))"

definition owner_details ::
  "engine_env \<Rightarrow> execution_request \<Rightarrow> execution_event_context \<Rightarrow> sandbox_plan \<Rightarrow> nat \<Rightarrow> backend_result \<Rightarrow>
     output_state \<times> engine \<Rightarrow> json" where
  "owner_details env request ctx plan limit r = (\<lambda>(st, s).
     json_object
       [(''execution_id'', JStr (ids_execution_id (req_ids request))), (''session_id'', JStr (ids_session_id (req_ids request))),
        (''policy_id'', JStr (ctx_policy_id ctx)), (''policy_hash'', JStr (ctx_policy_hash ctx)),
        (''policy_epoch'', JStr (ctx_policy_epoch ctx)), (''backend'', ctx_backend ctx), (''audit_path'', JStr (ctx_audit_path ctx)),
        (''sandbox'', sandbox_json (req_policy request) (is_sandbox_enforced plan)),
        (''network'', network_audit_json (req_policy request)),
        (''exit_code'', json_i32 (case r of Inr out \<Rightarrow> bo_code out | Inl err \<Rightarrow> failure_exit_code err)),
        (''signal'', json_i32 (case r of Inr out \<Rightarrow> bo_signal out | Inl _ \<Rightarrow> None)),
        (''stdout_bytes'', json_nat (os_bytes st Stdout)), (''stderr_bytes'', json_nat (os_bytes st Stderr)),
        (''control_bytes'', json_nat (os_bytes st Control)), (''terminal_bytes'', json_nat (os_bytes st Terminal)),
        (''stderr_merged'', JBool (is_pty (req_io request))),
        (''retained_stdout_bytes'', json_nat (length (os_retained st Stdout))),
        (''retained_stderr_bytes'', json_nat (length (os_retained st Stderr))),
        (''max_output_bytes'', json_nat limit),
        (''termination_reason'', if result_cleanup_failed r (os_started st \<noteq> None) then JStr ''cleanup_failed''
                                 else json_cause (control_cause (eg_control s))),
        (''requested_termination_reason'', json_cause (control_cause (eg_control s))),
        (''cleanup_complete'', JBool (result_cleanup_complete r (os_started st \<noteq> None))),
        (''timeout_ms'', json_opt_u64 (req_timeout request))])"

text \<open>Events of the error path: the observer is told but not heard; a failed audit write carries the details.\<close>

definition emit_evidence :: "engine_env \<Rightarrow> execution_event_context \<Rightarrow> json \<Rightarrow> json \<Rightarrow> unit eng" where
  "emit_evidence env ctx details payload s =
     (case emit_with env (\<lambda>_ _. Inr ())
             (execution_event_at (je_version (ee_journal env)) payload (ee_time env (eg_tick s)) ctx) s of
        (Inr _, s) \<Rightarrow> (Inr (), s)
      | (Inl err, s) \<Rightarrow> (Inl (error_with_details (err_code err) (err_reason err) details), s))"

definition limit_payload :: "string \<Rightarrow> json \<Rightarrow> (string \<times> json) list \<Rightarrow> json" where
  "limit_payload resource limit rest = json_object
     ([(''type'', JStr ''execution.resource.limit_exceeded''), (''decision'', JStr ''limit_exceeded''),
       (''resource'', JStr resource), (''limit'', limit)] @ rest)"

definition owner_failure ::
  "engine_env \<Rightarrow> instant \<Rightarrow> execution_request \<Rightarrow> execution_event_context \<Rightarrow> nat \<Rightarrow> output_state \<Rightarrow> json \<Rightarrow> runseal_error \<Rightarrow>
     json eng" where
  "owner_failure env timer request ctx limit st details err =
     ebind
       (if err_code err = ''OUTPUT_LIMIT_EXCEEDED''
        then ebind (emit_evidence env ctx details (json_object
               [(''type'', JStr ''execution.output.truncated''), (''decision'', JStr ''truncated''),
                (''stdout_bytes'', json_nat (os_bytes st Stdout)), (''stderr_bytes'', json_nat (os_bytes st Stderr))]))
               (\<lambda>_. emit_evidence env ctx details (limit_payload ''max_output_bytes'' (json_nat limit) []))
        else if err_code err = ''EXECUTION_TIMEOUT''
        then (\<lambda>s. emit_evidence env ctx details (limit_payload ''timeout_ms'' (json_opt_u64 (req_timeout request))
               [(''duration_ms'', json_nat (clock env s - timer))]) s)
        else eok ())
       (\<lambda>_. eerr (error_with_details (err_code err) (err_reason err) details))"

definition start_failure ::
  "engine_env \<Rightarrow> execution_request \<Rightarrow> execution_event_context \<Rightarrow> sandbox_plan \<Rightarrow> bool \<Rightarrow> backend_failure \<Rightarrow> runseal_error" where
  "start_failure env request ctx plan started err =
     (let details = json_object
        [(''execution_id'', JStr (ids_execution_id (req_ids request))), (''session_id'', JStr (ids_session_id (req_ids request))),
         (''seal_id'', JStr (ids_seal_id (req_ids request))), (''policy_id'', JStr (ctx_policy_id ctx)),
         (''policy_hash'', JStr (ctx_policy_hash ctx)), (''policy_epoch'', JStr (ctx_policy_epoch ctx)),
         (''audit_path'', JStr (ctx_audit_path ctx)), (''backend'', plan_backend_json plan), (''platform_plan'', pl_json plan),
         (''cleanup_complete'', JBool (result_cleanup_complete (Inl err) started))] in
      case backend_execution_error (ee_platform env) (ee_setup_status env) err (is_sandbox_enforced plan) of
        Some (code, reason, setup_status) \<Rightarrow> error_with_details code reason
          (case setup_status of None \<Rightarrow> details | Some status \<Rightarrow> json_set details ''setup_status'' status)
      | None \<Rightarrow> error_with_details ''EXECUTION_FAILED_TO_START'' ''execution failed to start'' details)"


section \<open>Success\<close>

text \<open>The events of the backend are built, each with the time of that moment, before the first is emitted.\<close>

definition backend_events :: "engine_env \<Rightarrow> execution_event_context \<Rightarrow> json list \<Rightarrow> engine \<Rightarrow> json list" where
  "backend_events env ctx events s =
     map (\<lambda>(i, event). execution_event_at (je_version (ee_journal env)) event (ee_time env (eg_tick s + i)) ctx) (enumerate 0 events)"

fun emit_all :: "engine_env \<Rightarrow> json list \<Rightarrow> unit eng" where
  "emit_all env [] = eok ()"
| "emit_all env (event # events) = ebind (emit env event) (\<lambda>_. emit_all env events)"

abbreviation opt_nat :: "64 word option \<Rightarrow> nat option" where
  "opt_nat x \<equiv> map_option unat x"

definition timed_out_failure ::
  "engine_env \<Rightarrow> execution_request \<Rightarrow> execution_event_context \<Rightarrow> nat \<Rightarrow> byte list \<Rightarrow> byte list \<Rightarrow> json eng" where
  "timed_out_failure env request ctx duration stdout stderr =
     ebind (emit_now env ctx (limit_payload ''timeout_ms'' (json_opt_u64 (req_timeout request)) [(''duration_ms'', json_nat duration)]))
       (\<lambda>_. eerr (error_with_details ''EXECUTION_TIMEOUT'' ''execution timed out'' (json_object
          [(''execution_id'', JStr (ids_execution_id (req_ids request))), (''session_id'', JStr (ids_session_id (req_ids request))),
           (''seal_id'', JStr (ids_seal_id (req_ids request))), (''audit_path'', JStr (ctx_audit_path ctx)),
           (''timeout_ms'', json_opt_u64 (req_timeout request)),
           (''stdout_bytes'', json_nat (length stdout)), (''stderr_bytes'', json_nat (length stderr))])))"

text \<open>Truncation at the end is a second guard: the loop has already kept the output within the limit.\<close>

definition truncated_failure ::
  "engine_env \<Rightarrow> execution_request \<Rightarrow> execution_event_context \<Rightarrow> string \<Rightarrow> byte list \<Rightarrow> byte list \<Rightarrow> byte list \<Rightarrow> byte list \<Rightarrow>
     json eng" where
  "truncated_failure env request ctx finished_at stdout stderr stdout' stderr' =
     (let max_output = json_opt_u64 (res_max_output_bytes (pol_resources (req_policy request)));
          sizes = [(''stdout_bytes'', json_nat (length stdout)), (''stderr_bytes'', json_nat (length stderr)),
                   (''retained_stdout_bytes'', json_nat (length stdout')), (''retained_stderr_bytes'', json_nat (length stderr'))] in
      ebind (emit env (execution_event_at (je_version (ee_journal env)) (limit_payload ''max_output_bytes'' max_output sizes) finished_at ctx))
        (\<lambda>_. eerr (error_with_details ''OUTPUT_LIMIT_EXCEEDED'' ''output limit exceeded'' (json_object
          ([(''execution_id'', JStr (ids_execution_id (req_ids request))), (''session_id'', JStr (ids_session_id (req_ids request))),
            (''seal_id'', JStr (ids_seal_id (req_ids request))), (''audit_path'', JStr (ctx_audit_path ctx)),
            (''max_output_bytes'', max_output)] @ sizes)))))"

definition truncated_payload ::
  "execution_request \<Rightarrow> execution_event_context \<Rightarrow> byte list \<Rightarrow> byte list \<Rightarrow> byte list \<Rightarrow> byte list \<Rightarrow> json" where
  "truncated_payload request ctx stdout stderr stdout' stderr' = json_object
     [(''type'', JStr ''execution.output.truncated''), (''execution_id'', JStr (ids_execution_id (req_ids request))),
      (''policy_id'', JStr (ctx_policy_id ctx)), (''policy_hash'', JStr (ctx_policy_hash ctx)),
      (''audit_path'', JStr (ctx_audit_path ctx)), (''decision'', JStr ''truncated''),
      (''max_output_bytes'', json_opt_u64 (res_max_output_bytes (pol_resources (req_policy request)))),
      (''stdout_bytes'', json_nat (length stdout')), (''stderr_bytes'', json_nat (length stderr')),
      (''original_stdout_bytes'', json_nat (length stdout)), (''original_stderr_bytes'', json_nat (length stderr))]"

definition sample_payload :: "nat \<Rightarrow> byte list \<Rightarrow> byte list \<Rightarrow> bool \<Rightarrow> json" where
  "sample_payload duration stdout stderr truncated = json_object
     [(''type'', JStr ''execution.resource.sample''), (''duration_ms'', json_nat duration),
      (''stdout_bytes'', json_nat (length stdout)), (''stderr_bytes'', json_nat (length stderr)),
      (''output_truncated'', JBool truncated)]"

definition finished_result ::
  "engine_env \<Rightarrow> execution_request \<Rightarrow> execution_event_context \<Rightarrow> sandbox_plan \<Rightarrow> backend_output \<Rightarrow> output_state \<Rightarrow>
     termination_cause option \<Rightarrow> string \<Rightarrow> nat \<Rightarrow> byte list \<Rightarrow> byte list \<Rightarrow> bool \<Rightarrow> json" where
  "finished_result env request ctx plan out st cause finished_at duration stdout stderr truncated =
     (let program = (case req_command request of [] \<Rightarrow> [] | p # _ \<Rightarrow> p) in
      json_object
        [(''execution_id'', JStr (ids_execution_id (req_ids request))), (''session_id'', JStr (ids_session_id (req_ids request))),
         (''seal_id'', JStr (ids_seal_id (req_ids request))), (''status'', JStr ''finished''),
         (''termination_reason'', json_cause cause),
         (''cleanup_complete'', JBool (result_cleanup_complete (Inr out) (os_started st \<noteq> None))),
         (''exit_code'', json_i32 (Some (case bo_code out of Some code \<Rightarrow> code | None \<Rightarrow> 1))), (''signal'', JNull),
         (''started_at'', case os_started st of Some time \<Rightarrow> JStr time | None \<Rightarrow> JNull), (''finished_at'', JStr finished_at),
         (''policy_id'', JStr (ctx_policy_id ctx)), (''policy_hash'', JStr (ctx_policy_hash ctx)),
         (''policy_epoch'', JStr (ctx_policy_epoch ctx)), (''audit_path'', JStr (ctx_audit_path ctx)),
         (''sandbox'', sandbox_json (req_policy request) (is_sandbox_enforced plan)),
         (''network'', network_audit_json (req_policy request)), (''backend'', plan_backend_json plan),
         (''platform_plan'', pl_json plan),
         (''stdout_bytes'', json_nat (length stdout)), (''stderr_bytes'', json_nat (length stderr)),
         (''control_bytes'', json_nat (os_bytes st Control)), (''terminal_bytes'', json_nat (os_bytes st Terminal)),
         (''stderr_merged'', JBool (is_pty (req_io request))), (''output_truncated'', JBool truncated),
         (''stdout'', JStr (ee_decode env program stdout)), (''stderr'', JStr (ee_decode env program stderr)),
         (''resource_usage'', json_object [(''duration_ms'', json_nat duration)])])"

definition report_output ::
  "engine_env \<Rightarrow> execution_request \<Rightarrow> execution_event_context \<Rightarrow> sandbox_plan \<Rightarrow> output_state \<Rightarrow> backend_output \<Rightarrow> nat \<Rightarrow>
     bool \<times> byte list \<times> byte list \<Rightarrow> json eng" where
  "report_output env request ctx plan st out duration = (\<lambda>(truncated, stdout, stderr).
     ebind (if truncated
            then ebind (emit_now env ctx (truncated_payload request ctx (os_retained st Stdout) (os_retained st Stderr) stdout stderr))
                   (\<lambda>_. eok ())
            else eok ()) (\<lambda>_ s.
       let s = advance env s; finished_at = ee_time env (eg_tick s) in
       ebind (emit env (execution_event_at (je_version (ee_journal env))
                (sample_payload duration stdout stderr truncated) finished_at ctx)) (\<lambda>_.
       if truncated then truncated_failure env request ctx finished_at (os_retained st Stdout) (os_retained st Stderr) stdout stderr
       else (\<lambda>s. let s = advance env s in
               (Inr (finished_result env request ctx plan out st (control_cause (eg_control s)) finished_at duration
                       stdout stderr truncated), s))) s))"

definition finish_output ::
  "engine_env \<Rightarrow> instant \<Rightarrow> execution_request \<Rightarrow> execution_event_context \<Rightarrow> sandbox_plan \<Rightarrow> output_state \<Rightarrow> backend_output \<Rightarrow>
     json eng" where
  "finish_output env timer request ctx plan st out =
     ebind (\<lambda>s. emit_all env (backend_events env ctx (bo_events out) s) s) (\<lambda>_ s.
       let output = truncate_output (opt_nat (res_max_output_bytes (pol_resources (req_policy request))))
             (os_retained st Stdout) (os_retained st Stderr);
           s = advance env s;
           duration = clock env s - timer in
       if bo_timed_out out then timed_out_failure env request ctx duration (fst (snd output)) (snd (snd output)) s
       else report_output env request ctx plan st out duration output s)"

section \<open>The execution\<close>

text \<open>What the threads an execution waits for answer.\<close>

record engine_script =
  sc_timer_started :: bool
  sc_admission :: "admission_answer list option"
  sc_preparation_spawned :: bool
  sc_preparation :: "prep_turn list"
  sc_worker_spawned :: bool
  sc_output :: "output_turn list"
  sc_await :: "await_turn list"
  sc_worker_end :: worker_end
  sc_timer_end :: "unit rs_result"
  sc_reservation_finish :: "bool \<Rightarrow> bool"
  sc_observer_cleanup :: "bool \<Rightarrow> unit rs_result"

text \<open>After both loops: the cause of the backend, the end of the worker, the outcome.\<close>

definition settle_execution ::
  "engine_env \<Rightarrow> engine_script \<Rightarrow> instant \<Rightarrow> execution_request \<Rightarrow> execution_event_context \<Rightarrow> sandbox_plan \<Rightarrow> nat \<Rightarrow>
     backend_result option \<Rightarrow> output_state \<times> engine \<Rightarrow> json rs_result \<times> engine" where
  "settle_execution env script timer request ctx plan limit result = (\<lambda>(st, s).
     let s = (case result of
                Some r \<Rightarrow> if os_owner_error st = None then accept_backend_cause env r (os_started st \<noteq> None) s else s
              | None \<Rightarrow> s);
         s = begin_cleanup_now env s;
         r = joined_result (sc_worker_end script) result;
         (owner, s) = decide_owner_error env r (st, s) in
     case owner of
       Some err \<Rightarrow>
         owner_failure env timer request ctx limit st (owner_details env request ctx plan limit r (st, s)) err s
     | None \<Rightarrow>
         (case r of
            Inl err \<Rightarrow> (Inl (start_failure env request ctx plan (os_started st \<noteq> None) err), s)
          | Inr out \<Rightarrow> finish_output env timer request ctx plan st out s))"

definition run_backend ::
  "engine_env \<Rightarrow> engine_script \<Rightarrow> instant \<Rightarrow> execution_request \<Rightarrow> execution_event_context \<Rightarrow> sandbox_plan \<Rightarrow> nat \<Rightarrow> json erun" where
  "run_backend env script timer request ctx plan limit s =
     (case output_loop env request ctx plan limit (sc_output script) (output_init, s) of
        None \<Rightarrow> None
      | Some (st, s) \<Rightarrow>
          (case await_result env (sc_await script) (os_result st) s of
             None \<Rightarrow> None
           | Some (result, s) \<Rightarrow> Some (settle_execution env script timer request ctx plan limit result (st, s))))"

definition execute_inner :: "engine_env \<Rightarrow> engine_script \<Rightarrow> instant \<Rightarrow> execution_request \<Rightarrow> json erun" where
  "execute_inner env script timer request s =
     (let ctx = event_context env request (jr_audit_path (eg_journal s)) in
      case check_request env timer request s of
        (Inl err, s) \<Rightarrow> Some (Inl err, s)
      | (Inr limit, s) \<Rightarrow>
          (case compile_plan env request (sc_preparation_spawned script) (sc_preparation script) s of
             None \<Rightarrow> None
           | Some (Inl err, s) \<Rightarrow> Some (Inl err, s)
           | Some (Inr compiled, s) \<Rightarrow>
               (case launch env timer request ctx (sc_worker_spawned script) compiled s of
                  (Inl err, s) \<Rightarrow> Some (Inl err, s)
                | (Inr plan, s) \<Rightarrow> run_backend env script timer request ctx plan limit s)))"

section \<open>Around the execution\<close>

definition finalize_frontend :: "json rs_result \<Rightarrow> termination_cause option \<Rightarrow> unit rs_result \<Rightarrow> json rs_result" where
  "finalize_frontend outcome cause cleanup =
     (case cleanup of
        Inr _ \<Rightarrow> outcome
      | Inl error \<Rightarrow>
          let details = (case outcome of
                Inr result \<Rightarrow> result
              | Inl err \<Rightarrow> (case err_details err of Some details \<Rightarrow> details | None \<Rightarrow> JObj []));
              details = json_set details ''cleanup_complete'' (JBool False);
              details = json_set details ''requested_termination_reason'' (json_cause cause) in
          Inl (error_with_details ''EXECUTION_CLEANUP_FAILED'' (err_reason error) details))"

text \<open>\<open>true\<close> under \<open>cleanup_complete\<close> is the only confirmation.\<close>

definition cleanup_confirmed :: "json rs_result \<Rightarrow> bool" where
  "cleanup_confirmed outcome =
     (case outcome of
        Inr result \<Rightarrow> json_index result ''cleanup_complete'' = JBool True
      | Inl err \<Rightarrow> (case err_details err of
          Some details \<Rightarrow> json_index details ''cleanup_complete'' = JBool True | None \<Rightarrow> False))"

definition backend_entered :: "engine \<Rightarrow> bool" where
  "backend_entered s \<longleftrightarrow> Launched \<in> set (eg_calls s)"

definition reserved :: "engine \<Rightarrow> bool" where
  "reserved s \<longleftrightarrow> Reserved \<in> set (eg_calls s)"

definition accepted_termination :: "termination_cause option \<Rightarrow> bool" where
  "accepted_termination cause \<longleftrightarrow>
     cause \<in> Some ` {Timeout, Cancelled, ClientDisconnected, Backpressure, FailedToStart}"

definition stopped_code :: "json rs_result \<Rightarrow> bool" where
  "stopped_code outcome =
     (case outcome of
        Inr _ \<Rightarrow> False
      | Inl err \<Rightarrow> err_code err \<in> {''EXECUTION_TIMEOUT'', ''EXECUTION_CANCELLED'', ''CLIENT_DISCONNECTED'', ''CLIENT_BACKPRESSURE''})"

text \<open>An execution that was stopped after it was accepted gets its record even if it never reached the backend.\<close>

definition record_stopped :: "engine_env \<Rightarrow> nat \<Rightarrow> json rs_result \<times> engine \<Rightarrow> json rs_result \<times> engine" where
  "record_stopped env command_args = (\<lambda>(outcome, s).
     let s = advance env s in
     if \<not> jr_admitted (eg_journal s) \<and> (accepted_termination (control_cause (eg_control s)) \<or> stopped_code outcome)
     then (case admit_journal env command_args s of (Inl err, s) \<Rightarrow> (Inl err, s) | (Inr _, s) \<Rightarrow> (outcome, s))
     else (outcome, s))"

definition notify_requested :: "engine_env \<Rightarrow> json rs_result \<times> engine \<Rightarrow> json rs_result \<times> engine" where
  "notify_requested env = (\<lambda>(outcome, s).
     let s = advance env s in
     if \<not> jr_admitted (eg_journal s) then (outcome, s)
     else
       (case notify_requested_if_pending (ee_observe env (eg_tick s)) (eg_journal s) of
          (r, j, events) \<Rightarrow>
            let s = s\<lparr>eg_journal := j, eg_observed := eg_observed s @ events\<rparr> in
            (case r of Inl err \<Rightarrow> if is_ok outcome then (Inl err, s) else (outcome, s) | Inr _ \<Rightarrow> (outcome, s))))"

definition cleanup_failed_code :: "json rs_result \<Rightarrow> bool" where
  "cleanup_failed_code outcome =
     (case outcome of Inl err \<Rightarrow> err_code err = ''EXECUTION_CLEANUP_FAILED'' | Inr _ \<Rightarrow> False)"

definition record_timeout ::
  "engine_env \<Rightarrow> instant \<Rightarrow> 64 word option \<Rightarrow> json rs_result \<times> engine \<Rightarrow> json rs_result \<times> engine" where
  "record_timeout env timer timeout = (\<lambda>(outcome, s).
     let s = advance env s in
     if \<not> backend_entered s \<and> jr_admitted (eg_journal s) \<and> control_cause (eg_control s) = Some Timeout
     then
       (case emit env (limit_payload ''timeout_ms'' (json_opt_u64 timeout) [(''duration_ms'', json_nat (clock env s - timer))]) s of
          (Inl err, s) \<Rightarrow> (if cleanup_failed_code outcome then outcome else Inl err, s)
        | (Inr _, s) \<Rightarrow> (outcome, s))
     else (outcome, s))"

text \<open>Nothing was launched, so nothing is left to clean up: the default of an error before the backend.\<close>

definition default_details ::
  "engine_env \<Rightarrow> 64 word option \<Rightarrow> json rs_result \<times> engine \<Rightarrow> json rs_result \<times> engine" where
  "default_details env timeout = (\<lambda>(outcome, s).
     let s = advance env s in
     (case outcome of
        Inr _ \<Rightarrow> outcome
      | Inl err \<Rightarrow>
          if backend_entered s then outcome
          else
            let details = (case err_details err of Some details \<Rightarrow> details | None \<Rightarrow> JObj []);
                details = entry_or_insert ''cleanup_complete'' (JBool True) details;
                details = (if control_cause (eg_control s) = Some Timeout
                           then entry_or_insert ''timeout_ms'' (json_opt_u64 timeout) details else details) in
            Inl (err\<lparr>err_details := Some details\<rparr>), s))"

definition settle_cause :: "engine_env \<Rightarrow> json rs_result \<times> engine \<Rightarrow> json rs_result \<times> engine" where
  "settle_cause env = (\<lambda>(outcome, s).
     let s = advance env s in
     (outcome,
      if control_cause (eg_control s) = None
      then request_stop env (case outcome of Inl err \<Rightarrow> cause_from_error_code (err_code err) | Inr _ \<Rightarrow> Exited) s
      else s))"

text \<open>Timer, reservation and frontend are released in this order, each told whether all before it was confirmed.\<close>

definition stop_timer ::
  "engine_env \<Rightarrow> bool \<Rightarrow> unit rs_result \<Rightarrow> json rs_result \<times> engine \<Rightarrow> json rs_result \<times> engine" where
  "stop_timer env running ended = (\<lambda>(outcome, s).
     let s = (if running then call (StopTimer (is_ok ended)) (begin_cleanup_now env s) else s);
         s = advance env s in
     (finalize_frontend outcome (control_cause (eg_control s)) (if running then ended else Inr ()), s))"

definition release_reservation ::
  "engine_env \<Rightarrow> (bool \<Rightarrow> bool) \<Rightarrow> json rs_result \<times> engine \<Rightarrow> json rs_result \<times> engine" where
  "release_reservation env finish = (\<lambda>(outcome, s).
     let confirmed = cleanup_confirmed outcome;
         ended = (if reserved s \<and> \<not> finish confirmed
                  then Inl (error_new ''EXECUTION_CLEANUP_FAILED'' ''execution policy cleanup could not be verified'')
                  else Inr ());
         s = (if reserved s then call (FinishReservation confirmed (finish confirmed)) (begin_cleanup_now env s) else s);
         s = advance env s in
     (finalize_frontend outcome (control_cause (eg_control s)) ended, s))"

definition clean_observer ::
  "engine_env \<Rightarrow> (bool \<Rightarrow> unit rs_result) \<Rightarrow> json rs_result \<times> engine \<Rightarrow> json rs_result \<times> engine" where
  "clean_observer env cleanup = (\<lambda>(outcome, s).
     let confirmed = cleanup_confirmed outcome;
         s = call (CleanObserver confirmed (is_ok (cleanup confirmed))) (begin_cleanup_now env s);
         s = advance env s in
     (finalize_frontend outcome (control_cause (eg_control s)) (cleanup confirmed), s))"

definition execution_outcome ::
  "engine_env \<Rightarrow> engine_script \<Rightarrow> instant \<Rightarrow> execution_request \<Rightarrow> json erun" where
  "execution_outcome env script timer request s =
     (if req_timeout request \<noteq> None \<and> \<not> sc_timer_started script
      then Some (Inl (failed_to_start ''execution deadline worker unavailable''), s)
      else
        (case (case sc_admission script of
                 None \<Rightarrow> Some (Inr (), s)
               | Some answers \<Rightarrow> wait_for_admission env timer (req_timeout request) answers s) of
           None \<Rightarrow> None
         | Some (Inl err, s) \<Rightarrow> Some (Inl err, s)
         | Some (Inr _, s) \<Rightarrow> execute_inner env script timer request s))"

definition conclude_execution ::
  "engine_env \<Rightarrow> instant \<Rightarrow> execution_request \<Rightarrow> json rs_result \<times> engine \<Rightarrow> json rs_result \<times> engine" where
  "conclude_execution env timer request x =
     settle_cause env (default_details env (req_timeout request)
       (record_timeout env timer (req_timeout request)
         (notify_requested env (record_stopped env (length (req_command request)) x))))"

definition release_frontend ::
  "engine_env \<Rightarrow> engine_script \<Rightarrow> execution_request \<Rightarrow> json rs_result \<times> engine \<Rightarrow> json rs_result \<times> engine" where
  "release_frontend env script request x =
     clean_observer env (sc_observer_cleanup script)
       (release_reservation env (sc_reservation_finish script)
         (stop_timer env (sc_timer_started script \<and> req_timeout request \<noteq> None) (sc_timer_end script) x))"

definition execute_prepared ::
  "engine_env \<Rightarrow> engine_script \<Rightarrow> execution_request \<Rightarrow> engine \<Rightarrow> ((json list \<times> json) rs_result \<times> engine) option" where
  "execute_prepared env script request s =
     (let s = advance env s;
          (timer, control) = accept (clock env s) (eg_control s);
          s = s\<lparr>eg_control := control\<rparr> in
      case execution_outcome env script timer request s of
        None \<Rightarrow> None
      | Some x \<Rightarrow>
          (case release_frontend env script request (conclude_execution env timer request x) of
             (outcome, s) \<Rightarrow>
               let s = advance env s; t = eg_tick s in
               (case journal_finish (ee_journal env) (ee_write env t) (ee_time env t) (ee_time env (Suc t)) (ee_observe env t)
                       outcome (eg_control s) (eg_journal s) of
                  (r, j, events) \<Rightarrow> Some (r, s\<lparr>eg_journal := j, eg_observed := eg_observed s @ events\<rparr>))))"

end
