(* ===== verification/Engine_Steps.thy ===== *)
theory Engine_Steps
  imports Execution_Engine
begin

text \<open>
  What every step of the engine keeps. The waits and decisions of an execution are long, but all they do
  to its state is to let time pass, to use the control and to write to the journal; what follows from
  that alone is proved once.
\<close>

section \<open>What every step of the engine keeps\<close>

text \<open>
  The interface between the engine and what is proved of its waits: a relation that holds along time
  passing, uses of the control and entries of the journal holds along every step that makes no call to
  the outside.
\<close>

lemma request_le: "control_le c (snd (control_request limits now cause c))"
  by (auto simp: control_le_def control_request_def begin_cleanup_def Let_def split: option.splits)

lemma begin_le: "control_le c (snd (begin_cleanup limits now c))"
  by (auto simp: control_le_def begin_cleanup_def Let_def split: option.splits)

lemma adopt_le: "control_le c (snd (adopt_cleanup_deadline limits now d c))"
  by (auto simp: control_le_def adopt_cleanup_deadline_def Let_def split: option.splits)

lemma other_act_le: "control_le c (other_act limits now act c)"
  by (cases act) (auto intro: request_le begin_le adopt_le)

lemma others_le: "control_le c (fold (other_act limits now) acts c)"
  by (induction acts arbitrary: c) (auto intro: control_le_refl control_le_trans other_act_le)

lemma emit_keeps_admitted:
  assumes "journal_emit env ok now observer payload j = (r, j', es)" "jr_admitted j"
  shows "jr_admitted j'"
  using assms
  by (auto simp: journal_emit_def journal_write_def Let_def split: if_splits option.splits sum.splits prod.splits)

locale engine_relation =
  fixes R :: "engine \<Rightarrow> engine \<Rightarrow> bool"
  assumes refl: "R s s"
    and trans: "R s t \<Longrightarrow> R t u \<Longrightarrow> R s u"
    and tick: "eg_tick s \<le> k \<Longrightarrow> R s (s\<lparr>eg_tick := k\<rparr>)"
    and control: "control_le (eg_control s) c \<Longrightarrow> R s (s\<lparr>eg_control := c\<rparr>)"
    and journal: "(jr_admitted (eg_journal s) \<Longrightarrow> jr_admitted j) \<Longrightarrow> R s (s\<lparr>eg_journal := j, eg_observed := es\<rparr>)"
begin

lemma advance_rel: "R s (advance env s)"
proof -
  let ?t = "Suc (eg_tick s)"
  have "R (s\<lparr>eg_tick := ?t\<rparr>) (s\<lparr>eg_tick := ?t, eg_control := fold (other_act (ee_limits env) (ee_now env ?t)) (ee_others env ?t) (eg_control s)\<rparr>)"
    using control [of "s\<lparr>eg_tick := ?t\<rparr>"] others_le by simp
  with tick [of s ?t] trans show ?thesis by (auto simp: advance_def Let_def)
qed

lemma request_rel: "R s (request_stop env cause s)"
  unfolding request_stop_def Let_def by (rule trans [OF advance_rel control]) (rule request_le)

lemma begin_rel: "R s (begin_cleanup_now env s)"
  unfolding begin_cleanup_now_def Let_def by (rule trans [OF advance_rel control]) (rule begin_le)

lemma adopt_rel: "R s (adopt env d s)"
  unfolding adopt_def by (cases d) (auto intro: refl control adopt_le)

lemma emit_rel: "emit_with env wrap payload s = (r, s') \<Longrightarrow> R s s'"
proof -
  assume run: "emit_with env wrap payload s = (r, s')"
  let ?s = "advance env s"
  obtain r' j es where j: "journal_emit (ee_journal env) (ee_write env (eg_tick ?s)) (ee_time env (eg_tick ?s))
      (wrap (ee_observe env (eg_tick ?s))) payload (eg_journal ?s) = (r', j, es)" by (metis prod.exhaust)
  with run have "s' = ?s\<lparr>eg_journal := j, eg_observed := eg_observed ?s @ es\<rparr>" by (simp add: emit_with_def Let_def)
  with trans [OF advance_rel journal] emit_keeps_admitted [OF j] show ?thesis by blast
qed

lemma emit_now_rel: "emit_now env ctx payload s = (r, s') \<Longrightarrow> R s s'"
  unfolding emit_now_def by (rule emit_rel)

lemma check_rel: "check_preparing env timer timeout s = (r, s') \<Longrightarrow> R s s'"
proof -
  assume run: "check_preparing env timer timeout s = (r, s')"
  define u where "u = (if past_timeout timer timeout (clock env (advance env s)) then request_stop env Timeout (advance env s) else advance env s)"
  have "R s u" unfolding u_def using advance_rel trans [OF advance_rel request_rel] by simp
  moreover have "s' = advance env u"
    using run by (auto simp: check_preparing_def u_def [symmetric] Let_def split: option.splits if_splits)
  ultimately show ?thesis using advance_rel trans by blast
qed

lemma wait_rel: "wait_for_admission env timer timeout answers s = Some (r, s') \<Longrightarrow> R s s'"
proof (induction env timer timeout answers s rule: wait_for_admission.induct)
  case (2 env timer timeout answer rest s)
  obtain c u where c: "check_preparing env timer timeout s = (c, u)" by fastforce
  note u = check_rel [OF c]
  show ?case
  proof (cases c)
    case (Inl err)
    with 2(2) c u show ?thesis by simp
  next
    case (Inr x)
    show ?thesis
    proof (cases answer)
      case Admitted
      then show ?thesis using 2(2) c Inr u check_rel [of env timer timeout u] trans by (auto simp: Let_def)
    next
      case NotYet
      then have "R u s'" using 2(1) [OF c [symmetric] Inr NotYet] 2(2) c Inr by simp
      with u trans show ?thesis by blast
    next
      case AdmissionGone
      then show ?thesis using 2(2) c Inr check_rel [of env timer timeout "request_stop env ClientDisconnected u"]
          request_rel [of u env ClientDisconnected] trans [OF u] trans by auto
    qed
  qed
qed simp

lemma compile_loop_rel: "compile_loop env outcome turns result confirmation s = Some (r, s') \<Longrightarrow> R s s'"
proof (induction turns arbitrary: result confirmation s)
  case (Cons turn turns)
  define u where "u = advance env s"
  obtain result' confirmation' v where v: "(if result \<noteq> None then (result, confirmation, u)
      else case pt_poll turn of Got _ \<Rightarrow> (Some outcome, Some (clock env u + cleanup_timeout (ee_limits env)), u)
        | Gone \<Rightarrow> (None, confirmation, request_stop env FailedToStart u) | NothingYet \<Rightarrow> (None, confirmation, u))
      = (result', confirmation', v)" by (metis prod.exhaust)
  have uv: "R s v"
    using v advance_rel [of s env] trans [OF advance_rel request_rel] by (auto simp: u_def split: if_splits try_recv.splits)
  define w where "w = (if is_cancelled (eg_control v) then adopt env confirmation' v else v)"
  have sw: "R s w" using uv trans [OF uv adopt_rel] by (simp add: w_def)
  note unfolded = Cons.prems [unfolded compile_loop.simps, folded u_def, unfolded Let_def v prod.case, folded w_def]
  from unfolded consider "s' = request_stop env FailedToStart (adopt env confirmation' w)" | "s' = w"
    | "compile_loop env outcome turns result' confirmation' w = Some (r, s')" by (auto split: if_splits)
  then show ?case
  proof cases
    case 1
    with trans [OF sw trans [OF adopt_rel request_rel]] show ?thesis by simp
  next
    case 2
    with sw show ?thesis by simp
  next
    case 3
    from Cons.IH [OF this] trans [OF sw] show ?thesis by blast
  qed
qed simp

lemma compile_rel: "compile_plan env request spawned turns s = Some (r, s') \<Longrightarrow> R s s'"
  unfolding compile_plan_def using compile_loop_rel refl by (auto split: if_splits)

lemma emit_or_stop_rel: "emit_or_stop env event (st, s) = (st', s') \<Longrightarrow> R s s'"
proof -
  assume run: "emit_or_stop env event (st, s) = (st', s')"
  obtain r u where u: "emit env event s = (r, u)" by fastforce
  have "s' = u \<or> (\<exists>cause. s' = request_stop env cause u)" using run u by (auto simp: emit_or_stop_def split: sum.splits)
  with emit_rel [OF u] trans request_rel show ?thesis by blast
qed

lemma message_rel: "receive_message env request ctx plan limit message (st, s) = (st', s') \<Longrightarrow> R s s'"
proof -
  assume run: "receive_message env request ctx plan limit message (st, s) = (st', s')"
  have "\<exists>u st1 event. R s u \<and> (s' = u \<or> emit_or_stop env event (st1, u) = (st', s'))"
  proof (cases message)
    case (Started time process_id)
    with run request_rel refl show ?thesis by (force simp: receive_message_def receive_started_def split: if_splits)
  next
    case (SignalDelivered sequence process_id process_group)
    with run refl show ?thesis by (force simp: receive_message_def)
  next
    case (Output stream bytes)
    let ?u = "if os_started st = None then request_stop env ExecutionFailed s else s"
    have u: "R s ?u" using request_rel refl by simp
    from run Output have "s' = ?u \<or> s' = request_stop env OutputLimit ?u \<or> (\<exists>st1 event. emit_or_stop env event (st1, ?u) = (st', s'))"
      by (auto simp: receive_message_def receive_output_def store_output_def Let_def split: if_splits)
    with u trans [OF u request_rel] show ?thesis by blast
  qed
  with emit_or_stop_rel trans show ?thesis by blast
qed

lemma output_step_rel: "output_step env request ctx plan limit turn (st, s) = (b, st', s') \<Longrightarrow> R (advance env s) s'"
  by (auto simp: output_step_def Let_def intro: refl message_rel split: if_splits recv_answer.splits)

lemma output_loop_rel: "output_loop env request ctx plan limit turns (st, s) = Some (st', s') \<Longrightarrow> R s s'"
proof (induction turns arbitrary: st s)
  case (Cons turn turns)
  obtain b st1 u where turn: "output_step env request ctx plan limit turn (st, s) = (b, st1, u)" by (metis prod.exhaust)
  have "R s u" using trans [OF advance_rel output_step_rel [OF turn]] .
  with Cons turn trans show ?case by (cases b) auto
qed simp

lemma await_rel: "await_result env turns result s = Some (r, s') \<Longrightarrow> R s s'"
  by (induction env turns result s rule: await_result.induct)
    (auto simp: Let_def intro: refl advance_rel trans [OF advance_rel] split: option.splits if_splits)

lemma accept_rel: "R s (accept_backend_cause env r started s)"
  unfolding accept_backend_cause_def by (rule request_rel)

lemma decide_rel: "decide_owner_error env r (st, s) = (owner, s') \<Longrightarrow> R s s'"
proof -
  assume run: "decide_owner_error env r (st, s) = (owner, s')"
  define u where "u = (if os_started st = None \<and> (is_ok r \<or> Option.bind (failure_of r) failure_exit_code \<noteq> None)
    then request_stop env ExecutionFailed s else s)"
  have u: "R s u" using request_rel refl by (simp add: u_def)
  have "R s v" if "v = accept_backend_cause env r x u \<or> v = u" for v x using that u trans [OF u accept_rel] by blast
  then have v: "R s w" if "w = advance env (accept_backend_cause env r x u) \<or> w = advance env u" for w x
    using that trans advance_rel by blast
  have "\<exists>x w. (w = advance env (accept_backend_cause env r x u) \<or> w = advance env u) \<and>
      (s' = w \<or> (\<exists>cause. s' = request_stop env cause w))"
    using run by (auto simp: decide_owner_error_def u_def Let_def split: if_splits option.splits)
  with v trans request_rel show ?thesis by blast
qed

lemma ebind_rel:
  assumes "ebind m f s = (r, s')" "\<And>r' u. m s = (r', u) \<Longrightarrow> R s u" "\<And>x u. m s = (Inr x, u) \<Longrightarrow> f x u = (r, s') \<Longrightarrow> R u s'"
  shows "R s s'"
proof -
  obtain r' u where u: "m s = (r', u)" by fastforce
  show ?thesis
  proof (cases r')
    case (Inl err)
    with assms(1) u assms(2) [OF u] show ?thesis by (simp add: ebind_def)
  next
    case (Inr x)
    with assms(1) u have "f x u = (r, s')" by (simp add: ebind_def)
    with assms(3) u Inr trans [OF assms(2) [OF u]] show ?thesis by blast
  qed
qed

lemma eok_rel: "eok x s = (r, s') \<Longrightarrow> R s s'"
  by (auto simp: eok_def intro: refl)

lemma eerr_rel: "eerr err s = (r, s') \<Longrightarrow> R s s'"
  by (auto simp: eerr_def intro: refl)

lemma evidence_rel: "emit_evidence env ctx details payload s = (r, s') \<Longrightarrow> R s s'"
  unfolding emit_evidence_def by (auto intro: emit_rel split: prod.splits sum.splits)

lemma owner_failure_rel: "owner_failure env timer request ctx limit st details err s = (r, s') \<Longrightarrow> R s s'"
  unfolding owner_failure_def
  by (erule ebind_rel) (auto intro: evidence_rel eok_rel eerr_rel elim!: ebind_rel split: if_splits)

lemma emit_all_rel: "emit_all env events s = (r, s') \<Longrightarrow> R s s'"
proof (induction events arbitrary: s)
  case Nil
  then show ?case by (simp add: eok_rel)
next
  case (Cons event events)
  then show ?case unfolding emit_all.simps by (elim ebind_rel) (auto intro: emit_rel)
qed

lemma timed_out_rel: "timed_out_failure env request ctx duration stdout stderr s = (r, s') \<Longrightarrow> R s s'"
  unfolding timed_out_failure_def by (erule ebind_rel) (auto intro: emit_now_rel eerr_rel)

lemma truncated_rel: "truncated_failure env request ctx t a b c d s = (r, s') \<Longrightarrow> R s s'"
  unfolding truncated_failure_def Let_def by (erule ebind_rel) (auto intro: emit_rel eerr_rel)

lemma report_rel: "report_output env request ctx plan st out duration output s = (r, s') \<Longrightarrow> R s s'"
proof -
  obtain truncated stdout stderr where cut: "output = (truncated, stdout, stderr)" by (metis prod.exhaust)
  have tail: "R v s'" if "ebind (emit env e) (\<lambda>_.
         if truncated then truncated_failure env request ctx t (os_retained st Stdout) (os_retained st Stderr) stdout stderr
         else (\<lambda>s. let s = advance env s in (Inr (g s), s))) v = (r, s')" for v e g t
    using that by (rule ebind_rel) (auto simp: Let_def intro: emit_rel truncated_rel advance_rel split: if_splits)
  assume "report_output env request ctx plan st out duration output s = (r, s')"
  then show ?thesis unfolding report_output_def cut prod.case
  proof (rule ebind_rel)
    show "\<And>r' u. (if truncated then ebind (emit_now env ctx (truncated_payload request ctx (os_retained st Stdout)
        (os_retained st Stderr) stdout stderr)) (\<lambda>_. eok ()) else eok ()) s = (r', u) \<Longrightarrow> R s u"
      by (auto intro: emit_now_rel eok_rel elim!: ebind_rel split: if_splits)
  qed (simp only: Let_def, rule trans [OF advance_rel], rule tail, simp only: Let_def)
qed

lemma finish_output_rel: "finish_output env timer request ctx plan st out s = (r, s') \<Longrightarrow> R s s'"
  unfolding finish_output_def
  by (erule ebind_rel)
    (auto simp: Let_def intro: emit_all_rel trans [OF advance_rel timed_out_rel] trans [OF advance_rel report_rel] split: if_splits)

lemma settle_rel:
  assumes "settle_execution env script timer request ctx plan limit result (st, s) = (r, s')"
  shows "R s s'"
proof -
  define u where "u = (case result of
      Some r \<Rightarrow> if os_owner_error st = None then accept_backend_cause env r (os_started st \<noteq> None) s else s | None \<Rightarrow> s)"
  define v where "v = begin_cleanup_now env u"
  define b where "b = joined_result (sc_worker_end script) result"
  obtain owner w where w: "decide_owner_error env b (st, v) = (owner, w)" by fastforce
  have "R s u" using accept_rel refl by (auto simp: u_def split: option.splits)
  then have "R s w" using trans [OF trans [OF _ begin_rel] decide_rel [OF w [unfolded v_def]]] by blast
  moreover have "R w s'"
    using assms w owner_failure_rel finish_output_rel refl
    by (auto simp: settle_execution_def u_def [symmetric] v_def [symmetric] b_def [symmetric] Let_def
        split: option.splits sum.splits)
  ultimately show ?thesis by (rule trans)
qed

lemma run_backend_rel:
  assumes "run_backend env script timer request ctx plan limit s = Some (r, s')"
  shows "R s s'"
proof -
  obtain st u where u: "output_loop env request ctx plan limit (sc_output script) (output_init, s) = Some (st, u)"
    using assms by (auto simp: run_backend_def split: option.splits)
  obtain result v where v: "await_result env (sc_await script) (os_result st) u = Some (result, v)"
    using assms u by (auto simp: run_backend_def split: option.splits)
  from assms u v have "settle_execution env script timer request ctx plan limit result (st, v) = (r, s')"
    by (simp add: run_backend_def)
  from trans [OF trans [OF output_loop_rel [OF u] await_rel [OF v]] settle_rel [OF this]] show ?thesis .
qed

end

text \<open>Two such relations: no call to the outside, and time, control and journal only go on.\<close>

definition no_call :: "engine \<Rightarrow> engine \<Rightarrow> bool" where
  "no_call s t \<longleftrightarrow> eg_calls t = eg_calls s"

definition onward :: "engine \<Rightarrow> engine \<Rightarrow> bool" where
  "onward s t \<longleftrightarrow> eg_tick s \<le> eg_tick t \<and> control_le (eg_control s) (eg_control t) \<and>
     (jr_admitted (eg_journal s) \<longrightarrow> jr_admitted (eg_journal t))"

interpretation quiet: engine_relation no_call
  by unfold_locales (simp_all add: no_call_def)

interpretation later: engine_relation onward
  by unfold_locales (auto simp: onward_def intro: control_le_refl control_le_trans)

end
