(* ===== verification/Engine_Guarantees.thy ===== *)
theory Engine_Guarantees
  imports Engine_Steps "HOL-Library.Sublist"
begin

text \<open>
  What an execution guarantees, whatever its backend sends and returns, whatever the other threads, the
  clock, the file system and the observer do: output within the limit and faithful, no launch without
  permission, no claim of a cleanup that was not confirmed, and an end once it is stopped.
\<close>

section \<open>Output\<close>

fun sent_on :: "output_stream \<Rightarrow> output_turn list \<Rightarrow> byte list" where
  "sent_on x [] = []"
| "sent_on x (turn # turns) =
     (case ot_recv turn of Message (Output y bytes) \<Rightarrow> if y = x then bytes else [] | _ \<Rightarrow> []) @ sent_on x turns"

definition retained_total :: "output_state \<Rightarrow> nat" where
  "retained_total st = (\<Sum>x \<leftarrow> [Stdout, Stderr, Terminal, Control]. length (os_retained st x))"

definition output_inv :: "nat \<Rightarrow> (output_stream \<Rightarrow> byte list) \<Rightarrow> output_state \<Rightarrow> bool" where
  "output_inv limit sent st \<longleftrightarrow>
     (\<forall>x. prefix (os_retained st x) (sent x)) \<and> (\<forall>x. os_bytes st x = length (sent x)) \<and> retained_total st \<le> limit \<and>
     (os_owner_error st = None \<longrightarrow> (\<forall>x. os_retained st x = sent x))"

lemma output_inv_init: "output_inv limit (\<lambda>_. []) output_init"
  by (simp add: output_inv_def output_init_def retained_total_def)

lemma output_inv_error:
  "output_inv limit sent st \<Longrightarrow> output_inv limit sent (st\<lparr>os_owner_error := Some err\<rparr>)"
  by (simp add: output_inv_def retained_total_def)

lemma output_inv_started: "output_inv limit sent st \<Longrightarrow> output_inv limit sent (st\<lparr>os_started := x\<rparr>)"
  by (simp add: output_inv_def retained_total_def)

lemma output_inv_result: "output_inv limit sent st \<Longrightarrow> output_inv limit sent (st\<lparr>os_result := x\<rparr>)"
  by (simp add: output_inv_def retained_total_def)

lemma emit_or_stop_state:
  "emit_or_stop env event (st, s) = (st', s') \<Longrightarrow> st' = st \<or> (\<exists>err. st' = st\<lparr>os_owner_error := Some err\<rparr>)"
  by (auto simp: emit_or_stop_def split: prod.splits sum.splits)

lemma output_inv_emit:
  "output_inv limit sent st \<Longrightarrow> emit_or_stop env event (st, s) = (st', s') \<Longrightarrow> output_inv limit sent st'"
  using emit_or_stop_state output_inv_error by metis

definition byte_total :: "output_state \<Rightarrow> nat" where
  "byte_total st = (\<Sum>x \<leftarrow> [Stdout, Stderr, Terminal, Control]. os_bytes st x)"

lemma total_bytes_exact: "byte_total st \<le> usize_max \<Longrightarrow> total_bytes st = byte_total st"
  by (simp add: byte_total_def total_bytes_def saturating_add_def)

lemma byte_total_less: "limit < usize_max \<Longrightarrow> total_bytes st \<le> limit \<Longrightarrow> total_bytes st = byte_total st"
  by (simp add: byte_total_def total_bytes_def saturating_add_def min_def split: if_splits)

lemma output_inv_add:
  assumes inv: "output_inv limit sent st" and "os_owner_error st = None"
    and st': "st' = st\<lparr>os_bytes := (os_bytes st)(x := os_bytes st x + length bytes),
                       os_retained := (os_retained st)(x := os_retained st x @ kept)\<rparr>"
    and kept: "prefix kept bytes" "retained_total st' \<le> limit"
  shows "kept = bytes \<Longrightarrow> output_inv limit (sent(x := sent x @ bytes)) st'"
    and "output_inv limit (sent(x := sent x @ bytes)) (st'\<lparr>os_owner_error := Some err\<rparr>)"
proof -
  have eq: "os_retained st y = sent y" "os_bytes st y = length (sent y)" for y using inv assms(2) by (simp_all add: output_inv_def)
  show "output_inv limit (sent(x := sent x @ bytes)) st'" if "kept = bytes"
    using that kept(2) eq by (auto simp: output_inv_def st')
  have "retained_total (st'\<lparr>os_owner_error := Some err\<rparr>) \<le> limit" using kept(2) by (simp add: retained_total_def)
  with kept(1) eq show "output_inv limit (sent(x := sent x @ bytes)) (st'\<lparr>os_owner_error := Some err\<rparr>)"
    by (auto simp: output_inv_def st')
qed

lemma retained_total_add:
  "retained_total (st\<lparr>os_bytes := f, os_retained := (os_retained st)(x := os_retained st x @ kept)\<rparr>) = retained_total st + length kept"
  by (cases x) (simp_all add: retained_total_def)

lemma byte_total_add:
  "byte_total (st\<lparr>os_bytes := (os_bytes st)(x := os_bytes st x + n)\<rparr>) = byte_total st + n"
  by (cases x) (simp_all add: byte_total_def)

lemma retained_is_total: "output_inv limit sent st \<Longrightarrow> os_owner_error st = None \<Longrightarrow> byte_total st = retained_total st"
  by (simp add: output_inv_def byte_total_def retained_total_def)

lemma output_inv_store:
  assumes inv: "output_inv limit sent st" and small: "limit + length bytes < usize_max"
    and run: "store_output env ctx limit x bytes (st, s) = (st', s')"
  shows "output_inv limit (sent(x := sent x @ bytes)) st'"
proof -
  define st1 where "st1 = st\<lparr>os_bytes := (os_bytes st)(x := os_bytes st x + length bytes)\<rparr>"
  have err1: "os_owner_error st1 = os_owner_error st" by (simp add: st1_def)
  note store = run [unfolded store_output_def prod.case Let_def, folded st1_def]
  show ?thesis
  proof (cases "os_owner_error st")
    case (Some err)
    have "output_inv limit (sent(x := sent x @ bytes)) st1"
      using inv Some by (auto simp: output_inv_def st1_def retained_total_def intro: prefix_order.trans)
    moreover have "st' = st1 \<or> (\<exists>err. st' = st1\<lparr>os_owner_error := Some err\<rparr>)"
      using store Some by (auto simp: err1 owner_error_or_def split: if_splits)
    ultimately show ?thesis using output_inv_error by auto
  next
    case None
    have exact: "byte_total st = retained_total st" "retained_total st \<le> limit"
      using retained_is_total [OF inv None] inv by (simp_all add: output_inv_def)
    have total: "total_bytes st1 = byte_total st + length bytes"
      using total_bytes_exact [of st1] byte_total_add [of st x "length bytes"] exact small by (simp add: st1_def)
    let ?keep = "\<lambda>kept. st\<lparr>os_bytes := (os_bytes st)(x := os_bytes st x + length bytes),
                             os_retained := (os_retained st)(x := os_retained st x @ kept)\<rparr>"
    have keep: "retain_bytes x kept st1 = ?keep kept" for kept by (simp add: retain_bytes_def st1_def)
    show ?thesis
    proof (cases "limit < total_bytes st1")
      case True
      define kept where "kept = take (limit - (total_bytes st1 - length bytes)) bytes"
      have "st' = (?keep kept)\<lparr>os_owner_error := Some (error_new ''OUTPUT_LIMIT_EXCEEDED'' ''output limit exceeded'')\<rparr>"
        using store True None by (auto simp: err1 owner_error_or_def keep kept_def [symmetric])
      moreover have "retained_total (?keep kept) \<le> limit"
        using exact total by (auto simp: retained_total_add kept_def min_def)
      moreover have "prefix kept bytes" by (simp add: kept_def take_is_prefix)
      ultimately show ?thesis using output_inv_add(2) [OF inv None refl] by simp
    next
      case False
      have "retained_total (?keep bytes) \<le> limit" using False exact total by (simp add: retained_total_add)
      then have "output_inv limit (sent(x := sent x @ bytes)) (?keep bytes)"
        by (intro output_inv_add(1) [OF inv None refl]) simp_all
      moreover have "\<exists>event u. emit_or_stop env event (?keep bytes, u) = (st', s')"
        using store False None by (auto simp: err1 keep)
      ultimately show ?thesis using output_inv_emit by blast
    qed
  qed
qed

lemma output_inv_receive:
  assumes inv: "output_inv limit sent st" and small: "limit + length bytes < usize_max"
    and run: "receive_output env ctx limit x bytes (st, s) = (st', s')"
  shows "output_inv limit (sent(x := sent x @ bytes)) st'"
  using run output_inv_store [OF inv small] output_inv_store [OF output_inv_error [OF inv] small]
  by (auto simp: receive_output_def owner_error_or_def split: if_splits)

definition add_sent :: "recv_answer \<Rightarrow> (output_stream \<Rightarrow> byte list) \<Rightarrow> output_stream \<Rightarrow> byte list" where
  "add_sent answer sent =
     (case answer of Message (Output x bytes) \<Rightarrow> sent(x := sent x @ bytes) | _ \<Rightarrow> sent)"

text \<open>Chunks as the sink sends them: no longer than the deployment's chunk size.\<close>

definition small_chunk :: "deployment_limits \<Rightarrow> output_turn \<Rightarrow> bool" where
  "small_chunk limits turn =
     (case ot_recv turn of Message (Output _ bytes) \<Rightarrow> length bytes \<le> stream_chunk_bytes limits | _ \<Rightarrow> True)"

lemma output_inv_step:
  assumes inv: "output_inv limit sent st" and small: "limit + stream_chunk_bytes limits < usize_max" "small_chunk limits turn"
    and run: "output_step env request ctx plan limit turn (st, s) = (b, st', s')"
  shows "(if b then output_inv limit sent st' else output_inv limit (add_sent (ot_recv turn) sent) st')"
proof -
  define st1 where "st1 = st\<lparr>os_result := poll_result (ot_poll turn) (os_result st)\<rparr>"
  have inv1: "output_inv limit sent st1" using inv by (simp add: st1_def output_inv_result)
  note turn = run [unfolded output_step_def prod.case Let_def, folded st1_def]
  show ?thesis
  proof (cases "ot_recv turn")
    case (Message message)
    show ?thesis
    proof (cases message)
      case (Started time process_id)
      with turn Message inv1 output_inv_emit [OF output_inv_started [OF inv1]] output_inv_error [OF inv1] show ?thesis
        by (auto simp: receive_message_def receive_started_def add_sent_def split: if_splits)
    next
      case (SignalDelivered sequence process_id process_group)
      with turn Message inv1 output_inv_emit [OF inv1] show ?thesis
        by (auto simp: receive_message_def add_sent_def split: if_splits)
    next
      case (Output x bytes)
      have "limit + length bytes < usize_max" using small Message Output by (simp add: small_chunk_def)
      from output_inv_receive [OF inv1 this] turn Message Output inv1 show ?thesis
        by (auto simp: receive_message_def add_sent_def split: if_splits)
    qed
  qed (use turn inv1 in \<open>auto simp: add_sent_def split: if_splits\<close>)
qed

lemma output_inv_loop:
  assumes "output_loop env request ctx plan limit turns (st, s) = Some (st', s')"
    and "output_inv limit sent st" "limit + stream_chunk_bytes limits < usize_max" "list_all (small_chunk limits) turns"
  shows "retained_total st' \<le> limit \<and> (\<forall>x. prefix (os_retained st' x) (sent x @ sent_on x turns))"
  using assms
proof (induction turns arbitrary: st s sent)
  case (Cons turn turns)
  obtain b st1 s1 where turn: "output_step env request ctx plan limit turn (st, s) = (b, st1, s1)" by (metis prod.exhaust)
  note inv = output_inv_step [OF Cons.prems(2,3) _ turn] 
  have small: "small_chunk limits turn" "list_all (small_chunk limits) turns" using Cons.prems(4) by simp_all
  show ?case
  proof (cases b)
    case True
    then have "st' = st1" "output_inv limit sent st1" using Cons.prems(1) turn inv small by simp_all
    then show ?thesis by (auto simp: output_inv_def intro: prefix_order.trans)
  next
    case False
    then have rest: "output_loop env request ctx plan limit turns (st1, s1) = Some (st', s')"
      and inv1: "output_inv limit (add_sent (ot_recv turn) sent) st1" using Cons.prems(1) turn inv small by simp_all
    have "add_sent (ot_recv turn) sent x @ sent_on x turns = sent x @ sent_on x (turn # turns)" for x
      by (auto simp: add_sent_def split: recv_answer.splits backend_message.splits)
    with Cons.IH [OF rest inv1 Cons.prems(3) small(2)] show ?thesis by metis
  qed
qed simp


section \<open>Success\<close>

lemma ebind_ok: "ebind m f s = (Inr x, s') \<longleftrightarrow> (\<exists>y u. m s = (Inr y, u) \<and> f y u = (Inr x, s'))"
  by (auto simp: ebind_def split: prod.splits sum.splits)

lemma eerr_ok [simp]: "eerr err s \<noteq> (Inr x, s')"
  by (simp add: eerr_def)

lemma report_ok:
  assumes "report_output env request ctx plan st out duration output s = (Inr result, s')"
  shows "\<not> fst output \<and> (\<exists>finished_at. result = finished_result env request ctx plan out st (control_cause (eg_control s'))
    finished_at duration (fst (snd output)) (snd (snd output)) False)"
  using assms
  by (cases "output") (auto simp: report_output_def ebind_ok truncated_failure_def Let_def split: if_splits)

lemma finish_output_ok:
  assumes "finish_output env timer request ctx plan st out s = (Inr result, s')"
  shows "\<not> bo_timed_out out \<and> (\<exists>finished_at duration stdout stderr.
    truncate_output (opt_nat (res_max_output_bytes (pol_resources (req_policy request)))) (os_retained st Stdout) (os_retained st Stderr)
      = (False, stdout, stderr) \<and>
    result = finished_result env request ctx plan out st (control_cause (eg_control s')) finished_at duration stdout stderr False)"
proof -
  let ?cut = "truncate_output (opt_nat (res_max_output_bytes (pol_resources (req_policy request)))) (os_retained st Stdout) (os_retained st Stderr)"
  from assms obtain duration u where "\<not> bo_timed_out out" "report_output env request ctx plan st out duration ?cut u = (Inr result, s')"
    by (auto simp: finish_output_def ebind_ok timed_out_failure_def Let_def split: if_splits)
  with report_ok [OF this(2)] show ?thesis by (cases ?cut) auto
qed

lemma owner_failure_fails: "\<exists>err s'. owner_failure env timer request ctx limit st details e s = (Inl err, s') \<and>
    err_details err = Some details"
proof -
  obtain r s' where run: "owner_failure env timer request ctx limit st details e s = (r, s')" by fastforce
  have evidence: "emit_evidence env ctx details payload u = (Inl err, u') \<Longrightarrow> err_details err = Some details" for payload u err u'
    by (auto simp: emit_evidence_def error_with_details_def split: prod.splits sum.splits)
  have "\<exists>err. r = Inl err \<and> err_details err = Some details"
    using run
    by (auto simp: owner_failure_def ebind_def eok_def eerr_def error_with_details_def dest: evidence
        split: if_splits prod.splits sum.splits)
  with run show ?thesis by blast
qed

text \<open>When the decision finds no error of the owner.\<close>

lemma decide_none:
  assumes "decide_owner_error env r (st, s) = (None, s')"
  shows "os_owner_error st = None" "\<not> result_cleanup_failed r (os_started st \<noteq> None)" "is_ok r \<Longrightarrow> os_started st \<noteq> None"
    "\<exists>cause. control_cause (eg_control s') = Some cause \<and> cause_error_code cause = None"
proof -
  note decide = assms [unfolded decide_owner_error_def prod.case Let_def]
  show failed: "\<not> result_cleanup_failed r (os_started st \<noteq> None)" using decide by (auto split: if_splits)
  have skip: "\<not> (os_started st = None \<and> (is_ok r \<or> Option.bind (failure_of r) failure_exit_code \<noteq> None))"
    using decide by (auto simp: owner_error_or_def cause_owner_error_def split: if_splits option.splits)
  then show "is_ok r \<Longrightarrow> os_started st \<noteq> None" by auto
  define w where "w = (if os_owner_error st = None then accept_backend_cause env r (os_started st \<noteq> None) s else s)"
  have s': "s' = advance env w" and none: "cause_owner_error (control_cause (eg_control (advance env w))) (os_owner_error st) = None"
    using decide skip failed by (auto simp: w_def split: if_splits)
  then show owner: "os_owner_error st = None" by (auto simp: cause_owner_error_def split: option.splits)
  have "ctl_cause (eg_control w) \<noteq> None"
    using owner by (auto simp: w_def accept_backend_cause_def request_stop_def control_request_def begin_cleanup_def Let_def split: option.splits)
  then have "ctl_cause (eg_control (advance env w)) \<noteq> None"
    using later.advance_rel [of w env] by (auto simp: onward_def control_le_def)
  with none show "\<exists>cause. control_cause (eg_control s') = Some cause \<and> cause_error_code cause = None"
    by (auto simp: s' control_cause_def cause_owner_error_def split: option.splits)
qed

lemma settle_cases:
  assumes "settle_execution env script timer request ctx plan limit result (st, s) = (r, s')"
  defines "b \<equiv> joined_result (sc_worker_end script) result"
  shows "(\<exists>err. r = Inl err \<and> err_details err \<noteq> None \<and>
            json_index (the (err_details err)) ''cleanup_complete'' = JBool (result_cleanup_complete b (os_started st \<noteq> None))) \<or>
         (\<exists>out u v. b = Inr out \<and> bo_cleanup_complete out \<and> os_started st \<noteq> None \<and> os_owner_error st = None \<and>
            decide_owner_error env b (st, u) = (None, v) \<and> finish_output env timer request ctx plan st out v = (r, s'))"
proof -
  define u where "u = begin_cleanup_now env (case result of
      Some r \<Rightarrow> if os_owner_error st = None then accept_backend_cause env r (os_started st \<noteq> None) s else s | None \<Rightarrow> s)"
  obtain owner v where v: "decide_owner_error env b (st, u) = (owner, v)" by fastforce
  note settle = assms(1) [unfolded settle_execution_def prod.case Let_def, folded b_def u_def, unfolded v prod.case]
  show ?thesis
  proof (cases owner)
    case (Some err)
    with settle owner_failure_fails [of env timer request ctx limit st "owner_details env request ctx plan limit b (st, v)" err v]
    show ?thesis by (auto simp: owner_details_def)
  next
    case None
    note none = decide_none [OF v [unfolded None]]
    show ?thesis
    proof (cases b)
      case (Inl err)
      with settle None show ?thesis
        by (auto simp: start_failure_def error_with_details_def Let_def index_json_set split: option.splits)
    next
      case (Inr out)
      with none have "bo_cleanup_complete out" "os_started st \<noteq> None" by (auto simp: result_cleanup_failed_def is_ok_def)
      with settle None Inr none v show ?thesis by auto
    qed
  qed
qed


section \<open>What is launched\<close>

text \<open>Assertions about steps of the engine: \<open>Q\<close> after a success, \<open>E\<close> after an error.\<close>

definition evalid :: "(engine \<Rightarrow> bool) \<Rightarrow> 'a eng \<Rightarrow> ('a \<Rightarrow> engine \<Rightarrow> bool) \<Rightarrow> (engine \<Rightarrow> bool) \<Rightarrow> bool" where
  "evalid P m Q E \<longleftrightarrow> (\<forall>s. P s \<longrightarrow> (case m s of (Inr x, s') \<Rightarrow> Q x s' | (Inl _, s') \<Rightarrow> E s'))"

lemma evalid_bind: "evalid P m Q E \<Longrightarrow> (\<And>x. evalid (Q x) (f x) R E) \<Longrightarrow> evalid P (ebind m f) R E"
  unfolding evalid_def
proof (intro allI impI)
  fix s
  assume m: "\<forall>s. P s \<longrightarrow> (case m s of (Inr x, s') \<Rightarrow> Q x s' | (Inl _, s') \<Rightarrow> E s')" and "P s"
    and f: "\<And>x. \<forall>s. Q x s \<longrightarrow> (case f x s of (Inr y, s') \<Rightarrow> R y s' | (Inl _, s') \<Rightarrow> E s')"
  obtain r u where u: "m s = (r, u)" by fastforce
  with m \<open>P s\<close> have "case r of Inr x \<Rightarrow> Q x u | Inl _ \<Rightarrow> E u" by (cases r) (auto dest!: spec [of _ s])
  with f u show "case ebind m f s of (Inr y, s') \<Rightarrow> R y s' | (Inl _, s') \<Rightarrow> E s'"
    by (cases r) (simp_all add: ebind_def)
qed

lemma evalid_eok: "(\<And>s. P s \<Longrightarrow> Q x s) \<Longrightarrow> evalid P (eok x) Q E"
  by (simp add: evalid_def eok_def)

lemma evalid_if: "evalid P m Q E \<Longrightarrow> evalid P m' Q E \<Longrightarrow> evalid P (if b then m else m') Q E"
  by simp

lemma evalid_ewhen: "(\<And>s. P s \<Longrightarrow> Q () s \<and> E s) \<Longrightarrow> evalid P (ewhen b err) Q E"
  by (auto simp: evalid_def ewhen_def eok_def eerr_def)

text \<open>The calls made so far, and that the journal is admitted.\<close>

definition at_calls :: "engine_call list \<Rightarrow> bool \<Rightarrow> engine \<Rightarrow> bool" where
  "at_calls calls admitted s \<longleftrightarrow> eg_calls s = calls \<and> (admitted \<longrightarrow> jr_admitted (eg_journal s))"

definition at_either :: "engine_call list list \<Rightarrow> engine \<Rightarrow> bool" where
  "at_either callss s \<longleftrightarrow> eg_calls s \<in> set callss"

lemma evalid_quiet:
  assumes "\<And>s r s'. m s = (r, s') \<Longrightarrow> no_call s s' \<and> onward s s'" "calls \<in> set callss"
  shows "evalid (at_calls calls b) m (\<lambda>_. at_calls calls b) (at_either callss)"
  unfolding evalid_def
proof (intro allI impI)
  fix s assume "at_calls calls b s"
  moreover obtain r s' where m: "m s = (r, s')" by fastforce
  ultimately show "case m s of (Inr x, s') \<Rightarrow> at_calls calls b s' | (Inl _, s') \<Rightarrow> at_either callss s'"
    using assms(1) [OF m] assms(2) by (cases r) (auto simp: at_calls_def at_either_def no_call_def onward_def)
qed

lemma evalid_check: "calls \<in> set callss \<Longrightarrow>
    evalid (at_calls calls b) (check_preparing env timer timeout) (\<lambda>_. at_calls calls b) (at_either callss)"
  by (rule evalid_quiet) (auto intro: quiet.check_rel later.check_rel)

lemma evalid_emit: "calls \<in> set callss \<Longrightarrow>
    evalid (at_calls calls b) (emit_now env ctx payload) (\<lambda>_. at_calls calls b) (at_either callss)"
  by (rule evalid_quiet) (auto intro: quiet.emit_now_rel later.emit_now_rel)

lemma admit_effect:
  assumes "admit_journal env n s = (r, s')"
  shows "eg_calls s' = eg_calls s" "is_ok r \<Longrightarrow> jr_admitted (eg_journal s')"
proof -
  let ?s = "advance env s"
  obtain r' j where j: "journal_admit (ee_journal env) (ee_create env (eg_tick ?s)) (ee_write env (eg_tick ?s)) (ee_time env (eg_tick ?s))
      n (eg_journal ?s) = (r', j)" by fastforce
  have s': "r' = r" "s' = ?s\<lparr>eg_journal := j\<rparr>" using assms j by (simp_all add: admit_journal_def Let_def)
  show "eg_calls s' = eg_calls s" using quiet.advance_rel [of s env] by (simp add: s' no_call_def)
  show "is_ok r \<Longrightarrow> jr_admitted (eg_journal s')"
    using j s' by (auto simp: journal_admit_def is_ok_def Let_def split: if_splits sum.splits prod.splits)
qed

lemma evalid_admit: "calls \<in> set callss \<Longrightarrow>
    evalid (at_calls calls False) (admit_journal env n) (\<lambda>_. at_calls calls True) (at_either callss)"
  unfolding evalid_def
proof (intro allI impI)
  fix s assume "calls \<in> set callss" "at_calls calls False s"
  moreover obtain r s' where m: "admit_journal env n s = (r, s')" by fastforce
  ultimately show "case admit_journal env n s of (Inr x, s') \<Rightarrow> at_calls calls True s' | (Inl _, s') \<Rightarrow> at_either callss s'"
    using admit_effect [OF m] by (cases r) (auto simp: at_calls_def at_either_def is_ok_def)
qed

lemma evalid_reserve:
  assumes "calls \<in> set callss"
  shows "evalid (at_calls calls False) (reserve_execution env plan)
    (\<lambda>_ s. ee_reserve env plan = Inr () \<and> at_calls (calls @ [Reserved]) False s) (at_either callss)"
  using assms by (auto simp: evalid_def reserve_execution_def at_calls_def at_either_def call_def split: sum.splits)

lemma evalid_plan:
  assumes "calls \<in> set callss"
  shows "evalid (at_calls calls False) (case compiled of Inl err \<Rightarrow> plan_error env err | Inr plan \<Rightarrow> eok plan)
    (\<lambda>plan s. compiled = Inr plan \<and> at_calls calls False s) (at_either callss)"
  using assms quiet.advance_rel
  by (auto simp: evalid_def plan_error_def eok_def at_calls_def at_either_def no_call_def Let_def split: sum.splits)

lemma evalid_fact: "(b \<Longrightarrow> evalid P m Q E) \<Longrightarrow> evalid (\<lambda>s. b \<and> P s) m Q E"
  by (auto simp: evalid_def)

lemma launch_valid:
  "evalid (at_calls calls False) (launch env timer request ctx spawned compiled)
    (\<lambda>plan s. compiled = Inr plan \<and> ee_reserve env plan = Inr () \<and> at_calls (calls @ [Reserved, Launched]) True s)
    (at_either [calls, calls @ [Reserved]])"
  unfolding launch_def
proof (rule evalid_bind [OF evalid_check], goal_cases)
  case (2 u)
  show ?case
  proof (rule evalid_bind [OF evalid_plan], goal_cases)
    case (2 plan)
    show ?case
    proof (rule evalid_fact, rule evalid_bind [OF evalid_check], goal_cases)
      case c: (2 u)
      show ?case
      proof (rule evalid_bind [OF evalid_reserve], goal_cases)
        case (2 u)
        let ?P = "at_calls (calls @ [Reserved]) True"
        have last: "evalid ?P (\<lambda>s. (Inr plan, call Launched s))
          (\<lambda>plan s. compiled = Inr plan \<and> ee_reserve env plan = Inr () \<and> at_calls (calls @ [Reserved, Launched]) True s)
            (at_either [calls, calls @ [Reserved]])"
          if "compiled = Inr plan" "ee_reserve env plan = Inr ()"
          using that by (simp add: evalid_def call_def at_calls_def)
        have spawn: "evalid ?P (ewhen (\<not> spawned) err) (\<lambda>_. ?P) (at_either [calls, calls @ [Reserved]])" for err
          by (rule evalid_ewhen) (simp add: at_calls_def at_either_def)
        show ?case
          by (rule evalid_fact, rule evalid_bind [OF evalid_admit],
              simp, rule evalid_bind [OF evalid_emit], simp, rule evalid_bind [OF evalid_emit], simp,
              rule evalid_bind [OF evalid_emit], simp, rule evalid_bind [OF evalid_check], simp,
              rule evalid_bind [OF spawn], rule last)
            (use c in simp_all)
      qed simp
    qed simp_all
  qed simp
qed simp

lemma check_policy_ok:
  assumes "check_policy env policy s = (r, s')"
  shows "no_call s s'" "is_ok r \<Longrightarrow> \<not> requires_broad_write_approval policy \<and> \<not> denies_execution_without_backend policy"
  using assms quiet.advance_rel [of s env]
  by (auto simp: check_policy_def reject_execution_def eok_def is_ok_def no_call_def Let_def split: if_splits)

lemma check_request_effect:
  assumes "check_request env timer request s = (r, s')"
  shows "no_call s s'" "r = Inr limit \<Longrightarrow> output_limit_of env (req_policy request) = Some limit \<and> req_command request \<noteq> [] \<and>
    \<not> requires_broad_write_approval (req_policy request) \<and> \<not> denies_execution_without_backend (req_policy request)"
proof -
  have ewhen: "ewhen b err s = (r, s') \<Longrightarrow> no_call s s'" for b err s r s'
    by (auto simp: ewhen_def intro: quiet.eok_rel quiet.eerr_rel split: if_splits)
  have limit_rel: "(case x of Some limit \<Rightarrow> eok limit | None \<Rightarrow> eerr err) s = (r, s') \<Longrightarrow> no_call s s'"
    for x err s r s' by (auto intro: quiet.eok_rel quiet.eerr_rel split: option.splits)
  note bind = quiet.ebind_rel
  show "no_call s s'"
    using assms unfolding check_request_def
    by (elim bind) (auto intro: quiet.check_rel ewhen limit_rel check_policy_ok(1) quiet.eok_rel)
  show "r = Inr limit \<Longrightarrow> output_limit_of env (req_policy request) = Some limit \<and> req_command request \<noteq> [] \<and>
    \<not> requires_broad_write_approval (req_policy request) \<and> \<not> denies_execution_without_backend (req_policy request)"
    using assms check_policy_ok(2)
    by (auto simp: check_request_def ebind_ok ewhen_def eok_def eerr_def is_ok_def split: if_splits option.splits)
qed

lemma compile_loop_result:
  assumes "compile_loop env outcome turns result confirmation s = Some (Inr compiled, s')" "result = None \<or> result = Some outcome"
  shows "outcome = Inr compiled"
  using assms
proof (induction turns arbitrary: result confirmation s)
  case (Cons turn turns)
  define u where "u = advance env s"
  obtain result' confirmation' v where v: "(if result \<noteq> None then (result, confirmation, u)
      else case pt_poll turn of Got _ \<Rightarrow> (Some outcome, Some (clock env u + cleanup_timeout (ee_limits env)), u)
        | Gone \<Rightarrow> (None, confirmation, request_stop env FailedToStart u) | NothingYet \<Rightarrow> (None, confirmation, u))
      = (result', confirmation', v)" by (metis prod.exhaust)
  have result': "result' = None \<or> result' = Some outcome" using v Cons.prems(2) by (auto split: if_splits try_recv.splits)
  define w where "w = (if is_cancelled (eg_control v) then adopt env confirmation' v else v)"
  note unfolded = Cons.prems(1) [unfolded compile_loop.simps, folded u_def, unfolded Let_def v prod.case, folded w_def]
  from unfolded consider "outcome = Inr compiled" | "compile_loop env outcome turns result' confirmation' w = Some (Inr compiled, s')"
    using result' by (auto split: if_splits option.splits)
  then show ?case
  proof cases
    case 2
    from Cons.IH [OF 2 result'] show ?thesis .
  qed
qed simp

lemma compile_plan_result:
  assumes "compile_plan env request spawned turns s = Some (Inr compiled, s')"
  shows "validate_execution_cwd (ee_host env) (req_cwd request) = Inr ()"
    "compiled = ee_compile env (ids_execution_id (req_ids request)) (req_cwd request) (req_policy request)"
  using assms compile_loop_result [of env "preparation_outcome env request" turns None None s compiled s']
  by (auto simp: compile_plan_def preparation_outcome_def result_simps split: if_splits)

definition permitted :: "engine_env \<Rightarrow> execution_request \<Rightarrow> sandbox_plan \<Rightarrow> nat \<Rightarrow> bool" where
  "permitted env request plan limit \<longleftrightarrow>
     output_limit_of env (req_policy request) = Some limit \<and> req_command request \<noteq> [] \<and>
     \<not> requires_broad_write_approval (req_policy request) \<and> \<not> denies_execution_without_backend (req_policy request) \<and>
     validate_execution_cwd (ee_host env) (req_cwd request) = Inr () \<and>
     ee_compile env (ids_execution_id (req_ids request)) (req_cwd request) (req_policy request) = Inr plan \<and>
     ee_reserve env plan = Inr ()"

lemma inner_cases:
  assumes "execute_inner env script timer request s = Some (r, s')"
  shows "eg_calls s' = eg_calls s \<or> eg_calls s' = eg_calls s @ [Reserved] \<or>
    (\<exists>plan limit ctx u. permitted env request plan limit \<and> eg_calls u = eg_calls s @ [Reserved, Launched] \<and> eg_calls s' = eg_calls u \<and>
       jr_admitted (eg_journal u) \<and> jr_admitted (eg_journal s') \<and> run_backend env script timer request ctx plan limit u = Some (r, s'))"
proof -
  define ctx where "ctx = event_context env request (jr_audit_path (eg_journal s))"
  obtain c u where c: "check_request env timer request s = (c, u)" by fastforce
  note c_calls = check_request_effect(1) [OF c, unfolded no_call_def]
  note inner = assms [unfolded execute_inner_def Let_def, folded ctx_def, unfolded c prod.case]
  show ?thesis
  proof (cases c)
    case (Inl err)
    with inner c_calls show ?thesis by simp
  next
    case (Inr limit)
    note ok = check_request_effect(2) [OF c Inr]
    obtain p v where p: "compile_plan env request (sc_preparation_spawned script) (sc_preparation script) u = Some (p, v)"
      using inner Inr by (auto split: option.splits)
    note p_calls = quiet.compile_rel [OF p, unfolded no_call_def]
    show ?thesis
    proof (cases p)
      case (Inl err)
      with inner Inr p c_calls p_calls show ?thesis by simp
    next
      case p_ok: (Inr compiled)
      note plan = compile_plan_result [OF p [unfolded p_ok]]
      obtain l w where l: "launch env timer request ctx (sc_worker_spawned script) compiled v = (l, w)" by fastforce
      have valid: "case l of Inr plan \<Rightarrow> compiled = Inr plan \<and> ee_reserve env plan = Inr () \<and> at_calls (eg_calls v @ [Reserved, Launched]) True w
          | Inl _ \<Rightarrow> at_either [eg_calls v, eg_calls v @ [Reserved]] w"
        using launch_valid [of "eg_calls v" env timer request ctx "sc_worker_spawned script" compiled, unfolded evalid_def, THEN spec, of v] l
        by (cases l) (simp_all add: at_calls_def)
      show ?thesis
      proof (cases l)
        case (Inl err)
        with valid inner Inr p p_ok l c_calls p_calls show ?thesis by (auto simp: at_either_def)
      next
        case l_ok: (Inr pl)
        then have run: "run_backend env script timer request ctx pl limit w = Some (r, s')" using inner Inr p p_ok l by simp
        note run_calls = quiet.run_backend_rel [OF run, unfolded no_call_def] later.run_backend_rel [OF run, unfolded onward_def]
        have "permitted env request pl limit" using valid l_ok ok plan by (auto simp: permitted_def)
        moreover have "eg_calls w = eg_calls s @ [Reserved, Launched]" "jr_admitted (eg_journal w)" "jr_admitted (eg_journal s')"
          "eg_calls s' = eg_calls w"
          using valid l_ok run_calls c_calls p_calls by (auto simp: at_calls_def)
        ultimately show ?thesis using run by blast
      qed
    qed
  qed
qed


section \<open>What is released\<close>

lemma cleanup_unset: "json_index (json_set (json_set v ''cleanup_complete'' (JBool False)) ''requested_termination_reason'' x) ''cleanup_complete''
    \<noteq> JBool True"
  by (cases v) (simp_all add: json_set_def json_index_def json_get_def, simp add: obj_get_def)

lemma finalize_confirmed:
  "cleanup_confirmed (finalize_frontend outcome cause cleanup) \<longleftrightarrow> is_ok cleanup \<and> cleanup_confirmed outcome"
  by (auto simp: finalize_frontend_def cleanup_confirmed_def is_ok_def error_with_details_def cleanup_unset Let_def split: sum.splits)

lemma advance_calls [simp]: "eg_calls (advance env s) = eg_calls s"
  using quiet.advance_rel by (simp add: no_call_def)

lemma begin_calls [simp]: "eg_calls (begin_cleanup_now env s) = eg_calls s"
  using quiet.begin_rel by (simp add: no_call_def)

lemma request_calls [simp]: "eg_calls (request_stop env cause s) = eg_calls s"
  using quiet.request_rel by (simp add: no_call_def)

lemma call_calls [simp]: "eg_calls (call c s) = eg_calls s @ [c]"
  by (simp add: call_def)

text \<open>Each of the three is told whether everything before it was confirmed, and the result is confirmed only if all were.\<close>

lemma release_effect_calls:
  assumes run: "release_frontend env script request (outcome, s) = (final, s')"
  defines "running \<equiv> sc_timer_started script \<and> req_timeout request \<noteq> None"
    and "timer_ok \<equiv> is_ok (sc_timer_end script)"
  defines "c1 \<equiv> cleanup_confirmed outcome \<and> (running \<longrightarrow> timer_ok)"
  defines "c2 \<equiv> c1 \<and> (reserved s \<longrightarrow> sc_reservation_finish script c1)"
  shows "eg_calls s' = eg_calls s @ (if running then [StopTimer timer_ok] else []) @
      (if reserved s then [FinishReservation c1 (sc_reservation_finish script c1)] else []) @
      [CleanObserver c2 (is_ok (sc_observer_cleanup script c2))]"
    and "cleanup_confirmed final \<longleftrightarrow> c2 \<and> is_ok (sc_observer_cleanup script c2)"
proof -
  obtain o1 s1 where 1: "stop_timer env running (sc_timer_end script) (outcome, s) = (o1, s1)" by fastforce
  obtain o2 s2 where 2: "release_reservation env (sc_reservation_finish script) (o1, s1) = (o2, s2)" by fastforce
  have 3: "clean_observer env (sc_observer_cleanup script) (o2, s2) = (final, s')"
    using run 1 2 by (simp add: release_frontend_def running_def)
  have a: "cleanup_confirmed o1 = c1" "eg_calls s1 = eg_calls s @ (if running then [StopTimer timer_ok] else [])"
    using 1 by (auto simp: stop_timer_def Let_def finalize_confirmed is_ok_def c1_def timer_ok_def)
  then have r: "reserved s1 = reserved s" by (simp add: reserved_def)
  have b: "cleanup_confirmed o2 = c2"
    "eg_calls s2 = eg_calls s1 @ (if reserved s then [FinishReservation c1 (sc_reservation_finish script c1)] else [])"
    using 2 by (auto simp: release_reservation_def Let_def finalize_confirmed is_ok_def a r c2_def split: if_splits)
  show "eg_calls s' = eg_calls s @ (if running then [StopTimer timer_ok] else []) @
      (if reserved s then [FinishReservation c1 (sc_reservation_finish script c1)] else []) @
      [CleanObserver c2 (is_ok (sc_observer_cleanup script c2))]"
    using 3 by (auto simp: clean_observer_def Let_def a b)
  show "cleanup_confirmed final \<longleftrightarrow> c2 \<and> is_ok (sc_observer_cleanup script c2)"
    using 3 by (auto simp: clean_observer_def Let_def finalize_confirmed b)
qed

lemma conclude_calls: "conclude_execution env timer request (outcome, s) = (outcome', s') \<Longrightarrow> eg_calls s' = eg_calls s"
proof -
  have stopped: "record_stopped env n (a, u) = (b, v) \<Longrightarrow> eg_calls v = eg_calls u" for n a b u v
    by (auto simp: record_stopped_def Let_def dest: admit_effect(1) split: if_splits prod.splits sum.splits)
  have notified: "notify_requested env (a, u) = (b, v) \<Longrightarrow> eg_calls v = eg_calls u" for a b u v
    by (auto simp: notify_requested_def Let_def split: if_splits prod.splits sum.splits)
  have timeout: "record_timeout env timer t (a, u) = (b, v) \<Longrightarrow> eg_calls v = eg_calls u" for t a b u v
    by (auto simp: record_timeout_def Let_def no_call_def dest!: quiet.emit_rel split: if_splits prod.splits sum.splits)
  have details: "default_details env t (a, u) = (b, v) \<Longrightarrow> eg_calls v = eg_calls u" for t a b u v
    by (auto simp: default_details_def Let_def)
  have cause: "settle_cause env (a, u) = (b, v) \<Longrightarrow> eg_calls v = eg_calls u" for a b u v
    by (auto simp: settle_cause_def Let_def)
  assume "conclude_execution env timer request (outcome, s) = (outcome', s')"
  then show ?thesis unfolding conclude_execution_def
    by (metis stopped notified timeout details cause prod.exhaust)
qed

text \<open>For an execution that was launched, nothing after it turns an unconfirmed outcome into a confirmed one.\<close>

lemma conclude_launched:
  assumes run: "conclude_execution env timer request (outcome, s) = (outcome', s')"
    and "backend_entered s" "jr_admitted (eg_journal s)"
  shows "outcome' = outcome \<or> is_ok outcome"
proof -
  have entered: "backend_entered (advance env u) = backend_entered u" for u by (simp add: backend_entered_def)
  have admitted: "jr_admitted (eg_journal (advance env u)) = jr_admitted (eg_journal u)" for u
    by (simp add: advance_def Let_def)
  let ?s1 = "advance env s"
  have 1: "record_stopped env n (outcome, s) = (outcome, ?s1)" for n
    using assms(3) by (simp add: record_stopped_def admitted Let_def)
  obtain o2 s2 where 2: "notify_requested env (outcome, ?s1) = (o2, s2)" by fastforce
  have o2: "o2 = outcome \<or> is_ok outcome" "eg_calls s2 = eg_calls s"
    using 2 by (auto simp: notify_requested_def Let_def split: if_splits prod.splits sum.splits)
  then have e2: "backend_entered s2" using assms(2) by (simp add: backend_entered_def)
  have 3: "record_timeout env timer t (o2, s2) = (o2, advance env s2)" for t
    using e2 by (simp add: record_timeout_def entered Let_def)
  have 4: "default_details env t (o2, advance env s2) = (o2, advance env (advance env s2))" for t
    using e2 by (cases o2) (simp_all add: default_details_def entered Let_def)
  have "outcome' = o2"
    using run unfolding conclude_execution_def 1 2 3 4 by (simp add: settle_cause_def Let_def)
  with o2 show ?thesis by simp
qed


section \<open>The end of the waits\<close>

lemma deadline_stays:
  assumes "onward s t" "ctl_cleanup_deadline (eg_control s) = Some d"
  shows "\<exists>d'. ctl_cleanup_deadline (eg_control t) = Some d' \<and> d' \<le> d"
  using assms by (auto simp: onward_def control_le_def)

lemma output_loop_ends:
  assumes "ctl_cleanup_deadline (eg_control s) = Some d" "\<And>t. T \<le> t \<Longrightarrow> d \<le> ee_now env t" "T \<le> eg_tick s + length turns"
    "turns \<noteq> []"
  shows "\<exists>x. output_loop env request ctx plan limit turns (st, s) = Some x"
  using assms
proof (induction turns arbitrary: st s d)
  case (Cons turn turns)
  obtain b st1 u where turn: "output_step env request ctx plan limit turn (st, s) = (b, st1, u)" by (metis prod.exhaust)
  show ?case
  proof (cases b)
    case True
    with turn show ?thesis by simp
  next
    case False
    obtain d' where d': "ctl_cleanup_deadline (eg_control (advance env s)) = Some d'" "d' \<le> d"
      using deadline_stays [OF later.advance_rel Cons.prems(1)] by blast
    obtain e where e: "ctl_cleanup_deadline (eg_control u) = Some e" "e \<le> d"
      using deadline_stays [OF later.trans [OF later.advance_rel later.output_step_rel [OF turn]] Cons.prems(1)] by blast
    have tick: "Suc (eg_tick s) \<le> eg_tick u"
      using later.output_step_rel [OF turn] by (auto simp: onward_def advance_def Let_def)
    have "\<not> cleanup_deadline_expired (clock env (advance env s)) (eg_control (advance env s))"
      using turn False by (auto simp: output_step_def Let_def split: if_splits)
    then have "\<not> T \<le> Suc (eg_tick s)"
      using d' Cons.prems(2) [of "Suc (eg_tick s)"] by (auto simp: cleanup_deadline_expired_def advance_def Let_def)
    with Cons.prems(3) tick have "T \<le> eg_tick u + length turns" "turns \<noteq> []" by auto
    moreover have "\<And>t. T \<le> t \<Longrightarrow> e \<le> ee_now env t" using Cons.prems(2) e(2) order_trans by blast
    ultimately have "\<exists>x. output_loop env request ctx plan limit turns (st1, u) = Some x" using Cons.IH e(1) by blast
    with turn False show ?thesis by simp
  qed
qed simp

lemma await_ends:
  assumes "ctl_cleanup_deadline (eg_control s) = Some d" "\<And>t. T \<le> t \<Longrightarrow> d \<le> ee_now env t" "T \<le> eg_tick s + length turns"
    "turns \<noteq> []"
  shows "\<exists>x. await_result env turns result s = Some x"
  using assms
proof (induction turns arbitrary: s d)
  case (Cons turn turns)
  let ?u = "advance env s"
  obtain d' where d': "ctl_cleanup_deadline (eg_control ?u) = Some d'" "d' \<le> d"
    using deadline_stays [OF later.advance_rel Cons.prems(1)] by blast
  have tick: "eg_tick ?u = Suc (eg_tick s)" by (simp add: advance_def Let_def)
  show ?case
  proof (cases "cleanup_deadline_expired (clock env ?u) (eg_control ?u)")
    case True
    then show ?thesis by (cases result) (auto simp: Let_def split: option.splits)
  next
    case False
    then have "\<not> T \<le> Suc (eg_tick s)"
      using d' Cons.prems(2) [of "Suc (eg_tick s)"] tick by (auto simp: cleanup_deadline_expired_def)
    with Cons.prems(3) tick have "T \<le> eg_tick ?u + length turns" "turns \<noteq> []" by auto
    moreover have "\<And>t. T \<le> t \<Longrightarrow> d' \<le> ee_now env t" using Cons.prems(2) d'(2) order_trans by blast
    ultimately have "\<exists>x. await_result env turns result ?u = Some x" using Cons.IH d'(1) by blast
    then show ?thesis by (cases result) (auto simp: Let_def split: option.splits)
  qed
qed simp

section \<open>What holds\<close>

text \<open>
  C10: Whatever the backend sends, in whatever order and however much, an execution retains at most the
  limit of its policy in all its streams together, and what it retains of a stream is the beginning of
  what was sent on it: nothing is lost, reordered or mixed before the limit.
\<close>

theorem output_is_bounded_and_faithful:
  assumes "wf_limits (ee_limits env)" "output_limit_of env policy = Some limit" "list_all (small_chunk (ee_limits env)) turns"
    and "output_loop env request ctx plan limit turns (output_init, s) = Some (st, s')"
  shows "retained_total st \<le> limit \<and> prefix (os_retained st x) (sent_on x turns)"
proof -
  have "limit \<le> 16 * 1024 * 1024" "stream_chunk_bytes (ee_limits env) \<le> 64 * 1024"
    using assms(1,2) by (auto simp: output_limit_of_def wf_limits_def split: option.splits if_splits)
  then have "limit + stream_chunk_bytes (ee_limits env) < usize_max" by (simp add: usize_max_def)
  from output_inv_loop [OF assms(4) output_inv_init this assms(3)] show ?thesis by simp
qed

text \<open>
  C3: An execution is launched only with a command, a valid working directory, a policy that needs no
  approval and is not denied, an output limit within the deployment's, a plan that the backend compiled
  and a reservation that it granted, and after the journal has admitted it; the reservation comes first
  and each happens once.
\<close>

theorem launches_are_permitted:
  assumes "execute_inner env script timer request s = Some (r, s')" "\<not> backend_entered s" "backend_entered s'"
  shows "eg_calls s' = eg_calls s @ [Reserved, Launched] \<and> jr_admitted (eg_journal s') \<and>
    (\<exists>plan limit. permitted env request plan limit)"
  using inner_cases [OF assms(1)] assms(2,3) by (auto simp: backend_entered_def)

lemma finished_cause:
  assumes "decide_owner_error env b (st, u) = (None, v)" "finish_output env timer request ctx plan st out v = (Inr result, s')"
  shows "\<exists>cause. control_cause (eg_control s') = Some cause \<and> cause_error_code cause = None"
  using decide_none(4) [OF assms(1)] later.finish_output_rel [OF assms(2)]
  by (auto simp: onward_def control_le_def control_cause_def)

text \<open>
  C12: A result that says finished rests on facts: the backend confirmed the start, its worker ended and
  returned success with its cleanup complete and no timeout, the output was not cut, and the reason it
  gives is a cause that stands for no error.
\<close>

theorem finished_executions_are_confirmed:
  assumes "run_backend env script timer request ctx plan limit s = Some (Inr result, s')"
    and "output_loop env request ctx plan limit (sc_output script) (output_init, s) = Some (st, u)"
    and "await_result env (sc_await script) (os_result st) u = Some (awaited, v)"
  shows "json_index result ''status'' = JStr ''finished'' \<and> json_index result ''cleanup_complete'' = JBool True \<and>
    json_index result ''output_truncated'' = JBool False \<and>
    (\<exists>time. os_started st = Some time \<and> json_index result ''started_at'' = JStr time) \<and>
    (\<exists>cause. json_index result ''termination_reason'' = JStr (cause_as_str cause) \<and> cause_error_code cause = None) \<and>
    (\<exists>out. we_finished (sc_worker_end script) \<and> we_joined (sc_worker_end script) \<and>
       joined_result (sc_worker_end script) awaited = Inr out \<and> bo_cleanup_complete out \<and> \<not> bo_timed_out out \<and>
       json_index result ''exit_code'' = json_i32 (Some (case bo_code out of Some code \<Rightarrow> code | None \<Rightarrow> 1)))"
proof -
  have settle: "settle_execution env script timer request ctx plan limit awaited (st, v) = (Inr result, s')"
    using assms by (simp add: run_backend_def)
  obtain out w1 w2 where out: "joined_result (sc_worker_end script) awaited = Inr out" "bo_cleanup_complete out" "os_started st \<noteq> None"
    "decide_owner_error env (Inr out) (st, w1) = (None, w2)" "finish_output env timer request ctx plan st out w2 = (Inr result, s')"
    using settle_cases [OF settle] by auto
  have worker: "we_finished (sc_worker_end script) \<and> we_joined (sc_worker_end script)"
    using out(1,2) by (auto simp: joined_result_def worker_failed_def Let_def split: if_splits option.splits sum.splits)
  obtain cause where cause: "control_cause (eg_control s') = Some cause" "cause_error_code cause = None"
    using finished_cause [OF out(4,5)] by blast
  obtain finished_at duration stdout stderr where result: "\<not> bo_timed_out out"
    "result = finished_result env request ctx plan out st (Some cause) finished_at duration stdout stderr False"
    using finish_output_ok [OF out(5)] cause(1) by auto
  have fields: "json_index result ''status'' = JStr ''finished''" "json_index result ''cleanup_complete'' = JBool True"
    "\<exists>time. os_started st = Some time \<and> json_index result ''started_at'' = JStr time"
    "json_index result ''output_truncated'' = JBool False" "json_index result ''termination_reason'' = JStr (cause_as_str cause)"
    "json_index result ''exit_code'' = json_i32 (Some (case bo_code out of Some code \<Rightarrow> code | None \<Rightarrow> 1))"
    using out(2,3) unfolding result(2) by (auto simp: finished_result_def result_cleanup_complete_def json_cause_def Let_def)
  show ?thesis using fields worker out(1,2) result(1) cause(2) by blast
qed

text \<open>
  C4: However an execution ends, its timer (where one runs), its reservation (where one was granted) and
  its frontend are released once each and in this order. The reservation is told that the cleanup is
  confirmed exactly if the outcome confirms it and the timer was stopped; the frontend exactly if the
  reservation was told so and finished well. The execution as a whole claims a complete cleanup exactly
  if the frontend was told so and was cleaned up.
\<close>

theorem releases_are_chained:
  assumes "release_frontend env script request (outcome, s) = (final, s')"
  shows "let running = (sc_timer_started script \<and> req_timeout request \<noteq> None);
      told_reservation = (cleanup_confirmed outcome \<and> (running \<longrightarrow> is_ok (sc_timer_end script)));
      told_frontend = (told_reservation \<and> (reserved s \<longrightarrow> sc_reservation_finish script told_reservation))
    in eg_calls s' = eg_calls s @ (if running then [StopTimer (is_ok (sc_timer_end script))] else []) @
         (if reserved s then [FinishReservation told_reservation (sc_reservation_finish script told_reservation)] else []) @
         [CleanObserver told_frontend (is_ok (sc_observer_cleanup script told_frontend))] \<and>
       (cleanup_confirmed final \<longleftrightarrow> told_frontend \<and> is_ok (sc_observer_cleanup script told_frontend))"
  using release_effect_calls [OF assms] by (simp add: Let_def)

text \<open>
  C7: An execution that was launched is released as cleaned up only if the result of its worker says so:
  the worker had ended in time, and the backend reported success with a complete cleanup, a failure of
  the input, or a failure before any process was started that is not itself a cleanup failure.
\<close>

theorem launched_cleanup_is_evidenced:
  assumes "run_backend env script timer request ctx plan limit s = Some (outcome, s')" "backend_entered s" "jr_admitted (eg_journal s)"
    and "output_loop env request ctx plan limit (sc_output script) (output_init, s) = Some (st, u)"
    and "await_result env (sc_await script) (os_result st) u = Some (awaited, v)"
    and "conclude_execution env timer request (outcome, s') = (outcome', s'')" "cleanup_confirmed outcome'"
  shows "we_finished (sc_worker_end script) \<and>
    result_cleanup_complete (joined_result (sc_worker_end script) awaited) (os_started st \<noteq> None)"
proof -
  have s': "backend_entered s'" "jr_admitted (eg_journal s')"
    using quiet.run_backend_rel [OF assms(1)] later.run_backend_rel [OF assms(1)] assms(2,3)
    by (simp_all add: no_call_def onward_def backend_entered_def)
  have settle: "settle_execution env script timer request ctx plan limit awaited (st, v) = (outcome, s')"
    using assms(1,4,5) by (simp add: run_backend_def)
  let ?b = "joined_result (sc_worker_end script) awaited"
  have "is_ok outcome \<or> cleanup_confirmed outcome"
    using conclude_launched [OF assms(6) s'] assms(7) by auto
  then have complete: "result_cleanup_complete ?b (os_started st \<noteq> None)"
    using settle_cases [OF settle] by (auto simp: cleanup_confirmed_def result_cleanup_complete_def is_ok_def)
  moreover have "we_finished (sc_worker_end script)"
    using complete by (auto simp: joined_result_def result_cleanup_complete_def Let_def split: if_splits option.splits sum.splits)
  ultimately show ?thesis by blast
qed

text \<open>
  C20: From any point of an execution at which a cleanup deadline stands, the loop over the output and the
  wait for the result end within as many turns as it takes the clock to reach the deadline, whatever the
  backend does or does not send.
\<close>

theorem stopped_executions_end:
  assumes "ctl_cleanup_deadline (eg_control s) = Some d" "\<forall>t \<ge> T. d \<le> ee_now env t" "T < length turns" "T < length waits"
  shows "\<exists>st' u result v. output_loop env request ctx plan limit turns (st, s) = Some (st', u) \<and>
    await_result env waits (os_result st') u = Some (result, v)"
proof -
  obtain st' u where loop: "output_loop env request ctx plan limit turns (st, s) = Some (st', u)"
    using output_loop_ends [OF assms(1), of T env turns] assms(2,3) by (metis le_add2 length_0_conv less_imp_le_nat not_less_zero order_trans prod.exhaust)
  obtain e where e: "ctl_cleanup_deadline (eg_control u) = Some e" "e \<le> d"
    using deadline_stays [OF later.output_loop_rel [OF loop] assms(1)] by blast
  have "\<exists>x. await_result env waits (os_result st') u = Some x"
    by (rule await_ends [OF e(1), of T]) (use assms(2,4) e(2) order_trans in auto)
  with loop show ?thesis by fastforce
qed

end
