(* ===== verification/Engine_Witnesses.thy ===== *)
theory Engine_Witnesses
  imports Engine_Guarantees
begin

text \<open>
  Concrete executions for the guarantees of the engine: one that succeeds, released without trouble,
  and one that is stopped. With a clock that stands still, an observer that accepts and audit writes
  that succeed, the steps of a launch and of a successful end cannot fail.
\<close>

section \<open>A sample execution\<close>

definition sample_engine_policy :: sandbox_policy where
  "sample_engine_policy =
     \<lparr>pol_id = ''p'', pol_sandbox_level = WorkspaceWrite,
      pol_filesystem = \<lparr>fs_read = [''/w''], fs_read_only = [], fs_write = [''/w''], fs_deny = [], fs_protect_vcs = True, fs_unrestricted = False\<rparr>,
      pol_network = \<lparr>net_mode = Disabled, net_routes = [], net_direct_allow_hosts = []\<rparr>,
      pol_environment = \<lparr>env_inherit = ''none'', env_scrub = [], env_set = [], env_proxy = False\<rparr>,
      pol_resources = \<lparr>res_timeout_ms = None, res_memory_bytes = None, res_cpu_percent = None, res_max_output_bytes = Some 4\<rparr>,
      pol_process = \<lparr>proc_allow_child_processes = True, proc_kill_on_parent_exit = True, proc_max_processes = None, proc_interactive = False\<rparr>,
      pol_approval = \<lparr>app_on_violation = ''fail'', app_on_network_route_missing = ''fail'', app_on_broad_write = ''fail''\<rparr>,
      pol_source = Inline\<rparr>"

definition sample_engine_request :: execution_request where
  "sample_engine_request =
     \<lparr>req_ids = \<lparr>ids_execution_id = ''e'', ids_session_id = ''sess_1'', ids_seal_id = ''l''\<rparr>, req_control = control_default,
      req_command = [''/bin/true''], req_cwd = ''/w'', req_policy = sample_engine_policy, req_stdin = StdinEmpty,
      req_control_input = None, req_io = Pipe, req_env = [], req_metadata = None, req_timeout = Some 1000\<rparr>"

definition sample_plan :: sandbox_plan where
  "sample_plan = \<lparr>pl_backend = ''b'', pl_backend_status = ''ok'', pl_platform = ''linux'', pl_enforcement = ''sandbox'', pl_json = JNull\<rparr>"

definition sample_engine_env :: engine_env where
  "sample_engine_env =
     \<lparr>ee_platform = Linux, ee_limits = default_limits, ee_journal = sample_journal_env, ee_host = sample_host, ee_name = ''b'',
      ee_status = ''ok'', ee_backend_platform = ''linux'', ee_base64 = (\<lambda>_. ''''), ee_decode = (\<lambda>_ _. ''''), ee_setup_status = JNull,
      ee_compile = (\<lambda>_ _ _. Inr sample_plan), ee_reserve = (\<lambda>_. Inr ()), ee_now = (\<lambda>_. 0), ee_time = (\<lambda>_. ''t''),
      ee_others = (\<lambda>_. []), ee_create = (\<lambda>_. True), ee_write = (\<lambda>_. True), ee_observe = (\<lambda>_ _. Inr ())\<rparr>"

definition sample_output :: backend_output where
  "sample_output = \<lparr>bo_code = Some 3, bo_signal = None, bo_timed_out = False, bo_cleanup_complete = True, bo_events = []\<rparr>"

definition sample_script :: engine_script where
  "sample_script =
     \<lparr>sc_timer_started = True, sc_admission = Some [NotYet, Admitted], sc_preparation_spawned = True,
      sc_preparation = [\<lparr>pt_poll = Got (), pt_finished = True, pt_joined = True, pt_late = False\<rparr>], sc_worker_spawned = True,
      sc_output = [\<lparr>ot_poll = NothingYet, ot_recv = Message (Started ''t0'' 9), ot_finished = False\<rparr>,
                   \<lparr>ot_poll = NothingYet, ot_recv = Message (Output Stdout [1, 2, 3]), ot_finished = False\<rparr>,
                   \<lparr>ot_poll = Got (Inr sample_output), ot_recv = RecvDisconnected, ot_finished = True\<rparr>],
      sc_await = [], sc_worker_end = \<lparr>we_finished = True, we_joined = True, we_late = None\<rparr>, sc_timer_end = Inr (),
      sc_reservation_finish = (\<lambda>confirmed. confirmed), sc_observer_cleanup = (\<lambda>_. Inr ())\<rparr>"

definition sample_engine :: engine where
  "sample_engine = \<lparr>eg_tick = 0, eg_control = control_default,
     eg_journal = journal_prepare sample_journal_env sample_engine_request, eg_observed = [], eg_calls = []\<rparr>"

section \<open>Steps that cannot fail\<close>

lemma sample_advance [simp]: "advance sample_engine_env s = s\<lparr>eg_tick := Suc (eg_tick s)\<rparr>"
  by (simp add: advance_def sample_engine_env_def Let_def)

text \<open>Nothing has been stopped, and the journal can write.\<close>

definition calm :: "engine_call list \<Rightarrow> engine \<Rightarrow> bool" where
  "calm calls s \<longleftrightarrow> eg_calls s = calls \<and> ctl_cause (eg_control s) = None \<and> ctl_cleanup_deadline (eg_control s) = None \<and>
     jr_admitted (eg_journal s) \<and> jr_audit (eg_journal s) \<noteq> None"

definition never :: "engine \<Rightarrow> bool" where
  "never s \<longleftrightarrow> False"

lemma evalid_never:
  assumes "evalid P m Q never" "P s"
  obtains x s' where "m s = (Inr x, s')" "Q x s'"
  using assms by (cases "m s"; cases "fst (m s)") (auto simp: evalid_def never_def dest!: spec [of _ s])

lemma sample_write: "\<exists>audit'. write_audit_event_with_metadata parse True event meta audit = (Inr (), audit')"
  by (simp add: write_audit_event_with_metadata_def write_audit_event_def split: option.splits)

lemma sample_journal_emit:
  assumes "jr_admitted j" "jr_audit j \<noteq> None"
  shows "\<exists>r j' es. journal_emit env True now (\<lambda>_. Inr ()) payload j = (Inr r, j', es) \<and> jr_admitted j' \<and> jr_audit j' \<noteq> None"
proof -
  have written: "\<exists>j'. journal_write env True event j = (Inr (), j') \<and> jr_admitted j' = jr_admitted j \<and> jr_audit j' \<noteq> None"
    if "jr_audit j \<noteq> None" for event j
    using that sample_write [of "je_parse env" event "jr_metadata j" "the (jr_audit j)"]
    by (auto simp: journal_write_def)
  show ?thesis
  proof (cases "json_index payload ''type'' = JStr ''execution.requested'' \<and> jr_prepared_requested j \<noteq> None")
    case True
    then have "journal_emit env True now (\<lambda>_. Inr ()) payload j =
        (Inr (the (jr_prepared_requested j)), j\<lparr>jr_prepared_requested := None\<rparr>, [the (jr_prepared_requested j)])"
      using assms(1) by (simp add: journal_emit_def Let_def result_simps)
    with assms show ?thesis by simp
  next
    case False
    define j1 where "j1 = j\<lparr>jr_sequence := jr_sequence j + 1\<rparr>"
    define event where "event = envelope now payload j1"
    define j2 where "j2 = (if json_index event ''type'' = JStr ''execution.started''
      then j1\<lparr>jr_started_at := Some (json_index event ''time'')\<rparr> else j1)"
    have "jr_audit j2 \<noteq> None" "jr_admitted j2" using assms by (simp_all add: j2_def j1_def)
    with written [of j2 "audit_stream_event_metadata event"] obtain j' where
      j': "journal_write env True (audit_stream_event_metadata event) j2 = (Inr (), j')" "jr_admitted j'" "jr_audit j' \<noteq> None" by auto
    have "journal_emit env True now (\<lambda>_. Inr ()) payload j = (Inr event, j', [event])"
      unfolding journal_emit_def Let_def j1_def [symmetric] event_def [symmetric] j2_def [symmetric] j'(1)
      using assms(1) False by (auto simp: result_simps)
    with j'(2,3) show ?thesis by blast
  qed
qed

lemma sample_emit:
  assumes "jr_admitted (eg_journal s)" "jr_audit (eg_journal s) \<noteq> None"
  shows "\<exists>r j es. emit sample_engine_env payload s =
      (Inr r, s\<lparr>eg_tick := Suc (eg_tick s), eg_journal := j, eg_observed := es\<rparr>) \<and> jr_admitted j \<and> jr_audit j \<noteq> None"
  using sample_journal_emit [OF assms, of "ee_journal sample_engine_env" "ee_time sample_engine_env (Suc (eg_tick s))" payload]
  by (auto simp: emit_with_def Let_def) (auto simp: sample_engine_env_def)

lemma evalid_emit_calm: "evalid (calm calls) (emit sample_engine_env payload) (\<lambda>_. calm calls) never"
  unfolding evalid_def
proof (intro allI impI)
  fix s assume s: "calm calls s"
  then obtain r j es where "emit sample_engine_env payload s =
      (Inr r, s\<lparr>eg_tick := Suc (eg_tick s), eg_journal := j, eg_observed := es\<rparr>)" "jr_admitted j" "jr_audit j \<noteq> None"
    using sample_emit [of s payload] by (auto simp: calm_def)
  with s show "case emit sample_engine_env payload s of (Inr x, s') \<Rightarrow> calm calls s' | (Inl _, s') \<Rightarrow> never s'"
    by (auto simp: calm_def)
qed

lemma evalid_emit_now_calm: "evalid (calm calls) (emit_now sample_engine_env ctx payload) (\<lambda>_. calm calls) never"
  unfolding evalid_def emit_now_def by (intro allI impI) (rule evalid_emit_calm [unfolded evalid_def, rule_format])

lemma check_calm: "ctl_cause (eg_control s) = None \<Longrightarrow>
    check_preparing sample_engine_env 0 (Some 1000) s = (Inr (), s\<lparr>eg_tick := eg_tick s + 2\<rparr>)"
  by (simp add: check_preparing_def past_timeout_def control_cause_def Let_def) (simp add: sample_engine_env_def)

lemma evalid_check_calm: "evalid (calm calls) (check_preparing sample_engine_env 0 (Some 1000)) (\<lambda>_. calm calls) never"
  by (auto simp: evalid_def check_calm calm_def)

section \<open>The launch\<close>

definition fresh :: "engine_call list \<Rightarrow> engine \<Rightarrow> bool" where
  "fresh calls s \<longleftrightarrow> eg_calls s = calls \<and> ctl_cause (eg_control s) = None \<and> ctl_cleanup_deadline (eg_control s) = None \<and>
     \<not> ctl_cancelled (eg_control s) \<and> eg_journal s = journal_prepare sample_journal_env sample_engine_request"

lemma evalid_check_fresh: "evalid (fresh calls) (check_preparing sample_engine_env 0 (Some 1000)) (\<lambda>_. fresh calls) never"
  by (auto simp: evalid_def check_calm fresh_def)

lemma sample_journal_admit:
  "\<exists>j'. journal_admit sample_journal_env True True ''t'' n (journal_prepare sample_journal_env sample_engine_request) = (Inr (), j') \<and>
     jr_admitted j' \<and> jr_audit j' \<noteq> None"
proof -
  have session: "validate_audit_session_id ''sess_1''" by code_simp
  show ?thesis
    using session sample_write
    by (auto simp: journal_admit_def journal_prepare_def sample_engine_request_def create_audit_writer_def audit_create_def Let_def
        split: prod.splits sum.splits) (metis Pair_inject sum.distinct(1))+
qed

lemma evalid_admit_fresh: "evalid (fresh calls) (admit_journal sample_engine_env n) (\<lambda>_. calm calls) never"
  using sample_journal_admit [of n]
  by (auto simp: evalid_def admit_journal_def fresh_def calm_def Let_def) (auto simp: sample_engine_env_def calm_def)

lemma evalid_reserve_fresh: "evalid (fresh []) (reserve_execution sample_engine_env plan) (\<lambda>_. fresh [Reserved]) never"
  by (auto simp: evalid_def reserve_execution_def fresh_def call_def sample_engine_env_def)

lemma sample_launch:
  "evalid (fresh []) (launch sample_engine_env 0 sample_engine_request ctx True (Inr sample_plan))
     (\<lambda>plan s. plan = sample_plan \<and> calm [Reserved, Launched] s) never"
proof -
  have timeout: "req_timeout sample_engine_request = Some 1000" by (simp add: sample_engine_request_def)
  have plan: "evalid (fresh []) (eok sample_plan) (\<lambda>plan s. plan = sample_plan \<and> fresh [] s) never"
    by (simp add: evalid_def eok_def)
  have spawned: "evalid (calm [Reserved]) (ewhen (\<not> True) err) (\<lambda>_. calm [Reserved]) never" for err
    by (simp add: evalid_def ewhen_def eok_def)
  have last: "evalid (calm [Reserved]) (\<lambda>s. (Inr plan, call Launched s)) (\<lambda>plan s. plan = sample_plan \<and> calm [Reserved, Launched] s) never"
    if "plan = sample_plan" for plan using that by (simp add: evalid_def calm_def call_def)
  show ?thesis
    unfolding launch_def timeout sum.case
    by (intro evalid_bind [OF evalid_check_fresh] evalid_bind [OF plan] evalid_fact evalid_bind [OF evalid_reserve_fresh]
        evalid_bind [OF evalid_admit_fresh] evalid_bind [OF evalid_emit_now_calm] evalid_bind [OF evalid_check_calm]
        evalid_bind [OF spawned] last)
qed

lemma sample_check_request:
  "evalid (fresh []) (check_request sample_engine_env 0 sample_engine_request) (\<lambda>limit s. limit = 4 \<and> fresh [] s) never"
proof -
  have timeout: "req_timeout sample_engine_request = Some 1000" by (simp add: sample_engine_request_def)
  have limit: "output_limit_of sample_engine_env (req_policy sample_engine_request) = Some 4"
    by (simp add: output_limit_of_def sample_engine_env_def sample_engine_request_def sample_engine_policy_def default_limits_def)
  have policy: "check_policy sample_engine_env (req_policy sample_engine_request) = eok ()"
    by (simp add: check_policy_def requires_broad_write_approval_def denies_execution_without_backend_def
        sample_engine_request_def sample_engine_policy_def)
  have io: "has_control (req_io sample_engine_request) = (req_control_input sample_engine_request \<noteq> None)"
    "req_command sample_engine_request \<noteq> []" by (simp_all add: sample_engine_request_def has_control_def control_fd_def)
  have ok: "evalid (fresh []) (eok x) (\<lambda>y s. y = x \<and> fresh [] s) never" for x :: 'a by (simp add: evalid_def eok_def)
  have pass: "evalid (fresh []) (ewhen False err) (\<lambda>_. fresh []) never" for err by (simp add: evalid_def ewhen_def eok_def)
  show ?thesis
    unfolding check_request_def timeout limit option.case policy
    using io
    by (simp, intro evalid_bind [OF evalid_check_fresh] evalid_bind [OF pass] evalid_bind [OF ok] evalid_fact)
      (auto simp: evalid_def eok_def)
qed

section \<open>A run of the backend\<close>

text \<open>The journal can write and the execution has the calls so far.\<close>

definition able :: "engine_call list \<Rightarrow> engine \<Rightarrow> bool" where
  "able calls s \<longleftrightarrow> eg_calls s = calls \<and> jr_admitted (eg_journal s) \<and> jr_audit (eg_journal s) \<noteq> None"

lemma emit_able:
  assumes "able calls s"
  shows "\<exists>r s'. emit sample_engine_env payload s = (Inr r, s') \<and> able calls s' \<and> eg_control s' = eg_control s"
  using sample_emit [of s payload] assms by (auto simp: able_def)

lemma calm_able: "calm calls s \<longleftrightarrow> able calls s \<and> ctl_cause (eg_control s) = None \<and> ctl_cleanup_deadline (eg_control s) = None"
  by (auto simp: calm_def able_def)

lemma emit_or_stop_calm:
  assumes "calm calls s"
  shows "\<exists>s'. emit_or_stop sample_engine_env event (st, s) = (st, s') \<and> calm calls s'"
proof -
  obtain r s' where "emit sample_engine_env event s = (Inr r, s')" "able calls s'" "eg_control s' = eg_control s"
    using emit_able [of calls s event] assms by (auto simp: calm_able)
  then show ?thesis using assms by (auto simp: emit_or_stop_def calm_able)
qed

lemma calm_tick: "calm calls s \<Longrightarrow> calm calls (s\<lparr>eg_tick := t\<rparr>)"
  by (simp add: calm_def)

lemma sample_receive_started:
  assumes "calm calls s" "os_started st = None"
  shows "\<exists>s'. receive_started sample_engine_env request ctx plan time pid (st, s) = (st\<lparr>os_started := Some time\<rparr>, s') \<and> calm calls s'"
  using assms(2) emit_or_stop_calm [OF assms(1)] by (simp add: receive_started_def)

lemma sample_receive_output:
  assumes "calm calls s" "os_started st \<noteq> None" "os_owner_error st = None"
    "total_bytes (st\<lparr>os_bytes := (os_bytes st)(x := os_bytes st x + length bytes)\<rparr>) \<le> limit"
  shows "\<exists>s'. receive_output sample_engine_env ctx limit x bytes (st, s) =
    (retain_bytes x bytes (st\<lparr>os_bytes := (os_bytes st)(x := os_bytes st x + length bytes)\<rparr>), s') \<and> calm calls s'"
  using assms(2-4) emit_or_stop_calm [OF assms(1)] by (auto simp: receive_output_def store_output_def Let_def)

abbreviation sample_state :: output_state where
  "sample_state \<equiv> \<lparr>os_started = Some ''t0'', os_retained = (\<lambda>_. [])(Stdout := [1, 2, 3]), os_bytes = (\<lambda>_. 0)(Stdout := 3),
     os_owner_error = None, os_result = Some (Inr sample_output)\<rparr>"

lemma sample_output_loop:
  assumes "calm calls s"
  shows "\<exists>s'. output_loop sample_engine_env request ctx plan 4 (sc_output sample_script) (output_init, s) = Some (sample_state, s') \<and>
    calm calls s'"
proof -
  have start: "os_started output_init = None" by (simp add: output_init_def)
  define st1 where "st1 = output_init\<lparr>os_started := Some ''t0''\<rparr>"
  let ?next = "\<lambda>s::engine. s\<lparr>eg_tick := Suc (eg_tick s)\<rparr>"
  have unexpired: "\<not> cleanup_deadline_expired now (eg_control u)" if "calm calls u" for now u
    using that by (simp add: calm_def cleanup_deadline_expired_def)
  obtain s1 where s1: "receive_started sample_engine_env request ctx plan ''t0'' 9 (output_init, ?next s) = (st1, s1)" "calm calls s1"
    using sample_receive_started [OF calm_tick [OF assms], of output_init request ctx plan "''t0''" 9]
    by (auto simp: st1_def start)
  define st2 where "st2 = retain_bytes Stdout [1, 2, 3] (st1\<lparr>os_bytes := (os_bytes st1)(Stdout := 3)\<rparr>)"
  obtain s2 where s2: "receive_output sample_engine_env ctx 4 Stdout [1, 2, 3] (st1, ?next s1) = (st2, s2)" "calm calls s2"
    using sample_receive_output [OF calm_tick [OF s1(2)], of st1 Stdout "[1, 2, 3]" 4]
    by (auto simp: st1_def st2_def output_init_def total_bytes_def saturating_add_def usize_max_def numeral_3_eq_3)
  have results: "output_init\<lparr>os_result := poll_result NothingYet (os_result output_init)\<rparr> = output_init"
    "st1\<lparr>os_result := poll_result NothingYet (os_result st1)\<rparr> = st1"
    "st2\<lparr>os_result := poll_result (Got (Inr sample_output)) (os_result st2)\<rparr> = sample_state"
    by (simp_all add: poll_result_def output_init_def st1_def st2_def retain_bytes_def)
  have 1: "output_step sample_engine_env request ctx plan 4
      \<lparr>ot_poll = NothingYet, ot_recv = Message (Started ''t0'' 9), ot_finished = False\<rparr> (output_init, s) = (False, st1, s1)"
    using unexpired [OF calm_tick [OF assms]] s1(1) results(1) by (simp add: output_step_def receive_message_def Let_def)
  have 2: "output_step sample_engine_env request ctx plan 4
      \<lparr>ot_poll = NothingYet, ot_recv = Message (Output Stdout [1, 2, 3]), ot_finished = False\<rparr> (st1, s1) = (False, st2, s2)"
    using unexpired [OF calm_tick [OF s1(2)]] s2(1) results(2) by (simp add: output_step_def receive_message_def Let_def)
  have 3: "output_step sample_engine_env request ctx plan 4
      \<lparr>ot_poll = Got (Inr sample_output), ot_recv = RecvDisconnected, ot_finished = True\<rparr> (st2, s2) = (True, sample_state, ?next s2)"
    using results(3) by (simp add: output_step_def Let_def)
  have "output_loop sample_engine_env request ctx plan 4 (sc_output sample_script) (output_init, s) = Some (sample_state, ?next s2)"
    by (simp add: sample_script_def 1 2 3)
  with calm_tick [OF s2(2)] show ?thesis by blast
qed

text \<open>The end of a run whose backend returned success.\<close>

lemma sample_finish:
  assumes "able calls s"
  shows "\<exists>finished_at s'. finish_output sample_engine_env timer sample_engine_request ctx plan sample_state sample_output s =
    (Inr (finished_result sample_engine_env sample_engine_request ctx plan sample_output sample_state (ctl_cause (eg_control s))
       finished_at 0 [1, 2, 3] [] False), s') \<and> able calls s'"
proof -
  have tick: "able calls (u\<lparr>eg_tick := t\<rparr>)" if "able calls u" for u t using that by (simp add: able_def)
  have limit: "truncate_output (opt_nat (res_max_output_bytes (pol_resources (req_policy sample_engine_request)))) [1, 2, 3] []
      = (False, [1, 2, 3], [])"
    by (simp add: truncate_output_def sample_engine_request_def sample_engine_policy_def)
  have out: "bo_events sample_output = []" "\<not> bo_timed_out sample_output" by (simp_all add: sample_output_def)
  have now: "ee_now sample_engine_env t = 0" for t by (simp add: sample_engine_env_def)
  have "able calls (s\<lparr>eg_tick := Suc (Suc (eg_tick s))\<rparr>)" using tick [OF assms] .
  then obtain r u where u: "emit sample_engine_env (execution_event_at (je_version (ee_journal sample_engine_env))
      (sample_payload 0 [1, 2, 3] [] False) (ee_time sample_engine_env (Suc (Suc (eg_tick s)))) ctx)
      (s\<lparr>eg_tick := Suc (Suc (eg_tick s))\<rparr>) = (Inr r, u)" "able calls u" "eg_control u = eg_control s"
    using emit_able by fastforce
  show ?thesis
    using u tick [OF u(2)]
    by (simp add: finish_output_def backend_events_def report_output_def ebind_def eok_def out limit now Let_def control_cause_def) blast
qed

lemma request_exited:
  "ctl_cause (eg_control (request_stop sample_engine_env Exited s)) =
     (case ctl_cause (eg_control s) of None \<Rightarrow> Some Exited | Some c \<Rightarrow> Some c)"
  "able calls (request_stop sample_engine_env Exited s) = able calls s"
  by (auto simp: request_stop_def control_request_def able_def Let_def split: option.splits)

lemma begin_cleanup_able:
  "ctl_cause (eg_control (begin_cleanup_now sample_engine_env s)) = ctl_cause (eg_control s)"
  "able calls (begin_cleanup_now sample_engine_env s) = able calls s"
  by (auto simp: begin_cleanup_now_def begin_cleanup_def able_def Let_def split: option.splits)

lemma sample_decide:
  assumes "able calls s" "ctl_cause (eg_control s) = Some Exited"
  shows "\<exists>s'. decide_owner_error sample_engine_env (Inr sample_output) (sample_state, s) = (None, s') \<and> able calls s' \<and>
    ctl_cause (eg_control s') = Some Exited"
proof -
  let ?s = "request_stop sample_engine_env Exited s"
  have "able calls ?s" "ctl_cause (eg_control ?s) = Some Exited" using assms by (simp_all add: request_exited)
  moreover have "cause_owner_error (Some Exited) None = None" by (simp add: cause_owner_error_def)
  ultimately show ?thesis
    by (simp add: decide_owner_error_def accept_backend_cause_def backend_cause_def sample_output_def result_cleanup_failed_def
        failure_of_def control_cause_def able_def Let_def)
qed

lemma sample_settle:
  assumes "calm calls s"
  shows "\<exists>finished_at s'. settle_execution sample_engine_env sample_script timer sample_engine_request ctx plan 4
      (Some (Inr sample_output)) (sample_state, s) =
    (Inr (finished_result sample_engine_env sample_engine_request ctx plan sample_output sample_state (Some Exited)
       finished_at 0 [1, 2, 3] [] False), s') \<and> able calls s'"
proof -
  define u where "u = begin_cleanup_now sample_engine_env (request_stop sample_engine_env Exited s)"
  have "able calls u" "ctl_cause (eg_control u) = Some Exited"
    using assms by (simp_all add: u_def begin_cleanup_able request_exited calm_able)
  then obtain v where v: "decide_owner_error sample_engine_env (Inr sample_output) (sample_state, u) = (None, v)" "able calls v"
    "ctl_cause (eg_control v) = Some Exited"
    using sample_decide by blast
  have joined: "joined_result (sc_worker_end sample_script) (Some (Inr sample_output)) = Inr sample_output"
    by (simp add: joined_result_def sample_script_def)
  have cause: "backend_cause (Inr sample_output) True = Exited" by (simp add: backend_cause_def sample_output_def)
  show ?thesis
    using sample_finish [OF v(2), of timer ctx plan] v(1,3)
    by (simp add: settle_execution_def joined accept_backend_cause_def cause u_def [symmetric] Let_def)
qed

lemma sample_backend_run:
  assumes "calm calls s"
  obtains finished_at u s' where
    "output_loop sample_engine_env sample_engine_request ctx plan 4 (sc_output sample_script) (output_init, s) = Some (sample_state, u)"
    "await_result sample_engine_env (sc_await sample_script) (os_result sample_state) u = Some (Some (Inr sample_output), u)"
    "run_backend sample_engine_env sample_script timer sample_engine_request ctx plan 4 s =
       Some (Inr (finished_result sample_engine_env sample_engine_request ctx plan sample_output sample_state (Some Exited)
         finished_at 0 [1, 2, 3] [] False), s')"
    "able calls s'"
proof -
  obtain u where u: "output_loop sample_engine_env sample_engine_request ctx plan 4 (sc_output sample_script) (output_init, s)
      = Some (sample_state, u)" "calm calls u"
    using sample_output_loop [OF assms] by blast
  moreover have "await_result sample_engine_env (sc_await sample_script) (os_result sample_state) u = Some (Some (Inr sample_output), u)"
    by simp
  moreover obtain finished_at s' where "settle_execution sample_engine_env sample_script timer sample_engine_request ctx plan 4
      (Some (Inr sample_output)) (sample_state, u) =
    (Inr (finished_result sample_engine_env sample_engine_request ctx plan sample_output sample_state (Some Exited)
       finished_at 0 [1, 2, 3] [] False), s')" "able calls s'"
    using sample_settle [OF u(2)] by blast
  ultimately show thesis by (intro that [of u finished_at s']) (simp_all add: run_backend_def)
qed

lemma sample_conclude:
  assumes "able [Reserved, Launched] s"
  shows "\<exists>s'. conclude_execution sample_engine_env timer request (Inr result, s) = (Inr result, s')"
proof -
  have observe: "ee_observe sample_engine_env t = (\<lambda>_. Inr ())" for t by (auto simp: sample_engine_env_def)
  have "\<exists>s'. notify_requested sample_engine_env (Inr result, u) = (Inr result, s') \<and> able [Reserved, Launched] s'"
    if "able [Reserved, Launched] u" for u
    using that by (auto simp: notify_requested_def notify_requested_if_pending_def observe able_def Let_def split: option.splits)
  then obtain u where u: "notify_requested sample_engine_env (Inr result, s\<lparr>eg_tick := Suc (eg_tick s)\<rparr>) = (Inr result, u)"
    "able [Reserved, Launched] u"
    using assms by (metis able_def engine.select_convs engine.surjective engine.update_convs(1))
  have 1: "record_stopped sample_engine_env n (Inr result, s) = (Inr result, s\<lparr>eg_tick := Suc (eg_tick s)\<rparr>)" for n
    using assms by (simp add: record_stopped_def able_def Let_def)
  show ?thesis
    using u(2) by (simp add: conclude_execution_def 1 u(1) record_timeout_def default_details_def settle_cause_def
        backend_entered_def able_def Let_def)
qed

section \<open>Witnesses\<close>

lemma sample_launched: "\<exists>s. calm [Reserved, Launched] s"
proof -
  have "fresh [] sample_engine" by (simp add: fresh_def sample_engine_def control_default_def)
  with sample_launch [of undefined] show ?thesis by (blast elim: evalid_never)
qed

theorem output_is_bounded_and_faithful_witness:
  "\<exists>ctx s st s'. output_loop sample_engine_env sample_engine_request ctx sample_plan 4 (sc_output sample_script) (output_init, s)
      = Some (st, s') \<and> retained_total st \<le> 4 \<and> prefix (os_retained st Stdout) (sent_on Stdout (sc_output sample_script))"
proof -
  obtain s where "calm [Reserved, Launched] s" using sample_launched by blast
  then obtain s' where s': "output_loop sample_engine_env sample_engine_request undefined sample_plan 4 (sc_output sample_script)
      (output_init, s) = Some (sample_state, s')"
    using sample_output_loop by blast
  have limits: "wf_limits (ee_limits sample_engine_env)" by (simp add: sample_engine_env_def )
  have limit: "output_limit_of sample_engine_env sample_engine_policy = Some 4"
    by (simp add: output_limit_of_def sample_engine_env_def sample_engine_policy_def default_limits_def)
  have chunks: "list_all (small_chunk (ee_limits sample_engine_env)) (sc_output sample_script)"
    by (simp add: small_chunk_def sample_script_def sample_engine_env_def default_limits_def)
  from s' output_is_bounded_and_faithful [OF limits limit chunks s'] show ?thesis by blast
qed

theorem finished_executions_are_confirmed_witness:
  "\<exists>ctx s result s'. run_backend sample_engine_env sample_script 0 sample_engine_request ctx sample_plan 4 s = Some (Inr result, s') \<and>
     json_index result ''status'' = JStr ''finished'' \<and> json_index result ''cleanup_complete'' = JBool True"
proof -
  obtain s where "calm [Reserved, Launched] s" using sample_launched by blast
  from sample_backend_run [OF this, of undefined sample_plan 0] obtain finished_at u s' where
    run: "output_loop sample_engine_env sample_engine_request undefined sample_plan 4 (sc_output sample_script) (output_init, s)
        = Some (sample_state, u)"
      "await_result sample_engine_env (sc_await sample_script) (os_result sample_state) u = Some (Some (Inr sample_output), u)"
      "run_backend sample_engine_env sample_script 0 sample_engine_request undefined sample_plan 4 s =
         Some (Inr (finished_result sample_engine_env sample_engine_request undefined sample_plan sample_output sample_state (Some Exited)
           finished_at 0 [1, 2, 3] [] False), s')" by metis
  from run(3) finished_executions_are_confirmed [OF run(3,1,2)] show ?thesis by blast
qed

theorem launched_cleanup_is_evidenced_witness:
  "\<exists>ctx s outcome s' u. run_backend sample_engine_env sample_script 0 sample_engine_request ctx sample_plan 4 s = Some (outcome, s') \<and>
     conclude_execution sample_engine_env 0 sample_engine_request (outcome, s') = (outcome, u) \<and> cleanup_confirmed outcome \<and>
     we_finished (sc_worker_end sample_script) \<and>
     result_cleanup_complete (joined_result (sc_worker_end sample_script) (Some (Inr sample_output))) (os_started sample_state \<noteq> None)"
proof -
  obtain s where s: "calm [Reserved, Launched] s" using sample_launched by blast
  from sample_backend_run [OF this, of undefined sample_plan 0] obtain finished_at u s' where
    run: "output_loop sample_engine_env sample_engine_request undefined sample_plan 4 (sc_output sample_script) (output_init, s)
        = Some (sample_state, u)"
      "await_result sample_engine_env (sc_await sample_script) (os_result sample_state) u = Some (Some (Inr sample_output), u)"
      "run_backend sample_engine_env sample_script 0 sample_engine_request undefined sample_plan 4 s =
         Some (Inr (finished_result sample_engine_env sample_engine_request undefined sample_plan sample_output sample_state (Some Exited)
           finished_at 0 [1, 2, 3] [] False), s')" "able [Reserved, Launched] s'" by metis
  have entered: "backend_entered s" "jr_admitted (eg_journal s)" using s by (simp_all add: calm_def backend_entered_def)
  obtain v where v: "conclude_execution sample_engine_env 0 sample_engine_request
      (Inr (finished_result sample_engine_env sample_engine_request undefined sample_plan sample_output sample_state (Some Exited)
           finished_at 0 [1, 2, 3] [] False), s') =
      (Inr (finished_result sample_engine_env sample_engine_request undefined sample_plan sample_output sample_state (Some Exited)
           finished_at 0 [1, 2, 3] [] False), v)"
    using sample_conclude [OF run(4)] by blast
  have confirmed: "cleanup_confirmed (Inr (finished_result sample_engine_env sample_engine_request undefined sample_plan sample_output
      sample_state (Some Exited) finished_at 0 [1, 2, 3] [] False))"
    by (simp add: cleanup_confirmed_def finished_result_def result_cleanup_complete_def sample_output_def Let_def)
  from run(3) v confirmed launched_cleanup_is_evidenced [OF run(3) entered run(1,2) v confirmed] show ?thesis by blast
qed

lemma sample_compile:
  assumes "fresh [] s"
  shows "\<exists>s'. compile_plan sample_engine_env sample_engine_request (sc_preparation_spawned sample_script) (sc_preparation sample_script) s
    = Some (Inr (Inr sample_plan), s') \<and> fresh [] s'"
proof -
  have cwd: "is_ok (validate_execution_cwd sample_host ''/w'')" by code_simp
  have "preparation_outcome sample_engine_env sample_engine_request = Inr (Inr sample_plan)"
    using cwd by (auto simp: preparation_outcome_def sample_engine_env_def sample_engine_request_def is_ok_def rbind_def split: sum.splits)
  moreover have now: "ee_now sample_engine_env t = 0" "0 < cleanup_timeout (ee_limits sample_engine_env)" for t
    by (simp_all add: sample_engine_env_def default_limits_def cleanup_timeout_def)
  ultimately show ?thesis
    using assms
    by (simp add: compile_plan_def sample_script_def Let_def fresh_def is_cancelled_def cleanup_deadline_expired_def now)
qed

lemma sample_inner:
  "\<exists>r s'. execute_inner sample_engine_env sample_script 0 sample_engine_request sample_engine = Some (r, s') \<and> backend_entered s'"
proof -
  let ?ctx = "event_context sample_engine_env sample_engine_request (jr_audit_path (eg_journal sample_engine))"
  have "fresh [] sample_engine" by (simp add: fresh_def sample_engine_def control_default_def)
  then obtain s1 where s1: "check_request sample_engine_env 0 sample_engine_request sample_engine = (Inr 4, s1)" "fresh [] s1"
    using sample_check_request by (blast elim: evalid_never)
  obtain s2 where s2: "compile_plan sample_engine_env sample_engine_request (sc_preparation_spawned sample_script)
      (sc_preparation sample_script) s1 = Some (Inr (Inr sample_plan), s2)" "fresh [] s2"
    using sample_compile [OF s1(2)] by blast
  obtain s3 where s3: "launch sample_engine_env 0 sample_engine_request ?ctx True (Inr sample_plan) s2 = (Inr sample_plan, s3)"
    "calm [Reserved, Launched] s3"
    using sample_launch [of ?ctx] s2(2) by (blast elim: evalid_never)
  from sample_backend_run [OF s3(2), of ?ctx sample_plan 0] obtain r s' where
    "run_backend sample_engine_env sample_script 0 sample_engine_request ?ctx sample_plan 4 s3 = Some (Inr r, s')"
    "able [Reserved, Launched] s'" by metis
  then show ?thesis
    using s1 s2 s3 by (auto simp: execute_inner_def sample_script_def able_def backend_entered_def Let_def)
qed

theorem launches_are_permitted_witness:
  "\<exists>r s'. execute_inner sample_engine_env sample_script 0 sample_engine_request sample_engine = Some (r, s') \<and>
     eg_calls s' = eg_calls sample_engine @ [Reserved, Launched] \<and> jr_admitted (eg_journal s')"
proof -
  obtain r s' where inner: "execute_inner sample_engine_env sample_script 0 sample_engine_request sample_engine = Some (r, s')"
    "backend_entered s'" using sample_inner by blast
  have idle: "\<not> backend_entered sample_engine" by (simp add: backend_entered_def sample_engine_def)
  from inner(1) launches_are_permitted [OF inner(1) idle inner(2)] show ?thesis by blast
qed

theorem releases_are_chained_witness:
  "\<exists>final s' final2 s2. release_frontend sample_engine_env sample_script sample_engine_request
      (Inr (json_object [(''cleanup_complete'', JBool True)]), call Reserved sample_engine) = (final, s') \<and>
     eg_calls s' = [Reserved, StopTimer True, FinishReservation True True, CleanObserver True True] \<and> cleanup_confirmed final \<and>
     release_frontend sample_engine_env sample_script sample_engine_request
      (Inr (json_object [(''cleanup_complete'', JBool False)]), call Reserved sample_engine) = (final2, s2) \<and>
     (\<exists>a b. eg_calls s2 = [Reserved, StopTimer True, FinishReservation False a, CleanObserver False b]) \<and>
     \<not> cleanup_confirmed final2"
proof -
  let ?outcome = "\<lambda>complete. Inr (json_object [(''cleanup_complete'', JBool complete)])"
  let ?release = "\<lambda>complete. release_frontend sample_engine_env sample_script sample_engine_request
      (?outcome complete, call Reserved sample_engine)"
  have outcome: "cleanup_confirmed (?outcome complete) \<longleftrightarrow> complete" for complete by (simp add: cleanup_confirmed_def)
  have start: "reserved (call Reserved sample_engine)" "eg_calls sample_engine = []"
    by (simp_all add: call_def sample_engine_def reserved_def)
  obtain final s' final2 s2 where run: "?release True = (final, s')" "?release False = (final2, s2)" by fastforce
  have parts: "sc_timer_started sample_script" "req_timeout sample_engine_request \<noteq> None" "is_ok (sc_timer_end sample_script)"
    "sc_reservation_finish sample_script confirmed = confirmed" "is_ok (sc_observer_cleanup sample_script confirmed)" for confirmed
    by (simp_all add: sample_script_def sample_engine_request_def is_ok_def)
  have "eg_calls s' = [Reserved, StopTimer True, FinishReservation True True, CleanObserver True True] \<and> cleanup_confirmed final"
    using releases_are_chained [OF run(1)] by (simp add: outcome start parts Let_def)
  moreover have "eg_calls s2 = [Reserved, StopTimer True, FinishReservation False False, CleanObserver False True] \<and>
      \<not> cleanup_confirmed final2"
    using releases_are_chained [OF run(2)] by (simp add: outcome start parts Let_def)
  ultimately show ?thesis using run by blast
qed

theorem stopped_executions_end_witness:
  "\<exists>st' u result v. output_loop (sample_engine_env\<lparr>ee_now := (\<lambda>t. t)\<rparr>) sample_engine_request undefined sample_plan 4
      (replicate 6 \<lparr>ot_poll = NothingYet, ot_recv = RecvTimeout, ot_finished = False\<rparr>)
      (output_init, sample_engine\<lparr>eg_control := control_default\<lparr>ctl_cleanup_deadline := Some 5\<rparr>\<rparr>) = Some (st', u) \<and>
    await_result (sample_engine_env\<lparr>ee_now := (\<lambda>t. t)\<rparr>) (replicate 6 \<lparr>at_poll = NothingYet, at_finished = False\<rparr>)
      (os_result st') u = Some (result, v)"
  by (rule stopped_executions_end [where d = 5 and T = 5]) simp_all

end
