(* ===== verification/Managed_Proxy.thy ===== *)
theory Managed_Proxy
  imports Audit_Log
begin

text \<open>
  The managed proxy, \<open>src/backend/managed_proxy.rs\<close>: the text of a proxy request taken apart, the
  address it is forwarded to and the request as it is rewritten, what is written to the audit file
  about it, the tokens that authorize it (a table of the process and a directory of token files shared
  between processes), and the handling of one client. No thread panics while it holds the table. Base64 is a parameter, as are the processes
  that run, the file system's join and what the network answers. A file is what it holds; the events
  of a token are the text of a file.
\<close>

section \<open>Text\<close>

abbreviation char_of_byte :: "byte \<Rightarrow> char" where
  "char_of_byte b \<equiv> char_of (unat b)"

text \<open>The first character of a byte sequence: whether it is valid, and how many bytes belong to it.\<close>

definition utf8_unit :: "byte list \<Rightarrow> bool \<times> nat" where
  "utf8_unit bs =
     (let b = unat (hd bs);
          between = (\<lambda>i lo hi. i < length bs \<and> lo \<le> unat (bs ! i) \<and> unat (bs ! i) \<le> hi);
          tail = (\<lambda>i. between i 0x80 0xBF) in
      if b < 0x80 then (True, 1)
      else if 0xC2 \<le> b \<and> b \<le> 0xDF then (if tail 1 then (True, 2) else (False, 1))
      else if 0xE0 \<le> b \<and> b \<le> 0xEF
      then (if \<not> between 1 (if b = 0xE0 then 0xA0 else 0x80) (if b = 0xED then 0x9F else 0xBF) then (False, 1)
            else if \<not> tail 2 then (False, 2) else (True, 3))
      else if 0xF0 \<le> b \<and> b \<le> 0xF4
      then (if \<not> between 1 (if b = 0xF0 then 0x90 else 0x80) (if b = 0xF4 then 0x8F else 0xBF) then (False, 1)
            else if \<not> tail 2 then (False, 2)
            else if \<not> tail 3 then (False, 3) else (True, 4))
      else (False, 1))"

lemma utf8_unit_pos: "0 < snd (utf8_unit bs)"
  by (simp add: utf8_unit_def Let_def)

lemma utf8_unit_drop: "bs \<noteq> [] \<Longrightarrow> length (drop (snd (utf8_unit bs)) bs) < length bs"
  using utf8_unit_pos [of bs] by simp

function from_utf8_lossy :: "byte list \<Rightarrow> string" where
  "from_utf8_lossy bs =
     (if bs = [] then []
      else
        (if fst (utf8_unit bs) then map char_of_byte (take (snd (utf8_unit bs)) bs) else utf8 [0xEF, 0xBF, 0xBD]) @
        from_utf8_lossy (drop (snd (utf8_unit bs)) bs))"
  by pat_completeness auto
termination
  by (relation "measure length") (auto simp: utf8_unit_pos)

function from_utf8 :: "byte list \<Rightarrow> string option" where
  "from_utf8 bs =
     (if bs = [] then Some []
      else if fst (utf8_unit bs)
      then map_option (\<lambda>s. map char_of_byte (take (snd (utf8_unit bs)) bs) @ s) (from_utf8 (drop (snd (utf8_unit bs)) bs))
      else None)"
  by pat_completeness auto
termination
  by (relation "measure length") (auto simp: utf8_unit_pos)

declare from_utf8_lossy.simps [simp del] from_utf8.simps [simp del]

definition cr :: char where
  "cr = CHR 0x0D"

definition lf :: char where
  "lf = CHR 0x0A"

abbreviation crlf :: string where
  "crlf \<equiv> [cr, lf]"

fun split_crlf :: "string \<Rightarrow> string list" where
  "split_crlf [] = [[]]"
| "split_crlf [c] = [[c]]"
| "split_crlf (c # d # s) =
     (if c = cr \<and> d = lf then [] # split_crlf s
      else (case split_crlf (d # s) of [] \<Rightarrow> [[c]] | w # ws \<Rightarrow> (c # w) # ws))"

fun split_once :: "char \<Rightarrow> string \<Rightarrow> (string \<times> string) option" where
  "split_once c [] = None"
| "split_once c (x # s) =
     (if x = c then Some ([], s)
      else (case split_once c s of None \<Rightarrow> None | Some (before, after) \<Rightarrow> Some (x # before, after)))"

definition rsplit_once :: "char \<Rightarrow> string \<Rightarrow> (string \<times> string) option" where
  "rsplit_once c s = map_option (\<lambda>(after, before). (rev before, rev after)) (split_once c (rev s))"

lemma white_space_code [code]:
  "white_space =
    [[CHR 0x09], [CHR 0x0A], [CHR 0x0B], [CHR 0x0C], [CHR 0x0D], [CHR 0x20], [CHR 0xC2, CHR 0x85],
     [CHR 0xC2, CHR 0xA0], [CHR 0xE1, CHR 0x9A, CHR 0x80], [CHR 0xE2, CHR 0x80, CHR 0x80],
     [CHR 0xE2, CHR 0x80, CHR 0x81], [CHR 0xE2, CHR 0x80, CHR 0x82], [CHR 0xE2, CHR 0x80, CHR 0x83],
     [CHR 0xE2, CHR 0x80, CHR 0x84], [CHR 0xE2, CHR 0x80, CHR 0x85], [CHR 0xE2, CHR 0x80, CHR 0x86],
     [CHR 0xE2, CHR 0x80, CHR 0x87], [CHR 0xE2, CHR 0x80, CHR 0x88], [CHR 0xE2, CHR 0x80, CHR 0x89],
     [CHR 0xE2, CHR 0x80, CHR 0x8A], [CHR 0xE2, CHR 0x80, CHR 0xA8], [CHR 0xE2, CHR 0x80, CHR 0xA9],
     [CHR 0xE2, CHR 0x80, CHR 0xAF], [CHR 0xE2, CHR 0x81, CHR 0x9F], [CHR 0xE3, CHR 0x80, CHR 0x80]]"
  by code_simp

definition starts_white :: "string \<Rightarrow> bool" where
  "starts_white s \<longleftrightarrow> list_ex (starts_with s) white_space"

definition white_bytes :: string where
  "white_bytes = [CHR 0x09, CHR 0x0A, CHR 0x0B, CHR 0x0C, CHR 0x0D, CHR 0x20, CHR 0xC2, CHR 0xE1, CHR 0xE2, CHR 0xE3]"

lemma starts_white_code [code]:
  "starts_white s = (case s of [] \<Rightarrow> False | c # _ \<Rightarrow> c \<in> set white_bytes \<and> list_ex (starts_with s) white_space)"
proof (cases s)
  case Nil
  have "\<forall>w \<in> set white_space. w \<noteq> []" by code_simp
  with Nil show ?thesis by (auto simp: starts_white_def list_ex_iff starts_with_def)
next
  case (Cons c rest)
  have "\<forall>w \<in> set white_space. w \<noteq> [] \<and> hd w \<in> set white_bytes" by code_simp
  with Cons show ?thesis by (auto simp: starts_white_def list_ex_iff starts_with_iff) (metis append_Cons list.collapse list.inject)
qed

fun break_white :: "string \<Rightarrow> string \<times> string" where
  "break_white [] = ([], [])"
| "break_white (c # s) =
     (if starts_white (c # s) then ([], c # s)
      else (case break_white s of (w, rest) \<Rightarrow> (c # w, rest)))"

lemma break_white_length: "length (fst (break_white s)) + length (snd (break_white s)) = length s"
  by (induction s) (auto split: prod.splits)

lemma trim_prefixes_length: "length (trim_prefixes ws s) \<le> length s"
proof (induction ws s rule: trim_prefixes.induct)
  case (1 ws s)
  then show ?case
    by (subst trim_prefixes.simps) (force split: option.splits simp: le_diff_conv)
qed

abbreviation next_word :: "string \<Rightarrow> string \<times> string" where
  "next_word s \<equiv> break_white (trim_prefixes white_space s)"

lemma next_word_less: "fst (next_word s) \<noteq> [] \<Longrightarrow> length (snd (next_word s)) < length s"
  using break_white_length [of "trim_prefixes white_space s"] trim_prefixes_length [of white_space s]
  by (cases "fst (next_word s)") simp_all

text \<open>The empty word is only met at the end: a text that starts with white space has been trimmed.\<close>

function split_whitespace :: "string \<Rightarrow> string list" where
  "split_whitespace s = (if fst (next_word s) = [] then [] else fst (next_word s) # split_whitespace (snd (next_word s)))"
  by pat_completeness auto
termination
  by (relation "measure length") (auto intro: next_word_less)

declare split_whitespace.simps [simp del]

definition eq_ignore_ascii_case :: "string \<Rightarrow> string \<Rightarrow> bool" where
  "eq_ignore_ascii_case a b \<longleftrightarrow> to_ascii_lowercase a = to_ascii_lowercase b"

section \<open>Requests\<close>

definition MAX_HEADER_BYTES :: nat where
  "MAX_HEADER_BYTES = 64 * 1024"

definition MANAGED_PROXY_HEALTH_HOST :: string where
  "MANAGED_PROXY_HEALTH_HOST = ''runseal.local''"

definition MANAGED_PROXY_HEALTH_PATH :: string where
  "MANAGED_PROXY_HEALTH_PATH = ''/.runseal/managed-proxy/health''"

text \<open>The position after the first empty line.\<close>

fun find_header_end :: "byte list \<Rightarrow> nat option" where
  "find_header_end [] = None"
| "find_header_end (b # bs) =
     (if take 4 (b # bs) = [13, 10, 13, 10] then Some 4 else map_option Suc (find_header_end bs))"

fun find_map :: "('a \<Rightarrow> 'b option) \<Rightarrow> 'a list \<Rightarrow> 'b option" where
  "find_map f [] = None"
| "find_map f (x # xs) = (case f x of Some y \<Rightarrow> Some y | None \<Rightarrow> find_map f xs)"

definition header_line :: "string \<Rightarrow> string \<Rightarrow> string option" where
  "header_line header_name line =
     (case split_once CHR '':'' line of
        None \<Rightarrow> None
      | Some (name, value) \<Rightarrow> if eq_ignore_ascii_case name header_name then Some (trim value) else None)"

definition header_value :: "string \<Rightarrow> string \<Rightarrow> string option" where
  "header_value header header_name = find_map (header_line header_name) (tl (split_crlf header))"

definition find_host_header :: "string \<Rightarrow> string option" where
  "find_host_header header = header_value header ''Host''"

definition request_parts :: "string \<Rightarrow> string list" where
  "request_parts header = split_whitespace (hd (split_crlf header))"

definition next_or_default :: "nat \<Rightarrow> string list \<Rightarrow> string" where
  "next_or_default i parts = (if i < length parts then parts ! i else [])"

definition is_managed_proxy_health_request :: "string \<Rightarrow> bool" where
  "is_managed_proxy_health_request header =
     (let parts = request_parts header;
          verb = next_or_default 0 parts;
          target = next_or_default 1 parts in
      eq_ignore_ascii_case verb ''GET'' \<and>
      (target = MANAGED_PROXY_HEALTH_PATH \<or>
       target = ''http://'' @ MANAGED_PROXY_HEALTH_HOST @ MANAGED_PROXY_HEALTH_PATH))"

definition strip_http_scheme :: "string \<Rightarrow> string option" where
  "strip_http_scheme target =
     (if length ''http://'' \<le> length target \<and> eq_ignore_ascii_case (take (length ''http://'') target) ''http://''
      then Some (drop (length ''http://'') target) else None)"

text \<open>The part behind the last \<open>@\<close>.\<close>

definition without_userinfo :: "string \<Rightarrow> string" where
  "without_userinfo authority =
     (case rsplit_once CHR ''@'' authority of None \<Rightarrow> authority | Some (_, after) \<Rightarrow> after)"

definition authority_with_default_port :: "string \<Rightarrow> nat \<Rightarrow> (string, string) result" where
  "authority_with_default_port authority default_port =
     (if authority = [] then Inl ''proxy target missing host''
      else
        let authority = without_userinfo authority in
        if starts_with authority ''[''
        then (case split_once CHR '']'' authority of
                Some (host, []) \<Rightarrow> Inr (host @ '']:'' @ dec default_port)
              | _ \<Rightarrow> Inr authority)
        else if rsplit_once CHR '':'' authority \<noteq> None then Inr authority
        else Inr (authority @ '':'' @ dec default_port))"

definition split_http_url :: "string \<Rightarrow> (string, string \<times> string) result" where
  "split_http_url rest =
     (let (authority, path) =
        (case split_once CHR ''/'' rest of
           Some (authority, path) \<Rightarrow> (authority, CHR ''/'' # path)
         | None \<Rightarrow>
             (case split_once CHR ''?'' rest of
                Some (authority, query) \<Rightarrow> (authority, ''/?'' @ query)
              | None \<Rightarrow> (rest, ''/''))) in
      rbind (authority_with_default_port authority 80) (\<lambda>upstream. Inr (upstream, path)))"

definition hop_header :: "string \<Rightarrow> bool" where
  "hop_header line =
     (case split_once CHR '':'' line of
        None \<Rightarrow> False
      | Some (name, _) \<Rightarrow>
          eq_ignore_ascii_case name ''Proxy-Connection'' \<or> eq_ignore_ascii_case name ''Proxy-Authorization'' \<or>
          eq_ignore_ascii_case name ''Connection'')"

fun push_lines :: "string list \<Rightarrow> string" where
  "push_lines [] = []"
| "push_lines (line # lines) =
     (if line = [] then [] else if hop_header line then push_lines lines else line @ crlf @ push_lines lines)"

definition rewrite_plain_http_request ::
  "string \<Rightarrow> string \<Rightarrow> string \<Rightarrow> string \<Rightarrow> (string, string \<times> string) result" where
  "rewrite_plain_http_request verb target version header =
     rbind
       (case strip_http_scheme target of
          Some rest \<Rightarrow> split_http_url rest
        | None \<Rightarrow>
            rbind (ok_or (find_host_header header) ''plain HTTP proxy request missing Host header'') (\<lambda>host.
            rbind (authority_with_default_port host 80) (\<lambda>upstream. Inr (upstream, target))))
       (\<lambda>(upstream, path).
          Inr (upstream,
               verb @ '' '' @ path @ '' '' @ version @ crlf @ push_lines (tl (split_crlf header)) @
               ''Connection: close'' @ crlf @ crlf))"

text \<open>What is sent where: a tunnel, or a rewritten request; then both directions are copied.\<close>

datatype forward = Tunnel string "byte list" | Plain string string "byte list"

definition forward_request :: "string \<Rightarrow> byte list \<Rightarrow> (string, forward) result" where
  "forward_request header body_prefix =
     (case request_parts header of
        [] \<Rightarrow> Inl ''proxy request missing method''
      | [_] \<Rightarrow> Inl ''proxy request missing target''
      | [_, _] \<Rightarrow> Inl ''proxy request missing version''
      | verb # target # version # _ \<Rightarrow>
          if eq_ignore_ascii_case verb ''CONNECT''
          then rbind (authority_with_default_port target 443) (\<lambda>upstream. Inr (Tunnel upstream body_prefix))
          else rbind (rewrite_plain_http_request verb target version header) (\<lambda>(upstream, rewritten).
                 Inr (Plain upstream rewritten body_prefix)))"

section \<open>What is recorded\<close>

record request_metadata =
  rm_method :: string
  rm_scheme :: string
  rm_host :: string
  rm_path :: string

definition path_without_query :: "string \<Rightarrow> string" where
  "path_without_query path = (case split_once CHR ''?'' path of None \<Rightarrow> path | Some (before, _) \<Rightarrow> before)"

definition split_proxy_target_for_audit :: "string \<Rightarrow> string \<times> string" where
  "split_proxy_target_for_audit rest =
     (case split_once CHR ''/'' rest of
        Some (authority, path) \<Rightarrow> (authority, path_without_query (CHR ''/'' # path))
      | None \<Rightarrow>
          (case split_once CHR ''?'' rest of
             Some (authority, _) \<Rightarrow> (authority, ''/'')
           | None \<Rightarrow> (rest, ''/'')))"

definition host_without_port :: "string \<Rightarrow> string" where
  "host_without_port authority =
     (let authority = without_userinfo authority in
      case strip_prefix authority ''['' of
        Some host \<Rightarrow> (case split_once CHR '']'' host of None \<Rightarrow> authority | Some (host, _) \<Rightarrow> host)
      | None \<Rightarrow> (case rsplit_once CHR '':'' authority of None \<Rightarrow> authority | Some (host, _) \<Rightarrow> host))"

definition proxy_request_metadata :: "string \<Rightarrow> request_metadata" where
  "proxy_request_metadata header =
     (let parts = request_parts header;
          verb = to_ascii_uppercase (next_or_default 0 parts);
          target = next_or_default 1 parts;
          (scheme, host, path) =
            (if verb = ''CONNECT'' then (''https'', host_without_port target, [])
             else
               (case strip_http_scheme target of
                  Some rest \<Rightarrow>
                    (case split_proxy_target_for_audit rest of
                       (authority, path) \<Rightarrow> (''http'', host_without_port authority, path))
                | None \<Rightarrow>
                    (''http'', (case find_host_header header of None \<Rightarrow> [] | Some host \<Rightarrow> host_without_port host),
                     path_without_query target))) in
      \<lparr>rm_method = verb, rm_scheme = scheme, rm_host = host, rm_path = path\<rparr>)"

definition proxy_request_event :: "string \<Rightarrow> string \<Rightarrow> nat \<Rightarrow> (string, unit) result \<Rightarrow> json" where
  "proxy_request_event now header duration result =
     (let request = proxy_request_metadata header;
          event = json_object
            [(''type'', JStr (if is_ok result then ''execution.network.request'' else ''execution.network.error'')),
             (''time'', JStr now), (''decision'', JStr (if is_ok result then ''allowed'' else ''error'')),
             (''method'', JStr (rm_method request)), (''scheme'', JStr (rm_scheme request)),
             (''host'', JStr (rm_host request)), (''path'', JStr (rm_path request)), (''duration_ms'', json_nat duration)] in
      case result of Inl err \<Rightarrow> json_set event ''reason'' (JStr err) | Inr _ \<Rightarrow> event)"

section \<open>Tokens\<close>

text \<open>
  A token authorizes the requests of one execution. The owner of the listener holds a table of its
  own tokens; the tokens of other processes are files with the process and the path of the events.
\<close>

datatype token_file = NoTokenFile | Unreadable | TokenFile "json option"

record proxy_env =
  px_encode :: "string \<Rightarrow> string"
  px_decode :: "string \<Rightarrow> byte list option"
  px_join :: "string \<Rightarrow> string \<Rightarrow> string"
  px_dir :: string
  px_dirs :: bool
  px_pid :: "32 word"
  px_probe :: "32 word \<Rightarrow> bool"

record proxy_state =
  ps_tokens :: "(string \<times> string) list"
  ps_files :: "string \<Rightarrow> token_file"
  ps_events :: "string \<Rightarrow> string option"

definition proxy_basic_auth_value :: "proxy_env \<Rightarrow> string \<Rightarrow> string" where
  "proxy_basic_auth_value env token = ''Basic '' @ px_encode env (''runseal:'' @ token)"

definition managed_proxy_token_path :: "proxy_env \<Rightarrow> string \<Rightarrow> string" where
  "managed_proxy_token_path env token = px_join env (px_join env (px_dir env) ''tokens'') (token @ ''.json'')"

definition managed_proxy_event_path :: "proxy_env \<Rightarrow> string \<Rightarrow> string" where
  "managed_proxy_event_path env token = px_join env (px_join env (px_dir env) ''events'') (token @ ''.jsonl'')"

definition process_is_running :: "proxy_env \<Rightarrow> 32 word \<Rightarrow> bool" where
  "process_is_running env pid \<longleftrightarrow> pid = px_pid env \<or> px_probe env pid"

definition add_token :: "string \<Rightarrow> string \<Rightarrow> proxy_state \<Rightarrow> proxy_state" where
  "add_token token event_path s = s\<lparr>ps_tokens := (token, event_path) # filter (\<lambda>(k, _). k \<noteq> token) (ps_tokens s)\<rparr>"

definition remove_token :: "string \<Rightarrow> proxy_state \<Rightarrow> proxy_state" where
  "remove_token token s = s\<lparr>ps_tokens := filter (\<lambda>(k, _). k \<noteq> token) (ps_tokens s)\<rparr>"

text \<open>\<open>px_dirs\<close> says whether the directories can be made, \<open>io\<close> whether the file can be written or removed.\<close>

definition register_managed_proxy_token ::
  "proxy_env \<Rightarrow> bool \<Rightarrow> string \<Rightarrow> string \<Rightarrow> proxy_state \<Rightarrow> (string, unit) result \<times> proxy_state" where
  "register_managed_proxy_token env io token event_path s =
     (if \<not> px_dirs env \<or> \<not> io then (Inl ''token file not written'', s)
      else
        (Inr (), s\<lparr>ps_files := (ps_files s)(managed_proxy_token_path env token :=
           TokenFile (Some (json_object [(''pid'', json_nat (unat (px_pid env))), (''event_path'', JStr event_path)])))\<rparr>))"

definition unregister_managed_proxy_token :: "proxy_env \<Rightarrow> bool \<Rightarrow> string \<Rightarrow> proxy_state \<Rightarrow> proxy_state" where
  "unregister_managed_proxy_token env io token s =
     (if px_dirs env \<and> io then s\<lparr>ps_files := (ps_files s)(managed_proxy_token_path env token := NoTokenFile)\<rparr> else s)"

definition managed_proxy_registered_event_path ::
  "proxy_env \<Rightarrow> bool \<Rightarrow> string \<Rightarrow> proxy_state \<Rightarrow> (string, string option) result \<times> proxy_state" where
  "managed_proxy_registered_event_path env io token s =
     (if \<not> px_dirs env then (Inl ''token directory not available'', s)
      else case ps_files s (managed_proxy_token_path env token) of
        NoTokenFile \<Rightarrow> (Inr None, s)
      | Unreadable \<Rightarrow> (Inl ''token file not readable'', s)
      | TokenFile None \<Rightarrow> (Inl ''token file is not JSON'', s)
      | TokenFile (Some v) \<Rightarrow>
          (case Option.bind (json_get v ''pid'') as_u64 of
             None \<Rightarrow> (Inr None, s)
           | Some pid \<Rightarrow>
               if 2 ^ 32 \<le> unat pid then (Inr None, s)
               else if \<not> process_is_running env (of_nat (unat pid))
               then (Inr None, unregister_managed_proxy_token env io token s)
               else (Inr (Option.bind (json_get v ''event_path'') as_str), s)))"

text \<open>The handle of an execution; an owner of the listener also holds the table.\<close>

record proxy_handle =
  ph_owner :: bool
  ph_token :: string
  ph_event_path :: string

definition register_owned ::
  "proxy_env \<Rightarrow> bool \<Rightarrow> string \<Rightarrow> proxy_state \<Rightarrow> (string, proxy_handle) result \<times> proxy_state" where
  "register_owned env io token s =
     (let event_path = managed_proxy_event_path env token in
      if \<not> px_dirs env then (Inl ''event directory not available'', s)
      else case register_managed_proxy_token env io token event_path (add_token token event_path s) of
        (Inl err, s) \<Rightarrow> (Inl err, s)
      | (Inr _, s) \<Rightarrow> (Inr \<lparr>ph_owner = True, ph_token = token, ph_event_path = event_path\<rparr>, s))"

definition register_external ::
  "proxy_env \<Rightarrow> bool \<Rightarrow> string \<Rightarrow> proxy_state \<Rightarrow> (string, proxy_handle) result \<times> proxy_state" where
  "register_external env io token s =
     (let event_path = managed_proxy_event_path env token in
      if \<not> px_dirs env then (Inl ''event directory not available'', s)
      else case register_managed_proxy_token env io token event_path s of
        (Inl err, s) \<Rightarrow> (Inl err, s)
      | (Inr _, s) \<Rightarrow> (Inr \<lparr>ph_owner = False, ph_token = token, ph_event_path = event_path\<rparr>, s))"

text \<open>Whether the token file and the file of the events can be removed; a failure of either is ignored.\<close>

definition drop_handle :: "proxy_env \<Rightarrow> bool \<Rightarrow> bool \<Rightarrow> proxy_handle \<Rightarrow> proxy_state \<Rightarrow> proxy_state" where
  "drop_handle env token_removed events_removed handle s =
     (let s = (if ph_owner handle then remove_token (ph_token handle) s else s);
          s = unregister_managed_proxy_token env token_removed (ph_token handle) s in
      if events_removed then s\<lparr>ps_events := (ps_events s)(ph_event_path handle := None)\<rparr> else s)"

section \<open>Authorization\<close>

definition presented_token :: "proxy_env \<Rightarrow> string \<Rightarrow> string option" where
  "presented_token env actual =
     Option.bind (strip_prefix actual ''Basic '') (\<lambda>encoded.
     Option.bind (px_decode env encoded) (\<lambda>bytes.
     Option.bind (from_utf8 bytes) (\<lambda>decoded. strip_prefix decoded ''runseal:'')))"

definition authorized_proxy_request ::
  "proxy_env \<Rightarrow> bool \<Rightarrow> string \<Rightarrow> proxy_state \<Rightarrow> string option \<times> proxy_state" where
  "authorized_proxy_request env io header s =
     (case header_value header ''Proxy-Authorization'' of
        None \<Rightarrow> (None, s)
      | Some actual \<Rightarrow>
          (case find_map (\<lambda>(token, event_path). if actual = proxy_basic_auth_value env token then Some event_path else None)
                  (ps_tokens s) of
             Some event_path \<Rightarrow> (Some event_path, s)
           | None \<Rightarrow>
               (case presented_token env actual of
                  None \<Rightarrow> (None, s)
                | Some token \<Rightarrow>
                    (case managed_proxy_registered_event_path env io token s of
                       (Inr event_path, s) \<Rightarrow> (event_path, s)
                     | (Inl _, s) \<Rightarrow> (None, s)))))"

section \<open>Events\<close>

text \<open>
  \<open>written\<close> is what the file system makes of an append: the file could not be opened, or that many
  bytes of the line reached it before a write failed. \<open>render\<close> is the text of a JSON value.
\<close>

definition append_proxy_event ::
  "(json \<Rightarrow> string) \<Rightarrow> nat option \<Rightarrow> string \<Rightarrow> json \<Rightarrow> proxy_state \<Rightarrow> proxy_state" where
  "append_proxy_event render written path event s =
     (case written of
        None \<Rightarrow> s
      | Some n \<Rightarrow> s\<lparr>ps_events := (ps_events s)(path :=
          Some ((case ps_events s path of None \<Rightarrow> [] | Some text \<Rightarrow> text) @ take n (render event @ [lf])))\<rparr>)"

text \<open>\<open>str::lines\<close>: the parts between line feeds, without a last empty one and without a carriage return at the end.\<close>

definition strip_cr :: "string \<Rightarrow> string" where
  "strip_cr line = (if line \<noteq> [] \<and> last line = cr then butlast line else line)"

definition text_lines :: "string \<Rightarrow> string list" where
  "text_lines s =
     (let parts = split_on (\<lambda>c. c = lf) s in
      map strip_cr (if last parts = [] then butlast parts else parts))"

definition drain_proxy_events ::
  "(string \<Rightarrow> json option) \<Rightarrow> bool \<Rightarrow> bool \<Rightarrow> string \<Rightarrow> proxy_state \<Rightarrow> json list \<times> proxy_state" where
  "drain_proxy_events parse readable writable path s =
     (case ps_events s path of
        None \<Rightarrow> ([], s)
      | Some text \<Rightarrow>
          if \<not> readable \<or> text = [] \<or> last text \<noteq> lf then ([], s)
          else
            let events = map parse (text_lines text) in
            if list_ex (\<lambda>e. e = None) events then ([], s)
            else (map the events, if writable then s\<lparr>ps_events := (ps_events s)(path := Some [])\<rparr> else s))"

section \<open>A client\<close>

text \<open>A read returns up to 4096 bytes, none at the end of the stream.\<close>

datatype client_read = ReadBytes "byte list" | ReadError

datatype header_end = ClientClosed | ReadFailed | HeaderTooLarge | HeaderRead "byte list" "byte list"

fun read_header :: "client_read list \<Rightarrow> byte list \<Rightarrow> header_end option" where
  "read_header [] buffer = None"
| "read_header (ReadError # reads) buffer = Some ReadFailed"
| "read_header (ReadBytes chunk # reads) buffer =
     (if chunk = [] then Some ClientClosed
      else
        let buffer = buffer @ chunk in
        if MAX_HEADER_BYTES < length buffer then Some HeaderTooLarge
        else
          (case find_header_end buffer of
             Some n \<Rightarrow> Some (HeaderRead (take n buffer) (drop n buffer))
           | None \<Rightarrow> read_header reads buffer))"

datatype client_end = Ended header_end | HealthReported | AuthenticationRequired | Forwarded string "(string, forward) result" json

text \<open>\<open>transfer\<close> is what the network answers: connecting, writing and copying until both sides are done.\<close>

definition handle_client ::
  "proxy_env \<Rightarrow> bool \<Rightarrow> nat option \<Rightarrow> (json \<Rightarrow> string) \<Rightarrow> string \<Rightarrow> nat \<Rightarrow> (forward \<Rightarrow> (string, unit) result) \<Rightarrow>
     client_read list \<Rightarrow> proxy_state \<Rightarrow> (client_end \<times> proxy_state) option" where
  "handle_client env io written render now duration transfer reads s =
     (case read_header reads [] of
        None \<Rightarrow> None
      | Some (HeaderRead head body_prefix) \<Rightarrow>
          let header = from_utf8_lossy head in
          Some
            (if is_managed_proxy_health_request header then (HealthReported, s)
             else
               (case authorized_proxy_request env io header s of
                  (None, s) \<Rightarrow> (AuthenticationRequired, s)
                | (Some event_path, s) \<Rightarrow>
                    let forward = forward_request header body_prefix;
                        result = rbind forward transfer;
                        event = proxy_request_event now header duration result in
                    (Forwarded event_path forward event, append_proxy_event render written event_path event s)))
      | Some ended \<Rightarrow> Some (Ended ended, s))"

section \<open>The environment of an execution\<close>

definition PROXY_KEYS :: "string list" where
  "PROXY_KEYS = [''HTTP_PROXY'', ''HTTPS_PROXY'', ''http_proxy'', ''https_proxy'', ''ALL_PROXY'', ''all_proxy'',
     ''GIT_HTTP_PROXY'', ''GIT_HTTPS_PROXY'']"

definition NO_PROXY_KEYS :: "string list" where
  "NO_PROXY_KEYS = [''NO_PROXY'', ''no_proxy'']"

definition environment_for_addr :: "proxy_env \<Rightarrow> proxy_handle \<Rightarrow> string \<Rightarrow> (string \<times> string) list" where
  "environment_for_addr env handle addr =
     (let proxy_url = ''http://runseal:'' @ ph_token handle @ ''@'' @ addr in
      [(''RUNSEAL_NETWORK_PROXY_ACTIVE'', ''1''),
       (''RUNSEAL_NETWORK_PROXY_AUTHORIZATION'', proxy_basic_auth_value env (ph_token handle)),
       (''RUNSEAL_NETWORK_ALLOW_LOCAL_BINDING'', ''0''), (''ELECTRON_GET_USE_PROXY'', ''true''), (''NODE_USE_ENV_PROXY'', ''1'')] @
      map (\<lambda>key. (key, proxy_url)) PROXY_KEYS @ map (\<lambda>key. (key, [])) NO_PROXY_KEYS)"

section \<open>The listener\<close>

datatype bind_answer = Bound | AddrInUse | BindFailed

text \<open>Each attempt with the time that has passed; no result means the attempts given do not end it.\<close>

fun bind_proxy_listener_with_timeout :: "nat \<Rightarrow> (bind_answer \<times> nat) list \<Rightarrow> (bind_answer, unit) result option" where
  "bind_proxy_listener_with_timeout retry_timeout [] = None"
| "bind_proxy_listener_with_timeout retry_timeout ((answer, elapsed) # rest) =
     (case answer of
        Bound \<Rightarrow> Some (Inr ())
      | AddrInUse \<Rightarrow> if elapsed < retry_timeout then bind_proxy_listener_with_timeout retry_timeout rest else Some (Inl AddrInUse)
      | BindFailed \<Rightarrow> Some (Inl BindFailed))"

end
