(* ===== verification/Proxy_Guarantees.thy ===== *)
theory Proxy_Guarantees
  imports Managed_Proxy
begin

text \<open>
  What the managed proxy guarantees: who is served, what leaves the host, what is recorded of it, and
  that a client cannot hold it with an endless header.
\<close>

section \<open>Splitting text\<close>

lemma split_crlf_nonempty [simp]: "split_crlf s \<noteq> []"
  by (induction s rule: split_crlf.induct) (auto split: list.splits)

lemma cr_neq_lf [simp]: "cr \<noteq> lf" "lf \<noteq> cr"
  by (simp_all add: cr_def lf_def)

lemma split_crlf_line: "lf \<notin> set s \<Longrightarrow> split_crlf s = [s]"
  by (induction s rule: split_crlf.induct) auto

lemma split_crlf_append: "split_crlf l = [l] \<Longrightarrow> split_crlf (l @ crlf @ s) = l # split_crlf s"
  by (induction l rule: split_crlf.induct) (auto split: if_splits list.splits)

lemma split_crlf_lines: "l \<in> set (split_crlf s) \<Longrightarrow> split_crlf l = [l]"
proof (induction s arbitrary: l rule: split_crlf.induct)
  case (3 c d s)
  show ?case
  proof (cases "c = cr \<and> d = lf")
    case True
    with 3 show ?thesis by auto
  next
    case False
    obtain w ws where ws: "split_crlf (d # s) = w # ws" by (cases "split_crlf (d # s)") auto
    have "hd (d # s) = d" by simp
    have w: "split_crlf w = [w]" "w = [] \<or> hd w = d"
    proof -
      show "split_crlf w = [w]" using "3.IH"(2) [of w] False ws by auto
      show "w = [] \<or> hd w = d" using ws by (cases s) (auto split: if_splits list.splits)
    qed
    have "split_crlf (c # w) = [c # w]"
    proof (cases w)
      case (Cons x w')
      with w False show ?thesis by auto
    qed simp
    with 3 False ws show ?thesis by auto
  qed
qed auto

lemma split_once_None: "split_once c s = None \<longleftrightarrow> c \<notin> set s"
  by (induction s) (auto split: option.splits)

lemma split_once_first: "c \<notin> set a \<Longrightarrow> split_once c (a @ c # b) = Some (a, b)"
  by (induction a) auto

lemma split_once_parts: "split_once c s = Some (a, b) \<Longrightarrow> s = a @ c # b \<and> c \<notin> set a"
  by (induction s arbitrary: a) (auto split: if_splits option.splits)

lemma split_once_Some: "split_once c s = Some (a, b) \<longleftrightarrow> s = a @ c # b \<and> c \<notin> set a"
  using split_once_first split_once_parts by metis

lemma rsplit_once_Some: "rsplit_once c s = Some (a, b) \<longleftrightarrow> s = a @ c # b \<and> c \<notin> set b"
proof -
  have "rsplit_once c s = Some (a, b) \<longleftrightarrow> split_once c (rev s) = Some (rev b, rev a)"
    by (auto simp: rsplit_once_def)
  then show ?thesis by (simp add: split_once_Some rev_swap)
qed

lemma rsplit_once_None: "rsplit_once c s = None \<longleftrightarrow> c \<notin> set s"
  by (simp add: rsplit_once_def split_once_None)

lemma break_white_no_lf: "lf \<notin> set (fst (break_white s))"
proof (induction s)
  case (Cons c s)
  have "[lf] \<in> set white_space" by code_simp
  then have "starts_white (lf # s)" by (auto simp: starts_white_def list_ex_iff starts_with_def intro: bexI [of _ "[lf]"])
  with Cons show ?case by (auto split: prod.splits)
qed simp

lemma split_whitespace_no_lf: "w \<in> set (split_whitespace s) \<Longrightarrow> lf \<notin> set w"
proof (induction s rule: split_whitespace.induct)
  case (1 s)
  then show ?case using break_white_no_lf [of "trim_prefixes white_space s"]
    by (subst (asm) split_whitespace.simps) (auto split: if_splits)
qed

section \<open>Hosts\<close>

lemma without_userinfo: "CHR ''@'' \<notin> set (without_userinfo s)"
  by (auto simp: without_userinfo_def rsplit_once_None rsplit_once_Some split: option.splits)



lemma marks_not_digits [simp]:
  "\<not> is_ascii_digit CHR ''@''" "\<not> is_ascii_digit CHR '':''" "\<not> is_ascii_digit CHR '']''"
  by (simp_all add: is_ascii_digit_def byte_of_def)




section \<open>Rewriting\<close>

lemma push_lines_filter: "push_lines lines = concat (map (\<lambda>l. l @ crlf) (filter (\<lambda>l. \<not> hop_header l) (takeWhile (\<lambda>l. l \<noteq> []) lines)))"
  by (induction lines) auto

lemma split_crlf_join:
  "(\<And>l. l \<in> set lines \<Longrightarrow> split_crlf l = [l]) \<Longrightarrow> split_crlf (concat (map (\<lambda>l. l @ crlf) lines) @ rest) = lines @ split_crlf rest"
proof (induction lines)
  case (Cons l lines)
  then show ?case using split_crlf_append [of l "concat (map (\<lambda>l. l @ crlf) lines) @ rest"] by simp
qed simp

lemma split_once_no_lf: "split_once c s = Some (a, b) \<Longrightarrow> lf \<notin> set s \<Longrightarrow> lf \<notin> set a \<and> lf \<notin> set b"
  by (auto simp: split_once_Some)

text \<open>The path that is requested comes from the target.\<close>

lemma split_http_url_no_lf:
  assumes "split_http_url rest = Inr (upstream, path)" "lf \<notin> set rest"
  shows "lf \<notin> set path"
  using assms split_once_no_lf [OF _ assms(2)]
  by (auto simp: split_http_url_def lf_def result_simps split: option.splits)

lemma rewrite_lines:
  assumes "rewrite_plain_http_request verb target version header = Inr (upstream, rewritten)"
    and "lf \<notin> set verb" "lf \<notin> set target" "lf \<notin> set version"
  shows "\<exists>path. split_crlf rewritten = (verb @ '' '' @ path @ '' '' @ version) #
    filter (\<lambda>l. \<not> hop_header l) (takeWhile (\<lambda>l. l \<noteq> []) (tl (split_crlf header))) @ [''Connection: close'', [], []]"
proof -
  let ?lines = "filter (\<lambda>l. \<not> hop_header l) (takeWhile (\<lambda>l. l \<noteq> []) (tl (split_crlf header)))"
  obtain path where path: "rewritten = (verb @ '' '' @ path @ '' '' @ version) @ crlf @ push_lines (tl (split_crlf header)) @
      ''Connection: close'' @ crlf @ crlf" "lf \<notin> set path"
  proof (cases "strip_http_scheme target")
    case None
    with assms(1,3) that show thesis by (auto simp: rewrite_plain_http_request_def result_simps)
  next
    case (Some rest)
    then have "lf \<notin> set rest" using assms(3) by (auto simp: strip_http_scheme_def split: if_splits dest: in_set_dropD)
    with Some assms(1) that split_http_url_no_lf [of rest] show thesis
      by (auto simp: rewrite_plain_http_request_def result_simps)
  qed
  have lines: "split_crlf l = [l]" if "l \<in> set ?lines" for l
    using that split_crlf_lines [of l header] by (auto dest!: set_takeWhileD list.set_sel(2) [rotated])
  have first: "split_crlf (verb @ '' '' @ path @ '' '' @ version) = [verb @ '' '' @ path @ '' '' @ version]"
    using assms path(2) by (intro split_crlf_line) (auto simp: lf_def)
  have close: "split_crlf (''Connection: close'' @ crlf @ crlf) = [''Connection: close'', [], []]"
    by (simp add: cr_def lf_def)
  have "split_crlf (push_lines (tl (split_crlf header)) @ ''Connection: close'' @ crlf @ crlf) = ?lines @ [''Connection: close'', [], []]"
    unfolding push_lines_filter close [symmetric] by (rule split_crlf_join) (rule lines)
  then show ?thesis unfolding path(1) split_crlf_append [OF first] by (intro exI [of _ path] arg_cong2 [where f = Cons] refl)
qed

lemma hop_header_lines:
  "(\<lambda>l. \<not> hop_header l) = (\<lambda>l. header_line ''Proxy-Authorization'' l = None \<and> header_line ''Proxy-Connection'' l = None \<and>
     header_line ''Connection'' l = None)"
  by (auto simp: hop_header_def header_line_def fun_eq_iff split: option.splits)

lemma request_parts_no_lf: "w \<in> set (request_parts header) \<Longrightarrow> lf \<notin> set w"
  by (simp add: request_parts_def split_whitespace_no_lf)

text \<open>
  C13: A request that the proxy passes on in plain text carries its header lines unchanged and in order,
  without those of the connection to the proxy: the credentials of the sandbox
  (\<open>Proxy-Authorization\<close>), \<open>Proxy-Connection\<close> and \<open>Connection\<close>, in any case of letters, are dropped,
  and the one \<open>Connection\<close> line that is added closes it.
\<close>

theorem proxy_credentials_stay_local:
  assumes "forward_request header body = Inr (Plain upstream rewritten body')"
  shows "\<exists>request_line. split_crlf rewritten = request_line #
      filter (\<lambda>l. header_line ''Proxy-Authorization'' l = None \<and> header_line ''Proxy-Connection'' l = None \<and>
                   header_line ''Connection'' l = None)
        (takeWhile (\<lambda>l. l \<noteq> []) (tl (split_crlf header))) @ [''Connection: close'', [], []] \<and>
    body' = body"
proof -
  obtain verb target version rest where parts: "request_parts header = verb # target # version # rest"
    "rewrite_plain_http_request verb target version header = Inr (upstream, rewritten)" "body' = body"
    using assms by (auto simp: forward_request_def result_simps split: list.splits if_splits)
  have "lf \<notin> set verb" "lf \<notin> set target" "lf \<notin> set version"
    using request_parts_no_lf [of _ header] parts(1) by simp_all
  from rewrite_lines [OF parts(2) this] parts(3) show ?thesis unfolding hop_header_lines by auto
qed

section \<open>What is recorded\<close>








text \<open>Behind a closing bracket the two differ: the event names the address in the brackets.\<close>

lemma text_behind_a_bracket_is_not_audited:
  "forward_request ''CONNECT [10.0.0.1]evil.example:443 H'' [] = Inr (Tunnel ''[10.0.0.1]evil.example:443'' []) \<and>
   rm_host (proxy_request_metadata ''CONNECT [10.0.0.1]evil.example:443 H'') = ''10.0.0.1''"
  by code_simp

lemma host_without_port_subset: "set (host_without_port s) \<subseteq> set (without_userinfo s)"
  by (auto simp: host_without_port_def Let_def strip_prefix_Some_iff split_once_Some rsplit_once_Some split: option.splits)

lemma path_without_query: "CHR ''?'' \<notin> set (path_without_query s)"
  by (auto simp: path_without_query_def split_once_Some split_once_None split: option.splits)

text \<open>
  What is recorded of a request, forwarded or not, holds neither its query nor the user of its
  address: the path of the event has no \<open>?\<close> and the host has no \<open>@\<close>, whatever the request is.
\<close>

theorem proxy_events_hold_no_query_or_user:
  "\<exists>host path. json_index (proxy_request_event now header duration result) ''host'' = JStr host \<and>
     json_index (proxy_request_event now header duration result) ''path'' = JStr path \<and>
     CHR ''@'' \<notin> set host \<and> CHR ''?'' \<notin> set path"
proof -
  have host: "CHR ''@'' \<notin> set (host_without_port s)" for s
    using host_without_port_subset without_userinfo by blast
  have target: "CHR ''?'' \<notin> set (snd (split_proxy_target_for_audit s))" for s
    using path_without_query by (auto simp: split_proxy_target_for_audit_def split: option.splits)
  have "CHR ''?'' \<notin> set (rm_path (proxy_request_metadata header)) \<and> CHR ''@'' \<notin> set (rm_host (proxy_request_metadata header))"
    using host path_without_query target
    by (auto simp: proxy_request_metadata_def Let_def split: option.splits prod.splits) (metis snd_conv)+
  then show ?thesis
    by (simp add: proxy_request_event_def Let_def json_index_def json_object_def json_set_def split: sum.splits)
qed

text \<open>
  The host may still hold a piece of the query: an address whose first slash stands in its query is cut
  there, and what precedes the slash counts as the host.
\<close>

lemma a_query_can_reach_the_host:
  "rm_host (proxy_request_metadata ''G http://a?k=s/x H'') = ''a?k=s''"
  by code_simp

section \<open>Who is served\<close>

lemma find_map_Some: "find_map f xs = Some y \<Longrightarrow> \<exists>x \<in> set xs. f x = Some y"
  by (induction xs) (auto split: option.splits)

lemma find_map_None: "find_map f xs = None \<longleftrightarrow> (\<forall>x \<in> set xs. f x = None)"
  by (induction xs) (auto split: option.splits)

text \<open>A token file that names a running process and a path for the events.\<close>

definition live_file :: "proxy_env \<Rightarrow> token_file \<Rightarrow> string \<Rightarrow> bool" where
  "live_file env file event_path \<longleftrightarrow>
     (\<exists>v pid. file = TokenFile (Some v) \<and> Option.bind (json_get v ''pid'') as_u64 = Some pid \<and> unat pid < 2 ^ 32 \<and>
        process_is_running env (of_nat (unat pid)) \<and> Option.bind (json_get v ''event_path'') as_str = Some event_path)"

lemma registered_live:
  assumes "managed_proxy_registered_event_path env io token s = (Inr (Some event_path), s')"
  shows "live_file env (ps_files s (managed_proxy_token_path env token)) event_path"
  using assms
  by (auto simp: managed_proxy_registered_event_path_def live_file_def not_le split: if_splits token_file.splits option.splits)

definition authorizes :: "proxy_env \<Rightarrow> proxy_state \<Rightarrow> string \<Rightarrow> string \<Rightarrow> bool" where
  "authorizes env s actual event_path \<longleftrightarrow>
     (\<exists>token. (token, event_path) \<in> set (ps_tokens s) \<and> actual = proxy_basic_auth_value env token) \<or>
     (\<exists>token. presented_token env actual = Some token \<and>
        live_file env (ps_files s (managed_proxy_token_path env token)) event_path)"

lemma authorized_means:
  assumes "authorized_proxy_request env io header s = (Some event_path, s')"
  shows "\<exists>actual. header_value header ''Proxy-Authorization'' = Some actual \<and> authorizes env s actual event_path"
proof -
  obtain actual where actual: "header_value header ''Proxy-Authorization'' = Some actual"
    using assms by (auto simp: authorized_proxy_request_def split: option.splits)
  have "authorizes env s actual event_path"
    using assms actual registered_live
    by (auto simp: authorized_proxy_request_def authorizes_def dest!: find_map_Some
        split: option.splits prod.splits sum.splits if_splits)
  with actual show ?thesis by blast
qed

lemma handle_client_forwards:
  assumes "handle_client env io written render now duration transfer reads s = Some (Forwarded event_path forward event, s')"
  obtains head body u where "read_header reads [] = Some (HeaderRead head body)"
    "authorized_proxy_request env io (from_utf8_lossy head) s = (Some event_path, u)"
    "forward = forward_request (from_utf8_lossy head) body"
    "s' = append_proxy_event render written event_path event u"
  using assms
  by (auto simp: handle_client_def Let_def split: option.splits header_end.splits if_splits prod.splits)

text \<open>
  C9: The proxy forwards a request only if it presents the credentials of a token: one of the table of
  the process, or one whose file names a process that runs. Its event goes to the file of that token.
  A request without them ends before any address is contacted.
\<close>

theorem only_authorized_requests_are_forwarded:
  assumes "handle_client env io written render now duration transfer reads s = Some (Forwarded event_path forward event, s')"
  shows "\<exists>head body actual. read_header reads [] = Some (HeaderRead head body) \<and>
    forward = forward_request (from_utf8_lossy head) body \<and>
    header_value (from_utf8_lossy head) ''Proxy-Authorization'' = Some actual \<and> authorizes env s actual event_path"
proof -
  from handle_client_forwards [OF assms] obtain head body u where
    "read_header reads [] = Some (HeaderRead head body)" "forward = forward_request (from_utf8_lossy head) body"
    "authorized_proxy_request env io (from_utf8_lossy head) s = (Some event_path, u)" .
  with authorized_means [OF this(3)] show ?thesis by blast
qed

lemma char_of_byte_of [simp]: "char_of (byte_of c) = c"
  by (simp add: byte_of_def)

lemma strip_prefix_append: "strip_prefix (p @ s) p = Some s"
  by (simp add: strip_prefix_Some_iff)

lemma from_utf8_ascii: "list_all (\<lambda>c. byte_of c < 128) s \<Longrightarrow> from_utf8 (map (of_nat \<circ> byte_of) s) = Some s"
proof (induction s)
  case (Cons c s)
  have byte: "unat (of_nat (byte_of c) :: byte) = byte_of c"
    using Cons.prems by (simp add: unat_of_nat take_bit_nat_eq_self_iff)
  have "utf8_unit (map (of_nat \<circ> byte_of) (c # s)) = (True, 1)"
    using Cons.prems byte by (simp add: utf8_unit_def Let_def)
  with Cons byte show ?case by (subst from_utf8.simps) (simp add: comp_def)
qed (simp add: from_utf8.simps)

lemma registered_iff:
  "(case fst (managed_proxy_registered_event_path env io token s) of Inr path \<Rightarrow> path | Inl _ \<Rightarrow> None) = Some event_path \<longleftrightarrow>
     px_dirs env \<and> live_file env (ps_files s (managed_proxy_token_path env token)) event_path"
  by (auto simp: managed_proxy_registered_event_path_def live_file_def not_le split: token_file.splits option.splits)

text \<open>
  C21: Once the handle of an execution is dropped, its token is in no table, and a request that presents
  it is served only if the removal of its file failed and that file still names a running process: the
  code ignores a failed removal. Where the file was removed, every request with the token is refused.
  Base64 decodes what it encodes; tokens are plain ASCII; a handle that is no owner has no entry in the
  table.
\<close>

theorem dropped_tokens_are_refused:
  assumes "\<forall>text. px_decode env (px_encode env text) = Some (map (of_nat \<circ> byte_of) text)"
    and "list_all (\<lambda>c. byte_of c < 128) (ph_token handle)"
    and "ph_owner handle \<or> ph_token handle \<notin> fst ` set (ps_tokens s)"
    and "header_value header ''Proxy-Authorization'' = Some (proxy_basic_auth_value env (ph_token handle))"
  shows "fst (authorized_proxy_request env io header (drop_handle env token_removed events_removed handle s)) = Some event_path \<longleftrightarrow>
    \<not> token_removed \<and> px_dirs env \<and> live_file env (ps_files s (managed_proxy_token_path env (ph_token handle))) event_path"
proof -
  let ?s = "drop_handle env token_removed events_removed handle s" and ?actual = "proxy_basic_auth_value env (ph_token handle)"
  have ascii: "from_utf8 (map (of_nat \<circ> byte_of) (''runseal:'' @ t)) = Some (''runseal:'' @ t)"
    if "list_all (\<lambda>c. byte_of c < 128) t" for t
    by (rule from_utf8_ascii) (use that in \<open>simp add: byte_of_def\<close>)
  have presented: "presented_token env ?actual = Some (ph_token handle)"
    by (simp only: presented_token_def proxy_basic_auth_value_def strip_prefix_append Option.bind.simps assms(1) [rule_format]
        ascii [OF assms(2)])
  have same: "t = ph_token handle" if "?actual = proxy_basic_auth_value env t" for t
  proof -
    have "px_encode env (''runseal:'' @ t) = px_encode env (''runseal:'' @ ph_token handle)"
      using that by (simp add: proxy_basic_auth_value_def)
    then have "map (of_nat \<circ> byte_of) (''runseal:'' @ t) = (map (of_nat \<circ> byte_of) (''runseal:'' @ ph_token handle) :: byte list)"
      using assms(1) by (metis option.inject)
    moreover have "inj (of_nat \<circ> byte_of :: char \<Rightarrow> byte)"
      by (rule injI) (simp add: byte_of_def word_of_nat_eq_iff take_bit_nat_eq_self)
    ultimately show ?thesis by (metis (no_types, lifting) inj_map_eq_map same_append_eq)
  qed
  have gone: "ph_token handle \<notin> fst ` set (ps_tokens ?s)"
    using assms(3) by (auto simp: drop_handle_def remove_token_def unregister_managed_proxy_token_def Let_def)
  have table: "find_map (\<lambda>(token, event_path). if ?actual = proxy_basic_auth_value env token then Some event_path else None) (ps_tokens ?s) = None"
    using gone same by (force simp: find_map_None)
  have "fst (authorized_proxy_request env io header ?s) =
      (case fst (managed_proxy_registered_event_path env io (ph_token handle) ?s) of Inr path \<Rightarrow> path | Inl _ \<Rightarrow> None)"
    using assms(4) table presented by (auto simp: authorized_proxy_request_def split: prod.splits sum.splits)
  moreover have "ps_files ?s (managed_proxy_token_path env (ph_token handle)) =
      (if px_dirs env \<and> token_removed then NoTokenFile else ps_files s (managed_proxy_token_path env (ph_token handle)))"
    by (simp add: drop_handle_def remove_token_def unregister_managed_proxy_token_def Let_def)
  ultimately show ?thesis by (simp add: registered_iff) (auto simp: live_file_def)
qed

section \<open>The header of a client\<close>

lemma read_header_ends:
  "MAX_HEADER_BYTES < length buffer + length reads \<Longrightarrow> reads \<noteq> [] \<Longrightarrow> \<exists>ended. read_header reads buffer = Some ended"
proof (induction reads arbitrary: buffer)
  case (Cons r reads)
  show ?case
  proof (cases r)
    case (ReadBytes chunk)
    show ?thesis
    proof (cases "chunk = [] \<or> MAX_HEADER_BYTES < length (buffer @ chunk) \<or> find_header_end (buffer @ chunk) \<noteq> None")
      case False
      then have "1 \<le> length chunk" "length buffer + length chunk \<le> MAX_HEADER_BYTES" by (cases chunk, auto)
      then have "MAX_HEADER_BYTES < length (buffer @ chunk) + length reads" "0 < length reads"
        using Cons.prems(1) unfolding length_append length_Cons by linarith+
      then have "MAX_HEADER_BYTES < length (buffer @ chunk) + length reads" "reads \<noteq> []" by auto
      from Cons.IH [OF this] show ?thesis using False ReadBytes by (auto simp: Let_def split: option.splits)
    qed (use ReadBytes in \<open>auto simp: Let_def split: option.splits\<close>)
  qed simp
qed simp

lemma read_header_bounded:
  "read_header reads buffer = Some (HeaderRead head body) \<Longrightarrow> length head + length body \<le> MAX_HEADER_BYTES"
  by (induction reads buffer rule: read_header.induct) (auto simp: Let_def split: if_splits option.splits)

text \<open>
  A client cannot hold the proxy with a header that never ends: whatever it sends, after at most
  \<open>MAX_HEADER_BYTES\<close> reads and one the request is served or refused, and what was kept of it is no
  longer than \<open>MAX_HEADER_BYTES\<close>.
\<close>

theorem proxy_headers_end:
  assumes "MAX_HEADER_BYTES < length reads"
  shows "\<exists>ended s'. handle_client env io written render now duration transfer reads s = Some (ended, s') \<and>
    (\<forall>head body. read_header reads [] = Some (HeaderRead head body) \<longrightarrow> length head + length body \<le> MAX_HEADER_BYTES)"
proof -
  obtain ended where "read_header reads [] = Some ended" using read_header_ends [of "[]" reads] assms by (cases reads) auto
  moreover from this have "\<exists>ended s'. handle_client env io written render now duration transfer reads s = Some (ended, s')"
    by (cases ended) (auto simp: handle_client_def Let_def)
  ultimately show ?thesis using read_header_bounded by auto
qed

section \<open>Events\<close>

lemma split_on_append: "split_on p (s @ [c]) = (if p c then split_on p s @ [[]] else butlast (split_on p s) @ [last (split_on p s) @ [c]])"
proof (induction s)
  case (Cons x s)
  obtain w ws where ws: "split_on p s = w # ws" by (cases "split_on p s") auto
  show ?case using Cons ws by (auto split: list.splits)
qed simp

lemma split_on_line: "lf \<notin> set l \<Longrightarrow> split_on (\<lambda>c. c = lf) (l @ lf # s) = l # split_on (\<lambda>c. c = lf) s"
  by (induction l) (auto split: list.splits)

lemma text_lines_concat:
  assumes "\<And>l. l \<in> set lines \<Longrightarrow> lf \<notin> set l \<and> (l = [] \<or> last l \<noteq> cr)"
  shows "text_lines (concat (map (\<lambda>l. l @ [lf]) lines)) = lines"
proof -
  have "split_on (\<lambda>c. c = lf) (concat (map (\<lambda>l. l @ [lf]) lines)) = lines @ [[]]"
    using assms by (induction lines) (auto simp: split_on_line)
  moreover have "map strip_cr lines = lines"
    by (rule map_idI) (use assms in \<open>auto simp: strip_cr_def\<close>)
  ultimately show ?thesis by (simp add: text_lines_def)
qed

text \<open>An append that reaches the file in full.\<close>

definition append_whole :: "(json \<Rightarrow> string) \<Rightarrow> string \<Rightarrow> json \<Rightarrow> proxy_state \<Rightarrow> proxy_state" where
  "append_whole render file_path event =
     append_proxy_event render (Some (Suc (length (render event)))) file_path event"

lemma append_events_to:
  "ps_events s file_path = Some old \<Longrightarrow>
    ps_events (fold (append_whole render file_path) events s) file_path = Some (old @ concat (map (\<lambda>e. render e @ [lf]) events))"
  by (induction events arbitrary: s old) (auto simp: append_whole_def append_proxy_event_def)

lemma append_events:
  assumes "ps_events s file_path = None \<or> ps_events s file_path = Some []" "events \<noteq> []"
  shows "ps_events (fold (append_whole render file_path) events s) file_path = Some (concat (map (\<lambda>e. render e @ [lf]) events))"
proof -
  obtain e es where events: "events = e # es" using assms(2) by (cases events) auto
  have "ps_events (append_whole render file_path e s) file_path = Some (render e @ [lf])"
    using assms(1) by (auto simp: append_whole_def append_proxy_event_def)
  from append_events_to [OF this, of render es] show ?thesis by (simp add: events)
qed

text \<open>
  The events of an execution that were appended one after the other are drained complete and in
  order, and leave the file empty, given that every append reached the file in full and that the text of an event is one line that reads back as the
  event.
\<close>

theorem drained_events_are_those_appended:
  assumes "\<forall>e \<in> set events. parse (render e) = Some e \<and> lf \<notin> set (render e) \<and> (render e = [] \<or> last (render e) \<noteq> cr)"
    and "ps_events s file_path = None \<or> ps_events s file_path = Some []" "events \<noteq> []"
  shows "\<exists>s'. drain_proxy_events parse True True file_path (fold (append_whole render file_path) events s) = (events, s') \<and>
    ps_events s' file_path = Some []"
proof -
  let ?text = "concat (map (\<lambda>e. render e @ [lf]) events)"
  have lines: "text_lines ?text = map render events"
    using text_lines_concat [of "map render events"] assms(1) by (simp add: comp_def image_iff) blast
  obtain es e where "events = es @ [e]" using assms(3) by (metis rev_exhaust)
  then have "?text \<noteq> []" "last ?text = lf" by simp_all
  moreover have "map parse (map render events) = map Some events" using assms(1) by auto
  ultimately show ?thesis
    using append_events [OF assms(2,3), of render] lines
    by (simp add: drain_proxy_events_def list_ex_iff comp_def Let_def map_idI)
qed

section \<open>Samples\<close>

definition sample_proxy_env :: proxy_env where
  "sample_proxy_env =
     \<lparr>px_encode = (\<lambda>s. s), px_decode = (\<lambda>s. Some (map (of_nat \<circ> byte_of) s)),
      px_join = (\<lambda>base p. if starts_with p ''/'' then p else base @ ''/'' @ p), px_dir = ''/s'', px_dirs = True, px_pid = 7,
      px_probe = (\<lambda>_. False)\<rparr>"

definition sample_proxy :: proxy_state where
  "sample_proxy = \<lparr>ps_tokens = [(''t'', ''e'')], ps_files = (\<lambda>_. NoTokenFile), ps_events = (\<lambda>_. None)\<rparr>"

definition sample_header :: string where
  "sample_header = ''G http://u@a:8/?q H'' @ crlf @ ''A: x'' @ crlf @
     ''proxy-authorization: Basic runseal:t'' @ crlf @ crlf"

lemma sample_forward: "\<exists>rewritten. forward_request sample_header [] = Inr (Plain ''a:8'' rewritten [])"
proof -
  have "case forward_request sample_header [] of Inr (Plain u _ b) \<Rightarrow> u = ''a:8'' \<and> b = [] | _ \<Rightarrow> False" by code_simp
  then show ?thesis by (auto split: sum.splits forward.splits)
qed

theorem proxy_credentials_stay_local_witness:
  "\<exists>rewritten request_line. forward_request sample_header [] = Inr (Plain ''a:8'' rewritten []) \<and>
     split_crlf rewritten = [request_line, ''A: x'', ''Connection: close'', [], []]"
proof -
  have kept: "filter (\<lambda>l. header_line ''Proxy-Authorization'' l = None \<and> header_line ''Proxy-Connection'' l = None \<and>
      header_line ''Connection'' l = None) (takeWhile (\<lambda>l. l \<noteq> []) (tl (split_crlf sample_header))) = [''A: x'']" by code_simp
  obtain rewritten where f: "forward_request sample_header [] = Inr (Plain ''a:8'' rewritten [])" using sample_forward by blast
  from proxy_credentials_stay_local [OF f] f show ?thesis unfolding kept by auto
qed


definition sample_registered :: proxy_state where
  "sample_registered = snd (register_owned sample_proxy_env True ''t'' sample_proxy)"

theorem dropped_tokens_are_refused_witness:
  "fst (authorized_proxy_request sample_proxy_env True sample_header
     (drop_handle sample_proxy_env True True \<lparr>ph_owner = True, ph_token = ''t'', ph_event_path = ''e''\<rparr> sample_registered)) = None \<and>
   (\<exists>event_path. fst (authorized_proxy_request sample_proxy_env True sample_header
     (drop_handle sample_proxy_env False True \<lparr>ph_owner = True, ph_token = ''t'', ph_event_path = ''e''\<rparr> sample_registered)) = Some event_path)"
proof -
  let ?h = "\<lparr>ph_owner = True, ph_token = ''t'', ph_event_path = ''e''\<rparr>"
  have auth: "header_value sample_header ''Proxy-Authorization'' = Some (proxy_basic_auth_value sample_proxy_env (ph_token ?h))"
    by code_simp
  have decode: "\<forall>text. px_decode sample_proxy_env (px_encode sample_proxy_env text) = Some (map (of_nat \<circ> byte_of) text)"
    and ascii: "list_all (\<lambda>c. byte_of c < 128) (ph_token ?h)" and dirs: "px_dirs sample_proxy_env" and owner: "ph_owner ?h"
    by (simp_all add: sample_proxy_env_def byte_of_def)
  note served = dropped_tokens_are_refused [OF decode ascii disjI1 [OF owner] auth, of True _ _ sample_registered]
  let ?v = "json_object [(''pid'', json_nat (unat (px_pid sample_proxy_env))),
    (''event_path'', JStr (managed_proxy_event_path sample_proxy_env ''t''))]"
  have written: "ps_files sample_registered (managed_proxy_token_path sample_proxy_env ''t'') = TokenFile (Some ?v)"
    using dirs by (simp add: sample_registered_def register_owned_def register_managed_proxy_token_def Let_def)
  have fields: "Option.bind (json_get ?v ''pid'') as_u64 = Some 7"
    "Option.bind (json_get ?v ''event_path'') as_str = Some (managed_proxy_event_path sample_proxy_env ''t'')"
    by code_simp+
  have "process_is_running sample_proxy_env (of_nat (unat (7 :: 64 word)))"
    by (simp add: process_is_running_def sample_proxy_env_def)
  then have live: "live_file sample_proxy_env (ps_files sample_registered (managed_proxy_token_path sample_proxy_env ''t''))
      (managed_proxy_event_path sample_proxy_env ''t'')"
    unfolding live_file_def written using fields by (intro exI [of _ ?v] exI [of _ 7]) simp
  have removed: "fst (authorized_proxy_request sample_proxy_env True sample_header (drop_handle sample_proxy_env True True ?h sample_registered)) \<noteq> Some path" for path
    using served [of True True path] by simp
  have kept: "fst (authorized_proxy_request sample_proxy_env True sample_header (drop_handle sample_proxy_env False True ?h sample_registered))
      = Some (managed_proxy_event_path sample_proxy_env ''t'')"
    using served [of False True "managed_proxy_event_path sample_proxy_env ''t''"] live dirs by simp
  show ?thesis using removed kept by (metis option.exhaust)
qed

theorem proxy_headers_end_witness:
  "\<exists>ended s'. handle_client sample_proxy_env True None (\<lambda>_. []) [] 0 (\<lambda>_. Inr ()) (replicate 65537 (ReadBytes [65])) sample_proxy = Some (ended, s')"
  using proxy_headers_end [of "replicate 65537 (ReadBytes [65])" sample_proxy_env True None "\<lambda>_. []" "[]" 0 "\<lambda>_. Inr ()" sample_proxy]
  by (auto simp: MAX_HEADER_BYTES_def simp del: replicate.simps)

theorem drained_events_are_those_appended_witness:
  "\<exists>s'. drain_proxy_events (\<lambda>t. if t = ''true'' then Some (JBool True) else if t = ''null'' then Some JNull else None) True True ''e''
      (fold (append_whole (\<lambda>v. if v = JNull then ''null'' else ''true'') ''e'') [JNull, JBool True] sample_proxy)
      = ([JNull, JBool True], s')"
  using drained_events_are_those_appended [of "[JNull, JBool True]"
      "\<lambda>t. if t = ''true'' then Some (JBool True) else if t = ''null'' then Some JNull else None"
      "\<lambda>v. if v = JNull then ''null'' else ''true''" sample_proxy "''e''"]
  by (auto simp: sample_proxy_def lf_def cr_def)

text \<open>A client whose request arrives in two reads.\<close>

definition sample_reads :: "client_read list" where
  "sample_reads = [ReadBytes (map (of_nat \<circ> byte_of) (take 20 sample_header)), ReadBytes (map (of_nat \<circ> byte_of) (drop 20 sample_header))]"

lemma sample_read: "read_header sample_reads [] = Some (HeaderRead (map (of_nat \<circ> byte_of) sample_header) [])"
  by code_simp

theorem only_authorized_requests_are_forwarded_witness:
  "\<exists>forward event s' actual. handle_client sample_proxy_env True None (\<lambda>_. []) ''now'' 0 (\<lambda>_. Inr ()) sample_reads sample_proxy =
      Some (Forwarded ''e'' forward event, s') \<and> authorizes sample_proxy_env sample_proxy actual ''e''"
proof -
  have lossy: "from_utf8_lossy (map (of_nat \<circ> byte_of) sample_header) = sample_header" by code_simp
  have auth: "authorized_proxy_request sample_proxy_env True sample_header sample_proxy = (Some ''e'', sample_proxy)"
  proof -
    have "header_value sample_header ''Proxy-Authorization'' = Some (proxy_basic_auth_value sample_proxy_env ''t'')" by code_simp
    then show ?thesis by (simp add: authorized_proxy_request_def sample_proxy_def)
  qed
  have "\<not> is_managed_proxy_health_request sample_header" by code_simp
  then obtain forward event s' where served: "handle_client sample_proxy_env True None (\<lambda>_. []) ''now'' 0 (\<lambda>_. Inr ()) sample_reads sample_proxy =
      Some (Forwarded ''e'' forward event, s')"
    by (simp add: handle_client_def sample_read lossy auth Let_def)
  from served only_authorized_requests_are_forwarded [OF served] show ?thesis by blast
qed

text \<open>
  A token is not checked before it becomes a path: with a join that takes an absolute path as it is,
  a file anywhere on the host authorizes a token that was never issued, and names the file that the
  proxy appends to.
\<close>

lemma a_foreign_file_can_authorize:
  "managed_proxy_registered_event_path sample_proxy_env True ''/w/x''
     (sample_proxy\<lparr>ps_files := (\<lambda>_. NoTokenFile)(''/w/x.json'' := TokenFile (Some
        (json_object [(''pid'', json_nat 7), (''event_path'', JStr ''/etc/any'')])))\<rparr>)
   = (Inr (Some ''/etc/any''),
      sample_proxy\<lparr>ps_files := (\<lambda>_. NoTokenFile)(''/w/x.json'' := TokenFile (Some
        (json_object [(''pid'', json_nat 7), (''event_path'', JStr ''/etc/any'')])))\<rparr>)"
  by (simp add: managed_proxy_registered_event_path_def managed_proxy_token_path_def sample_proxy_env_def starts_with_def
      process_is_running_def json_nat_def as_u64_def)

end
