(* ===== verification/Guardian_Wire.thy ===== *)
theory Guardian_Wire
  imports Execution_Backend
begin

text \<open>
  The private protocol between the controller of an execution on macOS and its guardian, from
  \<open>src/macos/wire.rs\<close>: frames with a length of four bytes in front, most significant first, and limits
  on frames and on input in both directions. The serializer is a parameter; a writer takes all it is
  given, a reader gives the bytes that were sent and then the end of the stream.
\<close>

section \<open>Frames\<close>

definition MAX_FRAME_BYTES :: nat where
  "MAX_FRAME_BYTES = 1024 * 1024"

definition MAX_INPUT_BYTES :: nat where
  "MAX_INPUT_BYTES = 64 * 1024"

datatype wire_io = WirePipe | WirePipeControl "16 word" bool | WirePty "16 word" "16 word"

definition wire_io_from :: "execution_io \<Rightarrow> wire_io" where
  "wire_io_from io =
     (case io of
        Pipe \<Rightarrow> WirePipe
      | PipeControl child_fd byte_pipe \<Rightarrow> WirePipeControl child_fd byte_pipe
      | Pty rows cols \<Rightarrow> WirePty rows cols)"

datatype wire_stdin = WireEmpty | WireBytes "byte list" | WireStream

record launch_spec =
  ls_argv :: "string list"
  ls_cwd :: string
  ls_env :: "(string \<times> string) list"
  ls_base_profile :: string
  ls_io :: wire_io
  ls_stdin :: wire_stdin
  ls_timeout_ms :: "64 word option"

datatype wire_input = InputStdin | InputControl

datatype controller_frame =
    InputFrame wire_input "byte list"
  | CloseInput wire_input
  | WireResize "16 word" "16 word"
  | WireInterrupt "64 word"
  | WireCancel "64 word option"

datatype guardian_frame =
    GuardianStarted string "32 word"
  | GuardianSignal "64 word" "32 word" "32 word option"
  | InputAccepted wire_input "32 word"
  | InputClosed wire_input
  | GuardianOutput output_stream "byte list"
  | Done "32 word option" "32 word option" bool bool bool "64 word" "64 word"

datatype wire_error = InvalidFrame | FrameTooLarge | FrameLength | FrameRange | InputTooLarge | UnexpectedEof

definition validate_input :: "byte list \<Rightarrow> (wire_error, unit) result" where
  "validate_input data = reject_if (MAX_INPUT_BYTES < length data) InputTooLarge"

fun validate_frame :: "controller_frame \<Rightarrow> (wire_error, unit) result" where
  "validate_frame (InputFrame _ data) = validate_input data"
| "validate_frame _ = Inr ()"

section \<open>Writing and reading\<close>

definition to_be_bytes :: "nat \<Rightarrow> byte list" where
  "to_be_bytes n = map of_nat [n div 2 ^ 24 mod 256, n div 2 ^ 16 mod 256, n div 2 ^ 8 mod 256, n mod 256]"

fun from_be_bytes :: "byte list \<Rightarrow> nat" where
  "from_be_bytes bs = foldl (\<lambda>n b. n * 256 + unat b) 0 bs"

text \<open>The bytes that reach the writer.\<close>

definition write_wire_frame :: "('a \<Rightarrow> byte list option) \<Rightarrow> 'a \<Rightarrow> (wire_error, byte list) result" where
  "write_wire_frame to_vec frame =
     rbind (ok_or (to_vec frame) InvalidFrame) (\<lambda>payload.
     rbind (reject_if (MAX_FRAME_BYTES < length payload) FrameTooLarge) (\<lambda>_.
     rbind (reject_if (2 ^ 32 \<le> length payload) FrameLength) (\<lambda>_.
     Inr (to_be_bytes (length payload) @ payload))))"

definition write_controller_frame ::
  "(controller_frame \<Rightarrow> byte list option) \<Rightarrow> controller_frame \<Rightarrow> (wire_error, byte list) result" where
  "write_controller_frame to_vec frame = rbind (validate_frame frame) (\<lambda>_. write_wire_frame to_vec frame)"

definition read_exact :: "nat \<Rightarrow> byte list \<Rightarrow> (wire_error, byte list \<times> byte list) result" where
  "read_exact n stream = (if length stream < n then Inl UnexpectedEof else Inr (take n stream, drop n stream))"

definition read_wire_frame ::
  "(byte list \<Rightarrow> 'a option) \<Rightarrow> byte list \<Rightarrow> (wire_error, 'a \<times> byte list) result" where
  "read_wire_frame from_slice stream =
     rbind (read_exact 4 stream) (\<lambda>(length_bytes, stream).
     let n = from_be_bytes length_bytes in
     rbind (reject_if (n = 0 \<or> MAX_FRAME_BYTES < n) FrameRange) (\<lambda>_.
     rbind (read_exact n stream) (\<lambda>(payload, stream).
     rbind (ok_or (from_slice payload) InvalidFrame) (\<lambda>frame. Inr (frame, stream)))))"

definition read_controller_frame ::
  "(byte list \<Rightarrow> controller_frame option) \<Rightarrow> byte list \<Rightarrow> (wire_error, controller_frame \<times> byte list) result" where
  "read_controller_frame from_slice stream =
     rbind (read_wire_frame from_slice stream) (\<lambda>(frame, stream). rbind (validate_frame frame) (\<lambda>_. Inr (frame, stream)))"

text \<open>A conversation in one direction.\<close>

fun write_frames :: "(controller_frame \<Rightarrow> byte list option) \<Rightarrow> controller_frame list \<Rightarrow> (wire_error, byte list) result" where
  "write_frames to_vec [] = Inr []"
| "write_frames to_vec (frame # frames) =
     rbind (write_controller_frame to_vec frame) (\<lambda>bytes. rbind (write_frames to_vec frames) (\<lambda>rest. Inr (bytes @ rest)))"

fun read_frames ::
  "(byte list \<Rightarrow> controller_frame option) \<Rightarrow> nat \<Rightarrow> byte list \<Rightarrow> (wire_error, controller_frame list \<times> byte list) result" where
  "read_frames from_slice 0 stream = Inr ([], stream)"
| "read_frames from_slice (Suc n) stream =
     rbind (read_controller_frame from_slice stream) (\<lambda>(frame, stream).
     rbind (read_frames from_slice n stream) (\<lambda>(frames, stream). Inr (frame # frames, stream)))"

section \<open>What holds\<close>

lemma be_bytes: "n < 2 ^ 32 \<Longrightarrow> from_be_bytes (to_be_bytes n) = n" "length (to_be_bytes n) = 4"
proof -
  have byte: "unat (of_nat (k mod 256) :: byte) = k mod 256" for k :: nat
    by (simp add: unat_of_nat take_bit_nat_eq_self_iff)
  have small: "n div 65536 div 256 < 256" if "n < 2 ^ 32" using that by (simp add: div_mult2_eq [symmetric] div_less_iff_less_mult)
  have steps: "n div 16777216 = n div 65536 div 256" "n div 65536 = n div 256 div 256" by (simp_all add: div_mult2_eq [symmetric])
  have join: "k div 256 * 256 + k mod 256 = k" for k :: nat by simp
  show "from_be_bytes (to_be_bytes n) = n" if "n < 2 ^ 32"
  proof -
    have "from_be_bytes (to_be_bytes n) =
        ((n div 65536 div 256 mod 256 * 256 + n div 65536 mod 256) * 256 + n div 256 mod 256) * 256 + n mod 256"
      by (simp add: to_be_bytes_def byte steps(1))
    also have "\<dots> = n" using small [OF that] by (simp add: join steps(2) mod_less del: div_mult_mod_eq)
    finally show ?thesis .
  qed
qed (simp add: to_be_bytes_def)

lemma read_written:
  assumes "write_controller_frame to_vec frame = Inr bytes" "\<And>payload. to_vec frame = Some payload \<Longrightarrow> payload \<noteq> [] \<and> from_slice payload = Some frame"
  shows "read_controller_frame from_slice (bytes @ rest) = Inr (frame, rest)"
proof -
  obtain payload where payload: "to_vec frame = Some payload" "length payload \<le> MAX_FRAME_BYTES" "length payload < 2 ^ 32"
    "bytes = to_be_bytes (length payload) @ payload" "validate_frame frame = Inr ()"
    using assms(1) by (auto simp: write_controller_frame_def write_wire_frame_def result_simps)
  have "read_exact 4 (bytes @ rest) = Inr (to_be_bytes (length payload), payload @ rest)"
    using be_bytes(2) [of "length payload"] by (simp add: read_exact_def payload(4))
  moreover have "read_exact (length payload) (payload @ rest) = Inr (payload, rest)" by (simp add: read_exact_def)
  ultimately show ?thesis
    using assms(2) [OF payload(1)] payload be_bytes(1) [OF payload(3)]
    by (simp add: read_controller_frame_def read_wire_frame_def Let_def del: from_be_bytes.simps)
qed

text \<open>
  C31: What the controller writes the guardian reads: the frames of a conversation come out complete,
  in order and valid, and nothing of what follows is consumed, given that the serializer reads back
  what it wrote.
\<close>

theorem guardian_frames_round_trip:
  assumes "\<forall>frame \<in> set frames. \<forall>payload. to_vec frame = Some payload \<longrightarrow> payload \<noteq> [] \<and> from_slice payload = Some frame"
    and "write_frames to_vec frames = Inr bytes"
  shows "read_frames from_slice (length frames) (bytes @ rest) = Inr (frames, rest)"
  using assms
proof (induction frames arbitrary: bytes)
  case (Cons frame frames)
  then obtain first others where parts: "write_controller_frame to_vec frame = Inr first" "write_frames to_vec frames = Inr others"
    "bytes = first @ others" by (auto simp: result_simps)
  have "read_controller_frame from_slice (first @ others @ rest) = Inr (frame, others @ rest)"
    by (rule read_written [OF parts(1)]) (use Cons.prems(1) in auto)
  with Cons.IH [OF _ parts(2)] Cons.prems(1) parts(3) show ?case by simp
qed simp

text \<open>
  The limits hold at both ends: a frame that was written or read is no longer than the frame limit,
  and the input it carries no longer than the input limit, whatever the other side sends.
\<close>

theorem guardian_limits_hold:
  assumes "write_controller_frame to_vec sent = Inr bytes" "read_controller_frame from_slice stream = Inr (received, rest)"
  shows "length bytes \<le> 4 + MAX_FRAME_BYTES \<and> length stream \<le> length rest + 4 + MAX_FRAME_BYTES \<and>
    (\<forall>input data. InputFrame input data \<in> {sent, received} \<longrightarrow> length data \<le> MAX_INPUT_BYTES)"
proof -
  have "length bytes \<le> 4 + MAX_FRAME_BYTES" "validate_frame sent = Inr ()"
    using assms(1) be_bytes(2) by (auto simp: write_controller_frame_def write_wire_frame_def result_simps)
  moreover have "length stream \<le> length rest + 4 + MAX_FRAME_BYTES" "validate_frame received = Inr ()"
    using assms(2)
    by (auto simp: read_controller_frame_def read_wire_frame_def read_exact_def Let_def result_simps
        simp del: from_be_bytes.simps split: if_splits)
  ultimately show ?thesis by (auto simp: validate_input_def result_simps)
qed

definition sample_to_vec :: "controller_frame \<Rightarrow> byte list option" where
  "sample_to_vec frame = (case frame of InputFrame InputStdin data \<Rightarrow> Some (1 # data) | _ \<Rightarrow> None)"

definition sample_from_slice :: "byte list \<Rightarrow> controller_frame option" where
  "sample_from_slice bytes = (case bytes of b # data \<Rightarrow> if b = 1 then Some (InputFrame InputStdin data) else None | _ \<Rightarrow> None)"

lemmas sample_wire_simps = write_controller_frame_def write_wire_frame_def read_controller_frame_def read_wire_frame_def read_exact_def
  to_be_bytes_def sample_to_vec_def sample_from_slice_def validate_input_def MAX_FRAME_BYTES_def MAX_INPUT_BYTES_def

lemma sample_written: "write_frames sample_to_vec [InputFrame InputStdin [7], InputFrame InputStdin []] = Inr [0, 0, 0, 2, 1, 7, 0, 0, 0, 1, 1]"
  by (simp add: sample_wire_simps)

theorem guardian_frames_round_trip_witness:
  "read_frames sample_from_slice 2 [0, 0, 0, 2, 1, 7, 0, 0, 0, 1, 1, 9] =
     Inr ([InputFrame InputStdin [7], InputFrame InputStdin []], [9])"
  using guardian_frames_round_trip [OF _ sample_written, of sample_from_slice "[9]"]
  by (simp add: sample_to_vec_def sample_from_slice_def numeral_2_eq_2)

theorem guardian_limits_hold_witness:
  "write_controller_frame sample_to_vec (InputFrame InputStdin [7]) = Inr [0, 0, 0, 2, 1, 7] \<and>
   read_controller_frame sample_from_slice [0, 0, 0, 1, 1, 9] = Inr (InputFrame InputStdin [], [9]) \<and>
   length [0, 0, 0, 1, 1, 9 :: byte] \<le> length [9 :: byte] + 4 + MAX_FRAME_BYTES"
proof -
  have sent: "write_controller_frame sample_to_vec (InputFrame InputStdin [7]) = Inr [0, 0, 0, 2, 1, 7]" by (simp add: sample_wire_simps)
  have received: "read_controller_frame sample_from_slice [0, 0, 0, 1, 1, 9] = Inr (InputFrame InputStdin [], [9])" by (simp add: sample_wire_simps)
  from sent received guardian_limits_hold [OF sent received] show ?thesis by blast
qed

end
