(* ===== verification/Windows_Rules.thy ===== *)
theory Windows_Rules
  imports Policy_Normalization
begin

text \<open>
  How a policy becomes the file system and network plan of the Windows backend:
  \<open>src/windows/vendor_adapter.rs\<close> (the profile handed to the vendored sandbox) and
  \<open>src/windows/policy.rs\<close> (the rules, the roots of an execution, its environment). The check of an
  absolute path by the vendored crate is a parameter. The access lists and their transactions are
  compiled for the tests of the repository only and are not modelled.
\<close>

section \<open>The profile of the vendored sandbox\<close>

datatype vendor_access = VendorRead | VendorWrite | VendorDeny

record vendor_entry =
  ve_path :: string
  ve_access :: vendor_access

datatype vendor_network = VendorUnmanaged | VendorDisabled | VendorProxy

datatype sandbox_user_model = SingleSandboxUser

datatype vendor_token_mode = TokenReadOnly | TokenWritableRoots

datatype vendor_profile =
    ProfileDisabled
  | ProfileManaged "vendor_entry list" vendor_network sandbox_user_model

definition extend_entries :: "string list \<Rightarrow> vendor_access \<Rightarrow> vendor_entry list \<Rightarrow> vendor_entry list" where
  "extend_entries paths access entries = entries @ map (\<lambda>p. \<lparr>ve_path = p, ve_access = access\<rparr>) paths"

definition filesystem_entries :: "sandbox_policy \<Rightarrow> vendor_entry list" where
  "filesystem_entries policy =
     (let fs = pol_filesystem policy in
      extend_entries (fs_deny fs) VendorDeny
        (extend_entries (fs_write fs) VendorWrite
          (extend_entries (fs_read_only fs) VendorRead
            (extend_entries (fs_read fs) VendorRead []))))"

definition vendor_from_policy :: "sandbox_policy \<Rightarrow> vendor_profile" where
  "vendor_from_policy policy =
     (if allows_local_execution policy then ProfileDisabled
      else ProfileManaged (filesystem_entries policy)
             (case net_mode (pol_network policy) of
                Unmanaged \<Rightarrow> VendorUnmanaged | Disabled \<Rightarrow> VendorDisabled | Proxy \<Rightarrow> VendorProxy)
             SingleSandboxUser)"

fun token_mode_of :: "vendor_profile \<Rightarrow> vendor_token_mode option" where
  "token_mode_of ProfileDisabled = None"
| "token_mode_of (ProfileManaged entries _ _) =
     Some (if list_ex (\<lambda>e. ve_access e = VendorWrite) entries then TokenWritableRoots else TokenReadOnly)"

fun entries_with_access :: "vendor_profile \<Rightarrow> vendor_access \<Rightarrow> string list" where
  "entries_with_access ProfileDisabled access = []"
| "entries_with_access (ProfileManaged entries _ _) access =
     map ve_path (filter (\<lambda>e. ve_access e = access) entries)"

definition vendor_read_roots :: "vendor_profile \<Rightarrow> string list" where
  "vendor_read_roots p = entries_with_access p VendorRead"

definition vendor_write_roots :: "vendor_profile \<Rightarrow> string list" where
  "vendor_write_roots p = entries_with_access p VendorWrite"

definition vendor_deny_roots :: "vendor_profile \<Rightarrow> string list" where
  "vendor_deny_roots p = entries_with_access p VendorDeny"

fun vendor_network_policy :: "vendor_profile \<Rightarrow> vendor_network option" where
  "vendor_network_policy ProfileDisabled = None"
| "vendor_network_policy (ProfileManaged _ network _) = Some network"

fun vendor_user_model :: "vendor_profile \<Rightarrow> sandbox_user_model option" where
  "vendor_user_model ProfileDisabled = None"
| "vendor_user_model (ProfileManaged _ _ model) = Some model"

fun user_model_as_str :: "sandbox_user_model \<Rightarrow> string" where
  "user_model_as_str SingleSandboxUser = ''single-sandbox-user''"

fun local_account_name :: "sandbox_user_model \<Rightarrow> string" where
  "local_account_name SingleSandboxUser = ''RunSealSandbox''"

fun local_group_name :: "sandbox_user_model \<Rightarrow> string" where
  "local_group_name SingleSandboxUser = ''RunSealSandboxUsers''"

fun setup_identity_artifacts :: "sandbox_user_model \<Rightarrow> string" where
  "setup_identity_artifacts SingleSandboxUser = ''single-sandbox-user-artifacts''"

text \<open>
  The permission profile: a wildcard that is read is the root of the disk, every other entry an
  absolute path as the vendored crate checks it (\<open>absolute\<close> gives the checked path or its complaint).
\<close>

datatype codex_path = SpecialRoot | ConcretePath string

record codex_entry =
  ce_path :: codex_path
  ce_access :: vendor_access

datatype permission_profile = PermissionDisabled | PermissionManaged "codex_entry list" bool

definition codex_filesystem_entry ::
  "(string \<Rightarrow> (string, string) result) \<Rightarrow> vendor_entry \<Rightarrow> (string, codex_entry) result" where
  "codex_filesystem_entry absolute entry =
     (if ve_path entry = ''*'' \<and> ve_access entry = VendorRead
      then Inr \<lparr>ce_path = SpecialRoot, ce_access = VendorRead\<rparr>
      else rbind (map_err (\<lambda>err. ''invalid filesystem path '' @ ve_path entry @ '': '' @ err)
                    (absolute (ve_path entry)))
             (\<lambda>p. Inr \<lparr>ce_path = ConcretePath p, ce_access = ve_access entry\<rparr>))"

fun permission_profile_with_runtime_roots ::
  "(string \<Rightarrow> (string, string) result) \<Rightarrow> vendor_profile \<Rightarrow> string list \<Rightarrow> (string, permission_profile) result" where
  "permission_profile_with_runtime_roots absolute ProfileDisabled roots = Inr PermissionDisabled"
| "permission_profile_with_runtime_roots absolute (ProfileManaged entries network _) roots =
     rbind (collect (codex_filesystem_entry absolute) entries) (\<lambda>es.
     rbind (collect (\<lambda>root. codex_filesystem_entry absolute \<lparr>ve_path = root, ve_access = VendorWrite\<rparr>) roots) (\<lambda>rs.
     Inr (PermissionManaged (es @ rs) (network \<noteq> VendorUnmanaged))))"

definition SETUP_PAYLOAD_VERSION :: "32 word" where
  "SETUP_PAYLOAD_VERSION = 6"

text \<open>On Windows the payload is withheld when the permission profile cannot be built.\<close>

fun single_user_setup_payload ::
  "platform \<Rightarrow> (string \<Rightarrow> (string, string) result) \<Rightarrow> vendor_profile \<Rightarrow> string \<Rightarrow> string \<Rightarrow> string \<Rightarrow> json option" where
  "single_user_setup_payload pl absolute ProfileDisabled home cwd real_user = None"
| "single_user_setup_payload pl absolute (ProfileManaged entries network model) home cwd real_user =
     (let profile = ProfileManaged entries network model in
      if pl = Windows \<and> \<not> is_ok (permission_profile_with_runtime_roots absolute profile []) then None
      else Some (json_object
        [(''version'', JNum (PosInt (ucast SETUP_PAYLOAD_VERSION))),
         (''sandbox_username'', JStr (local_account_name model)),
         (''codex_home'', JStr home),
         (''command_cwd'', JStr cwd),
         (''read_roots'', json_strs (vendor_read_roots profile)),
         (''write_roots'', json_strs (vendor_write_roots profile)),
         (''deny_read_paths'', json_strs (vendor_deny_roots profile)),
         (''deny_write_paths'', json_strs []),
         (''proxy_ports'', JArr []),
         (''allow_local_binding'', JBool False),
         (''real_user'', JStr real_user),
         (''mode'', JStr ''full''),
         (''refresh_only'', JBool False)]))"

section \<open>Windows paths as keys\<close>

definition backslash :: char where
  "backslash = CHR 0x5C"

fun pop_separators :: "string \<Rightarrow> string" where
  "pop_separators s =
     (if 3 < length s \<and> last s = backslash then pop_separators (butlast s) else s)"

declare pop_separators.simps [simp del]

definition slashes_back :: "string \<Rightarrow> string" where
  "slashes_back s = map (\<lambda>c. if c = CHR ''/'' then backslash else c) s"

definition windows_root_key :: "string \<Rightarrow> string" where
  "windows_root_key root = to_ascii_lowercase (pop_separators (slashes_back root))"

definition same_windows_root :: "string \<Rightarrow> string \<Rightarrow> bool" where
  "same_windows_root a b \<longleftrightarrow> windows_root_key a = windows_root_key b"

definition same_or_descendant_windows_root :: "string \<Rightarrow> string \<Rightarrow> bool" where
  "same_or_descendant_windows_root root candidate \<longleftrightarrow>
     (let root = windows_root_key root; candidate = windows_root_key candidate in
      root = candidate \<or>
      starts_with candidate (if ends_with root [backslash] then root else root @ [backslash]))"

definition contains_same_windows_root :: "string list \<Rightarrow> string \<Rightarrow> bool" where
  "contains_same_windows_root roots candidate \<longleftrightarrow> list_ex (\<lambda>root. same_windows_root root candidate) roots"

definition contains_same_or_descendant_windows_root :: "string list \<Rightarrow> string \<Rightarrow> bool" where
  "contains_same_or_descendant_windows_root roots candidate \<longleftrightarrow>
     list_ex (\<lambda>root. same_or_descendant_windows_root root candidate) roots"

definition push_unique :: "string list \<Rightarrow> string \<Rightarrow> string list" where
  "push_unique roots root = (if root \<in> set roots then roots else roots @ [root])"

definition push_unique_root :: "string list \<Rightarrow> string \<Rightarrow> string list" where
  "push_unique_root roots root = (if contains_same_windows_root roots root then roots else roots @ [root])"

section \<open>The roots of an execution and of the host\<close>

record windows_runtime_roots =
  wr_runtime_root :: string
  wr_profile_root :: string
  wr_synthetic_home :: string
  wr_temp_root :: string

definition runtime_write_roots :: "windows_runtime_roots \<Rightarrow> string list" where
  "runtime_write_roots r =
     foldl push_unique [] [wr_runtime_root r, wr_profile_root r, wr_synthetic_home r, wr_temp_root r]"

definition windows_home_drive_and_path :: "string \<Rightarrow> (string \<times> string) option" where
  "windows_home_drive_and_path root =
     (if length root < 3 \<or> root ! 1 \<noteq> CHR '':'' \<or> \<not> is_ascii_alphabetic (root ! 0) then None
      else let p = slashes_back (drop 2 root) in
           Some (take 2 root, if starts_with p [backslash] then p else backslash # p))"

definition windows_runtime_environment :: "platform \<Rightarrow> windows_runtime_roots \<Rightarrow> (string \<times> string) list" where
  "windows_runtime_environment pl r =
     [(''RUNSEAL_HOME'', wr_synthetic_home r),
      (''RUNSEAL_TMP'', wr_temp_root r),
      (''HOME'', wr_synthetic_home r),
      (''USERPROFILE'', wr_profile_root r),
      (''APPDATA'', path_join pl (wr_profile_root r) ''AppData/Roaming''),
      (''LOCALAPPDATA'', path_join pl (wr_profile_root r) ''AppData/Local''),
      (''TEMP'', wr_temp_root r),
      (''TMP'', wr_temp_root r)]
     @ (case windows_home_drive_and_path (wr_profile_root r) of
          None \<Rightarrow> []
        | Some (drive, p) \<Rightarrow> [(''HOMEDRIVE'', drive), (''HOMEPATH'', p)])"

record windows_host_roots =
  wh_profile_root :: "string option"
  wh_appdata_root :: "string option"
  wh_local_appdata_root :: "string option"

text \<open>\<open>var\<close> answers for a variable of the environment.\<close>

definition env_path :: "(string \<Rightarrow> string option) \<Rightarrow> string \<Rightarrow> string option" where
  "env_path var key = (case var key of Some v \<Rightarrow> if v = [] then None else Some v | None \<Rightarrow> None)"

definition host_roots_from_environment :: "(string \<Rightarrow> string option) \<Rightarrow> windows_host_roots" where
  "host_roots_from_environment var =
     \<lparr>wh_profile_root = (case env_path var ''USERPROFILE'' of Some p \<Rightarrow> Some p | None \<Rightarrow> env_path var ''HOME''),
      wh_appdata_root = env_path var ''APPDATA'',
      wh_local_appdata_root = env_path var ''LOCALAPPDATA''\<rparr>"

definition push_with_children :: "platform \<Rightarrow> string option \<Rightarrow> string list \<Rightarrow> string list \<Rightarrow> string list" where
  "push_with_children pl root children roots =
     (case root of
        None \<Rightarrow> roots
      | Some r \<Rightarrow> foldl push_unique (push_unique roots r) (map (path_join pl r) children))"

definition host_protected_roots :: "platform \<Rightarrow> windows_host_roots \<Rightarrow> sandbox_policy \<Rightarrow> string list" where
  "host_protected_roots pl h policy =
     (if pol_sandbox_level policy \<noteq> WorkspaceContained then []
      else push_with_children pl (wh_local_appdata_root h) [''Google/Cloud SDK'']
             (push_with_children pl (wh_appdata_root h) [''gh'', ''GitHub CLI'']
               (push_with_children pl (wh_profile_root h)
                 [''.ssh'', ''.aws'', ''.azure'', ''.config/gcloud'', ''.docker'', ''.kube''] [])))"

section \<open>The plan and its rules\<close>

datatype windows_filesystem_mode = ReadOnlyCapability | WritableRootsCapability

record windows_filesystem_plan =
  wf_mode :: windows_filesystem_mode
  wf_read_roots :: "string list"
  wf_write_roots :: "string list"
  wf_runtime_write_roots :: "string list"
  wf_protected_roots :: "string list"
  wf_private_protected_roots :: "string list"

datatype windows_access = AccessDeny | AccessReadWrite | AccessReadOnly

datatype windows_rule_source = ProtectedDeny | PrivateDeny | PolicyWrite | RuntimeWrite | PolicyRead

record windows_rule =
  ru_access :: windows_access
  ru_source :: windows_rule_source
  ru_root :: string

datatype windows_guard = GuardUnmanaged | GuardDisabled | GuardProxy

fun guard_as_str :: "windows_guard \<Rightarrow> string" where
  "guard_as_str GuardUnmanaged = ''unmanaged''"
| "guard_as_str GuardDisabled = ''disabled''"
| "guard_as_str GuardProxy = ''proxy''"

datatype windows_direct_egress = EgressUnmanaged | EgressDeny

fun egress_as_str :: "windows_direct_egress \<Rightarrow> string" where
  "egress_as_str EgressUnmanaged = ''unmanaged''"
| "egress_as_str EgressDeny = ''deny''"

datatype windows_managed_proxy = ProxyNone | ProxyRequired

fun managed_proxy_as_str :: "windows_managed_proxy \<Rightarrow> string" where
  "managed_proxy_as_str ProxyNone = ''none''"
| "managed_proxy_as_str ProxyRequired = ''required''"

record windows_network_plan =
  wn_guard :: windows_guard
  wn_direct_egress :: windows_direct_egress
  wn_managed_proxy :: windows_managed_proxy
  wn_inject_proxy_environment :: bool

record windows_policy_plan =
  wp_filesystem :: windows_filesystem_plan
  wp_network :: windows_network_plan
  wp_environment_runtime :: "(string \<times> string) list"
  wp_user_model :: sandbox_user_model

definition from_policy_runtime_and_host_roots ::
  "platform \<Rightarrow> sandbox_policy \<Rightarrow> windows_runtime_roots option \<Rightarrow> windows_host_roots \<Rightarrow> windows_policy_plan" where
  "from_policy_runtime_and_host_roots pl policy runtime_roots host_roots =
     (let write_roots = (case runtime_roots of Some r \<Rightarrow> runtime_write_roots r | None \<Rightarrow> []);
          profile = vendor_from_policy policy;
          guard = (case vendor_network_policy profile of
                     Some VendorProxy \<Rightarrow> GuardProxy
                   | Some VendorDisabled \<Rightarrow> GuardDisabled
                   | _ \<Rightarrow> GuardUnmanaged)
      in \<lparr>wp_filesystem =
            \<lparr>wf_mode = (if token_mode_of profile = Some TokenWritableRoots \<or> write_roots \<noteq> []
                        then WritableRootsCapability else ReadOnlyCapability),
             wf_read_roots = vendor_read_roots profile,
             wf_write_roots = vendor_write_roots profile,
             wf_runtime_write_roots = write_roots,
             wf_protected_roots = vendor_deny_roots profile,
             wf_private_protected_roots = host_protected_roots pl host_roots policy\<rparr>,
          wp_network =
            \<lparr>wn_guard = guard,
             wn_direct_egress = (if guard = GuardUnmanaged then EgressUnmanaged else EgressDeny),
             wn_managed_proxy = (if guard = GuardProxy then ProxyRequired else ProxyNone),
             wn_inject_proxy_environment = (guard = GuardProxy \<and> env_proxy (pol_environment policy))\<rparr>,
          wp_environment_runtime =
            (case runtime_roots of Some r \<Rightarrow> windows_runtime_environment pl r | None \<Rightarrow> []),
          wp_user_model = (case vendor_user_model profile of Some m \<Rightarrow> m | None \<Rightarrow> SingleSandboxUser)\<rparr>)"

definition effective_write_roots :: "windows_filesystem_plan \<Rightarrow> string list" where
  "effective_write_roots fs = foldl push_unique [] (wf_write_roots fs @ wf_runtime_write_roots fs)"

definition push_filesystem_rule ::
  "windows_access \<Rightarrow> windows_rule_source \<Rightarrow> string \<Rightarrow> windows_rule list \<Rightarrow> windows_rule list" where
  "push_filesystem_rule access source root rules =
     (if list_ex (\<lambda>rule. ru_access rule = access \<and> same_windows_root (ru_root rule) root) rules then rules
      else rules @ [\<lparr>ru_access = access, ru_source = source, ru_root = root\<rparr>])"

definition deny_step ::
  "windows_rule_source \<Rightarrow> string list \<times> windows_rule list \<Rightarrow> string \<Rightarrow> string list \<times> windows_rule list" where
  "deny_step source acc root =
     (push_unique_root (fst acc) root, push_filesystem_rule AccessDeny source root (snd acc))"

definition write_step ::
  "string list \<Rightarrow> string list \<times> windows_rule list \<Rightarrow> string \<times> windows_rule_source \<Rightarrow> string list \<times> windows_rule list" where
  "write_step deny_roots acc entry =
     (if contains_same_or_descendant_windows_root deny_roots (fst entry) then acc
      else (push_unique_root (fst acc) (fst entry),
            push_filesystem_rule AccessReadWrite (snd entry) (fst entry) (snd acc)))"

definition read_step ::
  "string list \<Rightarrow> string list \<Rightarrow> windows_rule list \<Rightarrow> string \<Rightarrow> windows_rule list" where
  "read_step deny_roots writable_roots rules root =
     (if contains_same_or_descendant_windows_root deny_roots root
         \<or> contains_same_or_descendant_windows_root writable_roots root then rules
      else push_filesystem_rule AccessReadOnly PolicyRead root rules)"

definition enforcement_rules :: "windows_filesystem_plan \<Rightarrow> windows_rule list" where
  "enforcement_rules fs =
     (let (deny_roots, rules) = foldl (deny_step PrivateDeny)
            (foldl (deny_step ProtectedDeny) ([], []) (wf_protected_roots fs))
            (wf_private_protected_roots fs);
          (writable_roots, rules) = foldl (write_step deny_roots) ([], rules)
            (map (\<lambda>root. (root, PolicyWrite)) (wf_write_roots fs)
             @ map (\<lambda>root. (root, RuntimeWrite)) (wf_runtime_write_roots fs))
      in foldl (read_step deny_roots writable_roots) rules (wf_read_roots fs))"

section \<open>The rules are the plan, with denials first\<close>

text \<open>Two spellings of a root cover the same paths.\<close>

lemma same_root_refl [simp]: "same_windows_root a a"
  by (simp add: same_windows_root_def)

lemma same_root_sym: "same_windows_root a b \<longleftrightarrow> same_windows_root b a"
  by (auto simp: same_windows_root_def)

lemma same_root_covers:
  "same_windows_root a b \<Longrightarrow> same_or_descendant_windows_root a c = same_or_descendant_windows_root b c"
  by (simp add: same_windows_root_def same_or_descendant_windows_root_def)

lemma covered_iff:
  "contains_same_or_descendant_windows_root roots c \<longleftrightarrow> (\<exists>r\<in>set roots. same_or_descendant_windows_root r c)"
  by (simp add: contains_same_or_descendant_windows_root_def list_ex_iff)

text \<open>A list of roots stands for another when each holds the other's roots up to spelling.\<close>

definition same_roots :: "string list \<Rightarrow> string list \<Rightarrow> bool" where
  "same_roots xs ys \<longleftrightarrow> set xs \<subseteq> set ys \<and> (\<forall>y\<in>set ys. \<exists>x\<in>set xs. same_windows_root x y)"

lemma same_roots_covered:
  "same_roots xs ys \<Longrightarrow>
   contains_same_or_descendant_windows_root xs c = contains_same_or_descendant_windows_root ys c"
  by (auto simp: same_roots_def covered_iff) (metis same_root_covers)

lemma push_unique_root_same: "same_roots xs ys \<Longrightarrow> same_roots (push_unique_root xs r) (ys @ [r])"
  by (auto simp: same_roots_def push_unique_root_def contains_same_windows_root_def list_ex_iff)

text \<open>What adding a rule does to a list of rules.\<close>

definition has_rule :: "windows_access \<Rightarrow> windows_rule list \<Rightarrow> string \<Rightarrow> bool" where
  "has_rule access rules root \<longleftrightarrow>
     (\<exists>rule\<in>set rules. ru_access rule = access \<and> same_windows_root (ru_root rule) root)"

definition rules_distinct :: "windows_rule list \<Rightarrow> bool" where
  "rules_distinct rules \<longleftrightarrow>
     sorted_wrt (\<lambda>r s. \<not> (ru_access r = ru_access s \<and> same_windows_root (ru_root r) (ru_root s))) rules"

lemma push_rule_has: "has_rule access (push_filesystem_rule access source root rules) root"
  by (auto simp: push_filesystem_rule_def has_rule_def list_ex_iff)

lemma push_rule_keeps: "has_rule a rules r \<Longrightarrow> has_rule a (push_filesystem_rule access source root rules) r"
  by (auto simp: push_filesystem_rule_def has_rule_def)

lemma push_rule_only:
  "rule \<in> set (push_filesystem_rule access source root rules) \<Longrightarrow>
   rule \<in> set rules \<or> rule = \<lparr>ru_access = access, ru_source = source, ru_root = root\<rparr>"
  by (auto simp: push_filesystem_rule_def split: if_splits)

lemma push_rule_distinct:
  "rules_distinct rules \<Longrightarrow> rules_distinct (push_filesystem_rule access source root rules)"
  by (auto simp: push_filesystem_rule_def rules_distinct_def sorted_wrt_append list_ex_iff)

lemmas push_rule_facts = push_rule_has push_rule_keeps push_rule_only push_rule_distinct

text \<open>The denials: both lists, up to spelling, and a rule for each.\<close>

definition denies_exactly :: "string list \<times> windows_rule list \<Rightarrow> string list \<Rightarrow> bool" where
  "denies_exactly acc roots \<longleftrightarrow>
     same_roots (fst acc) roots \<and> rules_distinct (snd acc) \<and>
     (\<forall>root\<in>set roots. has_rule AccessDeny (snd acc) root) \<and>
     (\<forall>rule\<in>set (snd acc). ru_access rule = AccessDeny \<and> ru_root rule \<in> set roots)"

lemma deny_step_exact:
  assumes "denies_exactly acc roots"
  shows "denies_exactly (deny_step source acc root) (roots @ [root])"
  using assms push_rule_has [of AccessDeny source root "snd acc"]
  by (auto simp: denies_exactly_def deny_step_def push_unique_root_same push_rule_distinct
      intro: push_rule_keeps dest!: push_rule_only)

lemma deny_fold_exact:
  "denies_exactly acc roots \<Longrightarrow> denies_exactly (foldl (deny_step source) acc xs) (roots @ xs)"
proof (induction xs arbitrary: acc roots)
  case (Cons x xs)
  from Cons.IH [OF deny_step_exact [OF Cons.prems]] show ?case by simp
qed simp

text \<open>The writable roots among a list of entries, and their rules beside the denials.\<close>

definition grants_exactly ::
  "string list \<Rightarrow> windows_rule list \<Rightarrow> string list \<times> windows_rule list \<Rightarrow> (string \<times> windows_rule_source) list \<Rightarrow> bool" where
  "grants_exactly deny rules acc entries \<longleftrightarrow>
     same_roots (fst acc)
       (filter (\<lambda>r. \<not> contains_same_or_descendant_windows_root deny r) (map fst entries)) \<and>
     rules_distinct (snd acc) \<and>
     (\<forall>a root. has_rule a rules root \<longrightarrow> has_rule a (snd acc) root) \<and>
     (\<forall>root\<in>set (fst acc). has_rule AccessReadWrite (snd acc) root) \<and>
     (\<forall>rule\<in>set (snd acc). rule \<in> set rules \<or>
        ru_access rule = AccessReadWrite \<and> (ru_root rule, ru_source rule) \<in> set entries \<and>
        \<not> contains_same_or_descendant_windows_root deny (ru_root rule))"

lemma push_unique_root_set: "set (push_unique_root xs r) \<subseteq> insert r (set xs)"
  by (auto simp: push_unique_root_def)

lemma write_step_exact:
  assumes "grants_exactly deny rules acc entries"
  shows "grants_exactly deny rules (write_step deny acc entry) (entries @ [entry])"
proof (cases "contains_same_or_descendant_windows_root deny (fst entry)")
  case True
  then show ?thesis using assms by (auto simp: grants_exactly_def write_step_def)
next
  case False
  then show ?thesis
    using assms push_unique_root_set [of "fst acc" "fst entry"]
      push_rule_has [of AccessReadWrite "snd entry" "fst entry" "snd acc"]
    by (auto simp: grants_exactly_def write_step_def push_unique_root_same push_rule_distinct
        intro: push_rule_keeps dest!: push_rule_only)
qed

lemma write_fold_exact:
  "grants_exactly deny rules acc entries \<Longrightarrow>
   grants_exactly deny rules (foldl (write_step deny) acc xs) (entries @ xs)"
proof (induction xs arbitrary: acc entries)
  case (Cons x xs)
  from Cons.IH [OF write_step_exact [OF Cons.prems]] show ?case by simp
qed simp

text \<open>The rules for reading.\<close>

definition reads_exactly ::
  "string list \<Rightarrow> string list \<Rightarrow> windows_rule list \<Rightarrow> windows_rule list \<Rightarrow> string list \<Rightarrow> bool" where
  "reads_exactly deny writable rules0 rules roots \<longleftrightarrow>
     rules_distinct rules \<and> set rules0 \<subseteq> set rules \<and>
     (\<forall>root\<in>set roots. contains_same_or_descendant_windows_root deny root \<or>
        contains_same_or_descendant_windows_root writable root \<or> has_rule AccessReadOnly rules root) \<and>
     (\<forall>rule\<in>set rules. rule \<in> set rules0 \<or>
        ru_access rule = AccessReadOnly \<and> ru_root rule \<in> set roots \<and>
        \<not> contains_same_or_descendant_windows_root deny (ru_root rule) \<and>
        \<not> contains_same_or_descendant_windows_root writable (ru_root rule))"

lemma push_rule_superset: "set rules \<subseteq> set (push_filesystem_rule access source root rules)"
  by (auto simp: push_filesystem_rule_def)

lemma read_step_exact:
  assumes "reads_exactly deny writable rules0 rules roots"
  shows "reads_exactly deny writable rules0 (read_step deny writable rules root) (roots @ [root])"
  using assms push_rule_superset [of rules AccessReadOnly PolicyRead root]
    push_rule_has [of AccessReadOnly PolicyRead root rules]
  by (auto simp: reads_exactly_def read_step_def push_rule_distinct
      intro: push_rule_keeps dest!: push_rule_only)

lemma read_fold_exact:
  "reads_exactly deny writable rules0 rules roots \<Longrightarrow>
   reads_exactly deny writable rules0 (foldl (read_step deny writable) rules xs) (roots @ xs)"
proof (induction xs arbitrary: rules roots)
  case (Cons x xs)
  from Cons.IH [OF read_step_exact [OF Cons.prems]] show ?case by simp
qed simp

text \<open>What a plan denies, and what it leaves writable.\<close>

definition denied_roots :: "windows_filesystem_plan \<Rightarrow> string list" where
  "denied_roots fs = wf_protected_roots fs @ wf_private_protected_roots fs"

definition granted_roots :: "windows_filesystem_plan \<Rightarrow> string list" where
  "granted_roots fs =
     filter (\<lambda>r. \<not> contains_same_or_descendant_windows_root (denied_roots fs) r)
       (wf_write_roots fs @ wf_runtime_write_roots fs)"

lemma enforcement_rules_parts:
  obtains deny rules1 writable rules2 where
    "denies_exactly (deny, rules1) (denied_roots fs)"
    "grants_exactly deny rules1 (writable, rules2)
       (map (\<lambda>root. (root, PolicyWrite)) (wf_write_roots fs)
        @ map (\<lambda>root. (root, RuntimeWrite)) (wf_runtime_write_roots fs))"
    "reads_exactly deny writable rules2 (enforcement_rules fs) (wf_read_roots fs)"
proof -
  define dr where "dr = foldl (deny_step PrivateDeny)
    (foldl (deny_step ProtectedDeny) ([], []) (wf_protected_roots fs)) (wf_private_protected_roots fs)"
  define entries where "entries = map (\<lambda>root. (root, PolicyWrite)) (wf_write_roots fs)
    @ map (\<lambda>root. (root, RuntimeWrite)) (wf_runtime_write_roots fs)"
  define wr where "wr = foldl (write_step (fst dr)) ([], snd dr) entries"
  have "denies_exactly ([], []) []" by (simp add: denies_exactly_def same_roots_def rules_distinct_def)
  then have deny: "denies_exactly dr (denied_roots fs)"
    using deny_fold_exact [OF deny_fold_exact] by (fastforce simp: dr_def denied_roots_def)
  then have "grants_exactly (fst dr) (snd dr) ([], snd dr) []"
    by (simp add: grants_exactly_def same_roots_def denies_exactly_def)
  then have grant: "grants_exactly (fst dr) (snd dr) wr entries"
    using write_fold_exact by (fastforce simp: wr_def)
  then have "reads_exactly (fst dr) (fst wr) (snd wr) (snd wr) []"
    by (simp add: reads_exactly_def grants_exactly_def)
  then have reads: "reads_exactly (fst dr) (fst wr) (snd wr) (enforcement_rules fs) (wf_read_roots fs)"
    using read_fold_exact [of "fst dr" "fst wr" "snd wr" "snd wr" "[]" "wf_read_roots fs"]
    by (simp add: enforcement_rules_def dr_def [symmetric] entries_def [symmetric] wr_def [symmetric]
        split: prod.splits) (metis fst_conv snd_conv wr_def)
  show thesis
    using that [of "fst dr" "snd dr" "fst wr" "snd wr"] deny grant reads by (simp add: entries_def)
qed

text \<open>The rules, read through their three parts.\<close>

lemma rules_of_parts:
  assumes d: "denies_exactly (deny, rules1) (denied_roots fs)"
    and g: "grants_exactly deny rules1 (writable, rules2)
       (map (\<lambda>root. (root, PolicyWrite)) (wf_write_roots fs)
        @ map (\<lambda>root. (root, RuntimeWrite)) (wf_runtime_write_roots fs))"
  shows "contains_same_or_descendant_windows_root deny c
           = contains_same_or_descendant_windows_root (denied_roots fs) c"
    and "same_roots writable (granted_roots fs)"
    and "rule \<in> set rules2 \<Longrightarrow>
         ru_access rule = AccessDeny \<and> ru_root rule \<in> set (denied_roots fs) \<or>
         ru_access rule = AccessReadWrite \<and> ru_root rule \<in> set (granted_roots fs)"
proof -
  show deny: "contains_same_or_descendant_windows_root deny c
      = contains_same_or_descendant_windows_root (denied_roots fs) c" for c
    using d same_roots_covered by (auto simp: denies_exactly_def)
  have names: "map fst (map (\<lambda>root. (root, PolicyWrite)) (wf_write_roots fs)
      @ map (\<lambda>root. (root, RuntimeWrite)) (wf_runtime_write_roots fs))
      = wf_write_roots fs @ wf_runtime_write_roots fs"
    by (simp add: comp_def)
  show "same_roots writable (granted_roots fs)"
    using g unfolding grants_exactly_def names by (simp add: deny granted_roots_def)
  show "rule \<in> set rules2 \<Longrightarrow>
      ru_access rule = AccessDeny \<and> ru_root rule \<in> set (denied_roots fs) \<or>
      ru_access rule = AccessReadWrite \<and> ru_root rule \<in> set (granted_roots fs)"
    using d g by (auto simp: denies_exactly_def grants_exactly_def granted_roots_def deny)
qed

lemma rules_keep_denials: "root \<in> set (denied_roots fs) \<Longrightarrow> has_rule AccessDeny (enforcement_rules fs) root"
proof (rule enforcement_rules_parts [of fs])
  fix deny rules1 writable rules2
  assume root: "root \<in> set (denied_roots fs)" and d: "denies_exactly (deny, rules1) (denied_roots fs)"
    and g: "grants_exactly deny rules1 (writable, rules2)
       (map (\<lambda>root. (root, PolicyWrite)) (wf_write_roots fs)
        @ map (\<lambda>root. (root, RuntimeWrite)) (wf_runtime_write_roots fs))"
    and r: "reads_exactly deny writable rules2 (enforcement_rules fs) (wf_read_roots fs)"
  from root d have "has_rule AccessDeny rules1 root" by (simp add: denies_exactly_def)
  with g have "has_rule AccessDeny rules2 root" by (simp add: grants_exactly_def)
  with r show ?thesis by (auto simp: reads_exactly_def has_rule_def)
qed

lemma rules_grant:
  assumes "root \<in> set (granted_roots fs)"
  shows "has_rule AccessReadWrite (enforcement_rules fs) root"
proof -
  obtain deny rules1 writable rules2 where
    d: "denies_exactly (deny, rules1) (denied_roots fs)" and
    g: "grants_exactly deny rules1 (writable, rules2)
       (map (\<lambda>root. (root, PolicyWrite)) (wf_write_roots fs)
        @ map (\<lambda>root. (root, RuntimeWrite)) (wf_runtime_write_roots fs))" and
    r: "reads_exactly deny writable rules2 (enforcement_rules fs) (wf_read_roots fs)"
    by (rule enforcement_rules_parts)
  from rules_of_parts(2) [OF d g] assms obtain w where "w \<in> set writable" "same_windows_root w root"
    by (auto simp: same_roots_def)
  from g \<open>w \<in> set writable\<close> have "has_rule AccessReadWrite rules2 w" by (simp add: grants_exactly_def)
  with \<open>same_windows_root w root\<close> have "has_rule AccessReadWrite rules2 root"
    by (simp add: has_rule_def same_windows_root_def)
  with r show ?thesis by (auto simp: reads_exactly_def has_rule_def)
qed

lemma rules_justified:
  assumes "rule \<in> set (enforcement_rules fs)"
  shows "case ru_access rule of
      AccessDeny \<Rightarrow> ru_root rule \<in> set (denied_roots fs)
    | AccessReadWrite \<Rightarrow> ru_root rule \<in> set (granted_roots fs)
    | AccessReadOnly \<Rightarrow> ru_root rule \<in> set (wf_read_roots fs) \<and>
        \<not> contains_same_or_descendant_windows_root (denied_roots fs) (ru_root rule) \<and>
        \<not> contains_same_or_descendant_windows_root (granted_roots fs) (ru_root rule)"
proof -
  obtain deny rules1 writable rules2 where
    d: "denies_exactly (deny, rules1) (denied_roots fs)" and
    g: "grants_exactly deny rules1 (writable, rules2)
       (map (\<lambda>root. (root, PolicyWrite)) (wf_write_roots fs)
        @ map (\<lambda>root. (root, RuntimeWrite)) (wf_runtime_write_roots fs))" and
    r: "reads_exactly deny writable rules2 (enforcement_rules fs) (wf_read_roots fs)"
    by (rule enforcement_rules_parts)
  note parts = rules_of_parts [OF d g]
  from r assms have "rule \<in> set rules2 \<or>
      ru_access rule = AccessReadOnly \<and> ru_root rule \<in> set (wf_read_roots fs) \<and>
      \<not> contains_same_or_descendant_windows_root deny (ru_root rule) \<and>
      \<not> contains_same_or_descendant_windows_root writable (ru_root rule)"
    unfolding reads_exactly_def by blast
  then show ?thesis
    using parts(3) [of rule] by (auto simp: same_roots_covered [OF parts(2)] parts(1))
qed

text \<open>
  The rules of a Windows plan let its denials prevail and otherwise grant what the plan asks for.
  Every denied root (of the policy or of the host's profile) has a denying rule. A rule that grants
  anything names a root that is neither a denied root nor inside one, in any spelling of case,
  separators and trailing separators. A writing rule is for a write root of the policy or of the
  execution, and every such root outside the denied ones has one. A reading rule is for a read root
  outside the writable ones, and every read root is denied, inside a writable root, or has one. No
  two rules have the same access and the same root.
\<close>

theorem windows_denials_prevail:
  "(\<forall>root\<in>set (denied_roots fs). has_rule AccessDeny (enforcement_rules fs) root) \<and>
   (\<forall>rule\<in>set (enforcement_rules fs). case ru_access rule of
      AccessDeny \<Rightarrow> ru_root rule \<in> set (denied_roots fs)
    | AccessReadWrite \<Rightarrow> ru_root rule \<in> set (granted_roots fs)
    | AccessReadOnly \<Rightarrow> ru_root rule \<in> set (wf_read_roots fs) \<and>
        \<not> contains_same_or_descendant_windows_root (denied_roots fs) (ru_root rule) \<and>
        \<not> contains_same_or_descendant_windows_root (granted_roots fs) (ru_root rule)) \<and>
   (\<forall>root\<in>set (granted_roots fs). has_rule AccessReadWrite (enforcement_rules fs) root) \<and>
   (\<forall>root\<in>set (wf_read_roots fs).
      contains_same_or_descendant_windows_root (denied_roots fs) root \<or>
      contains_same_or_descendant_windows_root (granted_roots fs) root \<or>
      has_rule AccessReadOnly (enforcement_rules fs) root) \<and>
   rules_distinct (enforcement_rules fs)"
proof -
  obtain deny rules1 writable rules2 where
    d: "denies_exactly (deny, rules1) (denied_roots fs)" and
    g: "grants_exactly deny rules1 (writable, rules2)
       (map (\<lambda>root. (root, PolicyWrite)) (wf_write_roots fs)
        @ map (\<lambda>root. (root, RuntimeWrite)) (wf_runtime_write_roots fs))" and
    r: "reads_exactly deny writable rules2 (enforcement_rules fs) (wf_read_roots fs)"
    by (rule enforcement_rules_parts)
  note covered = rules_of_parts(1) [OF d g] same_roots_covered [OF rules_of_parts(2) [OF d g]]
  have "rules_distinct (enforcement_rules fs) \<and>
    (\<forall>root\<in>set (wf_read_roots fs).
      contains_same_or_descendant_windows_root (denied_roots fs) root \<or>
      contains_same_or_descendant_windows_root (granted_roots fs) root \<or>
      has_rule AccessReadOnly (enforcement_rules fs) root)"
    using r by (simp add: reads_exactly_def covered)
  then show ?thesis using rules_keep_denials rules_grant rules_justified by blast
qed

definition sample_windows_plan :: windows_filesystem_plan where
  "sample_windows_plan =
     \<lparr>wf_mode = WritableRootsCapability, wf_read_roots = [''*''],
      wf_write_roots = [''C:/ws'', ''c:/WS/.git/x''], wf_runtime_write_roots = [''C:/ws/.runseal/r''],
      wf_protected_roots = [''C:/ws/.git''], wf_private_protected_roots = [''C:/Users/me/'']\<rparr>"

theorem windows_denials_prevail_witness:
  "granted_roots sample_windows_plan = [''C:/ws'', ''C:/ws/.runseal/r''] \<and>
   has_rule AccessDeny (enforcement_rules sample_windows_plan) ''C:/Users/me/'' \<and>
   has_rule AccessReadWrite (enforcement_rules sample_windows_plan) ''C:/ws''"
proof -
  have "granted_roots sample_windows_plan = [''C:/ws'', ''C:/ws/.runseal/r'']" by code_simp
  moreover have "''C:/Users/me/'' \<in> set (denied_roots sample_windows_plan)" by code_simp
  ultimately show ?thesis using windows_denials_prevail [of sample_windows_plan] by simp
qed

end
