(* ===== verification/Sandbox_Plans.thy ===== *)
theory Sandbox_Plans
  imports Windows_Rules Execution_Preparation
begin

text \<open>
  The plan of an execution, \<open>PlatformSandboxPlan\<close> of \<open>src/backend/plan.rs\<close>, and how each backend
  compiles a policy into one: \<open>src/backend/skeleton.rs\<close> (local, macOS and Linux),
  \<open>src/backend/windows.rs\<close>, \<open>src/backend/registry.rs\<close> and the feature check of
  \<open>src/backend/capability.rs\<close>. The serializer, the digest, the path check of the vendored crate and
  the environment of the process are parameters.
\<close>

section \<open>Backends\<close>

record sandbox_backend =
  sb_name :: string
  sb_status :: string
  sb_platform :: string
  sb_features :: "backend_feature list"

fun host_platform_name :: "platform \<Rightarrow> string" where
  "host_platform_name Windows = ''windows''"
| "host_platform_name Macos = ''macos''"
| "host_platform_name Linux = ''linux''"
| "host_platform_name OtherUnix = ''unknown''"

definition local_backend :: "platform \<Rightarrow> sandbox_backend" where
  "local_backend pl =
     \<lparr>sb_name = ''runseal-local'', sb_status = ''local-baseline'', sb_platform = host_platform_name pl, sb_features = []\<rparr>"

definition macos_backend :: sandbox_backend where
  "macos_backend =
     \<lparr>sb_name = ''runseal-macos-experimental'', sb_status = ''experimental'', sb_platform = ''macos'', sb_features = []\<rparr>"

definition linux_backend :: sandbox_backend where
  "linux_backend =
     \<lparr>sb_name = ''runseal-linux-community'', sb_status = ''experimental'', sb_platform = ''linux'', sb_features = []\<rparr>"

definition WINDOWS_REFERENCE_SUPPORTED_FEATURES :: "platform \<Rightarrow> backend_feature list" where
  "WINDOWS_REFERENCE_SUPPORTED_FEATURES pl =
     (if pl = Windows
      then [FilesystemPolicy, RuntimeRoots, RuntimeEnvironment, ProcessIsolation, ProcessCleanup,
            DirectNetworkDeny, NetworkDisabled, NetworkProxy, ManagedProxy, PolicyEpoch]
      else [RuntimeRoots, RuntimeEnvironment, ProcessCleanup])"

definition windows_backend :: "platform \<Rightarrow> sandbox_backend" where
  "windows_backend pl =
     \<lparr>sb_name = ''runseal-windows-reference'',
      sb_status = (if pl = Windows then ''reference'' else ''scaffold''),
      sb_platform = ''windows'', sb_features = WINDOWS_REFERENCE_SUPPORTED_FEATURES pl\<rparr>"

definition missing_backend_features :: "sandbox_policy \<Rightarrow> backend_feature list \<Rightarrow> backend_feature list" where
  "missing_backend_features policy supported =
     filter (\<lambda>f. f \<notin> set supported) (required_backend_features policy)"

definition missing_feature_names :: "sandbox_backend \<Rightarrow> sandbox_policy \<Rightarrow> string list" where
  "missing_feature_names b policy = map feature_as_str (missing_backend_features policy (sb_features b))"

section \<open>The plan\<close>

text \<open>The permission profile is kept as a value; the code keeps its JSON text.\<close>

record platform_plan =
  pp_backend :: string
  pp_backend_status :: string
  pp_platform :: string
  pp_execution_id :: string
  pp_policy_id :: string
  pp_policy_hash :: string
  pp_sandbox_level :: string
  pp_enforcement :: string
  pp_cwd :: string
  pp_runtime_root :: "string option"
  pp_profile_root :: "string option"
  pp_synthetic_home :: "string option"
  pp_temp_root :: "string option"
  pp_filesystem_read :: "string list"
  pp_filesystem_write :: "string list"
  pp_filesystem_deny :: "string list"
  pp_filesystem_protected :: "string list"
  pp_private_filesystem_deny :: "string list"
  pp_private_filesystem_rules :: "windows_rule list"
  pp_portable_read_roots :: "string list"
  pp_portable_write_roots :: "string list"
  pp_portable_deny_roots :: "string list"
  pp_process_boundary :: string
  pp_process_identity :: string
  pp_process_cleanup :: string
  pp_sandbox_user_model :: string
  pp_process_token :: string
  pp_process_job :: string
  pp_setup_account_name :: string
  pp_setup_group_name :: string
  pp_setup_identity_artifacts :: string
  pp_setup_payload :: "string option"
  pp_vendor_permission_profile :: "permission_profile option"
  pp_network_mode :: string
  pp_network_direct_egress :: string
  pp_network_managed_proxy :: string
  pp_environment_inherit :: string
  pp_environment_scrub :: "string list"
  pp_environment_proxy :: bool
  pp_environment_runtime :: "(string \<times> string) list"
  pp_required_backend_features :: "string list"

definition plan_is_sandbox_enforced :: "platform_plan \<Rightarrow> bool" where
  "plan_is_sandbox_enforced plan \<longleftrightarrow> pp_enforcement plan \<noteq> ''local-execution''"

definition network_direct_egress :: "sandbox_policy \<Rightarrow> string" where
  "network_direct_egress policy =
     (case net_mode (pol_network policy) of
        Unmanaged \<Rightarrow> ''unmanaged'' | Disabled \<Rightarrow> ''deny'' | Proxy \<Rightarrow> ''deny'')"

definition protected_filesystem_labels :: "sandbox_policy \<Rightarrow> string list" where
  "protected_filesystem_labels policy =
     (if fs_deny (pol_filesystem policy) \<noteq> [] then [''workspace_metadata''] else [])
     @ (if pol_sandbox_level policy = WorkspaceContained then [''host_profile'', ''credential_roots''] else [])"

definition portable_experimental_write_labels :: "sandbox_policy \<Rightarrow> string list" where
  "portable_experimental_write_labels policy =
     (if pol_sandbox_level policy = WorkspaceWrite \<or> pol_sandbox_level policy = WorkspaceContained
      then [''workspace''] else [])
     @ [''runtime_root'', ''profile_root'', ''synthetic_home'', ''temp_root'']"

definition json_opt_str :: "string option \<Rightarrow> json" where
  "json_opt_str v = (case v of None \<Rightarrow> JNull | Some s \<Rightarrow> JStr s)"

definition environment_runtime_json :: "(string \<times> string) list \<Rightarrow> json" where
  "environment_runtime_json entries = json_object (map (\<lambda>(k, v). (k, JStr v)) entries)"

definition setup_json :: "platform_plan \<Rightarrow> json" where
  "setup_json plan = json_object
     [(''requires_runtime_roots'', JBool (pp_runtime_root plan \<noteq> None)),
      (''requires_runtime_environment'', JBool (pp_environment_runtime plan \<noteq> [])),
      (''requires_runtime_cleanup'', JBool (pp_runtime_root plan \<noteq> None)),
      (''requires_network_guard'', JBool (pp_network_direct_egress plan = ''deny'')),
      (''requires_managed_proxy'', JBool (pp_network_managed_proxy plan = ''required'')),
      (''requires_process_boundary'', JBool (pp_process_boundary plan \<noteq> ''local-process'')),
      (''fail_closed_on_setup_error'', JBool (plan_is_sandbox_enforced plan))]"

definition plan_json :: "platform_plan \<Rightarrow> json" where
  "plan_json plan = json_object
     [(''backend'', json_object
         [(''name'', JStr (pp_backend plan)), (''status'', JStr (pp_backend_status plan)),
          (''platform'', JStr (pp_platform plan))]),
      (''execution_id'', JStr (pp_execution_id plan)),
      (''policy_id'', JStr (pp_policy_id plan)),
      (''policy_hash'', JStr (pp_policy_hash plan)),
      (''sandbox_level'', JStr (pp_sandbox_level plan)),
      (''enforcement'', JStr (pp_enforcement plan)),
      (''cwd'', JStr (pp_cwd plan)),
      (''runtime_root'', json_opt_str (pp_runtime_root plan)),
      (''profile_root'', json_opt_str (pp_profile_root plan)),
      (''synthetic_home'', json_opt_str (pp_synthetic_home plan)),
      (''temp_root'', json_opt_str (pp_temp_root plan)),
      (''filesystem'', json_object
         [(''read'', json_strs (pp_filesystem_read plan)),
          (''write'', json_strs (pp_filesystem_write plan)),
          (''deny'', json_strs (pp_filesystem_deny plan)),
          (''protected'', json_strs (pp_filesystem_protected plan))]),
      (''process'', json_object
         [(''boundary'', JStr (pp_process_boundary plan)), (''identity'', JStr (pp_process_identity plan)),
          (''cleanup'', JStr (pp_process_cleanup plan))]),
      (''network'', json_object
         [(''mode'', JStr (pp_network_mode plan)), (''direct_egress'', JStr (pp_network_direct_egress plan)),
          (''managed_proxy'', JStr (pp_network_managed_proxy plan))]),
      (''environment'', json_object
         [(''inherit'', JStr (pp_environment_inherit plan)),
          (''scrub'', json_strs (pp_environment_scrub plan)),
          (''proxy'', JBool (pp_environment_proxy plan)),
          (''runtime'', environment_runtime_json (pp_environment_runtime plan))]),
      (''setup'', setup_json plan),
      (''required_backend_features'', json_strs (pp_required_backend_features plan))]"

section \<open>Building a plan\<close>

text \<open>
  What the host answers: the build target, the serializer and the digest, the environment of the
  process, \<open>std::path::absolute\<close>, the path check of the vendored crate, and for Windows the directory of
  the execution gate, \<open>fs::canonicalize\<close> (its error says whether the path is missing), the wide
  characters of a path and \<open>CompareStringOrdinal\<close> without case.
\<close>

record plan_env =
  pe_platform :: platform
  pe_ser :: "json \<Rightarrow> string"
  pe_sha256 :: "string \<Rightarrow> string"
  pe_var :: "string \<Rightarrow> string option"
  pe_absolute :: "string \<Rightarrow> string option"
  pe_check_absolute :: "string \<Rightarrow> (string, string) result"
  pe_gate_dir :: "string option"
  pe_canonicalize :: "string \<Rightarrow> (bool, string) result"
  pe_wide :: "string \<Rightarrow> 16 word list"
  pe_ordinal_equal :: "16 word list \<Rightarrow> 16 word list \<Rightarrow> bool"

definition hash_of :: "plan_env \<Rightarrow> sandbox_policy \<Rightarrow> string" where
  "hash_of pe policy = policy_hash (pe_ser pe) (pe_sha256 pe) policy"

definition runtime_root_of :: "platform \<Rightarrow> string \<Rightarrow> string \<Rightarrow> string" where
  "runtime_root_of pl cwd execution_id =
     path_join pl (path_join pl (path_join pl cwd ''.runseal'') ''runtime'') execution_id"

definition local_execution :: "plan_env \<Rightarrow> sandbox_backend \<Rightarrow> string \<Rightarrow> string \<Rightarrow> sandbox_policy \<Rightarrow> platform_plan" where
  "local_execution pe b execution_id cwd policy =
     \<lparr>pp_backend = sb_name b, pp_backend_status = sb_status b, pp_platform = sb_platform b,
      pp_execution_id = execution_id, pp_policy_id = pol_id policy, pp_policy_hash = hash_of pe policy,
      pp_sandbox_level = level_as_str (pol_sandbox_level policy), pp_enforcement = ''local-execution'',
      pp_cwd = cwd, pp_runtime_root = None, pp_profile_root = None, pp_synthetic_home = None,
      pp_temp_root = None,
      pp_filesystem_read = fs_read (pol_filesystem policy) @ fs_read_only (pol_filesystem policy),
      pp_filesystem_write = fs_write (pol_filesystem policy),
      pp_filesystem_deny = fs_deny (pol_filesystem policy),
      pp_filesystem_protected = protected_filesystem_labels policy,
      pp_private_filesystem_deny = [], pp_private_filesystem_rules = [], pp_portable_read_roots = [],
      pp_portable_write_roots = [], pp_portable_deny_roots = [],
      pp_process_boundary = ''local-process'', pp_process_identity = ''current-user'',
      pp_process_cleanup = (if pe_platform pe = Windows then ''process-tree'' else ''direct-child''),
      pp_sandbox_user_model = ''current-user'', pp_process_token = ''none'', pp_process_job = ''none'',
      pp_setup_account_name = ''current-user'', pp_setup_group_name = ''current-user'',
      pp_setup_identity_artifacts = ''current-user'', pp_setup_payload = None,
      pp_vendor_permission_profile = None,
      pp_network_mode = mode_as_str (net_mode (pol_network policy)),
      pp_network_direct_egress = ''unmanaged'', pp_network_managed_proxy = ''none'',
      pp_environment_inherit = env_inherit (pol_environment policy),
      pp_environment_scrub = env_scrub (pol_environment policy),
      pp_environment_proxy = env_proxy (pol_environment policy), pp_environment_runtime = [],
      pp_required_backend_features = required_backend_feature_names policy\<rparr>"

definition portable_fail_closed_preview ::
  "plan_env \<Rightarrow> sandbox_backend \<Rightarrow> string \<Rightarrow> sandbox_policy \<Rightarrow> platform_plan" where
  "portable_fail_closed_preview pe b execution_id policy =
     \<lparr>pp_backend = sb_name b, pp_backend_status = sb_status b, pp_platform = sb_platform b,
      pp_execution_id = execution_id, pp_policy_id = pol_id policy, pp_policy_hash = hash_of pe policy,
      pp_sandbox_level = level_as_str (pol_sandbox_level policy), pp_enforcement = ''fail-closed-preview'',
      pp_cwd = ''workspace'', pp_runtime_root = Some ''runtime_root'', pp_profile_root = Some ''profile_root'',
      pp_synthetic_home = Some ''synthetic_home'', pp_temp_root = Some ''temp_root'',
      pp_filesystem_read = [''workspace''],
      pp_filesystem_write = [''runtime_root'', ''profile_root'', ''synthetic_home'', ''temp_root''],
      pp_filesystem_deny = (if fs_deny (pol_filesystem policy) = [] then [] else [''policy_denied_roots'']),
      pp_filesystem_protected = protected_filesystem_labels policy,
      pp_private_filesystem_deny = [], pp_private_filesystem_rules = [], pp_portable_read_roots = [],
      pp_portable_write_roots = [], pp_portable_deny_roots = [],
      pp_process_boundary = ''platform-sandbox'', pp_process_identity = ''current-user'',
      pp_process_cleanup = ''process-tree'',
      pp_sandbox_user_model = ''none'', pp_process_token = ''none'', pp_process_job = ''none'',
      pp_setup_account_name = ''none'', pp_setup_group_name = ''none'',
      pp_setup_identity_artifacts = ''none'', pp_setup_payload = None,
      pp_vendor_permission_profile = None,
      pp_network_mode = mode_as_str (net_mode (pol_network policy)),
      pp_network_direct_egress = network_direct_egress policy, pp_network_managed_proxy = ''none'',
      pp_environment_inherit = env_inherit (pol_environment policy),
      pp_environment_scrub = env_scrub (pol_environment policy),
      pp_environment_proxy = env_proxy (pol_environment policy), pp_environment_runtime = [],
      pp_required_backend_features = required_backend_feature_names policy\<rparr>"

definition linux_experimental ::
  "plan_env \<Rightarrow> sandbox_backend \<Rightarrow> string \<Rightarrow> string \<Rightarrow> sandbox_policy \<Rightarrow> platform_plan" where
  "linux_experimental pe b execution_id cwd policy =
     (let pl = pe_platform pe;
          runtime_root = runtime_root_of pl cwd execution_id;
          profile_root = path_join pl runtime_root ''profile'';
          synthetic_home = path_join pl runtime_root ''home'';
          temp_root = path_join pl runtime_root ''tmp''
      in \<lparr>pp_backend = sb_name b, pp_backend_status = sb_status b, pp_platform = sb_platform b,
      pp_execution_id = execution_id, pp_policy_id = pol_id policy, pp_policy_hash = hash_of pe policy,
      pp_sandbox_level = level_as_str (pol_sandbox_level policy), pp_enforcement = ''linux-experimental'',
      pp_cwd = cwd, pp_runtime_root = Some runtime_root, pp_profile_root = Some profile_root,
      pp_synthetic_home = Some synthetic_home, pp_temp_root = Some temp_root,
      pp_filesystem_read = [''workspace''],
      pp_filesystem_write = portable_experimental_write_labels policy,
      pp_filesystem_deny = (if fs_deny (pol_filesystem policy) = [] then [] else [''policy_denied_roots'']),
      pp_filesystem_protected = protected_filesystem_labels policy,
      pp_private_filesystem_deny = [], pp_private_filesystem_rules = [],
      pp_portable_read_roots = fs_read (pol_filesystem policy) @ fs_read_only (pol_filesystem policy),
      pp_portable_write_roots = fs_write (pol_filesystem policy),
      pp_portable_deny_roots = fs_deny (pol_filesystem policy),
      pp_process_boundary = ''platform-sandbox'', pp_process_identity = ''current-user'',
      pp_process_cleanup = ''process-tree'',
      pp_sandbox_user_model = ''none'', pp_process_token = ''none'', pp_process_job = ''none'',
      pp_setup_account_name = ''none'', pp_setup_group_name = ''none'',
      pp_setup_identity_artifacts = ''none'', pp_setup_payload = None,
      pp_vendor_permission_profile = None,
      pp_network_mode = mode_as_str (net_mode (pol_network policy)),
      pp_network_direct_egress = network_direct_egress policy,
      pp_network_managed_proxy = (if net_mode (pol_network policy) = Proxy then ''required'' else ''none''),
      pp_environment_inherit = env_inherit (pol_environment policy),
      pp_environment_scrub = env_scrub (pol_environment policy),
      pp_environment_proxy = env_proxy (pol_environment policy),
      pp_environment_runtime =
        [(''RUNSEAL_HOME'', synthetic_home), (''RUNSEAL_TMP'', temp_root), (''HOME'', synthetic_home),
         (''TMPDIR'', temp_root)],
      pp_required_backend_features = required_backend_feature_names policy\<rparr>)"

definition macos_experimental ::
  "plan_env \<Rightarrow> sandbox_backend \<Rightarrow> string \<Rightarrow> string \<Rightarrow> sandbox_policy \<Rightarrow> platform_plan" where
  "macos_experimental pe b execution_id cwd policy =
     (let plan = (linux_experimental pe b execution_id cwd policy)\<lparr>pp_enforcement := ''macos-experimental''\<rparr> in
      if net_mode (pol_network policy) = Proxy then plan\<lparr>pp_network_managed_proxy := ''required''\<rparr> else plan)"

definition windows_setup_real_user :: "plan_env \<Rightarrow> string" where
  "windows_setup_real_user pe = (case pe_var pe ''USERNAME'' of Some u \<Rightarrow> u | None \<Rightarrow> ''Administrators'')"

definition machine_windows_sandbox_home :: "plan_env \<Rightarrow> string \<Rightarrow> string" where
  "machine_windows_sandbox_home pe cwd =
     (let pl = pe_platform pe in
      case pe_var pe ''RUNSEAL_WINDOWS_SANDBOX_HOME'' of
        Some home \<Rightarrow> (case pe_absolute pe home of Some p \<Rightarrow> p | None \<Rightarrow> home)
      | None \<Rightarrow>
          (case pe_var pe ''LOCALAPPDATA'' of
             Some root \<Rightarrow> path_join pl (path_join pl root ''RunSeal'') ''windows-sandbox''
           | None \<Rightarrow> path_join pl (path_join pl cwd ''.runseal'') ''sandbox''))"

definition fail_closed_plan_with_host_roots ::
  "plan_env \<Rightarrow> string \<Rightarrow> string \<Rightarrow> sandbox_policy \<Rightarrow> windows_host_roots \<Rightarrow> platform_plan" where
  "fail_closed_plan_with_host_roots pe execution_id cwd policy host_roots =
     (let pl = pe_platform pe;
          b = windows_backend pl;
          runtime_root = runtime_root_of pl cwd execution_id;
          profile_root = path_join pl runtime_root ''profile'';
          synthetic_home = path_join pl runtime_root ''home'';
          temp_root = path_join pl runtime_root ''temp'';
          wp = from_policy_runtime_and_host_roots pl policy
                 (Some \<lparr>wr_runtime_root = runtime_root, wr_profile_root = profile_root,
                        wr_synthetic_home = synthetic_home, wr_temp_root = temp_root\<rparr>) host_roots;
          fs = wp_filesystem wp; net = wp_network wp; model = wp_user_model wp;
          profile = vendor_from_policy policy
      in \<lparr>pp_backend = sb_name b, pp_backend_status = sb_status b, pp_platform = sb_platform b,
      pp_execution_id = execution_id, pp_policy_id = pol_id policy, pp_policy_hash = hash_of pe policy,
      pp_sandbox_level = level_as_str (pol_sandbox_level policy), pp_enforcement = ''fail-closed-preview'',
      pp_cwd = cwd, pp_runtime_root = Some runtime_root, pp_profile_root = Some profile_root,
      pp_synthetic_home = Some synthetic_home, pp_temp_root = Some temp_root,
      pp_filesystem_read = wf_read_roots fs, pp_filesystem_write = effective_write_roots fs,
      pp_filesystem_deny = wf_protected_roots fs,
      pp_filesystem_protected = protected_filesystem_labels policy,
      pp_private_filesystem_deny = wf_private_protected_roots fs,
      pp_private_filesystem_rules = enforcement_rules fs, pp_portable_read_roots = [],
      pp_portable_write_roots = [], pp_portable_deny_roots = [],
      pp_process_boundary = ''restricted-local-process'', pp_process_identity = ''low-privilege'',
      pp_process_cleanup = ''process-tree'',
      pp_sandbox_user_model = user_model_as_str model, pp_process_token = ''restricted-token'',
      pp_process_job = ''kill-on-close-job'',
      pp_setup_account_name = local_account_name model, pp_setup_group_name = local_group_name model,
      pp_setup_identity_artifacts = setup_identity_artifacts model,
      pp_setup_payload = map_option (pe_ser pe)
        (single_user_setup_payload pl (pe_check_absolute pe) profile
           (machine_windows_sandbox_home pe cwd) cwd (windows_setup_real_user pe)),
      pp_vendor_permission_profile =
        (if pl = Windows
         then (case permission_profile_with_runtime_roots (pe_check_absolute pe) profile
                      (wf_runtime_write_roots fs) of Inl _ \<Rightarrow> None | Inr p \<Rightarrow> Some p)
         else None),
      pp_network_mode = guard_as_str (wn_guard net),
      pp_network_direct_egress = egress_as_str (wn_direct_egress net),
      pp_network_managed_proxy = managed_proxy_as_str (wn_managed_proxy net),
      pp_environment_inherit = env_inherit (pol_environment policy),
      pp_environment_scrub = env_scrub (pol_environment policy),
      pp_environment_proxy = wn_inject_proxy_environment net,
      pp_environment_runtime = wp_environment_runtime wp,
      pp_required_backend_features = required_backend_feature_names policy\<rparr>)"

definition fail_closed_plan :: "plan_env \<Rightarrow> string \<Rightarrow> string \<Rightarrow> sandbox_policy \<Rightarrow> platform_plan" where
  "fail_closed_plan pe execution_id cwd policy =
     fail_closed_plan_with_host_roots pe execution_id cwd policy (host_roots_from_environment (pe_var pe))"

section \<open>Compiling a policy\<close>

definition unsupported_with_plan ::
  "sandbox_backend \<Rightarrow> sandbox_policy \<Rightarrow> platform_plan option \<Rightarrow> backend_error" where
  "unsupported_with_plan b policy plan =
     \<lparr>be_code = ''BACKEND_CAPABILITY_MISSING'',
      be_reason = ''backend '' @ sb_name b @ '' cannot enforce policy '' @ pol_id policy @ '' in this build'',
      be_backend = sb_name b, be_backend_status = sb_status b, be_platform = sb_platform b,
      be_support = ''unsupported'', be_missing_features = missing_feature_names b policy,
      be_plan = map_option plan_json plan\<rparr>"

definition compile_local_execution_or_unsupported ::
  "plan_env \<Rightarrow> sandbox_backend \<Rightarrow> string \<Rightarrow> string \<Rightarrow> sandbox_policy \<Rightarrow> (backend_error, platform_plan) result" where
  "compile_local_execution_or_unsupported pe b execution_id cwd policy =
     (if allows_local_execution policy then Inr (local_execution pe b execution_id cwd policy)
      else Inl (unsupported_with_plan b policy None))"

definition portable_network_mode :: "sandbox_policy \<Rightarrow> bool" where
  "portable_network_mode policy \<longleftrightarrow> net_mode (pol_network policy) \<in> {Unmanaged, Disabled, Proxy}"

definition macos_network_mode :: "sandbox_policy \<Rightarrow> bool" where
  "macos_network_mode policy \<longleftrightarrow> net_mode (pol_network policy) \<in> {Unmanaged, Disabled, Proxy}"

definition compile_macos_plan ::
  "plan_env \<Rightarrow> sandbox_backend \<Rightarrow> string \<Rightarrow> string \<Rightarrow> sandbox_policy \<Rightarrow> (backend_error, platform_plan) result" where
  "compile_macos_plan pe b execution_id cwd policy =
     (if allows_local_execution policy then Inr (local_execution pe b execution_id cwd policy)
      else if pol_sandbox_level policy = ReadOnly \<and> macos_network_mode policy
        then Inr (macos_experimental pe b execution_id cwd policy)
      else if pol_sandbox_level policy = WorkspaceWrite \<and> macos_network_mode policy
        then Inr (macos_experimental pe b execution_id cwd policy)
      else if pol_sandbox_level policy = WorkspaceContained \<and> macos_network_mode policy
        then Inr (macos_experimental pe b execution_id cwd policy)
      else Inl (unsupported_with_plan b policy (Some (portable_fail_closed_preview pe b execution_id policy))))"

definition compile_linux_plan ::
  "plan_env \<Rightarrow> sandbox_backend \<Rightarrow> string \<Rightarrow> string \<Rightarrow> sandbox_policy \<Rightarrow> (backend_error, platform_plan) result" where
  "compile_linux_plan pe b execution_id cwd policy =
     (if allows_local_execution policy then Inr (local_execution pe b execution_id cwd policy)
      else if pol_sandbox_level policy = ReadOnly \<and> portable_network_mode policy
        then Inr (linux_experimental pe b execution_id cwd policy)
      else if pol_sandbox_level policy = WorkspaceWrite \<and> portable_network_mode policy
        then Inr (linux_experimental pe b execution_id cwd policy)
      else if pol_sandbox_level policy = WorkspaceContained \<and> portable_network_mode policy
        then Inr (linux_experimental pe b execution_id cwd policy)
      else Inl (unsupported_with_plan b policy (Some (portable_fail_closed_preview pe b execution_id policy))))"

text \<open>
  On Windows the working directory must not lie in the directory of the execution gate: \<open>Some overlap\<close>
  when the question could be answered.
\<close>

definition gate_overlap :: "plan_env \<Rightarrow> string \<Rightarrow> bool option" where
  "gate_overlap pe cwd =
     (case pe_gate_dir pe of
        None \<Rightarrow> None
      | Some root \<Rightarrow>
          (case pe_canonicalize pe root of
             Inl missing \<Rightarrow> if missing then Some False else None
           | Inr root \<Rightarrow>
               (case pe_canonicalize pe cwd of
                  Inl _ \<Rightarrow> None
                | Inr cwd \<Rightarrow>
                    let root = pe_wide pe root; cwd = pe_wide pe cwd in
                    Some (length root \<le> length cwd \<and> pe_ordinal_equal pe (take (length root) cwd) root \<and>
                          (length cwd = length root \<or> cwd ! length root = 0x5C)))))"

definition compile_windows_plan ::
  "plan_env \<Rightarrow> string \<Rightarrow> string \<Rightarrow> sandbox_policy \<Rightarrow> (backend_error, platform_plan) result" where
  "compile_windows_plan pe execution_id cwd policy =
     (let b = windows_backend (pe_platform pe); err = unsupported_with_plan b policy None in
      if allows_local_execution policy then Inr (local_execution pe b execution_id cwd policy)
      else if pe_platform pe = Windows \<and> gate_overlap pe cwd = Some True
        then Inl (err\<lparr>be_reason := ''workspace overlaps protected execution state'',
                      be_missing_features := [''runtime_roots'']\<rparr>)
      else if pe_platform pe = Windows \<and> gate_overlap pe cwd = None
        then Inl (err\<lparr>be_code := ''BACKEND_UNAVAILABLE'',
                      be_reason := ''protected execution state unavailable'', be_missing_features := []\<rparr>)
      else let plan = fail_closed_plan pe execution_id cwd policy in
           if missing_backend_features policy (sb_features b) = []
           then Inr (plan\<lparr>pp_enforcement := ''windows-sandbox''\<rparr>)
           else Inl (unsupported_with_plan b policy (Some plan)))"

datatype backend_kind = LocalBackend | WindowsReference | MacosExperimental | LinuxCommunity

fun active_backend :: "platform \<Rightarrow> backend_kind" where
  "active_backend Windows = WindowsReference"
| "active_backend Macos = MacosExperimental"
| "active_backend Linux = LinuxCommunity"
| "active_backend OtherUnix = LocalBackend"

fun compile_backend_plan ::
  "backend_kind \<Rightarrow> plan_env \<Rightarrow> string \<Rightarrow> string \<Rightarrow> sandbox_policy \<Rightarrow> (backend_error, platform_plan) result" where
  "compile_backend_plan LocalBackend pe = compile_local_execution_or_unsupported pe (local_backend (pe_platform pe))"
| "compile_backend_plan WindowsReference pe = compile_windows_plan pe"
| "compile_backend_plan MacosExperimental pe = compile_macos_plan pe macos_backend"
| "compile_backend_plan LinuxCommunity pe = compile_linux_plan pe linux_backend"

section \<open>What a compiled plan promises\<close>

text \<open>The network of a sandboxed plan is the network mode of the policy, on every backend.\<close>

definition network_follows :: "sandbox_policy \<Rightarrow> platform_plan \<Rightarrow> bool" where
  "network_follows policy plan \<longleftrightarrow>
     pp_network_mode plan = mode_as_str (net_mode (pol_network policy)) \<and>
     (pp_network_direct_egress plan = ''unmanaged'' \<longleftrightarrow> net_mode (pol_network policy) = Unmanaged) \<and>
     (pp_network_direct_egress plan = ''deny'' \<longleftrightarrow> net_mode (pol_network policy) \<noteq> Unmanaged) \<and>
     (pp_network_managed_proxy plan = ''required'' \<longleftrightarrow> net_mode (pol_network policy) = Proxy)"

text \<open>
  The file system of a sandboxed plan: the portable backends carry the roots of the policy, the
  Windows plan carries rules in which the denials of the policy prevail.
\<close>

definition filesystem_follows :: "backend_kind \<Rightarrow> sandbox_policy \<Rightarrow> platform_plan \<Rightarrow> bool" where
  "filesystem_follows kind policy plan \<longleftrightarrow>
     (let fs = pol_filesystem policy in
      if kind = WindowsReference
      then (\<forall>root\<in>set (fs_deny fs). has_rule AccessDeny (pp_private_filesystem_rules plan) root) \<and>
           (\<forall>rule\<in>set (pp_private_filesystem_rules plan). ru_access rule = AccessReadWrite \<longrightarrow>
              \<not> contains_same_or_descendant_windows_root (fs_deny fs) (ru_root rule) \<and>
              (ru_root rule \<in> set (fs_write fs) \<or>
               ru_root rule \<in> set_option (pp_runtime_root plan) \<union> set_option (pp_profile_root plan)
                 \<union> set_option (pp_synthetic_home plan) \<union> set_option (pp_temp_root plan)))
      else pp_portable_read_roots plan = fs_read fs @ fs_read_only fs \<and>
           pp_portable_write_roots plan = fs_write fs \<and> pp_portable_deny_roots plan = fs_deny fs)"

lemma filter_entries [simp]:
  "filter (\<lambda>e. ve_access e = a) (map (\<lambda>p. \<lparr>ve_path = p, ve_access = b\<rparr>) ps) =
   (if a = b then map (\<lambda>p. \<lparr>ve_path = p, ve_access = b\<rparr>) ps else [])"
  by (induction ps) auto

lemma vendor_roots_of_policy:
  assumes "\<not> allows_local_execution policy"
  shows "vendor_write_roots (vendor_from_policy policy) = fs_write (pol_filesystem policy)"
    and "vendor_deny_roots (vendor_from_policy policy) = fs_deny (pol_filesystem policy)"
    and "vendor_read_roots (vendor_from_policy policy)
         = fs_read (pol_filesystem policy) @ fs_read_only (pol_filesystem policy)"
  using assms
  by (simp_all add: vendor_write_roots_def vendor_deny_roots_def vendor_read_roots_def vendor_from_policy_def
      filesystem_entries_def extend_entries_def Let_def comp_def)

lemma linux_plan_follows:
  "network_follows policy (linux_experimental pe b execution_id cwd policy)"
  "kind \<noteq> WindowsReference \<Longrightarrow> filesystem_follows kind policy (linux_experimental pe b execution_id cwd policy)"
  by (simp_all add: network_follows_def filesystem_follows_def linux_experimental_def Let_def
      network_direct_egress_def split: network_mode.split)

lemma macos_plan_of_linux:
  "macos_experimental pe b execution_id cwd policy =
   (linux_experimental pe b execution_id cwd policy)\<lparr>pp_enforcement := ''macos-experimental''\<rparr>"
  by (simp add: macos_experimental_def linux_experimental_def Let_def)

lemma follows_enforcement [simp]:
  "network_follows policy (plan\<lparr>pp_enforcement := e\<rparr>) = network_follows policy plan"
  "filesystem_follows kind policy (plan\<lparr>pp_enforcement := e\<rparr>) = filesystem_follows kind policy plan"
  by (simp_all add: network_follows_def filesystem_follows_def Let_def)

lemma windows_network_follows:
  "\<not> allows_local_execution policy \<Longrightarrow> network_follows policy (fail_closed_plan pe execution_id cwd policy)"
  by (cases "net_mode (pol_network policy)")
    (simp_all add: network_follows_def fail_closed_plan_def fail_closed_plan_with_host_roots_def Let_def
      from_policy_runtime_and_host_roots_def vendor_from_policy_def)

lemma push_unique_set [simp]: "set (push_unique roots root) = insert root (set roots)"
  by (auto simp: push_unique_def)

lemma runtime_write_roots_set:
  "set (runtime_write_roots r) = {wr_runtime_root r, wr_profile_root r, wr_synthetic_home r, wr_temp_root r}"
  by (auto simp: runtime_write_roots_def)

lemma windows_filesystem_follows:
  assumes "\<not> allows_local_execution policy"
  shows "filesystem_follows WindowsReference policy (fail_closed_plan pe execution_id cwd policy)"
proof -
  define rr where "rr = (let pl = pe_platform pe; root = runtime_root_of pl cwd execution_id in
    \<lparr>wr_runtime_root = root, wr_profile_root = path_join pl root ''profile'',
     wr_synthetic_home = path_join pl root ''home'', wr_temp_root = path_join pl root ''temp''\<rparr>)"
  define fs where "fs = wp_filesystem (from_policy_runtime_and_host_roots (pe_platform pe) policy (Some rr)
    (host_roots_from_environment (pe_var pe)))"
  define plan where "plan = fail_closed_plan pe execution_id cwd policy"
  have rules: "pp_private_filesystem_rules plan = enforcement_rules fs"
    and roots: "pp_runtime_root plan = Some (wr_runtime_root rr)" "pp_profile_root plan = Some (wr_profile_root rr)"
      "pp_synthetic_home plan = Some (wr_synthetic_home rr)" "pp_temp_root plan = Some (wr_temp_root rr)"
    by (simp_all add: plan_def fs_def rr_def fail_closed_plan_def fail_closed_plan_with_host_roots_def Let_def)
  have denied: "set (fs_deny (pol_filesystem policy)) \<subseteq> set (denied_roots fs)"
    using vendor_roots_of_policy [OF assms]
    by (simp add: denied_roots_def fs_def from_policy_runtime_and_host_roots_def Let_def)
  have granted: "set (granted_roots fs) \<subseteq> set (fs_write (pol_filesystem policy)) \<union> set (runtime_write_roots rr)"
    using vendor_roots_of_policy [OF assms]
    by (auto simp: granted_roots_def fs_def from_policy_runtime_and_host_roots_def Let_def)
  have free: "\<not> contains_same_or_descendant_windows_root (fs_deny (pol_filesystem policy)) root"
    if "root \<in> set (granted_roots fs)" for root
    using that denied by (auto simp: granted_roots_def covered_iff)
  have "ru_root rule \<in> set (granted_roots fs)"
    if "rule \<in> set (enforcement_rules fs)" "ru_access rule = AccessReadWrite" for rule
    using rules_justified [OF that(1)] that(2) by simp
  then have all: "\<not> contains_same_or_descendant_windows_root (fs_deny (pol_filesystem policy)) (ru_root rule) \<and>
      ru_root rule \<in> set (fs_write (pol_filesystem policy)) \<union> set (runtime_write_roots rr)"
    if "rule \<in> set (enforcement_rules fs)" "ru_access rule = AccessReadWrite" for rule
    using that granted free by blast
  have writes: "\<forall>rule\<in>set (pp_private_filesystem_rules plan). ru_access rule = AccessReadWrite \<longrightarrow>
      \<not> contains_same_or_descendant_windows_root (fs_deny (pol_filesystem policy)) (ru_root rule) \<and>
      (ru_root rule \<in> set (fs_write (pol_filesystem policy)) \<or>
       ru_root rule \<in> set_option (pp_runtime_root plan) \<union> set_option (pp_profile_root plan)
         \<union> set_option (pp_synthetic_home plan) \<union> set_option (pp_temp_root plan))"
    using all by (simp add: rules roots runtime_write_roots_set) blast
  moreover have "\<forall>root\<in>set (fs_deny (pol_filesystem policy)). has_rule AccessDeny (pp_private_filesystem_rules plan) root"
    unfolding rules using denied rules_keep_denials by blast
  ultimately show ?thesis by (simp add: filesystem_follows_def plan_def [symmetric] Let_def)
qed

text \<open>What the engine sees of a plan.\<close>

definition plan_summary :: "platform_plan \<Rightarrow> sandbox_plan" where
  "plan_summary plan =
     \<lparr>pl_backend = pp_backend plan, pl_backend_status = pp_backend_status plan, pl_platform = pp_platform plan,
      pl_enforcement = pp_enforcement plan, pl_json = plan_json plan\<rparr>"

lemma plan_summary_enforced [simp]: "is_sandbox_enforced (plan_summary plan) = plan_is_sandbox_enforced plan"
  by (simp add: is_sandbox_enforced_def plan_summary_def plan_is_sandbox_enforced_def)

text \<open>What holds of every plan of an execution, and of every sandboxed one.\<close>

definition plan_fits :: "backend_kind \<Rightarrow> plan_env \<Rightarrow> string \<Rightarrow> string \<Rightarrow> sandbox_policy \<Rightarrow> platform_plan \<Rightarrow> bool" where
  "plan_fits kind pe execution_id cwd policy plan \<longleftrightarrow>
     pp_execution_id plan = execution_id \<and> pp_cwd plan = cwd \<and> pp_policy_id plan = pol_id policy \<and>
     pp_policy_hash plan = policy_hash (pe_ser pe) (pe_sha256 pe) policy \<and>
     is_sandbox_enforced (plan_summary plan) = (pol_sandbox_level policy \<noteq> DangerFullAccess) \<and>
     (is_sandbox_enforced (plan_summary plan) \<longrightarrow>
        pp_runtime_root plan = Some (runtime_root_of (pe_platform pe) cwd execution_id) \<and>
        network_follows policy plan \<and> filesystem_follows kind policy plan)"

lemmas plan_fits_simps = plan_fits_def allows_local_execution_def plan_is_sandbox_enforced_def hash_of_def

lemma local_plan_fits:
  "allows_local_execution policy \<Longrightarrow> plan_fits kind pe execution_id cwd policy (local_execution pe b execution_id cwd policy)"
  by (simp add: plan_fits_simps local_execution_def)

lemma linux_plan_fits:
  assumes "\<not> allows_local_execution policy" "kind \<noteq> WindowsReference"
  shows "plan_fits kind pe execution_id cwd policy (linux_experimental pe b execution_id cwd policy)"
    and "plan_fits kind pe execution_id cwd policy (macos_experimental pe b execution_id cwd policy)"
  using assms linux_plan_follows(1) [of policy pe b execution_id cwd] linux_plan_follows(2) [of kind policy pe b execution_id cwd]
  by (simp_all add: plan_fits_simps macos_plan_of_linux) (simp_all add: linux_experimental_def Let_def hash_of_def)

lemma windows_plan_fits:
  assumes "\<not> allows_local_execution policy"
  shows "plan_fits WindowsReference pe execution_id cwd policy
           ((fail_closed_plan pe execution_id cwd policy)\<lparr>pp_enforcement := ''windows-sandbox''\<rparr>)"
  using assms windows_network_follows windows_filesystem_follows
  by (simp add: plan_fits_simps)
    (simp add: fail_closed_plan_def fail_closed_plan_with_host_roots_def Let_def hash_of_def)

lemma windows_features_present:
  assumes "res_memory_bytes (pol_resources policy) = None" "res_cpu_percent (pol_resources policy) = None"
  shows "missing_backend_features policy (sb_features (windows_backend Windows)) = []"
  using assms
  by (auto simp: missing_backend_features_def windows_backend_def WINDOWS_REFERENCE_SUPPORTED_FEATURES_def
      required_backend_features_def split: network_mode.split)

text \<open>
  Every backend compiles a policy into a plan that enforces exactly that policy, or refuses it. A
  plan carries the execution, its directory and the hash of its policy, and runs without a sandbox
  only for danger-full-access. A sandboxed plan has the network of the policy (direct traffic is
  left alone exactly when the mode is unmanaged, the managed proxy is required exactly when the mode
  is proxy), the runtime root of this execution below its directory, and the file system of the
  policy: its roots on Linux and macOS, and on Windows rules that deny every denied root and let
  nothing be written inside one. A refusal is never about danger-full-access. Linux and macOS refuse
  nothing; Windows refuses nothing it can enforce once the gate's directory is known to be elsewhere.
\<close>

theorem plans_enforce_the_policy:
  "(case compile_backend_plan kind pe execution_id cwd policy of
      Inl err \<Rightarrow> pol_sandbox_level policy \<noteq> DangerFullAccess \<and>
        be_code err \<in> {''BACKEND_CAPABILITY_MISSING'', ''BACKEND_UNAVAILABLE''}
    | Inr plan \<Rightarrow> plan_fits kind pe execution_id cwd policy plan) \<and>
   (kind = LinuxCommunity \<or> kind = MacosExperimental \<or>
    kind = WindowsReference \<and> pe_platform pe = Windows \<and> gate_overlap pe cwd = Some False \<and>
      res_memory_bytes (pol_resources policy) = None \<and> res_cpu_percent (pol_resources policy) = None \<longrightarrow>
    is_ok (compile_backend_plan kind pe execution_id cwd policy))"
proof (cases "allows_local_execution policy")
  case True
  then show ?thesis
    by (cases kind) (simp_all add: local_plan_fits is_ok_def compile_local_execution_or_unsupported_def
        compile_windows_plan_def compile_macos_plan_def compile_linux_plan_def Let_def)
next
  case False
  have mode: "portable_network_mode policy" "macos_network_mode policy"
    by (cases "net_mode (pol_network policy)"; simp add: portable_network_mode_def macos_network_mode_def)+
  have level: "pol_sandbox_level policy \<in> {ReadOnly, WorkspaceWrite, WorkspaceContained}"
    using False by (cases "pol_sandbox_level policy") (simp_all add: allows_local_execution_def)
  show ?thesis
  proof (cases kind)
    case LocalBackend
    with False show ?thesis
      by (simp add: compile_local_execution_or_unsupported_def unsupported_with_plan_def allows_local_execution_def)
  next
    case MacosExperimental
    with False mode level linux_plan_fits(2) [OF False, of kind] show ?thesis
      by (auto simp: compile_macos_plan_def is_ok_def)
  next
    case LinuxCommunity
    with False mode level linux_plan_fits(1) [OF False, of kind] show ?thesis
      by (auto simp: compile_linux_plan_def is_ok_def)
  next
    case WindowsReference
    with False windows_plan_fits [OF False] windows_features_present [of policy] show ?thesis
      by (auto simp: compile_windows_plan_def Let_def is_ok_def unsupported_with_plan_def allows_local_execution_def)
  qed
qed

definition sample_plan_env :: "platform \<Rightarrow> plan_env" where
  "sample_plan_env pl =
     \<lparr>pe_platform = pl, pe_ser = (\<lambda>_. ''{}''), pe_sha256 = (\<lambda>s. s), pe_var = (\<lambda>_. None), pe_absolute = Some,
      pe_check_absolute = Inr, pe_gate_dir = Some ''C:/gate'', pe_canonicalize = Inr,
      pe_wide = map (\<lambda>c. of_nat (byte_of c)), pe_ordinal_equal = (=)\<rparr>"

definition sample_contained_policy :: "platform \<Rightarrow> string \<Rightarrow> sandbox_policy" where
  "sample_contained_policy pl cwd =
     \<lparr>pol_id = ''workspace-contained'', pol_sandbox_level = WorkspaceContained,
      pol_filesystem = profile_filesystem pl cwd WorkspaceContained, pol_network = default_network Proxy,
      pol_environment = default_environment Proxy, pol_resources = default_resources,
      pol_process = default_process WorkspaceContained, pol_approval = default_approval, pol_source = Named\<rparr>"

theorem plans_enforce_the_policy_witness:
  "is_ok (compile_backend_plan LinuxCommunity (sample_plan_env Linux) ''exec_1'' ''/ws'' (sample_contained_policy Linux ''/ws'')) \<and>
   is_ok (compile_backend_plan WindowsReference (sample_plan_env Windows) ''exec_1'' ''C:/ws'' (sample_contained_policy Windows ''C:/ws'')) \<and>
   plan_fits LinuxCommunity (sample_plan_env Linux) ''exec_1'' ''/ws'' (sample_contained_policy Linux ''/ws'')
     (linux_experimental (sample_plan_env Linux) linux_backend ''exec_1'' ''/ws'' (sample_contained_policy Linux ''/ws''))"
proof -
  have "gate_overlap (sample_plan_env Windows) ''C:/ws'' = Some False"
    by (simp add: gate_overlap_def sample_plan_env_def Let_def byte_of_def)
  moreover have "compile_backend_plan LinuxCommunity (sample_plan_env Linux) ''exec_1'' ''/ws'' (sample_contained_policy Linux ''/ws'')
      = Inr (linux_experimental (sample_plan_env Linux) linux_backend ''exec_1'' ''/ws'' (sample_contained_policy Linux ''/ws''))"
    by (simp add: compile_linux_plan_def allows_local_execution_def sample_contained_policy_def
        portable_network_mode_def default_network_def)
  ultimately show ?thesis
    using plans_enforce_the_policy [where kind = LinuxCommunity and pe = "sample_plan_env Linux"
        and execution_id = "''exec_1''" and cwd = "''/ws''" and policy = "sample_contained_policy Linux ''/ws''"]
      plans_enforce_the_policy [where kind = WindowsReference and pe = "sample_plan_env Windows"
        and execution_id = "''exec_1''" and cwd = "''C:/ws''" and policy = "sample_contained_policy Windows ''C:/ws''"]
    by (simp add: sample_contained_policy_def default_resources_def sample_plan_env_def)
qed

end
