(* ===== verification/Sandbox_Launch.thy ===== *)
theory Sandbox_Launch
  imports Sandbox_Plans
begin

text \<open>
  How a sandboxed plan is started on Linux: the arguments \<open>spawn_linux_bwrap\<close> of
  \<open>src/backend/skeleton.rs\<close> builds for \<open>bwrap\<close>. What the file system answers (\<open>fs::canonicalize\<close>,
  \<open>exists\<close>, \<open>is_dir\<close>) is a parameter. \<open>bwrap\<close> is not part of the repository: how many operands each of
  its options takes is the parameter \<open>arity\<close>, with \<open>bwrap_documented\<close> for the options used here.
\<close>

section \<open>The arguments of bwrap\<close>















text \<open>Everything after the mounts: read-only directories, name spaces, environment, directory, command.\<close>

definition set_variable :: "string \<times> string \<Rightarrow> string list" where
  "set_variable kv = [''--setenv'', fst kv, snd kv]"




section \<open>How bwrap reads its arguments\<close>


definition bwrap_documented :: "(string \<Rightarrow> nat option) \<Rightarrow> bool" where
  "bwrap_documented arity \<longleftrightarrow>
     list_all (\<lambda>x. arity x = Some 0)
       [''--unshare-user'', ''--unshare-pid'', ''--unshare-ipc'', ''--unshare-uts'', ''--unshare-net'',
        ''--die-with-parent'', ''--clearenv''] \<and>
     list_all (\<lambda>x. arity x = Some 1) [''--tmpfs'', ''--proc'', ''--dev'', ''--remount-ro'', ''--chdir''] \<and>
     list_all (\<lambda>x. arity x = Some 2) [''--bind'', ''--ro-bind'', ''--ro-bind-try'', ''--symlink'', ''--setenv'']"

definition well_formed_option :: "(string \<Rightarrow> nat option) \<Rightarrow> string list \<Rightarrow> bool" where
  "well_formed_option arity op \<longleftrightarrow>
     (case op of [] \<Rightarrow> False | x # args \<Rightarrow> x \<noteq> ''--'' \<and> arity x = Some (length args))"


section \<open>The options as a list\<close>


















section \<open>What bwrap is told\<close>

lemma set_variable_formed [simp]:
  "bwrap_documented arity \<Longrightarrow> well_formed_option arity (set_variable kv)"
  by (simp add: well_formed_option_def set_variable_def bwrap_documented_def)

























section \<open>A sample launch\<close>






end
