(* ===== verification/Spec2Isabelle.thy ===== *)
theory Spec2Isabelle
  imports Policy_Guarantees Cli_Arguments Protocol_Guarantees Service_Guarantees Execution_Journal
    Gate_Guarantees Engine_Witnesses Proxy_Guarantees Guardian_Wire Sandbox_Launch
begin

text \<open>
  A verification development of RunSeal, which runs commands in the sandbox of the operating system.
  A client speaks JSON-RPC over standard input and output. A request to execute names a policy; the
  policy is normalized, compiled into the plan of a backend, and run by an engine that reports what
  happened to a journal, to the client and to an audit file. The concern of the program, and of this
  development, is that nothing is started without permission, that nothing is claimed that was not
  confirmed, and that whatever could not be cleaned up stops further executions.

  \<^bold>\<open>Parts and how they interact.\<close>
  The reader hands frames to the loop of a connection; the loop asks the service, queues the answers for
  the writer, and lets start permits ride on receipts. The service validates requests, admits
  executions, keeps their events for replay and disposes of sessions. An execution prepares
  (policy checks, plan, reservation in the gate), launches its backend, collects output, decides its
  result, and releases everything in order; its control is shared with the service and a timer, its input
  is a queue, its journal writes each event to the audit file first. The managed proxy serves the network
  of sandboxed processes. The gate keeps executions under different policies apart on one machine.

  \<^bold>\<open>Theories.\<close>
  \<^item> \<open>RunSeal_Prelude\<close>, \<open>Ordered_Map\<close>, \<open>Json_Values\<close>: results, bytes and strings, decimal numbers, sorted
    maps, JSON. \<open>Component_Interfaces\<close>: the contracts components share, as locales (a state machine with an
    invariant, a FIFO stream, a bounded store), interpreted by the input queue, the stores, the replay
    cache, admission and the gate.
  \<^item> \<open>Deployment_Limits\<close> (\<open>error.rs\<close>, \<open>limits.rs\<close>); \<open>Sandbox_Policy\<close>, \<open>Policy_Normalization\<close>,
    \<open>Policy_Guarantees\<close> (\<open>policy.rs\<close>): every normalized policy is valid, its file system is confined, its
    network mode is the one that was asked for, its environment is scrubbed, and its canonical form
    determines it. \<open>Cli_Arguments\<close> (\<open>cli.rs\<close>).
  \<^item> \<open>Windows_Rules\<close> (\<open>windows/policy.rs\<close>, \<open>windows/vendor_adapter.rs\<close>), \<open>Sandbox_Plans\<close>
    (\<open>backend/plan.rs\<close> and the compilers of the backends), \<open>Sandbox_Launch\<close> (\<open>spawn_linux_bwrap\<close> of
    \<open>backend/skeleton.rs\<close>): denials prevail in the rules, a plan enforces its policy or is refused, and what
    is started on Linux is confined as the policy says.
  \<^item> \<open>Execution_Input\<close> (\<open>backend/input.rs\<close>), \<open>Execution_Control\<close> (\<open>execution/control.rs\<close>): bytes arrive
    once and in order; the first cause wins in every interleaving.
  \<^item> \<open>Rpc_Messages\<close> (\<open>rpc.rs\<close>, \<open>events.rs\<close>, \<open>protocol/error_payload.rs\<close>), \<open>Request_Validation\<close>
    (\<open>protocol/request_validation.rs\<close>, \<open>stdin.rs\<close>, \<open>execution/paths.rs\<close>): what an accepted request is.
  \<^item> \<open>Retention_Stores\<close> and \<open>Replay_Cache\<close> (\<open>service/*.rs\<close>): bounded stores; the cache refines a log, and
    its preview is exact.
  \<^item> \<open>Service_State\<close>, \<open>Service_Lifecycle\<close>, \<open>Service_Requests\<close>, \<open>Service_Admission\<close>, \<open>Service_Guarantees\<close>
    (\<open>service/mod.rs\<close>, \<open>service/admission.rs\<close>): bounded admission, one answer per request and admission,
    nothing forgotten before a verified end, subscriptions without gap, fail-closed disposal.
  \<^item> \<open>Audit_Log\<close> (\<open>audit.rs\<close>), \<open>Execution_Journal\<close> (\<open>execution/journal.rs\<close>): redaction is independent of
    secrets, events are written ahead, the terminal record is honest.
  \<^item> \<open>Execution_Backend\<close> (\<open>backend/error.rs\<close>, \<open>backend/execution.rs\<close>), \<open>Execution_Preparation\<close>,
    \<open>Execution_Engine\<close>, \<open>Engine_Steps\<close>, \<open>Engine_Guarantees\<close>, \<open>Engine_Witnesses\<close> (\<open>execution/engine.rs\<close>,
    \<open>execution/preparation.rs\<close>): launches are permitted, output is bounded and faithful, cleanup is
    evidenced, releases are chained, stopped executions end. The locale \<open>engine_relation\<close> carries what
    every wait of the engine keeps.
  \<^item> \<open>Protocol_Writer\<close>, \<open>Protocol_Reader\<close>, \<open>Protocol_Loop\<close>, \<open>Protocol_Guarantees\<close>
    (\<open>protocol/stdio_writer.rs\<close>, \<open>protocol/rpc_handler.rs\<close>): whole frames in order within budgets, round
    trips, and over every run of a connection with its writer and executions: a gate opens after its own
    receipt, memory is bounded, and how a connection ends.
  \<^item> \<open>Execution_Gate\<close>, \<open>Gate_Guarantees\<close> (\<open>backend/policy_epoch.rs\<close>): one policy at a time, a gate that
    stays closed after an unverified cleanup, repairs that rest on proofs.
  \<^item> \<open>Managed_Proxy\<close>, \<open>Proxy_Guarantees\<close> (\<open>backend/managed_proxy.rs\<close>): who is served, what leaves the
    host, what is recorded. \<open>Guardian_Wire\<close> (\<open>macos/wire.rs\<close>).

  \<^bold>\<open>How the code is represented.\<close>
  A struct is a record and an enum a datatype; a handler is a function from its arguments and the state
  to its answers and the new state, with every error as a value. A Rust string is its UTF-8 bytes. Byte
  counters are natural numbers where they are bounded by limits far below a machine word, and words
  where they can wrap, as sequence numbers can. Shared objects are numbers into a heap of the service;
  a channel is the list of messages in it and whether its other end is gone. Concurrency is a step
  relation whose steps are the sections of code that hold a lock, so a theorem about all runs is about
  all interleavings. Clocks, file systems, processes and observers answer through arguments of each
  operation, so every failure they can report is a case of the theorems.

  \<^bold>\<open>Loops.\<close>
  Loops over a bounded structure are recursive functions with a measure (the loops with \<open>swap_remove\<close>
  and the reader). A loop whose end is to be proved is a \<open>while_option\<close> with a
  proof that it returns. A wait of the engine polls a list of answers: a list that does not end the wait
  gives no result, and \<open>stopped_executions_end\<close> shows that every list which reaches the cleanup deadline
  does end it. No bound was chosen for convenience.

  \<^bold>\<open>Parameters and hypotheses.\<close>
  Code outside the repository is a parameter: the JSON parser and serializer, SHA-256, base64, the URL
  parser, the allocator's capacities, \<open>bwrap\<close>, the vendored Windows sandbox, the operating system. Where
  a theorem relies on one of them it says so: base64 decodes what it encodes, the serializer is read
  back by the parser, a fresh vector has at most a given capacity, the options of \<open>bwrap\<close> take the
  documented number of operands. Each such theorem has a witness in which the hypothesis holds.

  \<^bold>\<open>What modelling showed.\<close>
  Some statements carry an exception because the code does: a write root of two separators is not
  recognised as broad, and a named profile in the root directory is not checked at all; a network object
  without a mode gives an unmanaged network; a denied root that does not exist at launch is not covered
  on Linux; on Windows a variable that the policy sets in two spellings can keep the value of the policy;
  a failed write of the last frame can end a connection with success; a repair cannot read a state file
  that a crash truncated, and a cleanup failure that cannot set the quarantine event leaves no marker; a
  presented token is made into a path unchecked, a token file that could not be removed still authorizes,
  events appended while the file is drained are lost, and the audited host leaves out what stands behind
  a closing bracket.

  \<^bold>\<open>Not modelled.\<close>
  The processes themselves: starting, feeding and killing them (\<open>backend/process.rs\<close>, the execution half
  of \<open>backend/windows.rs\<close>, \<open>windows/processes.rs\<close>, \<open>macos/*.rs\<close> but for the wire), the directories and
  access lists prepared on disk, the macOS profile text, capability reports and probes, the sockets of
  the proxy, and the command line front ends beyond their arguments. They are calls of the operating
  system or text for other programs; what the modelled parts rely on of them are arguments.
\<close>

end
